(* ===== verification/Prelude.thy ===== *)
theory Prelude
  imports Main "HOL-Library.Char_ord" "HOL-Library.List_Lexorder"
begin

text \<open>
  Vocabulary shared by every component theory.

  \<^item> Go errors are values of \<open>goerror\<close>: the format string and the arguments
    of \<^verbatim>\<open>errors.New\<close> and \<^verbatim>\<open>fmt.Errorf\<close>, with the wrapped error of a \<^verbatim>\<open>%w\<close> verb,
    or the two errors of \<^verbatim>\<open>errors.Join\<close>.
    A function returning \<^verbatim>\<open>error\<close> gives a \<open>goerror option\<close> (\<open>None\<close> is \<^verbatim>\<open>nil\<close>), one
    returning a value and an error gives an \<open>'a result\<close>.
  \<^item> Go strings are byte sequences, as are HOL's character lists; the functions of
    package \<^verbatim>\<open>strings\<close> the code calls are defined here.
\<close>

section \<open>Errors and results\<close>

datatype goerror =
    Error string "string list"
  | Wrap string "string list" goerror
  | JoinErr goerror goerror

type_synonym 'a result = "goerror + 'a"

named_theorems result_simps \<open>rewriting of result pipelines\<close>
named_theorems go_strings \<open>facts on the string functions\<close>
named_theorems verify_defs \<open>definitions of the credential checks\<close>
named_theorems store_defs \<open>definitions of the store operations\<close>

text \<open>\<^verbatim>\<open>errors.Is(err, target)\<close> for sentinel targets: equality along the chain of
  wrapped errors.\<close>

fun errors_is :: "goerror \<Rightarrow> goerror \<Rightarrow> bool" where
  "errors_is (Wrap f a e) t \<longleftrightarrow> Wrap f a e = t \<or> errors_is e t"
| "errors_is (JoinErr d e) t \<longleftrightarrow> JoinErr d e = t \<or> errors_is d t \<or> errors_is e t"
| "errors_is e t \<longleftrightarrow> e = t"

text \<open>\<^verbatim>\<open>x, err := m(); if err != nil { return ..., err }\<close>.\<close>

fun res_bind :: "'a result \<Rightarrow> ('a \<Rightarrow> 'b result) \<Rightarrow> 'b result" where
  "res_bind (Inl e) f = Inl e"
| "res_bind (Inr x) f = f x"

text \<open>The same with the error replaced or wrapped on the way out.\<close>

fun map_err :: "(goerror \<Rightarrow> goerror) \<Rightarrow> 'a result \<Rightarrow> 'a result" where
  "map_err w (Inl e) = Inl (w e)"
| "map_err w (Inr x) = Inr x"

text \<open>\<^verbatim>\<open>if err := v(); err != nil { return ..., err }\<close>.\<close>

fun check :: "goerror option \<Rightarrow> 'a result \<Rightarrow> 'a result" where
  "check (Some e) m = Inl e"
| "check None m = m"

fun is_ok :: "'a result \<Rightarrow> bool" where
  "is_ok (Inl _) = False"
| "is_ok (Inr _) = True"

lemma res_bind_Inr_iff [result_simps]:
  "res_bind m f = Inr y \<longleftrightarrow> (\<exists>x. m = Inr x \<and> f x = Inr y)"
  by (cases m) auto

lemma res_bind_Inl_iff [result_simps]:
  "res_bind m f = Inl e \<longleftrightarrow> m = Inl e \<or> (\<exists>x. m = Inr x \<and> f x = Inl e)"
  by (cases m) auto

lemma map_err_Inr_iff [result_simps]: "map_err w m = Inr x \<longleftrightarrow> m = Inr x"
  by (cases m) auto

lemma check_Inr_iff [result_simps]: "check v m = Inr x \<longleftrightarrow> v = None \<and> m = Inr x"
  by (cases v) auto

lemma is_ok_iff [result_simps]: "is_ok m \<longleftrightarrow> (\<exists>x. m = Inr x)"
  by (cases m) auto

lemma if_Inl_eq_Inr [result_simps]:
  "(if c then Inl e else m) = Inr x \<longleftrightarrow> \<not> c \<and> m = Inr x"
  by simp

lemma if_Some_eq_None [result_simps]:
  "(if c then Some e else m) = None \<longleftrightarrow> \<not> c \<and> m = None"
  by simp

lemma case_option_eq_None [result_simps]:
  "(case v of None \<Rightarrow> m | Some e \<Rightarrow> Some (w e)) = None \<longleftrightarrow> v = None \<and> m = None"
  by (cases v) auto

lemma case_result_eq_Inr [result_simps]:
  "(case m of Inl e \<Rightarrow> Inl (w e) | Inr y \<Rightarrow> f y) = Inr x \<longleftrightarrow> (\<exists>y. m = Inr y \<and> f y = Inr x)"
  by (cases m) auto

section \<open>Instants\<close>

text \<open>A \<^verbatim>\<open>time.Time\<close> in UTC is the number of nanoseconds since the Unix epoch; the zero
  time of Go is 1 January of year 1. Durations are nanoseconds too.\<close>

type_synonym gotime = int

definition second :: int where "second = 1000000000"

definition minute :: int where "minute = 60 * second"

definition zero_time :: gotime where "zero_time = - 62135596800 * second"

abbreviation IsZero :: "gotime \<Rightarrow> bool" where "IsZero t \<equiv> t = zero_time"

section \<open>Package strings\<close>

definition HasPrefix :: "string \<Rightarrow> string \<Rightarrow> bool" where
  "HasPrefix s p \<longleftrightarrow> take (length p) s = p"

definition HasSuffix :: "string \<Rightarrow> string \<Rightarrow> bool" where
  "HasSuffix s p \<longleftrightarrow> length p \<le> length s \<and> drop (length s - length p) s = p"

text \<open>\<^verbatim>\<open>strings.Cut(s, sep)\<close> for a one-byte separator: before, after, found.\<close>

fun Cut :: "string \<Rightarrow> char \<Rightarrow> string \<times> string \<times> bool" where
  "Cut [] sep = ([], [], False)"
| "Cut (c # s) sep =
    (if c = sep then ([], s, True)
     else (let (b, a, ok) = Cut s sep in (c # b, a, ok)))"

text \<open>\<^verbatim>\<open>strings.Split(s, sep)\<close> for a one-byte separator.\<close>

fun Split :: "string \<Rightarrow> char \<Rightarrow> string list" where
  "Split [] sep = [[]]"
| "Split (c # s) sep =
    (if c = sep then [] # Split s sep
     else (case Split s sep of [] \<Rightarrow> [[c]] | w # ws \<Rightarrow> (c # w) # ws))"

fun Join :: "string list \<Rightarrow> string \<Rightarrow> string" where
  "Join [] sep = []"
| "Join [w] sep = w"
| "Join (w # ws) sep = w @ sep @ Join ws sep"

text \<open>The UTF-8 encodings of the runes for which \<^verbatim>\<open>unicode.IsSpace\<close> holds.\<close>

definition bytes_of :: "nat list \<Rightarrow> string" where
  "bytes_of = map char_of"

definition space_runes :: "string list" where
  "space_runes =
     map (\<lambda>n. bytes_of [n]) [9, 10, 11, 12, 13, 32]
     @ map bytes_of [[0xC2, 0x85], [0xC2, 0xA0], [0xE1, 0x9A, 0x80]]
     @ map (\<lambda>n. bytes_of [0xE2, 0x80, n]) [0x80 ..< 0x8B]
     @ map bytes_of [[0xE2, 0x80, 0xA8], [0xE2, 0x80, 0xA9], [0xE2, 0x80, 0xAF],
                     [0xE2, 0x81, 0x9F], [0xE3, 0x80, 0x80]]"

fun strip_front :: "string list \<Rightarrow> nat \<Rightarrow> string \<Rightarrow> string" where
  "strip_front ps 0 s = s"
| "strip_front ps (Suc n) s =
    (case find (HasPrefix s) ps of
       None \<Rightarrow> s
     | Some p \<Rightarrow> strip_front ps n (drop (length p) s))"

text \<open>\<^verbatim>\<open>strings.TrimSpace\<close>: encodings of space runes are removed at the front, then
  (read backwards) at the end. At most as many are removed as the string has bytes.\<close>

definition TrimSpace :: "string \<Rightarrow> string" where
  "TrimSpace s =
     (let t = strip_front space_runes (length s) s
      in rev (strip_front (map rev space_runes) (length t) (rev t)))"

lemma HasPrefix_append [simp, go_strings]: "HasPrefix (p @ s) p"
  by (simp add: HasPrefix_def)

lemma HasPrefix_obtain: "HasPrefix s p \<longleftrightarrow> (\<exists>t. s = p @ t)"
proof
  assume "HasPrefix s p"
  then have "s = p @ drop (length p) s"
    by (simp add: HasPrefix_def) (metis append_take_drop_id)
  then show "\<exists>t. s = p @ t" ..
qed auto

lemma HasPrefix_Cons [simp]: "HasPrefix (c # s) (d # p) \<longleftrightarrow> c = d \<and> HasPrefix s p"
  by (simp add: HasPrefix_def)

lemma HasPrefix_Nil [simp]: "HasPrefix s []" "HasPrefix [] p \<longleftrightarrow> p = []"
  by (auto simp: HasPrefix_def)

lemma Cut_spec [go_strings]:
  "Cut s sep = (takeWhile (\<lambda>c. c \<noteq> sep) s, drop 1 (dropWhile (\<lambda>c. c \<noteq> sep) s), sep \<in> set s)"
  by (induction s) auto

lemma Cut_append [simp]:
  assumes "sep \<notin> set b"
  shows "Cut (b @ sep # a) sep = (b, a, True)"
  using assms by (induction b) auto

lemma Cut_foundD:
  assumes "Cut s sep = (b, a, True)"
  shows "s = b @ sep # a" "sep \<notin> set b"
proof -
  have eqs: "b = takeWhile (\<lambda>c. c \<noteq> sep) s" "a = drop 1 (dropWhile (\<lambda>c. c \<noteq> sep) s)" "sep \<in> set s"
    using assms by (auto simp: Cut_spec)
  have "dropWhile (\<lambda>c. c \<noteq> sep) s = sep # drop 1 (dropWhile (\<lambda>c. c \<noteq> sep) s)"
    using eqs(3) by (induction s) auto
  then have "dropWhile (\<lambda>c. c \<noteq> sep) s = sep # a"
    using eqs(2) by simp
  then show "s = b @ sep # a"
    using eqs(1) takeWhile_dropWhile_id [of "\<lambda>c. c \<noteq> sep" s] by simp
  show "sep \<notin> set b"
    using eqs(1) by (auto dest: set_takeWhileD)
qed

lemma strip_front_id [go_strings]:
  assumes "\<forall>p \<in> set ps. \<not> HasPrefix s p"
  shows "strip_front ps n s = s"
proof (cases n)
  case (Suc m)
  have "find (HasPrefix s) ps = None"
    using assms by (simp add: find_None_iff)
  with Suc show ?thesis by simp
qed simp

text \<open>A byte that starts or ends no space rune; all printable ASCII bytes but the
  blank are such bytes.\<close>

definition solid :: "char \<Rightarrow> bool" where
  "solid c \<longleftrightarrow> (\<forall>r \<in> set space_runes. c \<noteq> hd r \<and> c \<noteq> last r)"

lemma space_runes_nonempty: "r \<in> set space_runes \<Longrightarrow> r \<noteq> []"
  by (auto simp: space_runes_def bytes_of_def)

lemma HasPrefix_hd: "HasPrefix s p \<Longrightarrow> p \<noteq> [] \<Longrightarrow> s \<noteq> [] \<and> hd s = hd p"
  by (cases s; cases p) auto

lemma TrimSpace_id [go_strings]:
  assumes "s \<noteq> []" "solid (hd s)" "solid (last s)"
  shows "TrimSpace s = s"
proof -
  have front: "\<forall>p \<in> set space_runes. \<not> HasPrefix s p"
  proof
    fix p assume "p \<in> set space_runes"
    then show "\<not> HasPrefix s p"
      using assms(2) HasPrefix_hd [of s p] space_runes_nonempty [of p] by (auto simp: solid_def)
  qed
  have rear: "\<forall>p \<in> set (map rev space_runes). \<not> HasPrefix (rev s) p"
  proof
    fix p assume "p \<in> set (map rev space_runes)"
    then obtain r where "r \<in> set space_runes" "p = rev r" by auto
    then show "\<not> HasPrefix (rev s) p"
      using assms(3) HasPrefix_hd [of "rev s" p] space_runes_nonempty [of r]
      by (auto simp: solid_def hd_rev)
  qed
  show ?thesis
    unfolding TrimSpace_def Let_def strip_front_id [OF front] strip_front_id [OF rear] by simp
qed

lemma TrimSpace_Nil [simp]: "TrimSpace [] = []"
  by (simp add: TrimSpace_def)

end
