(* ===== verification/GoNet.thy ===== *)
theory GoNet
  imports Prelude
begin

text \<open>
  The parts of Go's packages net/url and net the code calls: \<^verbatim>\<open>url.Parse\<close>, of
  which the scheme and the host are used, and \<^verbatim>\<open>net.SplitHostPort\<close>. The escaping rules
  are those of \<^verbatim>\<open>unescape\<close> and \<^verbatim>\<open>shouldEscape\<close> in Go 1.24.
\<close>

section \<open>Byte classes\<close>

definition byte :: "char \<Rightarrow> nat" where
  "byte c = of_char c"

definition is_digit :: "char \<Rightarrow> bool" where
  "is_digit c \<longleftrightarrow> 48 \<le> byte c \<and> byte c \<le> 57"

definition is_lower :: "char \<Rightarrow> bool" where
  "is_lower c \<longleftrightarrow> 97 \<le> byte c \<and> byte c \<le> 122"

definition is_upper :: "char \<Rightarrow> bool" where
  "is_upper c \<longleftrightarrow> 65 \<le> byte c \<and> byte c \<le> 90"

definition is_alnum :: "char \<Rightarrow> bool" where
  "is_alnum c \<longleftrightarrow> is_digit c \<or> is_lower c \<or> is_upper c"

definition to_lower :: "char \<Rightarrow> char" where
  "to_lower c = (if is_upper c then char_of (byte c + 32) else c)"

definition unhex :: "char \<Rightarrow> nat option" where
  "unhex c =
     (if is_digit c then Some (byte c - 48)
      else if 97 \<le> byte c \<and> byte c \<le> 102 then Some (byte c - 87)
      else if 65 \<le> byte c \<and> byte c \<le> 70 then Some (byte c - 55)
      else None)"

fun last_index :: "string \<Rightarrow> char \<Rightarrow> nat option" where
  "last_index [] c = None"
| "last_index (d # s) c =
    (case last_index s c of Some i \<Rightarrow> Some (Suc i) | None \<Rightarrow> (if d = c then Some 0 else None))"

fun index_byte :: "string \<Rightarrow> char \<Rightarrow> nat option" where
  "index_byte [] c = None"
| "index_byte (d # s) c = (if d = c then Some 0 else map_option Suc (index_byte s c))"

section \<open>url.Parse\<close>

record url =
  Scheme :: string
  Host :: string

datatype escape_mode = EncodePath | EncodeHost | EncodeZone | EncodeUserPassword | EncodeFragment

text \<open>A literal byte is rejected by \<^verbatim>\<open>unescape\<close> in the host modes only.\<close>

definition host_byte_ok :: "char \<Rightarrow> bool" where
  "host_byte_ok c \<longleftrightarrow> is_alnum c \<or> byte c \<ge> 128
     \<or> c \<in> set ''!$&()*+,;=:[]<>-_.~'' \<or> byte c = 39 \<or> byte c = 34"

text \<open>The length-three escape at the head of the argument.\<close>

definition escape_ok :: "escape_mode \<Rightarrow> nat \<Rightarrow> nat \<Rightarrow> bool" where
  "escape_ok mode h l \<longleftrightarrow>
     (case mode of
        EncodeHost \<Rightarrow> \<not> (h < 8 \<and> \<not> (h = 2 \<and> l = 5))
      | EncodeZone \<Rightarrow> (h = 2 \<and> l = 5) \<or> h * 16 + l = 32
          \<or> (h * 16 + l < 128 \<and> host_byte_ok (char_of (h * 16 + l)))
      | _ \<Rightarrow> True)"

fun unescape :: "escape_mode \<Rightarrow> string \<Rightarrow> string result" where
  "unescape mode [] = Inr []"
| "unescape mode (c # s) =
    (if c = CHR ''%'' then
       (case s of
          a # b # t \<Rightarrow>
            (case (unhex a, unhex b) of
               (Some h, Some l) \<Rightarrow>
                 if escape_ok mode h l
                 then res_bind (unescape mode t) (\<lambda>r. Inr (char_of (h * 16 + l) # r))
                 else Inl (Error ''invalid URL escape %q'' [[c, a, b]])
             | _ \<Rightarrow> Inl (Error ''invalid URL escape %q'' [[c, a, b]]))
        | _ \<Rightarrow> Inl (Error ''invalid URL escape %q'' [c # s]))
     else if (mode = EncodeHost \<or> mode = EncodeZone) \<and> \<not> host_byte_ok c
     then Inl (Error ''invalid character %q in host name'' [[c]])
     else res_bind (unescape mode s) (\<lambda>r. Inr (c # r)))"

fun getScheme_loop :: "nat \<Rightarrow> string \<Rightarrow> string \<Rightarrow> string \<Rightarrow> (string \<times> string) result" where
  "getScheme_loop i acc [] raw = Inr ([], raw)"
| "getScheme_loop i acc (c # s) raw =
    (if is_lower c \<or> is_upper c then getScheme_loop (Suc i) (acc @ [c]) s raw
     else if is_digit c \<or> c \<in> set ''+-.'' then
       (if i = 0 then Inr ([], raw) else getScheme_loop (Suc i) (acc @ [c]) s raw)
     else if c = CHR '':'' then
       (if i = 0 then Inl (Error ''missing protocol scheme'' []) else Inr (acc, s))
     else Inr ([], raw))"

definition getScheme :: "string \<Rightarrow> (string \<times> string) result" where
  "getScheme raw = getScheme_loop 0 [] raw raw"

definition validOptionalPort :: "string \<Rightarrow> bool" where
  "validOptionalPort p \<longleftrightarrow> (case p of [] \<Rightarrow> True | c # s \<Rightarrow> c = CHR '':'' \<and> list_all is_digit s)"

fun index_of_sub :: "string \<Rightarrow> string \<Rightarrow> nat option" where
  "index_of_sub [] sub = (if sub = [] then Some 0 else None)"
| "index_of_sub (c # s) sub =
    (if HasPrefix (c # s) sub then Some 0 else map_option Suc (index_of_sub s sub))"

definition parseHost :: "string \<Rightarrow> string result" where
  "parseHost host =
     (if HasPrefix host ''['' then
        (case last_index host (CHR '']'') of
           None \<Rightarrow> Inl (Error ''missing ']' in host'' [])
         | Some i \<Rightarrow>
             if \<not> validOptionalPort (drop (Suc i) host)
             then Inl (Error ''invalid port %q after host'' [drop (Suc i) host])
             else (case index_of_sub (take i host) ''%25'' of
                     None \<Rightarrow> unescape EncodeHost host
                   | Some z \<Rightarrow>
                       res_bind (unescape EncodeHost (take z host)) (\<lambda>h1.
                       res_bind (unescape EncodeZone (drop z (take i host))) (\<lambda>h2.
                       res_bind (unescape EncodeHost (drop i host)) (\<lambda>h3.
                       Inr (h1 @ h2 @ h3))))))
      else
        (case last_index host (CHR '':'') of
           Some i \<Rightarrow>
             if \<not> validOptionalPort (drop i host)
             then Inl (Error ''invalid port %q after host'' [drop i host])
             else unescape EncodeHost host
         | None \<Rightarrow> unescape EncodeHost host))"

definition validUserinfo :: "string \<Rightarrow> bool" where
  "validUserinfo s \<longleftrightarrow>
     list_all (\<lambda>c. is_alnum c \<or> c \<in> set ''-._:~!$&()*+,;=%@'' \<or> byte c = 39) s"

definition parseAuthority :: "string \<Rightarrow> string result" where
  "parseAuthority authority =
     (case last_index authority (CHR ''@'') of
        None \<Rightarrow> parseHost authority
      | Some i \<Rightarrow>
          res_bind (parseHost (drop (Suc i) authority)) (\<lambda>host.
          if \<not> validUserinfo (take i authority)
          then Inl (Error ''net/url: invalid userinfo'' [])
          else (let (user, pass, colon) = Cut (take i authority) (CHR '':'') in
                res_bind (unescape EncodeUserPassword user) (\<lambda>_.
                res_bind (unescape EncodeUserPassword pass) (\<lambda>_. Inr host)))))"

text \<open>\<^verbatim>\<open>parse(rawURL, viaRequest=false)\<close>, after the fragment is cut off.\<close>

definition url_parse_body :: "string \<Rightarrow> url result" where
  "url_parse_body raw =
     (if list_ex (\<lambda>c. byte c < 32 \<or> byte c = 127) raw
      then Inl (Error ''net/url: invalid control character in URL'' [])
      else if raw = ''*'' then Inr \<lparr>Scheme = [], Host = []\<rparr>
      else
        res_bind (getScheme raw) (\<lambda>(scheme0, rest0).
        let scheme = map to_lower scheme0;
            (rest, query, q) = Cut rest0 (CHR ''?'')
        in if \<not> HasPrefix rest ''/'' then
             (if scheme \<noteq> [] then Inr \<lparr>Scheme = scheme, Host = []\<rparr>
              else if CHR '':'' \<in> set (fst (Cut rest (CHR ''/'')))
              then Inl (Error ''first path segment in URL cannot contain colon'' [])
              else res_bind (unescape EncodePath rest) (\<lambda>_. Inr \<lparr>Scheme = [], Host = []\<rparr>))
           else if (scheme \<noteq> [] \<or> \<not> HasPrefix rest ''///'') \<and> HasPrefix rest ''//'' then
             (let rest1 = drop 2 rest;
                  (authority, path) =
                    (case index_byte rest1 (CHR ''/'') of
                       None \<Rightarrow> (rest1, []) | Some i \<Rightarrow> (take i rest1, drop i rest1))
              in res_bind (parseAuthority authority) (\<lambda>host.
                 res_bind (unescape EncodePath path) (\<lambda>_.
                 Inr \<lparr>Scheme = scheme, Host = host\<rparr>)))
           else res_bind (unescape EncodePath rest) (\<lambda>_. Inr \<lparr>Scheme = scheme, Host = []\<rparr>)))"

definition url_parse :: "string \<Rightarrow> url result" where
  "url_parse raw =
     (let (u, frag, has) = Cut raw (CHR ''#'') in
      map_err (Wrap ''parse %q: %w'' [raw])
        (res_bind (url_parse_body u) (\<lambda>r.
         res_bind (unescape EncodeFragment frag) (\<lambda>_. Inr r))))"

section \<open>net.SplitHostPort\<close>

definition SplitHostPort :: "string \<Rightarrow> (string \<times> string) result" where
  "SplitHostPort hostport =
     (let missing = Error ''missing port in address'' [hostport];
          many = Error ''too many colons in address'' [hostport]
      in case last_index hostport (CHR '':'') of
           None \<Rightarrow> Inl missing
         | Some i \<Rightarrow>
             res_bind
               (if HasPrefix hostport ''['' then
                  (case index_byte hostport (CHR '']'') of
                     None \<Rightarrow> Inl (Error ''missing ']' in address'' [hostport])
                   | Some e \<Rightarrow>
                       if e + 1 = length hostport then Inl missing
                       else if e + 1 = i then Inr (drop 1 (take e hostport), 1, e + 1)
                       else if hostport ! (e + 1) = CHR '':'' then Inl many
                       else Inl missing)
                else if CHR '':'' \<in> set (take i hostport) then Inl many
                else Inr (take i hostport, 0, 0))
               (\<lambda>(host, j, k).
                  if CHR ''['' \<in> set (drop j hostport)
                  then Inl (Error ''unexpected '[' in address'' [hostport])
                  else if CHR '']'' \<in> set (drop k hostport)
                  then Inl (Error ''unexpected ']' in address'' [hostport])
                  else Inr (host, drop (Suc i) hostport)))"

section \<open>Printable bytes\<close>

definition graphic :: "char \<Rightarrow> bool" where
  "graphic c \<longleftrightarrow> 33 \<le> byte c \<and> byte c < 127"

lemma graphic_solid: "graphic c \<Longrightarrow> solid c"
  by (auto simp: solid_def graphic_def byte_def space_runes_def bytes_of_def)

lemma TrimSpace_graphic:
  assumes "s \<noteq> []" "list_all graphic s"
  shows "TrimSpace s = s"
  using assms by (intro TrimSpace_id graphic_solid) (auto simp: list_all_iff)

end
