(* ===== verification/Domain.thy ===== *)
theory Domain
  imports GoNet
begin

text \<open>
  Package domain (src/internal/domain): resource references, scopes, Service and Pipe
  specifications, the consumer-side binding of an accepted remote Pipe, and the resolution
  of a Pipe chain to its terminal Service.

  The string-typed enumerations of the source (\<^verbatim>\<open>ResourceKind\<close>, \<^verbatim>\<open>ServiceKind\<close>,
  \<^verbatim>\<open>IngressKind\<close>, \<^verbatim>\<open>Visibility\<close>, \<^verbatim>\<open>AccessPolicy\<close>) stay strings: every switch of the code
  has a default branch for values outside the enumeration.
\<close>

section \<open>References (ref.go)\<close>

type_synonym ResourceKind = string

definition KindService :: ResourceKind where "KindService = ''service''"
definition KindPipe :: ResourceKind where "KindPipe = ''pipe''"

definition resource_kinds :: "ResourceKind list" where
  "resource_kinds =
     [KindService, KindPipe, ''run'', ''session'', ''relay'', ''authority'', ''gateway'']"

definition name_start :: "char \<Rightarrow> bool" where
  "name_start c \<longleftrightarrow> is_lower c \<or> is_digit c"

definition name_byte :: "char \<Rightarrow> bool" where
  "name_byte c \<longleftrightarrow> name_start c \<or> c \<in> set ''@._-''"

text \<open>The regular expression \<^verbatim>\<open>^[a-z0-9][a-z0-9@._-]{0,62}$\<close>.\<close>

definition resourceNamePattern :: "string \<Rightarrow> bool" where
  "resourceNamePattern s \<longleftrightarrow>
     (case s of [] \<Rightarrow> False | c # t \<Rightarrow> name_start c \<and> list_all name_byte t \<and> length t \<le> 62)"

record Ref =
  Kind :: ResourceKind
  Name :: string

definition Ref_String :: "Ref \<Rightarrow> string" where
  "Ref_String r = (if Kind r = [] \<and> Name r = [] then [] else Kind r @ ''/'' @ Name r)"

definition Ref_Validate :: "Ref \<Rightarrow> goerror option" where
  "Ref_Validate r =
     (if Kind r \<notin> set resource_kinds
      then Some (Error ''unsupported resource kind %q'' [Kind r])
      else if \<not> resourceNamePattern (Name r)
      then Some (Error ''invalid %s name %q'' [Kind r, Name r])
      else None)"

definition RequireKind :: "Ref \<Rightarrow> ResourceKind \<Rightarrow> goerror option" where
  "RequireKind r kind =
     (case Ref_Validate r of
        Some e \<Rightarrow> Some e
      | None \<Rightarrow>
          if Kind r \<noteq> kind
          then Some (Error ''resource %s has kind %q, want %q'' [Ref_String r, Kind r, kind])
          else None)"

definition NewRef :: "ResourceKind \<Rightarrow> string \<Rightarrow> Ref result" where
  "NewRef kind name =
     (let ref = \<lparr>Kind = kind, Name = TrimSpace name\<rparr> in
      check (Ref_Validate ref) (Inr ref))"

definition ParseRef :: "string \<Rightarrow> Ref result" where
  "ParseRef raw =
     (let (kind, name, ok) = Cut (TrimSpace raw) (CHR ''/'') in
      if \<not> ok \<or> CHR ''/'' \<in> set name
      then Inl (Error ''resource reference must be <kind>/<name>: %q'' [raw])
      else NewRef kind name)"

definition ErrNotFound :: goerror where
  "ErrNotFound = Error ''resource not found'' []"

section \<open>Scopes, Services and Pipes (model.go)\<close>

record Scope =
  Cluster :: string
  Namespace :: string

definition Scope_String :: "Scope \<Rightarrow> string" where
  "Scope_String s = Cluster s @ ''/'' @ Namespace s"

definition Scope_Validate :: "Scope \<Rightarrow> goerror option" where
  "Scope_Validate s =
     (if \<not> resourceNamePattern (Cluster s)
      then Some (Error ''invalid cluster name %q'' [Cluster s])
      else if \<not> resourceNamePattern (Namespace s)
      then Some (Error ''invalid namespace name %q'' [Namespace s])
      else None)"

record ServiceSpec =
  svc_Ref :: Ref
  svc_Kind :: string
  svc_Target :: string
  svc_Description :: string
  svc_Metadata :: "string \<rightharpoonup> string"

definition ServiceSpec_Validate :: "ServiceSpec \<Rightarrow> goerror option" where
  "ServiceSpec_Validate s =
     (case RequireKind (svc_Ref s) KindService of
        Some e \<Rightarrow> Some e
      | None \<Rightarrow>
          let target = TrimSpace (svc_Target s); name = Ref_String (svc_Ref s) in
          if target = [] then Some (Error ''service %s target is required'' [name])
          else if svc_Kind s = ''http'' then
            (case url_parse target of
               Inl _ \<Rightarrow> Some (Error ''service %s requires an http:// or https:// target'' [name])
             | Inr u \<Rightarrow>
                 if Host u = [] \<or> (Scheme u \<noteq> ''http'' \<and> Scheme u \<noteq> ''https'')
                 then Some (Error ''service %s requires an http:// or https:// target'' [name])
                 else None)
          else if svc_Kind s = ''tcp'' then
            (case url_parse target of
               Inl _ \<Rightarrow> Some (Error ''service %s requires a tcp://host:port target'' [name])
             | Inr u \<Rightarrow>
                 if Scheme u \<noteq> ''tcp'' \<or> Host u = []
                 then Some (Error ''service %s requires a tcp://host:port target'' [name])
                 else (case SplitHostPort (Host u) of
                         Inl e \<Rightarrow> Some (Wrap ''service %s tcp target: %w'' [name] e)
                       | Inr _ \<Rightarrow> None))
          else if svc_Kind s = ''unix'' then
            (if \<not> HasPrefix target ''unix:///''
             then Some (Error ''service %s requires a unix:///path target'' [name])
             else None)
          else Some (Error ''service %s has unsupported kind %q'' [name, svc_Kind s]))"

record PipeIngress =
  ing_Kind :: string
  ing_Listen :: string
  ing_Host :: string
  ing_Path :: string
  ing_Protocol :: string

definition IngressLocal :: string where "IngressLocal = ''local''"
definition IngressTubo :: string where "IngressTubo = ''tubo''"
definition IngressHTTPRoute :: string where "IngressHTTPRoute = ''http-route''"
definition VisibilityPrivate :: string where "VisibilityPrivate = ''private''"
definition VisibilityUnlisted :: string where "VisibilityUnlisted = ''unlisted''"
definition VisibilityDiscoverable :: string where "VisibilityDiscoverable = ''discoverable''"
definition AccessInviteOnly :: string where "AccessInviteOnly = ''invite_only''"
definition AccessMembers :: string where "AccessMembers = ''members''"
definition AccessPublic :: string where "AccessPublic = ''public''"

record PipeSpec =
  pip_Ref :: Ref
  pip_PipeID :: string
  pip_Scope :: "Scope option"
  pip_Ingress :: PipeIngress
  pip_Target :: Ref
  pip_Visibility :: string
  pip_Access :: string
  pip_AllowReexport :: bool
  pip_CreatedAt :: gotime
  pip_UpdatedAt :: gotime

text \<open>The ingress switch of \<^verbatim>\<open>PipeSpec.Validate\<close>.\<close>

definition Ingress_check :: "string \<Rightarrow> PipeIngress \<Rightarrow> goerror option" where
  "Ingress_check name ing =
     (if ing_Kind ing = IngressLocal then
        (if TrimSpace (ing_Listen ing) = []
         then Some (Error ''pipe %s local ingress requires listen'' [name]) else None)
      else if ing_Kind ing = IngressTubo then None
      else if ing_Kind ing = IngressHTTPRoute then
        (if TrimSpace (ing_Host ing) = []
         then Some (Error ''pipe %s HTTP route ingress requires host'' [name]) else None)
      else Some (Error ''pipe %s has unsupported ingress %q'' [name, ing_Kind ing]))"

definition PipeSpec_Validate :: "PipeSpec \<Rightarrow> goerror option" where
  "PipeSpec_Validate p =
     (let name = Ref_String (pip_Ref p) in
      case RequireKind (pip_Ref p) KindPipe of Some e \<Rightarrow> Some e | None \<Rightarrow>
      case Ref_Validate (pip_Target p) of
        Some e \<Rightarrow> Some (Wrap ''pipe %s target: %w'' [name] e) | None \<Rightarrow>
      if Kind (pip_Target p) \<noteq> KindService \<and> Kind (pip_Target p) \<noteq> KindPipe
      then Some (Error ''pipe %s target must be service/... or pipe/...'' [name])
      else if pip_Target p = pip_Ref p
      then Some (Error ''pipe %s cannot target itself'' [name])
      else case (case pip_Scope p of None \<Rightarrow> None | Some sc \<Rightarrow> Scope_Validate sc) of
        Some e \<Rightarrow> Some (Wrap ''pipe %s scope: %w'' [name] e) | None \<Rightarrow>
      case Ingress_check name (pip_Ingress p) of Some e \<Rightarrow> Some e | None \<Rightarrow>
      if pip_Visibility p \<notin> {VisibilityPrivate, VisibilityUnlisted, VisibilityDiscoverable}
      then Some (Error ''pipe %s has unsupported visibility %q'' [name, pip_Visibility p])
      else if pip_Access p \<notin> {AccessInviteOnly, AccessMembers, AccessPublic}
      then Some (Error ''pipe %s has unsupported access policy %q'' [name, pip_Access p])
      else if pip_Visibility p = VisibilityDiscoverable
              \<and> ing_Kind (pip_Ingress p) \<noteq> IngressTubo
      then Some (Error ''pipe %s is discoverable but has no Tubo ingress'' [name])
      else None)"

definition IsPublished :: "PipeSpec \<Rightarrow> bool" where
  "IsPublished p \<longleftrightarrow>
     ing_Kind (pip_Ingress p) = IngressTubo \<and> pip_Visibility p \<noteq> VisibilityPrivate"


record RemotePipeBinding =
  rpb_RemotePipeID :: string
  rpb_AuthorityPublic :: string
  rpb_OwnerBinding :: string
  rpb_Locator :: string
  rpb_RecipientPublic :: string
  rpb_Source :: string
  rpb_CreatedAt :: gotime
  rpb_UpdatedAt :: gotime

definition RemotePipeBinding_Validate :: "RemotePipeBinding \<Rightarrow> goerror option" where
  "RemotePipeBinding_Validate b =
     (if \<not> HasPrefix (rpb_RemotePipeID b) ''pip_'' \<or> length (rpb_RemotePipeID b) > 256
      then Some (Error ''remote pipe binding invalid remote pipe id'' [])
      else if rpb_AuthorityPublic b = [] \<or> length (rpb_AuthorityPublic b) > 4096
      then Some (Error ''remote pipe binding invalid authority public key'' [])
      else if rpb_OwnerBinding b = [] \<or> length (rpb_OwnerBinding b) > 48 * 1024
      then Some (Error ''remote pipe binding invalid owner binding'' [])
      else if rpb_Locator b = [] \<or> length (rpb_Locator b) > 4096
      then Some (Error ''remote pipe binding invalid locator'' [])
      else if rpb_RecipientPublic b = [] \<or> length (rpb_RecipientPublic b) > 4096
      then Some (Error ''remote pipe binding invalid recipient public key'' [])
      else if rpb_Source b = [] \<or> length (rpb_Source b) > 64
      then Some (Error ''remote pipe binding invalid source'' [])
      else None)"

record AccessLeaseCache =
  alc_RemotePipeID :: string
  alc_AccessLease :: string
  alc_ExpiresAt :: gotime

section \<open>Logical paths (graph.go)\<close>

definition DefaultMaxPipeHops :: int where "DefaultMaxPipeHops = 8"

type_synonym PipeLoader = "Ref \<Rightarrow> PipeSpec result"
type_synonym ServiceLoader = "Ref \<Rightarrow> ServiceSpec result"

record LogicalPath =
  Pipes :: "Ref list"
  Terminal :: Ref

text \<open>The loop of \<^verbatim>\<open>ResolveLogicalPath\<close>; the first argument is the number of iterations
  left, \<open>visited\<close> and \<open>pipes\<close> are the loop's map and the path built so far.\<close>

fun resolve_loop ::
  "nat \<Rightarrow> goerror \<Rightarrow> PipeLoader \<Rightarrow> ServiceLoader \<Rightarrow> string set \<Rightarrow> Ref \<Rightarrow> Ref list
   \<Rightarrow> LogicalPath result" where
  "resolve_loop 0 exceeded loadPipe loadService visited current pipes = Inl exceeded"
| "resolve_loop (Suc n) exceeded loadPipe loadService visited current pipes =
    (if Ref_String current \<in> visited
     then Inl (Error ''pipe graph cycle detected at %s'' [Ref_String current])
     else
       case loadPipe current of
         Inl e \<Rightarrow> Inl (Wrap ''load %s: %w'' [Ref_String current] e)
       | Inr pipe \<Rightarrow>
           check (PipeSpec_Validate pipe)
             (if Kind (pip_Target pipe) = KindPipe then
                resolve_loop n exceeded loadPipe loadService
                  (insert (Ref_String current) visited) (pip_Target pipe) (pipes @ [pip_Ref pipe])
              else if Kind (pip_Target pipe) = KindService then
                (case loadService (pip_Target pipe) of
                   Inl e \<Rightarrow> Inl (Wrap ''load %s: %w'' [Ref_String (pip_Target pipe)] e)
                 | Inr service \<Rightarrow>
                     check (ServiceSpec_Validate service)
                       (Inr \<lparr>Pipes = pipes @ [pip_Ref pipe], Terminal = svc_Ref service\<rparr>))
              else Inl (Error ''pipe %s has invalid target %s''
                     [Ref_String (pip_Ref pipe), Ref_String (pip_Target pipe)])))"

definition ResolveLogicalPath ::
  "Ref \<Rightarrow> int \<Rightarrow> PipeLoader option \<Rightarrow> ServiceLoader option \<Rightarrow> LogicalPath result" where
  "ResolveLogicalPath start maxHops loadPipe loadService =
     (case RequireKind start KindPipe of Some e \<Rightarrow> Inl e | None \<Rightarrow>
      let hops = (if maxHops \<le> 0 then DefaultMaxPipeHops else maxHops) in
      case (loadPipe, loadService) of
        (Some lp, Some ls) \<Rightarrow>
          resolve_loop (nat hops)
            (Error ''pipe path from %s exceeds maximum of %d hops'' [Ref_String start])
            lp ls {} start []
      | _ \<Rightarrow> Inl (Error ''pipe and service loaders are required'' []))"

section \<open>Facts on references\<close>

lemma name_byte_graphic: "name_byte c \<Longrightarrow> graphic c"
  by (auto simp: graphic_def name_byte_def name_start_def is_lower_def is_digit_def byte_def)

lemma name_byte_not_slash: "name_byte c \<Longrightarrow> c \<noteq> CHR ''/''"
  by (auto simp: name_byte_def name_start_def is_lower_def is_digit_def byte_def)

lemma resource_kinds_names: "k \<in> set resource_kinds \<Longrightarrow> resourceNamePattern k"
  by (auto simp: resource_kinds_def KindService_def KindPipe_def
      resourceNamePattern_def name_start_def name_byte_def is_lower_def is_digit_def byte_def)

lemma resourceNamePattern_bytes: "resourceNamePattern s \<Longrightarrow> c \<in> set s \<Longrightarrow> name_byte c"
  by (auto simp: resourceNamePattern_def name_byte_def list_all_iff split: list.splits)

lemma resourceNamePattern_nonempty: "resourceNamePattern s \<Longrightarrow> s \<noteq> []"
  by (auto simp: resourceNamePattern_def)

lemma resourceNamePattern_no_slash: "resourceNamePattern s \<Longrightarrow> CHR ''/'' \<notin> set s"
  using resourceNamePattern_bytes name_byte_not_slash by blast

lemma resourceNamePattern_graphic: "resourceNamePattern s \<Longrightarrow> list_all graphic s"
  using resourceNamePattern_bytes name_byte_graphic by (auto simp: list_all_iff)

lemma TrimSpace_name: "resourceNamePattern s \<Longrightarrow> TrimSpace s = s"
  by (simp add: TrimSpace_graphic resourceNamePattern_nonempty resourceNamePattern_graphic)

lemma Ref_Validate_iff:
  "Ref_Validate r = None \<longleftrightarrow> Kind r \<in> set resource_kinds \<and> resourceNamePattern (Name r)"
  by (simp add: Ref_Validate_def)

lemma RequireKind_iff: "RequireKind r k = None \<longleftrightarrow> Ref_Validate r = None \<and> Kind r = k"
  by (simp add: RequireKind_def split: option.splits)

lemma Ref_String_valid:
  assumes "Ref_Validate r = None"
  shows "Ref_String r = Kind r @ CHR ''/'' # Name r" "CHR ''/'' \<notin> set (Kind r)"
    "CHR ''/'' \<notin> set (Name r)" "TrimSpace (Name r) = Name r" "TrimSpace (Ref_String r) = Ref_String r"
proof -
  have kind: "resourceNamePattern (Kind r)" and name: "resourceNamePattern (Name r)"
    using assms resource_kinds_names by (auto simp: Ref_Validate_iff)
  then show str: "Ref_String r = Kind r @ CHR ''/'' # Name r"
    by (simp add: Ref_String_def resourceNamePattern_nonempty)
  show "CHR ''/'' \<notin> set (Kind r)" "CHR ''/'' \<notin> set (Name r)" "TrimSpace (Name r) = Name r"
    using kind name by (simp_all add: resourceNamePattern_no_slash TrimSpace_name)
  have "list_all graphic (Kind r)" "list_all graphic (Name r)"
    using kind name by (simp_all add: resourceNamePattern_graphic)
  then have "list_all graphic (Ref_String r)"
    by (simp add: str graphic_def [of "CHR ''/''"] byte_def)
  then show "TrimSpace (Ref_String r) = Ref_String r"
    using str by (intro TrimSpace_graphic) auto
qed

lemma Ref_String_inject:
  assumes "Ref_Validate r = None" "Ref_Validate q = None" "Ref_String r = Ref_String q"
  shows "r = q"
proof -
  have "Cut (Ref_String r) (CHR ''/'') = (Kind r, Name r, True)"
    using Ref_String_valid(1,2) [OF assms(1)] by simp
  moreover have "Cut (Ref_String q) (CHR ''/'') = (Kind q, Name q, True)"
    using Ref_String_valid(1,2) [OF assms(2)] by simp
  ultimately show ?thesis
    using assms(3) by simp
qed

lemma ParseRef_valid: "ParseRef s = Inr r \<Longrightarrow> Ref_Validate r = None"
  by (auto simp: ParseRef_def NewRef_def Let_def result_simps split: prod.splits if_splits)

lemma ParseRef_of_String: "Ref_Validate r = None \<Longrightarrow> ParseRef (Ref_String r) = Inr r"
  using Ref_String_valid [of r] by (cases r) (simp add: ParseRef_def NewRef_def Let_def)

section \<open>Paths as chains\<close>

text \<open>The specification of \<^const>\<open>ResolveLogicalPath\<close>: following valid Pipes from one
  reference to the next until a valid Service is reached.\<close>

inductive pipe_chain :: "PipeLoader \<Rightarrow> ServiceLoader \<Rightarrow> Ref \<Rightarrow> Ref list \<Rightarrow> Ref \<Rightarrow> bool"
  for loadPipe loadService where
  arrive: "pipe_chain loadPipe loadService current [pip_Ref pipe] (svc_Ref service)"
    if "loadPipe current = Inr pipe" "PipeSpec_Validate pipe = None"
       "Kind (pip_Target pipe) = KindService"
       "loadService (pip_Target pipe) = Inr service" "ServiceSpec_Validate service = None"
| follow: "pipe_chain loadPipe loadService current (pip_Ref pipe # pipes) terminal"
    if "loadPipe current = Inr pipe" "PipeSpec_Validate pipe = None"
       "Kind (pip_Target pipe) = KindPipe"
       "pipe_chain loadPipe loadService (pip_Target pipe) pipes terminal"

inductive_cases pipe_chainE: "pipe_chain lp ls current ps t"

lemma Kind_distinct [simp]: "KindService \<noteq> KindPipe" "KindPipe \<noteq> KindService"
  by (simp_all add: KindService_def KindPipe_def)

lemma pipe_chain_deterministic:
  "pipe_chain lp ls r ps t \<Longrightarrow> pipe_chain lp ls r ps' t' \<Longrightarrow> ps = ps' \<and> t = t'"
proof (induction arbitrary: ps' t' rule: pipe_chain.induct)
  case (arrive current pipe service)
  from arrive.prems show ?case
    by (rule pipe_chainE) (use arrive.hyps in auto)
next
  case (follow current pipe pipes terminal)
  from follow.prems follow.hyps obtain pipes' where
    "ps' = pip_Ref pipe # pipes'" "pipe_chain lp ls (pip_Target pipe) pipes' t'"
    by (cases rule: pipe_chain.cases) auto
  then show ?case
    using follow.IH by blast
qed

lemma PipeSpec_Validate_target: "PipeSpec_Validate p = None \<Longrightarrow> Ref_Validate (pip_Target p) = None"
  by (auto simp: PipeSpec_Validate_def Let_def split: option.splits if_splits)

lemma resolve_loop_sound:
  assumes "resolve_loop n e lp ls visited current pipes = Inr path"
  shows "\<exists>ps. Pipes path = pipes @ ps \<and> pipe_chain lp ls current ps (Terminal path) \<and> length ps \<le> n"
  using assms
proof (induction n arbitrary: visited current pipes)
  case (Suc n)
  then obtain pipe where pipe: "lp current = Inr pipe" "PipeSpec_Validate pipe = None"
    by (auto simp: result_simps split: if_splits sum.splits)
  show ?case
  proof (cases "Kind (pip_Target pipe) = KindPipe")
    case True
    then have "resolve_loop n e lp ls (insert (Ref_String current) visited) (pip_Target pipe)
        (pipes @ [pip_Ref pipe]) = Inr path"
      using Suc.prems pipe by (auto split: if_splits)
    from Suc.IH [OF this] obtain ps where
      "Pipes path = pipes @ pip_Ref pipe # ps" "length ps \<le> n"
      "pipe_chain lp ls (pip_Target pipe) ps (Terminal path)"
      by auto
    then show ?thesis
      using pipe_chain.follow [of lp current pipe ls ps] pipe True by (intro exI [of _ "pip_Ref pipe # ps"]) auto
  next
    case False
    then obtain service where "Kind (pip_Target pipe) = KindService"
      "ls (pip_Target pipe) = Inr service" "ServiceSpec_Validate service = None"
      "path = \<lparr>Pipes = pipes @ [pip_Ref pipe], Terminal = svc_Ref service\<rparr>"
      using Suc.prems pipe by (auto simp: result_simps split: if_splits sum.splits)
    then show ?thesis
      using pipe_chain.arrive [of lp current pipe ls service] pipe
      by (intro exI [of _ "[pip_Ref pipe]"]) auto
  qed
qed simp

text \<open>Every visited reference lies strictly before the current one on its chain; a chain
  has one length, so the cycle test never fires on it.\<close>

definition earlier :: "PipeLoader \<Rightarrow> ServiceLoader \<Rightarrow> string set \<Rightarrow> nat \<Rightarrow> bool" where
  "earlier lp ls visited k \<longleftrightarrow>
     (\<forall>v \<in> visited. \<exists>u ps t. v = Ref_String u \<and> Ref_Validate u = None
        \<and> pipe_chain lp ls u ps t \<and> k < length ps)"

lemma earlier_unvisited:
  assumes "pipe_chain lp ls current ps t" "Ref_Validate current = None"
    and "earlier lp ls visited (length ps)"
  shows "Ref_String current \<notin> visited"
proof
  assume "Ref_String current \<in> visited"
  then obtain u ps' t' where "Ref_String current = Ref_String u" "Ref_Validate u = None"
    "pipe_chain lp ls u ps' t'" "length ps < length ps'"
    using assms(3) unfolding earlier_def by blast
  then show False
    using Ref_String_inject [OF assms(2)] pipe_chain_deterministic [OF assms(1)] by auto
qed

lemma earlier_insert:
  assumes "earlier lp ls visited (length ps)" "k < length ps"
    and "pipe_chain lp ls current ps t" "Ref_Validate current = None"
  shows "earlier lp ls (insert (Ref_String current) visited) k"
  unfolding earlier_def
proof
  fix v assume "v \<in> insert (Ref_String current) visited"
  then show "\<exists>u ps t. v = Ref_String u \<and> Ref_Validate u = None
      \<and> pipe_chain lp ls u ps t \<and> k < length ps"
    using assms unfolding earlier_def by (metis insertE less_trans)
qed

lemma resolve_loop_complete:
  assumes "pipe_chain lp ls current ps t" "length ps \<le> n" "Ref_Validate current = None"
    and "earlier lp ls visited (length ps)"
  shows "resolve_loop n e lp ls visited current pipes = Inr \<lparr>Pipes = pipes @ ps, Terminal = t\<rparr>"
  using assms
proof (induction arbitrary: n visited pipes rule: pipe_chain.induct)
  case (arrive current pipe service)
  have "pipe_chain lp ls current [pip_Ref pipe] (svc_Ref service)"
    using arrive.hyps by (rule pipe_chain.arrive)
  then have "Ref_String current \<notin> visited"
    using arrive.prems(2,3) by (rule earlier_unvisited)
  then show ?case
    using arrive.hyps arrive.prems(1) by (cases n) auto
next
  case (follow current pipe ps t)
  have chain: "pipe_chain lp ls current (pip_Ref pipe # ps) t"
    using follow.hyps by (rule pipe_chain.follow)
  obtain m where n: "n = Suc m" "length ps \<le> m"
    using follow.prems(1) by (cases n) auto
  have "resolve_loop m e lp ls (insert (Ref_String current) visited) (pip_Target pipe)
      (pipes @ [pip_Ref pipe]) = Inr \<lparr>Pipes = (pipes @ [pip_Ref pipe]) @ ps, Terminal = t\<rparr>"
    using earlier_insert [OF follow.prems(3) _ chain follow.prems(2), of "length ps"]
      PipeSpec_Validate_target [OF follow.hyps(2)] n(2)
    by (intro follow.IH) simp_all
  then show ?case
    using n earlier_unvisited [OF chain follow.prems(2,3)] follow.hyps by simp
qed

definition hop_limit :: "int \<Rightarrow> nat" where
  "hop_limit maxHops = nat (if maxHops \<le> 0 then DefaultMaxPipeHops else maxHops)"

lemma ResolveLogicalPath_chain:
  "ResolveLogicalPath start maxHops (Some lp) (Some ls) = Inr path \<longleftrightarrow>
     RequireKind start KindPipe = None \<and> pipe_chain lp ls start (Pipes path) (Terminal path)
     \<and> length (Pipes path) \<le> hop_limit maxHops"
    (is "?L \<longleftrightarrow> ?R")
proof
  assume ?L
  then have "RequireKind start KindPipe = None"
    and "resolve_loop (hop_limit maxHops)
      (Error ''pipe path from %s exceeds maximum of %d hops'' [Ref_String start]) lp ls {} start []
      = Inr path"
    by (auto simp: ResolveLogicalPath_def hop_limit_def Let_def split: option.splits)
  then show ?R
    using resolve_loop_sound [of "hop_limit maxHops" _ lp ls "{}" start "[]" path] by auto
next
  assume R: ?R
  then have "earlier lp ls {} (length (Pipes path))" "Ref_Validate start = None"
    by (auto simp: earlier_def RequireKind_iff)
  with R have "resolve_loop (hop_limit maxHops)
      (Error ''pipe path from %s exceeds maximum of %d hops'' [Ref_String start]) lp ls {} start []
      = Inr \<lparr>Pipes = [] @ Pipes path, Terminal = Terminal path\<rparr>"
    by (intro resolve_loop_complete) auto
  with R show ?L
    by (auto simp: ResolveLogicalPath_def hop_limit_def Let_def)
qed

section \<open>Properties\<close>

text \<open>C23. Path resolution is exact: \<^verbatim>\<open>ResolveLogicalPath\<close> returns a path if and only if the start is a Pipe
  reference and the valid specifications that the loaders give lead from it, Pipe by Pipe, to that
  valid Service within the hop limit. In particular a cyclic or too long chain is always refused,
  and a path that exists is always found.\<close>

theorem resolve_iff_chain:
  "ResolveLogicalPath start maxHops (Some lp) (Some ls) = Inr path \<longleftrightarrow>
     RequireKind start KindPipe = None \<and> pipe_chain lp ls start (Pipes path) (Terminal path)
     \<and> length (Pipes path) \<le> hop_limit maxHops"
  by (rule ResolveLogicalPath_chain)

text \<open>References round-trip: every reference \<^verbatim>\<open>ParseRef\<close> accepts is valid, and a valid reference is
  recovered from its text, so that no two valid references share a text.\<close>

theorem ref_round_trip:
  "(ParseRef s = Inr r \<longrightarrow> Ref_Validate r = None) \<and> (Ref_Validate r = None \<longrightarrow> ParseRef (Ref_String r) = Inr r)"
  using ParseRef_valid ParseRef_of_String by blast

theorem ref_round_trip_witness:
  "Ref_Validate \<lparr>Kind = KindPipe, Name = ''web-1''\<rparr> = None
   \<and> ParseRef (Ref_String \<lparr>Kind = KindPipe, Name = ''web-1''\<rparr>) = Inr \<lparr>Kind = KindPipe, Name = ''web-1''\<rparr>"
proof -
  have "Ref_Validate \<lparr>Kind = KindPipe, Name = ''web-1''\<rparr> = None" by code_simp
  then show ?thesis using ref_round_trip by blast
qed

end
