(* ===== verification/Engine.thy ===== *)
theory Engine
  imports Domain
begin

text \<open>
  Package engine (src/internal/engine/engine.go): the traversal state that travels with an
  open through a chain of Pipes, and the forwarding of one hop. Resolution, dialing and the
  downstream open are injected capabilities, here arguments: a resolver is a loader of
  theory \<open>Domain\<close>, dialing a Service gives a connection of type \<open>'conn\<close>, opening a downstream
  Pipe gives a carrier of type \<open>'carrier\<close> and a session identifier.
\<close>

section \<open>Errors\<close>

definition ErrHopLimitExceeded :: goerror where
  "ErrHopLimitExceeded = Error ''hop limit exceeded'' []"
definition ErrLoopDetected :: goerror where
  "ErrLoopDetected = Error ''pipe traversal loop detected'' []"
definition ErrInvalidTargetKind :: goerror where
  "ErrInvalidTargetKind = Error ''invalid target kind in pipe spec'' []"
definition ErrMissingPipeTarget :: goerror where
  "ErrMissingPipeTarget = Error ''missing pipe target in traversal'' []"
definition ErrMissingServiceTarget :: goerror where
  "ErrMissingServiceTarget = Error ''missing service target in traversal'' []"
definition ErrInvalidPipeDefinition :: goerror where
  "ErrInvalidPipeDefinition = Error ''invalid pipe definition'' []"
definition ErrInvalidServiceDefinition :: goerror where
  "ErrInvalidServiceDefinition = Error ''invalid service definition'' []"

lemmas engine_errors = ErrHopLimitExceeded_def ErrLoopDetected_def ErrInvalidTargetKind_def
  ErrMissingPipeTarget_def ErrMissingServiceTarget_def ErrInvalidPipeDefinition_def
  ErrInvalidServiceDefinition_def

section \<open>Traversal state\<close>

record TraversalState =
  VisitedIDs :: "string list"
  Remaining :: int
  MaxHops :: int

definition NewTraversal :: "string \<Rightarrow> TraversalState" where
  "NewTraversal pipeID =
     \<lparr>VisitedIDs = [pipeID], Remaining = DefaultMaxPipeHops, MaxHops = DefaultMaxPipeHops\<rparr>"

definition Advance :: "TraversalState \<Rightarrow> string \<Rightarrow> TraversalState result" where
  "Advance s pipeID =
     (if Remaining s \<le> 0 then Inl ErrHopLimitExceeded
      else if pipeID \<in> set (VisitedIDs s) then Inl ErrLoopDetected
      else Inr \<lparr>VisitedIDs = VisitedIDs s @ [pipeID], Remaining = Remaining s - 1,
                MaxHops = MaxHops s\<rparr>)"

text \<open>The duplicate scan of \<^verbatim>\<open>FromWire\<close>.\<close>

fun repeated :: "string set \<Rightarrow> string list \<Rightarrow> bool" where
  "repeated seen [] \<longleftrightarrow> False"
| "repeated seen (i # is) \<longleftrightarrow> i \<in> seen \<or> repeated (insert i seen) is"

definition FromWire :: "string list \<Rightarrow> int \<Rightarrow> TraversalState result" where
  "FromWire visited hopLimit =
     (if hopLimit \<le> 0 \<or> hopLimit > DefaultMaxPipeHops then Inl ErrHopLimitExceeded
      else if repeated {} visited then Inl ErrLoopDetected
      else if int (length visited) \<ge> hopLimit then Inl ErrHopLimitExceeded
      else Inr \<lparr>VisitedIDs = visited, Remaining = hopLimit - int (length visited),
                MaxHops = hopLimit\<rparr>)"

section \<open>Forwarding\<close>

type_synonym 'carrier DownstreamOpener = "PipeSpec \<Rightarrow> TraversalState \<Rightarrow> ('carrier \<times> string) result"

datatype ('conn, 'carrier) ForwardResult =
    ServiceConn 'conn
  | Downstream 'carrier string

record 'conn Engine =
  resolveService :: ServiceLoader
  resolvePipe :: PipeLoader
  dialService :: "ServiceSpec \<Rightarrow> 'conn result"

definition ResolvePath :: "'conn Engine \<Rightarrow> Ref \<Rightarrow> int \<Rightarrow> LogicalPath result" where
  "ResolvePath e start maxHops =
     ResolveLogicalPath start maxHops (Some (resolvePipe e)) (Some (resolveService e))"

definition forwardServiceTarget :: "'conn Engine \<Rightarrow> Ref \<Rightarrow> ('conn, 'carrier) ForwardResult result" where
  "forwardServiceTarget e target =
     (case resolveService e target of
        Inl err \<Rightarrow> Inl (JoinErr ErrMissingServiceTarget err)
      | Inr svc \<Rightarrow>
          (case ServiceSpec_Validate svc of
             Some err \<Rightarrow> Inl (JoinErr ErrInvalidServiceDefinition err)
           | None \<Rightarrow> res_bind (dialService e svc) (\<lambda>conn. Inr (ServiceConn conn))))"

definition forwardPipeTarget ::
  "'conn Engine \<Rightarrow> Ref \<Rightarrow> TraversalState \<Rightarrow> 'carrier DownstreamOpener option
   \<Rightarrow> ('conn, 'carrier) ForwardResult result" where
  "forwardPipeTarget e target state openDownstream =
     (case resolvePipe e target of
        Inl err \<Rightarrow> Inl (JoinErr ErrMissingPipeTarget err)
      | Inr nextSpec \<Rightarrow>
          (case PipeSpec_Validate nextSpec of
             Some err \<Rightarrow> Inl (JoinErr ErrInvalidPipeDefinition err)
           | None \<Rightarrow>
               if pip_PipeID nextSpec \<in> set (VisitedIDs state) then Inl ErrLoopDetected
               else if Remaining state < 1 then Inl ErrHopLimitExceeded
               else (case openDownstream of
                       None \<Rightarrow> Inl (Error ''downstream opener required for pipe target'' [])
                     | Some opener \<Rightarrow>
                         res_bind (opener nextSpec state) (\<lambda>(carrier, sessionID).
                         Inr (Downstream carrier sessionID)))))"

definition Forward ::
  "'conn Engine \<Rightarrow> PipeSpec \<Rightarrow> TraversalState \<Rightarrow> 'carrier DownstreamOpener option
   \<Rightarrow> ('conn, 'carrier) ForwardResult result" where
  "Forward e current state openDownstream =
     (if Kind (pip_Target current) = KindService
      then forwardServiceTarget e (pip_Target current)
      else if Kind (pip_Target current) = KindPipe
      then forwardPipeTarget e (pip_Target current) state openDownstream
      else Inl ErrInvalidTargetKind)"

section \<open>The traversal invariant\<close>

text \<open>No Pipe is listed twice and the budget left is exactly the hop limit minus the Pipes
  already entered.\<close>

definition traversal_ok :: "TraversalState \<Rightarrow> bool" where
  "traversal_ok s \<longleftrightarrow>
     distinct (VisitedIDs s) \<and> 0 < MaxHops s \<and> MaxHops s \<le> DefaultMaxPipeHops
     \<and> Remaining s = MaxHops s - int (length (VisitedIDs s)) \<and> 0 \<le> Remaining s"

lemma repeated_iff: "repeated seen xs \<longleftrightarrow> \<not> distinct xs \<or> set xs \<inter> seen \<noteq> {}"
  by (induction xs arbitrary: seen) auto

lemma FromWire_Inr_iff:
  "FromWire visited hopLimit = Inr s \<longleftrightarrow>
     s = \<lparr>VisitedIDs = visited, Remaining = hopLimit - int (length visited), MaxHops = hopLimit\<rparr>
     \<and> traversal_ok s \<and> 1 \<le> Remaining s"
  by (auto simp: FromWire_def traversal_ok_def repeated_iff)

lemma FromWire_ok: "FromWire visited hopLimit = Inr s \<Longrightarrow> traversal_ok s"
  by (auto simp: FromWire_Inr_iff)

lemma Advance_Inr_iff:
  "Advance s p = Inr s' \<longleftrightarrow>
     0 < Remaining s \<and> p \<notin> set (VisitedIDs s)
     \<and> s' = \<lparr>VisitedIDs = VisitedIDs s @ [p], Remaining = Remaining s - 1, MaxHops = MaxHops s\<rparr>"
  by (auto simp: Advance_def)

lemma Advance_ok: "traversal_ok s \<Longrightarrow> Advance s p = Inr s' \<Longrightarrow> traversal_ok s'"
  by (auto simp: Advance_Inr_iff traversal_ok_def)

text \<open>A run of hops is a fold of \<^const>\<open>Advance\<close>.\<close>

fun advance_all :: "TraversalState \<Rightarrow> string list \<Rightarrow> TraversalState result" where
  "advance_all s [] = Inr s"
| "advance_all s (p # ps) = res_bind (Advance s p) (\<lambda>s'. advance_all s' ps)"

lemma advance_all_ok:
  "traversal_ok s \<Longrightarrow> advance_all s ps = Inr s' \<Longrightarrow>
     traversal_ok s' \<and> VisitedIDs s' = VisitedIDs s @ ps \<and> MaxHops s' = MaxHops s"
proof (induction ps arbitrary: s)
  case (Cons p ps)
  then obtain t where t: "Advance s p = Inr t" "advance_all t ps = Inr s'"
    by (auto simp: result_simps)
  from Cons.IH [OF Advance_ok [OF Cons.prems(1) t(1)] t(2)] t(1) show ?case
    by (auto simp: Advance_Inr_iff)
qed simp

lemma advance_all_complete:
  "traversal_ok s \<Longrightarrow> distinct (VisitedIDs s @ ps) \<Longrightarrow> int (length ps) \<le> Remaining s \<Longrightarrow>
     \<exists>s'. advance_all s ps = Inr s'"
proof (induction ps arbitrary: s)
  case (Cons p ps)
  then obtain t where t: "Advance s p = Inr t"
    by (auto simp: Advance_def)
  moreover have "\<exists>s'. advance_all t ps = Inr s'"
    using Cons.prems t Advance_ok [OF Cons.prems(1) t]
    by (intro Cons.IH) (auto simp: Advance_Inr_iff)
  ultimately show ?case by auto
qed simp

lemma Forward_downstream:
  assumes "Forward e current state op = Inr (Downstream c sid)"
  obtains nextSpec opener where "op = Some opener"
    "Kind (pip_Target current) = KindPipe" "resolvePipe e (pip_Target current) = Inr nextSpec"
    "PipeSpec_Validate nextSpec = None" "pip_PipeID nextSpec \<notin> set (VisitedIDs state)"
    "1 \<le> Remaining state" "opener nextSpec state = Inr (c, sid)"
  using assms
  by (auto simp: Forward_def forwardServiceTarget_def forwardPipeTarget_def result_simps
      split: if_splits sum.splits option.splits prod.splits)

section \<open>Properties\<close>

text \<open>C31. Traversals stay bounded and loop-free: from whatever state a peer sends on the wire, the Pipes
  entered along any number of hops are pairwise different and at most eight, and within that budget
  no hop to a fresh Pipe is refused.\<close>

theorem traversal_bounded:
  assumes "FromWire visited hopLimit = Inr s"
  shows "(advance_all s ps = Inr s' \<longrightarrow> VisitedIDs s' = visited @ ps \<and> distinct (visited @ ps)
            \<and> int (length (visited @ ps)) \<le> hopLimit \<and> hopLimit \<le> DefaultMaxPipeHops)
       \<and> (distinct (visited @ ps) \<and> int (length (visited @ ps)) \<le> hopLimit \<longrightarrow> is_ok (advance_all s ps))"
proof -
  have s: "VisitedIDs s = visited" "MaxHops s = hopLimit" "Remaining s = hopLimit - int (length visited)" and ok: "traversal_ok s"
    using assms by (auto simp: FromWire_Inr_iff)
  have "advance_all s ps = Inr s' \<Longrightarrow> VisitedIDs s' = visited @ ps \<and> distinct (visited @ ps)
      \<and> int (length (visited @ ps)) \<le> hopLimit \<and> hopLimit \<le> DefaultMaxPipeHops"
    using advance_all_ok [OF ok] s by (fastforce simp: traversal_ok_def)
  moreover have "distinct (visited @ ps) \<and> int (length (visited @ ps)) \<le> hopLimit \<Longrightarrow> is_ok (advance_all s ps)"
    using advance_all_complete [OF ok] s by (auto simp: is_ok_iff)
  ultimately show ?thesis by blast
qed

theorem traversal_bounded_witness:
  "is_ok (res_bind (FromWire [''pip_a''] 4) (\<lambda>s. advance_all s [''pip_b'', ''pip_c'']))"
proof -
  obtain s where s: "FromWire [''pip_a''] 4 = Inr s"
    by (simp add: FromWire_def DefaultMaxPipeHops_def)
  then have "is_ok (advance_all s [''pip_b'', ''pip_c''])"
    using traversal_bounded [OF s, of "[''pip_b'', ''pip_c'']"] by simp
  then show ?thesis by (simp add: s)
qed

end
