(* ===== verification/Base64.thy ===== *)
theory Base64
  imports GoNet
begin

text \<open>
  The encodings of encoding/base64 and encoding/base32 the credentials use: unpadded URL-safe
  base64 in both directions and unpadded standard base32 (encoding only). The decoder is that
  of \<^verbatim>\<open>base64.RawURLEncoding\<close>: carriage returns and newlines are skipped wherever they stand and
  the unused bits of the last character are ignored, which is why the code compares with the
  re-encoding.
\<close>

section \<open>Bytes\<close>

lemma byte_less [simp]: "byte c < 256"
  by (simp add: byte_def)

lemma byte_char_of [simp]: "byte (char_of n) = n mod 256"
  by (simp add: byte_def)

lemma char_of_byte [simp]: "char_of (byte c) = c"
  by (simp add: byte_def)

lemma byte_eq_iff: "byte c = byte d \<longleftrightarrow> c = d"
  by (simp add: byte_def)

section \<open>The base64 alphabet\<close>

definition b64_char :: "nat \<Rightarrow> char" where
  "b64_char n =
     (if n < 26 then char_of (65 + n)
      else if n < 52 then char_of (71 + n)
      else if n < 62 then char_of (n - 4)
      else if n = 62 then CHR ''-''
      else CHR ''_'')"

definition b64_val :: "char \<Rightarrow> nat option" where
  "b64_val c =
     (if is_upper c then Some (byte c - 65)
      else if is_lower c then Some (byte c - 71)
      else if is_digit c then Some (byte c + 4)
      else if c = CHR ''-'' then Some 62
      else if c = CHR ''_'' then Some 63
      else None)"

lemma b64_val_char [simp]: "n < 64 \<Longrightarrow> b64_val (b64_char n) = Some n"
  by (auto simp: b64_val_def b64_char_def is_upper_def is_lower_def is_digit_def byte_def)

lemma b64_val_less: "b64_val c = Some n \<Longrightarrow> n < 64"
  by (auto simp: b64_val_def is_upper_def is_lower_def is_digit_def split: if_splits)

lemma b64_char_graphic: "n < 64 \<Longrightarrow> graphic (b64_char n) \<and> b64_char n \<noteq> CHR ''=''"
  by (auto simp: graphic_def b64_char_def byte_def byte_eq_iff [symmetric])

section \<open>Encoding\<close>

fun b64_encode :: "string \<Rightarrow> string" where
  "b64_encode [] = []"
| "b64_encode [a] =
    [b64_char (byte a div 4), b64_char (byte a mod 4 * 16)]"
| "b64_encode [a, b] =
    [b64_char (byte a div 4), b64_char (byte a mod 4 * 16 + byte b div 16),
     b64_char (byte b mod 16 * 4)]"
| "b64_encode (a # b # c # s) =
    [b64_char (byte a div 4), b64_char (byte a mod 4 * 16 + byte b div 16),
     b64_char (byte b mod 16 * 4 + byte c div 64), b64_char (byte c mod 64)]
    @ b64_encode s"

section \<open>Decoding\<close>

text \<open>Three, two or one bytes out of the six-bit values of a group.\<close>

definition b64_byte1 :: "nat \<Rightarrow> nat \<Rightarrow> char" where "b64_byte1 v w = char_of (v * 4 + w div 16)"
definition b64_byte2 :: "nat \<Rightarrow> nat \<Rightarrow> char" where "b64_byte2 w x = char_of (w mod 16 * 16 + x div 4)"
definition b64_byte3 :: "nat \<Rightarrow> nat \<Rightarrow> char" where "b64_byte3 x y = char_of (x mod 4 * 64 + y)"

lemmas b64_bytes = b64_byte1_def b64_byte2_def b64_byte3_def

fun b64_groups :: "nat list \<Rightarrow> string option" where
  "b64_groups [] = Some []"
| "b64_groups [v] = None"
| "b64_groups [v, w] = Some [b64_byte1 v w]"
| "b64_groups [v, w, x] = Some [b64_byte1 v w, b64_byte2 w x]"
| "b64_groups (v # w # x # y # vs) =
    map_option (\<lambda>s. b64_byte1 v w # b64_byte2 w x # b64_byte3 x y # s) (b64_groups vs)"

fun those_vals :: "string \<Rightarrow> nat list option" where
  "those_vals [] = Some []"
| "those_vals (c # s) =
    (case b64_val c of None \<Rightarrow> None | Some v \<Rightarrow> map_option (Cons v) (those_vals s))"

definition newline :: "char \<Rightarrow> bool" where
  "newline c \<longleftrightarrow> byte c = 10 \<or> byte c = 13"

definition b64_decode :: "string \<Rightarrow> string option" where
  "b64_decode s = Option.bind (those_vals (filter (\<lambda>c. \<not> newline c) s)) b64_groups"

section \<open>Round trip\<close>

fun b64_vals :: "string \<Rightarrow> nat list" where
  "b64_vals [] = []"
| "b64_vals [a] = [byte a div 4, byte a mod 4 * 16]"
| "b64_vals [a, b] = [byte a div 4, byte a mod 4 * 16 + byte b div 16, byte b mod 16 * 4]"
| "b64_vals (a # b # c # s) =
    [byte a div 4, byte a mod 4 * 16 + byte b div 16, byte b mod 16 * 4 + byte c div 64,
     byte c mod 64] @ b64_vals s"

lemma byte_div: "byte a div 4 < 64" "byte a div 16 < 16" "byte a div 64 < 4"
  using byte_less [of a] by (simp_all add: less_mult_imp_div_less)

lemma six_bits:
  "byte a mod 4 * 16 < 64" "byte a mod 4 * 16 + byte b div 16 < 64" "byte b mod 16 * 4 < 64"
  "byte b mod 16 * 4 + byte c div 64 < 64" "byte c mod 64 < 64"
proof -
  have "byte a mod 4 < 4" "byte b mod 16 < 16" by simp_all
  then show "byte a mod 4 * 16 < 64" "byte a mod 4 * 16 + byte b div 16 < 64"
    "byte b mod 16 * 4 < 64" "byte b mod 16 * 4 + byte c div 64 < 64"
    using byte_div(2) [of b] byte_div(3) [of c] by linarith+
qed simp

lemma b64_encode_map: "b64_encode s = map b64_char (b64_vals s)"
  by (induction s rule: b64_encode.induct) simp_all

lemma b64_vals_less: "list_all (\<lambda>v. v < 64) (b64_vals s)"
  by (induction s rule: b64_vals.induct) (simp_all only: six_bits byte_div b64_vals.simps list.pred_inject append.simps simp_thms)

lemma those_vals_chars: "list_all (\<lambda>v. v < 64) vs \<Longrightarrow> those_vals (map b64_char vs) = Some vs"
  by (induction vs) simp_all

lemma split16: "y < 16 \<Longrightarrow> (x * 16 + y) div 16 = x" "y < 16 \<Longrightarrow> (x * 16 + y) mod 16 = y"
  for x y :: nat
  by simp_all

lemma split4: "y < 4 \<Longrightarrow> (x * 4 + y) div 4 = x" "y < 4 \<Longrightarrow> (x * 4 + y) mod 4 = y"
  for x y :: nat
  by simp_all

lemma b64_bytes_back:
  "b64_byte1 (byte a div 4) (byte a mod 4 * 16 + byte b div 16) = a"
  "b64_byte1 (byte a div 4) (byte a mod 4 * 16) = a"
  "b64_byte2 (byte a mod 4 * 16 + byte b div 16) (byte b mod 16 * 4 + byte c div 64) = b"
  "b64_byte2 (byte a mod 4 * 16 + byte b div 16) (byte b mod 16 * 4) = b"
  "b64_byte3 (byte b mod 16 * 4 + byte c div 64) (byte c mod 64) = c"
  using split16 [OF byte_div(2) [of b]] split4 [OF byte_div(3) [of c]]
  by (simp_all add: b64_bytes)

lemma b64_groups_vals: "b64_groups (b64_vals s) = Some s"
  by (induction s rule: b64_vals.induct)
    (simp_all only: b64_vals.simps append.simps b64_groups.simps b64_bytes_back option.map)

lemma graphic_not_newline: "graphic c \<Longrightarrow> \<not> newline c"
  by (auto simp: graphic_def newline_def)

lemma b64_encode_bytes: "c \<in> set (b64_encode s) \<Longrightarrow> graphic c \<and> c \<noteq> CHR ''=''"
  using b64_vals_less b64_char_graphic by (auto simp: b64_encode_map list_all_iff)

lemma b64_encode_graphic: "list_all graphic (b64_encode s)"
  using b64_encode_bytes by (auto simp: list_all_iff)

lemma b64_decode_encode [simp]: "b64_decode (b64_encode s) = Some s"
proof -
  have "filter (\<lambda>c. \<not> newline c) (b64_encode s) = b64_encode s"
    using b64_encode_bytes graphic_not_newline by (intro filter_True) auto
  then show ?thesis
    by (simp add: b64_decode_def b64_encode_map those_vals_chars b64_vals_less b64_groups_vals)
qed

lemma b64_encode_inject [simp]: "b64_encode s = b64_encode t \<longleftrightarrow> s = t"
  by (metis b64_decode_encode option.inject)

lemma b64_encode_Nil [simp]: "b64_encode s = [] \<longleftrightarrow> s = []"
  by (cases s rule: b64_encode.cases) simp_all

lemma length_b64_encode: "length (b64_encode s) = (4 * length s + 2) div 3"
  by (induction s rule: b64_encode.induct) simp_all

section \<open>Base32\<close>

definition b32_char :: "nat \<Rightarrow> char" where
  "b32_char n = (if n < 26 then char_of (65 + n) else char_of (24 + n))"

text \<open>The bits of the input, most significant first, in groups of five; the last group is
  filled with zero bits.\<close>

definition bits8 :: "char \<Rightarrow> bool list" where
  "bits8 c = map (\<lambda>i. byte c div 2 ^ i mod 2 = 1) (rev [0..<8])"

definition bits_val :: "bool list \<Rightarrow> nat" where
  "bits_val bs = foldl (\<lambda>n b. 2 * n + (if b then 1 else 0)) 0 bs"

function b32_groups :: "bool list \<Rightarrow> string" where
  "b32_groups bs =
    (if bs = [] then []
     else b32_char (bits_val (take 5 (bs @ replicate 4 False))) # b32_groups (drop 5 bs))"
  by pat_completeness auto
termination
  by (relation "measure length") (auto simp: length_greater_0_conv [symmetric] simp del: length_greater_0_conv)

declare b32_groups.simps [simp del]

definition b32_encode :: "string \<Rightarrow> string" where
  "b32_encode s = b32_groups (concat (map bits8 s))"

lemma length_b32_groups: "length (b32_groups bs) = (length bs + 4) div 5"
proof (induction bs rule: b32_groups.induct)
  case (1 bs)
  show ?case
  proof (cases "bs = []")
    case False
    then have "length (b32_groups bs) = Suc ((length (drop 5 bs) + 4) div 5)"
      using 1 by (simp add: b32_groups.simps [of bs])
    also have "\<dots> = (length bs + 4) div 5"
      using False by (cases "length bs \<le> 5") (auto simp: length_greater_0_conv [symmetric] simp del: length_greater_0_conv)
    finally show ?thesis .
  qed (simp add: b32_groups.simps)
qed

end
