(* ===== verification/GoTime.thy ===== *)
theory GoTime
  imports Base64
begin

text \<open>
  Package time as the code uses it: the calendar, the layout \<^verbatim>\<open>time.RFC3339Nano\<close> in both
  directions, and the JSON form of an instant. An instant read from text keeps the zone
  offset it was written with (a \<open>ztime\<close>), since it is written back with it.
\<close>

section \<open>The proleptic Gregorian calendar\<close>

definition days_before_year :: "int \<Rightarrow> int" where
  "days_before_year y = 365 * y + y div 4 - y div 100 + y div 400"

definition leap :: "int \<Rightarrow> bool" where
  "leap year \<longleftrightarrow> year mod 4 = 0 \<and> (year mod 100 \<noteq> 0 \<or> year mod 400 = 0)"

text \<open>Year and day of the year of a day counted from 1 January of year 1, by cycles of 400,
  100, 4 and 1 years, the last century and the last year of a cycle being the long ones.\<close>

definition year_yday :: "int \<Rightarrow> int \<times> int" where
  "year_yday d =
     (let a = d div 146097; r1 = d mod 146097;
          b = min 3 (r1 div 36524); r2 = r1 - 36524 * b;
          c = r2 div 1461; r3 = r2 mod 1461;
          e = min 3 (r3 div 365)
      in (400 * a + 100 * b + 4 * c + e + 1, r3 - 365 * e))"

definition month_lengths :: "bool \<Rightarrow> int list" where
  "month_lengths l = [31, if l then 29 else 28, 31, 30, 31, 30, 31, 31, 30, 31, 30, 31]"

fun month_day :: "int list \<Rightarrow> nat \<Rightarrow> int \<Rightarrow> nat \<times> int" where
  "month_day [] m y = (m, y + 1)"
| "month_day (l # ls) m y = (if y < l then (m, y + 1) else month_day ls (Suc m) (y - l))"

definition days_before_month :: "bool \<Rightarrow> nat \<Rightarrow> int" where
  "days_before_month l m = sum_list (take (m - 1) (month_lengths l))"

definition days_in :: "bool \<Rightarrow> nat \<Rightarrow> int" where
  "days_in l m = month_lengths l ! (m - 1)"

definition unix_epoch_day :: int where "unix_epoch_day = 719162"

record date =
  year :: int
  month :: nat
  day :: int
  hour :: int
  min' :: int
  sec :: int
  nsec :: int

definition date_of :: "int \<Rightarrow> date" where
  "date_of t =
     (let s = t div second; d = s div 86400 + unix_epoch_day; r = s mod 86400;
          (y, yd) = year_yday d; (m, md) = month_day (month_lengths (leap y)) 1 yd
      in \<lparr>year = y, month = m, day = md, hour = r div 3600, min' = r div 60 mod 60,
          sec = r mod 60, nsec = t mod second\<rparr>)"

definition of_date :: "date \<Rightarrow> int" where
  "of_date x =
     ((((days_before_year (year x - 1) + days_before_month (leap (year x)) (month x) + day x - 1
         - unix_epoch_day) * 24 + hour x) * 60 + min' x) * 60 + sec x) * second + nsec x"

definition date_ok :: "date \<Rightarrow> bool" where
  "date_ok x \<longleftrightarrow> 1 \<le> month x \<and> month x \<le> 12 \<and> 1 \<le> day x \<and> day x \<le> days_in (leap (year x)) (month x)
     \<and> 0 \<le> hour x \<and> hour x < 24 \<and> 0 \<le> min' x \<and> min' x < 60 \<and> 0 \<le> sec x \<and> sec x < 60
     \<and> 0 \<le> nsec x \<and> nsec x < second"

section \<open>The calendar is right\<close>

lemma leap_last:
  assumes "y = 100 * k + 4 * n" "0 < n" "n < 25"
  shows "leap y"
proof -
  have "y = 4 * (25 * k + n)"
    using assms(1) by simp
  then have "y mod 4 = 0"
    by simp
  moreover have "y mod 100 = 4 * n"
    using assms by simp
  ultimately show ?thesis
    using assms(2) by (simp add: leap_def)
qed

lemma leap_cycle: "y = 400 * k \<Longrightarrow> leap y"
  by (simp add: leap_def)

lemma year_yday_sound:
  assumes "year_yday d = (y, yd)"
  shows "d = days_before_year (y - 1) + yd" "0 \<le> yd" "yd < (if leap y then 366 else 365)"
proof -
  define a where "a = d div 146097"
  define r1 where "r1 = d mod 146097"
  define b where "b = min 3 (r1 div 36524)"
  define r2 where "r2 = r1 - 36524 * b"
  define c where "c = r2 div 1461"
  define r3 where "r3 = r2 mod 1461"
  define e where "e = min 3 (r3 div 365)"
  have "year_yday d = (400 * a + 100 * b + 4 * c + e + 1, r3 - 365 * e)"
    unfolding year_yday_def Let_def e_def r3_def c_def r2_def b_def r1_def a_def by (rule refl)
  then have y: "y - 1 = 400 * a + 100 * b + 4 * c + e" and yd: "yd = r3 - 365 * e"
    using assms by simp_all
  have d: "d = 146097 * a + r1" "0 \<le> r1" "r1 < 146097"
    by (simp_all add: a_def r1_def)
  have b: "0 \<le> b" "b \<le> 3" "0 \<le> r2" "r2 \<le> 36524" "r2 = 36524 \<longrightarrow> b = 3"
    using d(2,3) unfolding r2_def b_def by (auto simp: min_def)
  have c: "r2 = 1461 * c + r3" "0 \<le> r3" "r3 < 1461" "0 \<le> c" "c \<le> 24"
    using b(3,4) by (auto simp: c_def r3_def pos_imp_zdiv_nonneg_iff)
  have e: "0 \<le> e" "e \<le> 3" "365 * e \<le> r3" "r3 \<le> 365 * e + 365" "r3 = 365 * e + 365 \<longrightarrow> e = 3"
    using c(2,3) unfolding e_def by (auto simp: min_def)
  have div: "(y - 1) div 4 = 100 * a + 25 * b + c" "(y - 1) div 100 = 4 * a + b"
    "(y - 1) div 400 = a"
    using b(1,2) c(4,5) e(1,2) unfolding y by (simp_all add: div_pos_geq)
  show "d = days_before_year (y - 1) + yd"
    unfolding days_before_year_def div unfolding y using yd d(1) c(1) r2_def by (simp add: algebra_simps)
  show "0 \<le> yd" using yd e(3) by simp
  show "yd < (if leap y then 366 else 365)"
  proof (cases "yd = 365")
    case True
    then have last: "e = 3" "r3 = 1460"
      using e yd by auto
    have "leap y"
    proof (cases "c = 24")
      case True
      then have "b = 3" using b(5) c(1) last by simp
      then show ?thesis
        using leap_cycle [of y "a + 1"] y last True by simp
    next
      case False
      then show ?thesis
        using leap_last [of y "4 * a + b" "c + 1"] y last c(4,5) by simp
    qed
    then show ?thesis using True by simp
  next
    case False
    then show ?thesis using yd e(4) by simp
  qed
qed

lemma month_day_sound:
  assumes "month_day ls m y = (m', d)" "0 \<le> y" "y < sum_list ls"
  shows "m \<le> m'" "m' < m + length ls" "1 \<le> d" "d \<le> ls ! (m' - m)"
    "y = sum_list (take (m' - m) ls) + d - 1"
proof -
  have "m \<le> m' \<and> m' < m + length ls \<and> 1 \<le> d \<and> d \<le> ls ! (m' - m)
      \<and> y = sum_list (take (m' - m) ls) + d - 1"
    using assms
  proof (induction ls arbitrary: m y)
    case (Cons l ls)
    show ?case
    proof (cases "y < l")
      case False
      then have "month_day ls (Suc m) (y - l) = (m', d)" "0 \<le> y - l" "y - l < sum_list ls"
        using Cons.prems by auto
      from Cons.IH [OF this] show ?thesis
        by (auto simp: Suc_diff_le nth_Cons' take_Cons' Suc_le_eq)
    qed (use Cons.prems in auto)
  qed simp
  then show "m \<le> m'" "m' < m + length ls" "1 \<le> d" "d \<le> ls ! (m' - m)"
    "y = sum_list (take (m' - m) ls) + d - 1" by auto
qed

lemma sum_month_lengths: "sum_list (month_lengths l) = (if l then 366 else 365)"
  by (simp add: month_lengths_def)

lemma clock_back:
  fixes r :: int
  shows "(r div 3600 * 60 + r div 60 mod 60) * 60 + r mod 60 = r"
proof -
  have "r div 3600 = r div 60 div 60"
    by (simp add: zdiv_zmult2_eq [symmetric])
  then have "r div 3600 * 60 + r div 60 mod 60 = r div 60"
    by (metis div_mult_mod_eq)
  then show ?thesis
    by (metis div_mult_mod_eq)
qed

lemma date_of_fields:
  obtains y yd m md where "date_of t = \<lparr>year = y, month = m, day = md,
      hour = t div second mod 86400 div 3600, min' = t div second mod 86400 div 60 mod 60,
      sec = t div second mod 86400 mod 60, nsec = t mod second\<rparr>"
    "t div second div 86400 + unix_epoch_day = days_before_year (y - 1) + yd"
    "1 \<le> m" "m \<le> 12" "1 \<le> md" "md \<le> days_in (leap y) m"
    "yd = days_before_month (leap y) m + md - 1"
proof -
  obtain y yd where y: "year_yday (t div second div 86400 + unix_epoch_day) = (y, yd)"
    by (cases "year_yday (t div second div 86400 + unix_epoch_day)")
  obtain m md where m: "month_day (month_lengths (leap y)) 1 yd = (m, md)"
    by (cases "month_day (month_lengths (leap y)) 1 yd")
  note Y = year_yday_sound [OF y]
  have yd: "0 \<le> yd" "yd < sum_list (month_lengths (leap y))"
    using Y(2,3) by (simp_all add: sum_month_lengths)
  note M = month_day_sound [OF m yd]
  have len: "length (month_lengths (leap y)) = 12"
    by (simp add: month_lengths_def)
  show thesis
  proof (rule that)
    show "date_of t = \<lparr>year = y, month = m, day = md,
      hour = t div second mod 86400 div 3600, min' = t div second mod 86400 div 60 mod 60,
      sec = t div second mod 86400 mod 60, nsec = t mod second\<rparr>"
      using m by (simp add: date_of_def Let_def y)
    show "1 \<le> m" "1 \<le> md" "m \<le> 12" using M(1,2,3) len by auto
    show "md \<le> days_in (leap y) m" using M(4) by (simp add: days_in_def)
    show "yd = days_before_month (leap y) m + md - 1"
      using M(5) by (simp add: days_before_month_def)
  qed (rule Y(1))
qed

lemma day_clock:
  fixes s :: int
  shows "0 \<le> s mod 86400 div 3600" "s mod 86400 div 3600 < 24"
proof -
  have "0 \<le> s mod 86400" "s mod 86400 < 86400" by simp_all
  then show "0 \<le> s mod 86400 div 3600" "s mod 86400 div 3600 < 24"
    by (simp_all add: pos_imp_zdiv_nonneg_iff int_div_less_self)
qed

lemma date_of_ok: "date_ok (date_of t)"
proof -
  obtain y yd m md where f: "date_of t = \<lparr>year = y, month = m, day = md,
      hour = t div second mod 86400 div 3600, min' = t div second mod 86400 div 60 mod 60,
      sec = t div second mod 86400 mod 60, nsec = t mod second\<rparr>"
    "1 \<le> m" "m \<le> 12" "1 \<le> md" "md \<le> days_in (leap y) m"
    by (rule date_of_fields)
  have "0 \<le> t mod second" "t mod second < second" by (simp_all add: second_def)
  then show ?thesis
    using f(2-5) day_clock by (simp add: f(1) date_ok_def)
qed

lemma of_date_of [simp]: "of_date (date_of t) = t"
proof -
  obtain y yd m md where f: "date_of t = \<lparr>year = y, month = m, day = md,
      hour = t div second mod 86400 div 3600, min' = t div second mod 86400 div 60 mod 60,
      sec = t div second mod 86400 mod 60, nsec = t mod second\<rparr>"
    "t div second div 86400 + unix_epoch_day = days_before_year (y - 1) + yd"
    "yd = days_before_month (leap y) m + md - 1"
    by (rule date_of_fields)
  define r where "r = t div second mod 86400"
  have "of_date (date_of t) =
      (((t div second div 86400 * 24 + r div 3600) * 60 + r div 60 mod 60) * 60 + r mod 60) * second
      + t mod second"
    using f(2,3) by (simp add: of_date_def f(1) r_def)
  also have "\<dots> = (t div second div 86400 * 86400
      + ((r div 3600 * 60 + r div 60 mod 60) * 60 + r mod 60)) * second + t mod second"
    by (simp add: algebra_simps)
  also have "\<dots> = (t div second div 86400 * 86400 + r) * second + t mod second"
    by (simp only: clock_back)
  also have "\<dots> = t"
    by (simp only: r_def div_mult_mod_eq)
  finally show ?thesis .
qed

section \<open>Decimal fields\<close>

definition dig :: "nat \<Rightarrow> char" where "dig n = char_of (48 + n mod 10)"

fun pad :: "nat \<Rightarrow> nat \<Rightarrow> string" where
  "pad 0 n = []"
| "pad (Suc w) n = pad w (n div 10) @ [dig n]"

function decimal :: "nat \<Rightarrow> string" where
  "decimal n = (if n < 10 then [dig n] else decimal (n div 10) @ [dig n])"
  by pat_completeness auto
termination by (relation "measure id") auto

declare decimal.simps [simp del]

definition digit_val :: "char \<Rightarrow> nat" where "digit_val c = byte c - 48"

definition digits_val :: "string \<Rightarrow> nat" where
  "digits_val = foldl (\<lambda>n c. 10 * n + digit_val c) 0"

lemma dig_simps [simp]: "is_digit (dig n)" "digit_val (dig n) = n mod 10"
  by (simp_all add: dig_def is_digit_def digit_val_def)

lemma length_pad [simp]: "length (pad w n) = w"
  by (induction w arbitrary: n) auto

lemma pad_digits: "list_all is_digit (pad w n)"
  by (induction w arbitrary: n) auto

lemma digits_val_snoc [simp]: "digits_val (s @ [c]) = 10 * digits_val s + digit_val c"
  by (simp add: digits_val_def)

lemma digits_val_pad: "n < 10 ^ w \<Longrightarrow> digits_val (pad w n) = n"
proof (induction w arbitrary: n)
  case (Suc w)
  then have "digits_val (pad w (n div 10)) = n div 10"
    by (intro Suc.IH) (simp add: less_mult_imp_div_less)
  then show ?case by simp
qed (simp add: digits_val_def)

lemma decimal_digits: "list_all is_digit (decimal n)" "decimal n \<noteq> []"
  by (induction n rule: decimal.induct, subst decimal.simps, simp) (subst decimal.simps, simp)

lemma digits_val_decimal [simp]: "digits_val (decimal n) = n"
  by (induction n rule: decimal.induct, subst decimal.simps) (simp add: digits_val_def)

section \<open>Writing RFC 3339\<close>

type_synonym ztime = "int \<times> int"

abbreviation instant :: "ztime \<Rightarrow> gotime" where "instant \<equiv> fst"

definition UTC :: "gotime \<Rightarrow> ztime" where "UTC t = (t, 0)"

definition year_digits :: "int \<Rightarrow> string" where
  "year_digits y =
     (if y < 0 then CHR ''-'' # (if y > - 10000 then pad 4 (nat (- y)) else decimal (nat (- y)))
      else if y < 10000 then pad 4 (nat y) else decimal (nat y))"

definition trim_zeros :: "string \<Rightarrow> string" where
  "trim_zeros s = rev (dropWhile (\<lambda>c. c = CHR ''0'') (rev s))"

definition fraction :: "int \<Rightarrow> string" where
  "fraction ns = (if ns = 0 then [] else CHR ''.'' # trim_zeros (pad 9 (nat ns)))"

definition zone_suffix :: "int \<Rightarrow> string" where
  "zone_suffix off =
     (if off = 0 then ''Z''
      else (if off < 0 then CHR ''-'' else CHR ''+'')
           # pad 2 (nat (\<bar>off\<bar> div 60)) @ '':'' @ pad 2 (nat (\<bar>off\<bar> mod 60)))"

text \<open>Everything up to the seconds: fixed width for four-digit years.\<close>

definition stamp :: "date \<Rightarrow> string" where
  "stamp x = year_digits (year x) @ ''-'' @ pad 2 (month x) @ ''-'' @ pad 2 (nat (day x)) @ ''T''
     @ pad 2 (nat (hour x)) @ '':'' @ pad 2 (nat (min' x)) @ '':'' @ pad 2 (nat (sec x))"

text \<open>\<^verbatim>\<open>t.Format(time.RFC3339Nano)\<close>; the zone offset is in minutes.\<close>

definition Format :: "ztime \<Rightarrow> string" where
  "Format zt =
     (let x = date_of (fst zt + snd zt * minute)
      in stamp x @ fraction (nsec x) @ zone_suffix (snd zt))"

text \<open>\<^verbatim>\<open>t.UTC().Format(time.RFC3339Nano)\<close>, the form of every timestamp column.\<close>

definition FormatUTC :: "gotime \<Rightarrow> string" where "FormatUTC t = Format (UTC t)"

section \<open>Reading RFC 3339\<close>

fun parse_digits :: "nat \<Rightarrow> string \<Rightarrow> (nat \<times> string) option" where
  "parse_digits w s =
    (if w \<le> length s \<and> list_all is_digit (take w s)
     then Some (digits_val (take w s), drop w s) else None)"

text \<open>The hour of the lenient parser may have one digit.\<close>

definition parse_hour :: "bool \<Rightarrow> string \<Rightarrow> (nat \<times> string) option" where
  "parse_hour strict s =
     (case parse_digits 2 s of
        Some r \<Rightarrow> Some r
      | None \<Rightarrow> if strict then None else parse_digits 1 s)"

fun expect :: "char \<Rightarrow> string \<Rightarrow> string option" where
  "expect c [] = None"
| "expect c (d # s) = (if c = d then Some s else None)"

definition parse_fraction :: "bool \<Rightarrow> string \<Rightarrow> nat \<times> string" where
  "parse_fraction strict s =
     (case s of
        p # d # t \<Rightarrow>
          if (p = CHR ''.'' \<or> (\<not> strict \<and> p = CHR '','')) \<and> is_digit d
          then (digits_val (take 9 (takeWhile is_digit (d # t) @ replicate 9 (CHR ''0''))),
                dropWhile is_digit (d # t))
          else (0, s)
      | _ \<Rightarrow> (0, s))"

definition parse_zone :: "bool \<Rightarrow> string \<Rightarrow> int option" where
  "parse_zone strict s =
     (if s = ''Z'' then Some 0
      else case s of
        c # r \<Rightarrow>
          if c = CHR ''+'' \<or> c = CHR ''-'' then
            Option.bind (parse_digits 2 r) (\<lambda>(h, r). Option.bind (expect (CHR '':'') r) (\<lambda>r.
            Option.bind (parse_digits 2 r) (\<lambda>(m, r).
              if r = [] \<and> (if strict then h < 24 \<and> m < 60 else h \<le> 24 \<and> m \<le> 60)
              then Some ((if c = CHR ''-'' then -1 else 1) * int (h * 60 + m)) else None)))
          else None
      | [] \<Rightarrow> None)"

text \<open>\<^verbatim>\<open>time.Parse(time.RFC3339Nano, s)\<close> (lenient) and the parser of
  \<^verbatim>\<open>Time.UnmarshalJSON\<close> (strict).\<close>

definition ParseTime :: "bool \<Rightarrow> string \<Rightarrow> ztime option" where
  "ParseTime strict s =
     Option.bind (parse_digits 4 s) (\<lambda>(y, s). Option.bind (expect (CHR ''-'') s) (\<lambda>s.
     Option.bind (parse_digits 2 s) (\<lambda>(mo, s). Option.bind (expect (CHR ''-'') s) (\<lambda>s.
     Option.bind (parse_digits 2 s) (\<lambda>(d, s). Option.bind (expect (CHR ''T'') s) (\<lambda>s.
     Option.bind (parse_hour strict s) (\<lambda>(h, s). Option.bind (expect (CHR '':'') s) (\<lambda>s.
     Option.bind (parse_digits 2 s) (\<lambda>(mi, s). Option.bind (expect (CHR '':'') s) (\<lambda>s.
     Option.bind (parse_digits 2 s) (\<lambda>(sc, s).
     let (ns, s) = parse_fraction strict s in
     Option.bind (parse_zone strict s) (\<lambda>off.
     let x = \<lparr>year = int y, month = mo, day = int d, hour = int h, min' = int mi, sec = int sc,
              nsec = int ns\<rparr>
     in if 1 \<le> mo \<and> mo \<le> 12 \<and> date_ok x then Some (of_date x - off * minute, off) else None))))))))))))"

section \<open>JSON form\<close>

text \<open>\<^verbatim>\<open>Time.MarshalJSON\<close>: the year must have four digits and the zone hour must be below
  24.\<close>

definition MarshalTime :: "ztime \<Rightarrow> string result" where
  "MarshalTime zt =
     (let y = year (date_of (fst zt + snd zt * minute)) in
      if y < 0 \<or> y > 9999 then Inl (Error ''Time.MarshalJSON: year outside of range [0,9999]'' [])
      else if \<bar>snd zt\<bar> div 60 \<ge> 24
      then Inl (Error ''Time.MarshalJSON: timezone hour outside of range [0,23]'' [])
      else Inr (CHR 0x22 # Format zt @ [CHR 0x22]))"

section \<open>Reading back what was written\<close>

lemma parse_digits_pad: "n < 10 ^ w \<Longrightarrow> parse_digits w (pad w n @ s) = Some (n, s)"
  using pad_digits [of w n] by (simp add: digits_val_pad)

lemma parse_hour_pad: "n < 100 \<Longrightarrow> parse_hour strict (pad 2 n @ s) = Some (n, s)"
  using parse_digits_pad [of n 2 s] by (simp add: parse_hour_def del: parse_digits.simps pad.simps)

lemma trim_zeros_pad: "\<exists>k. s = trim_zeros s @ replicate k (CHR ''0'')"
proof -
  have "rev s = takeWhile (\<lambda>c. c = CHR ''0'') (rev s) @ dropWhile (\<lambda>c. c = CHR ''0'') (rev s)"
    by simp
  then have "s = trim_zeros s @ rev (takeWhile (\<lambda>c. c = CHR ''0'') (rev s))"
    unfolding trim_zeros_def by (metis rev_append rev_rev_ident)
  moreover have "takeWhile (\<lambda>c. c = CHR ''0'') (rev s)
      = replicate (length (takeWhile (\<lambda>c. c = CHR ''0'') (rev s))) (CHR ''0'')"
    by (rule replicate_length_same [symmetric]) (auto dest: set_takeWhileD)
  ultimately show ?thesis
    by (metis rev_replicate)
qed

lemma trim_zeros_refill:
  assumes "length s = n"
  shows "take n (trim_zeros s @ replicate n (CHR ''0'')) = s"
proof -
  obtain k where k: "s = trim_zeros s @ replicate k (CHR ''0'')"
    using trim_zeros_pad by blast
  then have "k \<le> n"
    using assms by (metis le_add2 length_append length_replicate)
  moreover have "length (trim_zeros s) = n - k"
    using k assms by (metis add_diff_cancel_right' length_append length_replicate)
  ultimately show ?thesis
    using k by (simp add: min_def)
qed

lemma trim_zeros_digits: "list_all is_digit s \<Longrightarrow> list_all is_digit (trim_zeros s)"
  using trim_zeros_pad [of s] by (metis list_all_append)

lemma digits_val_zeros: "digits_val (replicate k (CHR ''0'')) = 0"
proof (induction k)
  case (Suc k)
  have "replicate (Suc k) (CHR ''0'') = replicate k (CHR ''0'') @ [CHR ''0'']"
    by (simp add: replicate_append_same)
  with Suc show ?case
    by (simp add: digit_val_def byte_def del: replicate.simps)
qed (simp add: digits_val_def)

lemma trim_zeros_Nil: "trim_zeros s = [] \<Longrightarrow> digits_val s = 0"
  using trim_zeros_pad [of s] digits_val_zeros by fastforce

lemma takeWhile_digits: "list_all is_digit ds \<Longrightarrow> \<not> is_digit c \<Longrightarrow>
    takeWhile is_digit (ds @ c # s) = ds \<and> dropWhile is_digit (ds @ c # s) = c # s"
  by (induction ds) auto

lemma parse_fraction_back:
  assumes "0 \<le> ns" "ns < second"
  shows "parse_fraction strict (fraction ns @ ''Z'') = (nat ns, ''Z'')"
proof (cases "ns = 0")
  case False
  have bound: "nat ns < 10 ^ 9" using assms by (simp add: second_def)
  have nonempty: "trim_zeros (pad 9 (nat ns)) \<noteq> []"
    using trim_zeros_Nil [of "pad 9 (nat ns)"] digits_val_pad [OF bound] False assms by auto
  have digits: "list_all is_digit (trim_zeros (pad 9 (nat ns)))"
    by (simp add: trim_zeros_digits pad_digits del: pad.simps)
  obtain d ds where d: "trim_zeros (pad 9 (nat ns)) = d # ds"
    using nonempty by (auto simp: neq_Nil_conv)
  have "\<not> is_digit (CHR ''Z'')" by (simp add: is_digit_def byte_def)
  from takeWhile_digits [OF digits this, of "[]"]
  have "parse_fraction strict (fraction ns @ ''Z'')
      = (digits_val (take 9 (trim_zeros (pad 9 (nat ns)) @ replicate 9 (CHR ''0''))), ''Z'')"
    using digits False by (simp add: parse_fraction_def fraction_def d del: pad.simps take_append replicate.simps)
  then show ?thesis
    by (simp only: trim_zeros_refill [OF length_pad] digits_val_pad [OF bound])
qed (simp add: parse_fraction_def fraction_def)

lemma days_in_31: "1 \<le> m \<Longrightarrow> m \<le> 12 \<Longrightarrow> days_in l m \<le> 31"
proof -
  assume "1 \<le> m" "m \<le> 12"
  then have "days_in l m \<in> set (month_lengths l)"
    unfolding days_in_def by (intro nth_mem) (simp add: month_lengths_def)
  then show ?thesis by (auto simp: month_lengths_def split: if_splits)
qed

lemma ParseTime_FormatUTC:
  assumes "0 \<le> year (date_of t)" "year (date_of t) \<le> 9999"
  shows "ParseTime strict (FormatUTC t) = Some (UTC t)"
proof -
  define x where "x = date_of t"
  have ok: "date_ok x" by (simp add: x_def date_of_ok)
  then have m: "1 \<le> month x" "month x \<le> 12" by (simp_all add: date_ok_def)
  have bounds: "nat (year x) < 10 ^ 4" "month x < 10 ^ 2" "nat (day x) < 10 ^ 2" "nat (hour x) < 100"
    "nat (min' x) < 10 ^ 2" "nat (sec x) < 10 ^ 2"
    using assms ok days_in_31 [OF m, of "leap (year x)"] by (auto simp: x_def [symmetric] date_ok_def)
  have ns: "0 \<le> nsec x" "nsec x < second" using ok by (simp_all add: date_ok_def)
  have nonneg: "0 \<le> year x" "0 \<le> day x" "0 \<le> hour x" "0 \<le> min' x" "0 \<le> sec x" "0 \<le> nsec x"
    using assms ok by (simp_all add: x_def [symmetric] date_ok_def)
  have fields: "\<lparr>year = year x, month = month x, day = day x, hour = hour x, min' = min' x,
      sec = sec x, nsec = nsec x\<rparr> = x"
    by (cases x) simp
  have year: "year_digits (year x) = pad 4 (nat (year x))"
    using assms by (simp add: year_digits_def x_def)
  have "FormatUTC t = pad 4 (nat (year x)) @ ''-'' @ pad 2 (month x) @ ''-'' @ pad 2 (nat (day x)) @ ''T''
     @ pad 2 (nat (hour x)) @ '':'' @ pad 2 (nat (min' x)) @ '':'' @ pad 2 (nat (sec x))
     @ fraction (nsec x) @ ''Z''"
    by (simp add: FormatUTC_def Format_def UTC_def Let_def stamp_def year zone_suffix_def
        del: pad.simps flip: x_def)
  then have "ParseTime strict (FormatUTC t) = Some (of_date x, 0)"
    using m ok
    by (simp add: ParseTime_def Let_def bounds(1,2,3,5,6) [THEN parse_digits_pad]
        parse_hour_pad [OF bounds(4)] parse_fraction_back [OF ns] nonneg fields parse_zone_def del: parse_digits.simps pad.simps)
  then show ?thesis
    by (simp add: x_def UTC_def)
qed

section \<open>Text order and time order\<close>

lemma less_char_byte: "c < d \<longleftrightarrow> byte c < byte d"
  by (simp add: less_char_def byte_def)

lemma lex_decimal:
  "r < 10 \<Longrightarrow> s < 10 \<Longrightarrow> a * 10 + r < b * 10 + s \<longleftrightarrow> a < b \<or> a = b \<and> r < s" for r s a b :: nat
  by arith

lemma less_div_mod_10: "m < n \<longleftrightarrow> m div 10 < n div 10 \<or> m div 10 = n div 10 \<and> m mod 10 < n mod 10"
  for m n :: nat
  using lex_decimal [of "m mod 10" "n mod 10" "m div 10" "n div 10"] by simp

lemma eq_div_mod_10: "m = n \<longleftrightarrow> m div 10 = n div 10 \<and> m mod 10 = n mod 10" for m n :: nat
  by (metis div_mult_mod_eq)

lemma dig_less: "dig m < dig n \<longleftrightarrow> m mod 10 < n mod 10" "dig m = dig n \<longleftrightarrow> m mod 10 = n mod 10"
proof -
  have "m mod 10 < 10" "n mod 10 < 10" by simp_all
  then have "byte (dig m) = 48 + m mod 10" "byte (dig n) = 48 + n mod 10"
    by (simp_all add: dig_def)
  then show "dig m < dig n \<longleftrightarrow> m mod 10 < n mod 10" "dig m = dig n \<longleftrightarrow> m mod 10 = n mod 10"
    by (simp_all add: less_char_byte flip: byte_eq_iff)
qed

lemma pad_less:
  assumes "m < 10 ^ w" "n < 10 ^ w"
  shows "pad w m @ s < pad w n @ t \<longleftrightarrow> m < n \<or> m = n \<and> s < t"
  using assms
proof (induction w arbitrary: m n s t)
  case (Suc w)
  have "pad w (m div 10) @ dig m # s < pad w (n div 10) @ dig n # t \<longleftrightarrow>
      m div 10 < n div 10 \<or> m div 10 = n div 10 \<and> dig m # s < dig n # t"
    using Suc.prems by (intro Suc.IH) (auto simp: less_mult_imp_div_less)
  then show ?case
    using less_div_mod_10 [of m n] eq_div_mod_10 [of m n] dig_less [of m n] by auto
qed simp

text \<open>The order of two dates, field by field down to the second.\<close>

definition date_less :: "date \<Rightarrow> date \<Rightarrow> bool" where
  "date_less x y \<longleftrightarrow>
     year x < year y \<or> year x = year y \<and>
     (month x < month y \<or> month x = month y \<and>
      (day x < day y \<or> day x = day y \<and>
       (hour x < hour y \<or> hour x = hour y \<and>
        (min' x < min' y \<or> min' x = min' y \<and> sec x < sec y))))"

lemma date_bounds:
  assumes "date_ok x"
  shows "month x < 10 ^ 2" "nat (day x) < 10 ^ 2" "nat (hour x) < 10 ^ 2" "nat (min' x) < 10 ^ 2"
    "nat (sec x) < 10 ^ 2" "0 \<le> day x" "0 \<le> hour x" "0 \<le> min' x" "0 \<le> sec x"
proof -
  have m: "1 \<le> month x" "month x \<le> 12" using assms by (simp_all add: date_ok_def)
  show "month x < 10 ^ 2" "nat (day x) < 10 ^ 2" "nat (hour x) < 10 ^ 2" "nat (min' x) < 10 ^ 2"
    "nat (sec x) < 10 ^ 2" "0 \<le> day x" "0 \<le> hour x" "0 \<le> min' x" "0 \<le> sec x"
    using assms days_in_31 [OF m, of "leap (year x)"] by (auto simp: date_ok_def)
qed

lemma stamp_less:
  assumes "date_ok x" "date_ok y" "date_less x y"
    and "0 \<le> year x" "year x \<le> 9999" "0 \<le> year y" "year y \<le> 9999"
  shows "stamp x @ s < stamp y @ t"
proof -
  have "nat (year x) < 10 ^ 4" "nat (year y) < 10 ^ 4" using assms(4-7) by simp_all
  note rules = pad_less [OF this] pad_less [OF date_bounds(1) [OF assms(1)] date_bounds(1) [OF assms(2)]]
    pad_less [OF date_bounds(2) [OF assms(1)] date_bounds(2) [OF assms(2)]]
    pad_less [OF date_bounds(3) [OF assms(1)] date_bounds(3) [OF assms(2)]]
    pad_less [OF date_bounds(4) [OF assms(1)] date_bounds(4) [OF assms(2)]]
    pad_less [OF date_bounds(5) [OF assms(1)] date_bounds(5) [OF assms(2)]]
  show ?thesis
    using assms(3-7) date_bounds(6-9) [OF assms(1)] date_bounds(6-9) [OF assms(2)]
    by (simp add: stamp_def year_digits_def rules date_less_def eq_nat_nat_iff del: pad.simps)
      (elim disjE conjE; simp)
qed

lemma div_step:
  fixes y n :: int
  assumes "0 < n"
  shows "(y + 1) div n = y div n + (if (y + 1) mod n = 0 then 1 else 0)"
proof -
  define q r where "q = (y + 1) div n" "r = (y + 1) mod n"
  have y: "y = n * q + r - 1" "0 \<le> r" "r < n"
    using assms by (simp_all add: q_r_def(1) q_r_def(2))
  show ?thesis
  proof (cases "r = 0")
    case True
    then have "y = n * (q - 1) + (n - 1)" using y by (simp add: algebra_simps)
    then have "y div n = q - 1" using assms by (intro int_div_pos_eq [of _ _ _ "n - 1"]) auto
    then show ?thesis using True q_r_def by simp
  next
    case False
    then have "y div n = q" using y by (intro int_div_pos_eq [of _ _ _ "r - 1"]) auto
    then show ?thesis using False q_r_def by simp
  qed
qed

lemma leap_count:
  assumes "b \<Longrightarrow> a" "c \<Longrightarrow> b"
  shows "(if a \<and> (\<not> b \<or> c) then 366 else 365)
    = 365 + (if a then 1 else 0) - (if b then 1 else 0) + (if c then 1 else (0 :: int))"
  using assms by (cases a; cases b; cases c) auto

lemma days_before_year_Suc:
  "days_before_year (y + 1) = days_before_year y + (if leap (y + 1) then 366 else 365)"
proof -
  have "(y + 1) mod 100 = 0 \<Longrightarrow> (y + 1) mod 4 = 0" "(y + 1) mod 400 = 0 \<Longrightarrow> (y + 1) mod 100 = 0"
    by (simp_all only: mod_eq_0_iff_dvd) (auto elim: dvd_trans [rotated])
  then have days: "(if leap (y + 1) then 366 else 365) = 365 + (if (y + 1) mod 4 = 0 then 1 else 0)
      - (if (y + 1) mod 100 = 0 then 1 else 0) + (if (y + 1) mod 400 = 0 then 1 else (0 :: int))"
    unfolding leap_def by (rule leap_count)
  show ?thesis
    unfolding days_before_year_def days div_step [of 4 y, OF zero_less_numeral]
      div_step [of 100 y, OF zero_less_numeral] div_step [of 400 y, OF zero_less_numeral]
    by (simp only: ring_distribs mult_1_right)
qed

lemma days_before_year_mono: "y \<le> z \<Longrightarrow> days_before_year y \<le> days_before_year z"
  by (induction z rule: int_ge_induct) (auto simp: days_before_year_Suc)

lemma month_day_mono:
  assumes "y < z" "month_day ls m y = (m1, d1)" "month_day ls m z = (m2, d2)"
  shows "m1 < m2 \<or> m1 = m2 \<and> d1 < d2"
proof -
  have later: "m \<le> m'" if "month_day ls m y = (m', d)" for ls m y m' d
    using that
  proof (induction ls arbitrary: m y)
    case (Cons l ls)
    then show ?case
      by (cases "y < l") (auto dest: Cons.IH)
  qed simp
  show ?thesis
    using assms
  proof (induction ls arbitrary: m y z)
    case (Cons l ls)
    then show ?case
      using later [of ls "Suc m" "z - l" m2 d2] Cons.IH [of "y - l" "z - l" "Suc m"]
      by (simp split: if_splits)
  qed auto
qed

lemma lex_clock:
  fixes r s :: int
  assumes "r < s" "0 < n"
  shows "r div n < s div n \<or> r div n = s div n \<and> r mod n < s mod n"
proof (cases "r div n = s div n")
  case True
  then have "r mod n < s mod n"
    using assms(1) by (metis add_less_cancel_left mult_div_mod_eq)
  with True show ?thesis by simp
next
  case False
  moreover have "r div n \<le> s div n" using assms by (simp add: zdiv_mono1)
  ultimately show ?thesis by simp
qed

lemma clock_mono:
  fixes r s :: int
  assumes "r < s"
  shows "r div 3600 < s div 3600 \<or> r div 3600 = s div 3600 \<and>
    (r div 60 mod 60 < s div 60 mod 60 \<or> r div 60 mod 60 = s div 60 mod 60 \<and> r mod 60 < s mod 60)"
proof -
  have q: "x div 3600 = x div 60 div 60" for x :: int
    by (simp add: zdiv_zmult2_eq [symmetric])
  from lex_clock [OF assms, of 60] consider "r div 60 < s div 60"
    | "r div 60 = s div 60" "r mod 60 < s mod 60"
    by auto
  then show ?thesis
  proof cases
    case 1
    then show ?thesis
      unfolding q using lex_clock [OF 1, of 60] by auto
  next
    case 2
    then show ?thesis
      unfolding q by simp
  qed
qed

lemma year_yday_mono:
  assumes "c < d" "year_yday c = (y, yd)" "year_yday d = (z, zd)"
  shows "y < z \<or> y = z \<and> yd < zd"
proof (rule ccontr)
  assume "\<not> ?thesis"
  then consider "z < y" | "z = y" "zd \<le> yd" by linarith
  then show False
  proof cases
    case 1
    then have "days_before_year (z - 1 + 1) \<le> days_before_year (y - 1)"
      by (intro days_before_year_mono) simp
    then show False
      using assms(1) year_yday_sound [OF assms(2)] year_yday_sound [OF assms(3)]
        days_before_year_Suc [of "z - 1"] by simp
  next
    case 2
    then show False
      using assms(1) year_yday_sound(1) [OF assms(2)] year_yday_sound(1) [OF assms(3)] by simp
  qed
qed

lemma date_of_mono:
  assumes "t div second < u div second"
  shows "date_less (date_of t) (date_of u)"
proof -
  let ?s = "t div second" and ?r = "u div second"
  obtain y yd where y: "year_yday (?s div 86400 + unix_epoch_day) = (y, yd)"
    by (cases "year_yday (?s div 86400 + unix_epoch_day)")
  obtain z zd where z: "year_yday (?r div 86400 + unix_epoch_day) = (z, zd)"
    by (cases "year_yday (?r div 86400 + unix_epoch_day)")
  obtain m md where m: "month_day (month_lengths (leap y)) 1 yd = (m, md)"
    by (cases "month_day (month_lengths (leap y)) 1 yd")
  obtain n nd where n: "month_day (month_lengths (leap z)) 1 zd = (n, nd)"
    by (cases "month_day (month_lengths (leap z)) 1 zd")
  have t: "date_of t = \<lparr>year = y, month = m, day = md, hour = ?s mod 86400 div 3600,
      min' = ?s mod 86400 div 60 mod 60, sec = ?s mod 86400 mod 60, nsec = t mod second\<rparr>"
    using m by (simp add: date_of_def Let_def y)
  have u: "date_of u = \<lparr>year = z, month = n, day = nd, hour = ?r mod 86400 div 3600,
      min' = ?r mod 86400 div 60 mod 60, sec = ?r mod 86400 mod 60, nsec = u mod second\<rparr>"
    using n by (simp add: date_of_def Let_def z)
  consider "?s div 86400 < ?r div 86400"
    | "?s div 86400 = ?r div 86400" "?s mod 86400 < ?r mod 86400"
    using lex_clock [OF assms, of 86400] by auto
  then show ?thesis
  proof cases
    case 1
    then have "y < z \<or> y = z \<and> yd < zd" by (intro year_yday_mono [OF _ y z]) simp
    then show ?thesis
      using month_day_mono [of yd zd "month_lengths (leap y)" 1 m md n nd] m n
      by (auto simp: t u date_less_def)
  next
    case 2
    then have "y = z" "m = n" "md = nd" using y z m n by simp_all
    then show ?thesis
      using clock_mono [OF 2(2)] by (simp add: t u date_less_def)
  qed
qed

text \<open>Timestamps of different seconds compare as texts the way they compare as times; within
  one second they need not, since trailing zeros of the fraction are dropped.\<close>

lemma FormatUTC_less:
  assumes "t div second < u div second"
    and "0 \<le> year (date_of t)" "year (date_of t) \<le> 9999"
    and "0 \<le> year (date_of u)" "year (date_of u) \<le> 9999"
  shows "FormatUTC t < FormatUTC u"
  using stamp_less [OF date_of_ok date_of_ok date_of_mono [OF assms(1)] assms(2-5)]
  by (simp add: FormatUTC_def Format_def UTC_def Let_def)

end
