(* ===== verification/Json.thy ===== *)
theory Json
  imports GoTime
begin

text \<open>
  Package encoding/json as the credentials use it: writing a flat struct with
  \<^verbatim>\<open>json.Marshal\<close>, the token stream of a \<^verbatim>\<open>json.Decoder\<close>, and reading one scalar member with
  \<^verbatim>\<open>json.Unmarshal\<close>. Text is a byte sequence; string contents are UTF-8, with the replacement
  rune for what is not.
\<close>

section \<open>UTF-8\<close>

definition cont :: "char \<Rightarrow> bool" where "cont c \<longleftrightarrow> 0x80 \<le> byte c \<and> byte c \<le> 0xBF"

definition in_range :: "char \<Rightarrow> nat \<Rightarrow> nat \<Rightarrow> bool" where
  "in_range c lo hi \<longleftrightarrow> lo \<le> byte c \<and> byte c \<le> hi"

text \<open>The length of the valid multi-byte rune at the head, if there is one.\<close>

definition rune_len :: "string \<Rightarrow> nat option" where
  "rune_len s =
     (case s of
        a # b # t \<Rightarrow>
          if in_range a 0xC2 0xDF \<and> cont b then Some 2
          else (case t of
            c # u \<Rightarrow>
              if cont c \<and> (byte a = 0xE0 \<and> in_range b 0xA0 0xBF
                 \<or> (in_range a 0xE1 0xEC \<or> in_range a 0xEE 0xEF) \<and> cont b
                 \<or> byte a = 0xED \<and> in_range b 0x80 0x9F) then Some 3
              else (case u of
                d # v \<Rightarrow>
                  if cont c \<and> cont d \<and> (byte a = 0xF0 \<and> in_range b 0x90 0xBF
                     \<or> in_range a 0xF1 0xF3 \<and> cont b
                     \<or> byte a = 0xF4 \<and> in_range b 0x80 0x8F) then Some 4
                  else None
              | [] \<Rightarrow> None)
          | [] \<Rightarrow> None)
      | _ \<Rightarrow> None)"

definition replacement :: string where
  "replacement = bytes_of [0xEF, 0xBF, 0xBD]"

definition utf8_encode :: "nat \<Rightarrow> string" where
  "utf8_encode r =
     (if r < 0x80 then bytes_of [r]
      else if r < 0x800 then bytes_of [0xC0 + r div 64, 0x80 + r mod 64]
      else if r < 0x10000 then bytes_of [0xE0 + r div 4096, 0x80 + r div 64 mod 64, 0x80 + r mod 64]
      else bytes_of [0xF0 + r div 262144, 0x80 + r div 4096 mod 64, 0x80 + r div 64 mod 64,
                     0x80 + r mod 64])"

lemma rune_len_pos: "rune_len s = Some n \<Longrightarrow> 2 \<le> n \<and> n \<le> length s"
  by (auto simp: rune_len_def split: list.splits if_splits)

section \<open>Writing\<close>

definition hex_digit :: "nat \<Rightarrow> char" where
  "hex_digit n = (if n < 10 then char_of (48 + n) else char_of (87 + n))"

definition escape_byte :: "char \<Rightarrow> string" where
  "escape_byte c =
     (if byte c = 0x5C \<or> byte c = 0x22 then [CHR 0x5C, c]
      else if byte c = 8 then [CHR 0x5C, CHR ''b'']
      else if byte c = 12 then [CHR 0x5C, CHR ''f'']
      else if byte c = 10 then [CHR 0x5C, CHR ''n'']
      else if byte c = 13 then [CHR 0x5C, CHR ''r'']
      else if byte c = 9 then [CHR 0x5C, CHR ''t'']
      else if byte c < 0x20 \<or> c \<in> set ''<>&''
      then [CHR 0x5C, CHR ''u'', CHR ''0'', CHR ''0'', hex_digit (byte c div 16), hex_digit (byte c mod 16)]
      else [c])"

text \<open>\<^verbatim>\<open>appendString\<close> with HTML escaping, without the quotes.\<close>

function json_escape :: "string \<Rightarrow> string" where
  "json_escape [] = []"
| "json_escape (c # s) =
    (if byte c < 0x80 then escape_byte c @ json_escape s
     else case rune_len (c # s) of
       None \<Rightarrow> CHR 0x5C # ''ufffd'' @ json_escape s
     | Some n \<Rightarrow>
         if HasPrefix (c # s) (bytes_of [0xE2, 0x80, 0xA8])
         then CHR 0x5C # ''u2028'' @ json_escape (drop 3 (c # s))
         else if HasPrefix (c # s) (bytes_of [0xE2, 0x80, 0xA9])
         then CHR 0x5C # ''u2029'' @ json_escape (drop 3 (c # s))
         else take n (c # s) @ json_escape (drop n (c # s)))"
  by pat_completeness auto
termination
  by (relation "measure length") (auto dest!: rune_len_pos)

definition json_string :: "string \<Rightarrow> string" where
  "json_string s = CHR 0x22 # json_escape s @ [CHR 0x22]"

definition json_int :: "int \<Rightarrow> string" where
  "json_int n = (if n < 0 then CHR ''-'' # decimal (nat (- n)) else decimal (nat n))"

definition json_bool :: "bool \<Rightarrow> string" where
  "json_bool b = (if b then ''true'' else ''false'')"

definition json_member :: "string \<times> string \<Rightarrow> string" where
  "json_member m = CHR 0x22 # fst m @ [CHR 0x22, CHR '':''] @ snd m"

definition json_object :: "(string \<times> string) list \<Rightarrow> string" where
  "json_object ms = CHR ''{'' # Join (map json_member ms) '','' @ ''}''"

section \<open>Lexing\<close>

datatype jtok =
    TDelim char
  | TStr string string
  | TNum string
  | TLit string
  | TBad

definition json_space :: "char \<Rightarrow> bool" where
  "json_space c \<longleftrightarrow> byte c \<in> {32, 9, 13, 10}"

definition is_hex :: "char \<Rightarrow> bool" where "is_hex c \<longleftrightarrow> unhex c \<noteq> None"

text \<open>From behind the opening quote: the raw contents and what follows the closing quote.\<close>

fun scan_string :: "string \<Rightarrow> (string \<times> string) option" where
  "scan_string [] = None"
| "scan_string (c # s) =
    (if byte c = 0x22 then Some ([], s)
     else if byte c = 0x5C then
       (case s of
          [] \<Rightarrow> None
        | e # t \<Rightarrow>
            if e \<in> set ''bfnrt/'' \<or> byte e = 0x5C \<or> byte e = 0x22
            then map_option (\<lambda>(r, u). (c # e # r, u)) (scan_string t)
            else if e = CHR ''u'' then
              (case t of
                 h1 # h2 # h3 # h4 # u \<Rightarrow>
                   if is_hex h1 \<and> is_hex h2 \<and> is_hex h3 \<and> is_hex h4
                   then map_option (\<lambda>(r, v). (c # e # h1 # h2 # h3 # h4 # r, v)) (scan_string u)
                   else None
               | _ \<Rightarrow> None)
            else None)
     else if byte c < 0x20 then None
     else map_option (\<lambda>(r, u). (c # r, u)) (scan_string s))"

definition hex4 :: "char \<Rightarrow> char \<Rightarrow> char \<Rightarrow> char \<Rightarrow> nat" where
  "hex4 a b c d =
     ((the (unhex a) * 16 + the (unhex b)) * 16 + the (unhex c)) * 16 + the (unhex d)"

definition unescape_char :: "char \<Rightarrow> char" where
  "unescape_char e =
     (if e = CHR ''b'' then char_of (8 :: nat)
      else if e = CHR ''f'' then char_of (12 :: nat)
      else if e = CHR ''n'' then char_of (10 :: nat)
      else if e = CHR ''r'' then char_of (13 :: nat)
      else if e = CHR ''t'' then char_of (9 :: nat)
      else e)"

definition surrogate :: "nat \<Rightarrow> bool" where "surrogate r \<longleftrightarrow> 0xD800 \<le> r \<and> r < 0xE000"

text \<open>The low half of a surrogate pair, when the text goes on with an escape for one.\<close>

definition low_half :: "string \<Rightarrow> nat option" where
  "low_half s =
     (case s of
        x # y # a # b # c # d # t \<Rightarrow>
          if byte x = 0x5C \<and> y = CHR ''u'' \<and> list_all is_hex [a, b, c, d]
             \<and> 0xDC00 \<le> hex4 a b c d \<and> hex4 a b c d < 0xE000
          then Some (hex4 a b c d) else None
      | _ \<Rightarrow> None)"

text \<open>\<^verbatim>\<open>unquote\<close> on the raw contents of a scanned string.\<close>

function unquote :: "string \<Rightarrow> string" where
  "unquote [] = []"
| "unquote (c # s) =
    (if byte c = 0x5C then
       (case s of
          [] \<Rightarrow> []
        | e # t \<Rightarrow>
            if e = CHR ''u'' then
              (case t of
                 h1 # h2 # h3 # h4 # u \<Rightarrow>
                   let r = hex4 h1 h2 h3 h4 in
                   if surrogate r then
                     (case low_half u of
                        Some l \<Rightarrow>
                          if r < 0xDC00
                          then utf8_encode (0x10000 + (r - 0xD800) * 1024 + (l - 0xDC00)) @ unquote (drop 6 u)
                          else replacement @ unquote u
                      | None \<Rightarrow> replacement @ unquote u)
                   else utf8_encode r @ unquote u
               | _ \<Rightarrow> [])
            else unescape_char e # unquote t)
     else if byte c < 0x80 then c # unquote s
     else case rune_len (c # s) of
       None \<Rightarrow> replacement @ unquote s
     | Some n \<Rightarrow> take n (c # s) @ unquote (drop n (c # s)))"
  by pat_completeness auto
termination
  by (relation "measure length") (auto dest!: rune_len_pos)

text \<open>Number literals; one that overflows a \<^verbatim>\<open>float64\<close> is an error of the token reader.\<close>

fun scan_frac :: "string \<Rightarrow> (string \<times> string) option" where
  "scan_frac (c # s) =
    (if c = CHR ''.'' then
       (if takeWhile is_digit s = [] then None
        else Some (c # takeWhile is_digit s, dropWhile is_digit s))
     else Some ([], c # s))"
| "scan_frac [] = Some ([], [])"

fun scan_exp :: "string \<Rightarrow> (string \<times> int \<times> string) option" where
  "scan_exp (c # s) =
    (if c = CHR ''e'' \<or> c = CHR ''E'' then
       (let (sg, t) = (case s of
              d # u \<Rightarrow> if d = CHR ''+'' \<or> d = CHR ''-'' then ([d], u) else ([], s)
            | [] \<Rightarrow> ([], []));
            ds = takeWhile is_digit t
        in if ds = [] then None
           else Some (c # sg @ ds, (if sg = ''-'' then -1 else 1) * int (digits_val ds),
                      dropWhile is_digit t))
     else Some ([], 0, c # s))"
| "scan_exp [] = Some ([], 0, [])"

definition float_overflow :: "nat \<Rightarrow> int \<Rightarrow> bool" where
  "float_overflow m e \<longleftrightarrow> m * 10 ^ nat e \<ge> (2 ^ 1024 - 2 ^ 970) * 10 ^ nat (- e)"

definition scan_int :: "string \<Rightarrow> (string \<times> string) option" where
  "scan_int s =
     (case s of
        [] \<Rightarrow> None
      | d # t \<Rightarrow>
          if \<not> is_digit d then None
          else if d = CHR ''0'' then Some ([d], t)
          else Some (takeWhile is_digit s, dropWhile is_digit s))"

definition scan_number :: "string \<Rightarrow> (string \<times> string) option" where
  "scan_number s =
     (let (sg, s1) = (if HasPrefix s ''-'' then (''-'', tl s) else ([], s)) in
      Option.bind (scan_int s1) (\<lambda>(ip, s2).
      Option.bind (scan_frac s2) (\<lambda>(fp, s3).
      Option.bind (scan_exp s3) (\<lambda>(ep, e, s4).
      if float_overflow (digits_val (ip @ drop 1 fp)) (e - int (length (drop 1 fp))) then None
      else Some (sg @ ip @ fp @ ep, s4)))))"

lemma scan_string_shorter: "scan_string s = Some (r, t) \<Longrightarrow> length t < length s"
proof (induction s arbitrary: r t rule: scan_string.induct)
  case (2 c s)
  show ?case
  proof (cases "byte c = 0x22")
    case False
    show ?thesis
    proof (cases "byte c = 0x5C")
      case True
      then obtain e u where s: "s = e # u"
        using "2.prems" by (auto split: list.splits)
      show ?thesis
      proof (cases "e \<in> set ''bfnrt/'' \<or> byte e = 0x5C \<or> byte e = 0x22")
        case esc: True
        then obtain r' where "scan_string u = Some (r', t)"
          using "2.prems" True s by auto
        from "2.IH"(1) [OF _ True s esc this] show ?thesis using s True by simp
      next
        case no_esc: False
        then obtain h1 h2 h3 h4 v r' where v: "e = CHR ''u''" "u = h1 # h2 # h3 # h4 # v"
          "is_hex h1 \<and> is_hex h2 \<and> is_hex h3 \<and> is_hex h4" "scan_string v = Some (r', t)"
          using "2.prems" True s by (auto split: if_splits list.splits)
        from "2.IH"(2) [OF _ True s no_esc v(1,2) refl refl refl v(3,4)] show ?thesis
          using s v(2) True by simp
      qed
    next
      case plain: False
      then obtain r' where "scan_string s = Some (r', t)" "\<not> byte c < 0x20"
        using "2.prems" False by (auto split: if_splits)
      then show ?thesis
        using "2.IH"(3) [OF False plain] by fastforce
    qed
  qed (use "2.prems" in auto)
qed simp

lemma dropWhile_shorter [simp]: "length (dropWhile P s) < Suc (length s)"
  using length_dropWhile_le [of P s] by simp

lemma scan_int_shorter: "scan_int s = Some (r, t) \<Longrightarrow> length t < length s"
  by (auto simp: scan_int_def split: list.splits if_splits)

lemma scan_frac_shorter: "scan_frac s = Some (r, t) \<Longrightarrow> length t \<le> length s"
  by (cases s) (auto simp: less_Suc_eq_le [symmetric] less_SucI split: if_splits)

lemma scan_exp_shorter: "scan_exp s = Some (r, e, t) \<Longrightarrow> length t \<le> length s"
  by (cases s)
    (auto simp: less_Suc_eq_le [symmetric] less_SucI Let_def split: if_splits list.splits prod.splits)

lemma scan_number_shorter:
  assumes "scan_number s = Some (r, t)"
  shows "length t < length s"
proof -
  define s1 where "s1 = (if HasPrefix s ''-'' then tl s else s)"
  obtain ip s2 fp s3 ep e where "scan_int s1 = Some (ip, s2)" "scan_frac s2 = Some (fp, s3)"
    "scan_exp s3 = Some (ep, e, t)"
    using assms
    by (auto simp: scan_number_def s1_def Let_def Option.bind_eq_Some_conv split: if_splits prod.splits)
  then have "length t < length s1"
    using scan_int_shorter scan_frac_shorter scan_exp_shorter by fastforce
  also have "length s1 \<le> length s"
    by (simp add: s1_def)
  finally show ?thesis .
qed

text \<open>The raw token stream, ended by \<open>TBad\<close> where the text cannot be tokenised.\<close>

function json_lex :: "string \<Rightarrow> jtok list" where
  "json_lex [] = []"
| "json_lex (c # s) =
    (if json_space c then json_lex s
     else if c \<in> set ''{}[]:,'' then TDelim c # json_lex s
     else if byte c = 0x22 then
       (case scan_string s of
          None \<Rightarrow> [TBad]
        | Some (raw, t) \<Rightarrow> TStr raw (unquote raw) # json_lex t)
     else if HasPrefix (c # s) ''null'' then TLit ''null'' # json_lex (drop 3 s)
     else if HasPrefix (c # s) ''true'' then TLit ''true'' # json_lex (drop 3 s)
     else if HasPrefix (c # s) ''false'' then TLit ''false'' # json_lex (drop 4 s)
     else case scan_number (c # s) of
       None \<Rightarrow> [TBad]
     | Some (lit, t) \<Rightarrow> TNum lit # json_lex t)"
  by pat_completeness auto
termination
  by (relation "measure length") (auto dest!: scan_string_shorter scan_number_shorter)

declare json_lex.simps [simp del] json_escape.simps [simp del] unquote.simps [simp del]

section \<open>Members of a flat struct\<close>

text \<open>\<^verbatim>\<open>json.Unmarshal\<close> of one member into a Go field: an absent or null member leaves the zero
  value, a member of another JSON type is an error.\<close>

type_synonym members = "(string \<times> jtok) list"

definition errUnmarshal :: goerror where "errUnmarshal = Error ''json: cannot unmarshal'' []"

definition get_string :: "members \<Rightarrow> string \<Rightarrow> string result" where
  "get_string ms k =
     (case map_of ms k of
        None \<Rightarrow> Inr []
      | Some (TStr raw s) \<Rightarrow> Inr s
      | Some (TLit l) \<Rightarrow> if l = ''null'' then Inr [] else Inl errUnmarshal
      | Some _ \<Rightarrow> Inl errUnmarshal)"

definition get_int :: "members \<Rightarrow> string \<Rightarrow> int result" where
  "get_int ms k =
     (case map_of ms k of
        None \<Rightarrow> Inr 0
      | Some (TNum lit) \<Rightarrow>
          (let neg = HasPrefix lit ''-''; ds = (if neg then tl lit else lit);
               n = (if neg then - int (digits_val ds) else int (digits_val ds))
           in if list_all is_digit ds \<and> - (2 ^ 63) \<le> n \<and> n < 2 ^ 63 then Inr n
              else Inl errUnmarshal)
      | Some (TLit l) \<Rightarrow> if l = ''null'' then Inr 0 else Inl errUnmarshal
      | Some _ \<Rightarrow> Inl errUnmarshal)"

definition get_uint64 :: "members \<Rightarrow> string \<Rightarrow> nat result" where
  "get_uint64 ms k =
     (case map_of ms k of
        None \<Rightarrow> Inr 0
      | Some (TNum lit) \<Rightarrow>
          if list_all is_digit lit \<and> digits_val lit < 2 ^ 64 then Inr (digits_val lit)
          else Inl errUnmarshal
      | Some (TLit l) \<Rightarrow> if l = ''null'' then Inr 0 else Inl errUnmarshal
      | Some _ \<Rightarrow> Inl errUnmarshal)"

definition get_bool :: "members \<Rightarrow> string \<Rightarrow> bool result" where
  "get_bool ms k =
     (case map_of ms k of
        None \<Rightarrow> Inr False
      | Some (TLit l) \<Rightarrow> Inr (l = ''true'')
      | Some _ \<Rightarrow> Inl errUnmarshal)"

text \<open>\<^verbatim>\<open>Time.UnmarshalJSON\<close> reads the raw literal, escapes included.\<close>

definition get_time :: "members \<Rightarrow> string \<Rightarrow> ztime result" where
  "get_time ms k =
     (case map_of ms k of
        None \<Rightarrow> Inr (UTC zero_time)
      | Some (TStr raw s) \<Rightarrow>
          (case ParseTime True raw of Some t \<Rightarrow> Inr t | None \<Rightarrow> Inl errUnmarshal)
      | Some (TLit l) \<Rightarrow> if l = ''null'' then Inr (UTC zero_time) else Inl errUnmarshal
      | Some _ \<Rightarrow> Inl errUnmarshal)"

section \<open>Lexing what was written\<close>

definition ascii :: "string \<Rightarrow> bool" where "ascii s \<longleftrightarrow> list_all (\<lambda>c. byte c < 0x80) s"

definition plain :: "string \<Rightarrow> bool" where
  "plain s \<longleftrightarrow> list_all (\<lambda>c. 0x20 \<le> byte c \<and> byte c < 0x80 \<and> byte c \<noteq> 0x22 \<and> byte c \<noteq> 0x5C) s"

lemma scan_string_plain: "plain s \<Longrightarrow> scan_string (s @ CHR 0x22 # t) = Some (s, t)"
proof (induction s)
  case Nil
  then show ?case by (simp add: byte_def)
next
  case (Cons c s)
  then show ?case by (simp add: plain_def)
qed

lemma unquote_plain: "plain s \<Longrightarrow> unquote s = s"
  by (induction s) (simp_all add: plain_def unquote.simps)

lemma unhex_hex_digit: "n < 16 \<Longrightarrow> unhex (hex_digit n) = Some n"
  by (auto simp: unhex_def hex_digit_def is_digit_def)

lemma is_hex_digit: "n < 16 \<Longrightarrow> is_hex (hex_digit n)"
  by (simp add: is_hex_def unhex_hex_digit)

lemma byte_lit [simp]: "byte (CHR 0x22) = 34" "byte (CHR 0x5C) = 92" "byte (CHR ''u'') = 117"
  "byte (CHR ''b'') = 98"  "byte (CHR ''f'') = 102"  "byte (CHR ''n'') = 110"  "byte (CHR ''r'') = 114"  "byte (CHR ''t'') = 116"
  "byte (CHR ''0'') = 48"
  by (simp_all add: byte_def)

lemma hex4_low: "m < 16 \<Longrightarrow> n < 16 \<Longrightarrow> hex4 (CHR ''0'') (CHR ''0'') (hex_digit m) (hex_digit n) = m * 16 + n"
  by (simp add: hex4_def unhex_hex_digit) (simp add: unhex_def is_digit_def)

lemma escape_byte_scan:
  assumes "byte c < 0x80"
  shows "scan_string (escape_byte c @ s) = map_option (\<lambda>(r, t). (escape_byte c @ r, t)) (scan_string s)"
proof -
  have "byte c div 16 < 16" "byte c mod 16 < 16" using assms by simp_all
  note h = is_hex_digit [OF this(1)] is_hex_digit [OF this(2)]
  have z: "is_hex (CHR ''0'')" by (simp add: is_hex_def unhex_def is_digit_def)
  show ?thesis
    using assms h z by (auto simp: escape_byte_def option.map_comp comp_def case_prod_beta)
qed

lemma escape_byte_cases:
  obtains (literal) "escape_byte c = [c]" "0x20 \<le> byte c" "byte c \<noteq> 0x22" "byte c \<noteq> 0x5C"
  | (short) e where "escape_byte c = [CHR 0x5C, e]" "unescape_char e = c" "e \<noteq> CHR ''u''"
  | (hex) "escape_byte c = [CHR 0x5C, CHR ''u'', CHR ''0'', CHR ''0'', hex_digit (byte c div 16),
      hex_digit (byte c mod 16)]"
proof -
  have b: "char_of n = c" if "byte c = n" for n
    using that by auto
  consider "byte c = 0x5C \<or> byte c = 0x22" | "byte c = 8" | "byte c = 12" | "byte c = 10"
    | "byte c = 13" | "byte c = 9" | "byte c \<notin> {0x5C, 0x22, 8, 12, 10, 13, 9}"
    by auto
  then show thesis
  proof cases
    case 1
    then have "c \<notin> set ''bfnrtu''" by auto
    with 1 show ?thesis
      by (intro short [of c]) (auto simp: escape_byte_def unescape_char_def)
  next
    case 7
    then show ?thesis
    proof (cases "byte c < 0x20 \<or> c \<in> set ''<>&''")
      case True
      with 7 show ?thesis by (intro hex) (auto simp: escape_byte_def)
    next
      case False
      with 7 show ?thesis by (intro literal) (auto simp: escape_byte_def)
    qed
  next
    case 2
    with b show ?thesis
      by (intro short [of "CHR ''b''"]) (simp_all add: escape_byte_def unescape_char_def)
  next
    case 3
    with b show ?thesis
      by (intro short [of "CHR ''f''"]) (simp_all add: escape_byte_def unescape_char_def)
  next
    case 4
    with b show ?thesis
      by (intro short [of "CHR ''n''"]) (simp_all add: escape_byte_def unescape_char_def)
  next
    case 5
    with b show ?thesis
      by (intro short [of "CHR ''r''"]) (simp_all add: escape_byte_def unescape_char_def)
  next
    case 6
    with b show ?thesis
      by (intro short [of "CHR ''t''"]) (simp_all add: escape_byte_def unescape_char_def)
  qed
qed

lemma escape_byte_unquote:
  assumes "byte c < 0x80"
  shows "unquote (escape_byte c @ s) = c # unquote s"
proof (cases c rule: escape_byte_cases)
  case hex
  have "byte c div 16 < 16" "byte c mod 16 < 16" using assms by simp_all
  from hex4_low [OF this] have "hex4 (CHR ''0'') (CHR ''0'') (hex_digit (byte c div 16)) (hex_digit (byte c mod 16))
      = byte c" by simp
  moreover have "utf8_encode (byte c) = [c]"
    using assms by (simp add: utf8_encode_def bytes_of_def)
  ultimately show ?thesis
    using assms by (simp add: hex unquote.simps surrogate_def Let_def)
qed (use assms in \<open>simp_all add: unquote.simps\<close>)

lemma json_escape_ascii: "ascii s \<Longrightarrow> json_escape s = concat (map escape_byte s)"
  by (induction s) (simp_all add: ascii_def json_escape.simps)

lemma scan_string_escape:
  "ascii s \<Longrightarrow> scan_string (json_escape s @ CHR 0x22 # t) = Some (json_escape s, t)"
  unfolding json_escape_ascii
  by (induction s) (simp_all add: ascii_def escape_byte_scan)

lemma unquote_escape: "ascii s \<Longrightarrow> unquote (json_escape s) = s"
  unfolding json_escape_ascii
  by (induction s) (simp_all add: ascii_def escape_byte_unquote unquote.simps(1))


text \<open>A written value lexes to one token, whatever closes the member.\<close>

definition lexes :: "string \<Rightarrow> jtok \<Rightarrow> bool" where
  "lexes v tok \<longleftrightarrow>
     (\<forall>c s. c \<in> set '',}'' \<longrightarrow> json_lex (v @ c # s) = tok # json_lex (c # s))"

lemma json_lex_quoted:
  assumes "scan_string (r @ CHR 0x22 # t) = Some (r, t)"
  shows "json_lex (CHR 0x22 # r @ CHR 0x22 # t) = TStr r (unquote r) # json_lex t"
  using assms by (simp add: json_lex.simps json_space_def)

lemma lexes_string: "ascii s \<Longrightarrow> lexes (json_string s) (TStr (json_escape s) s)"
  by (simp add: lexes_def json_string_def json_lex_quoted scan_string_escape unquote_escape)

lemma json_lex_key: "plain k \<Longrightarrow> json_lex (CHR 0x22 # k @ CHR 0x22 # t) = TStr k k # json_lex t"
  by (simp add: json_lex_quoted scan_string_plain unquote_plain)

lemma lexes_plain: "plain r \<Longrightarrow> lexes (CHR 0x22 # r @ [CHR 0x22]) (TStr r r)"
  by (simp add: lexes_def json_lex_key)

lemma lexes_bool: "lexes (json_bool b) (TLit (json_bool b))"
  by (auto simp: lexes_def json_bool_def json_lex.simps json_space_def byte_def)

lemma decimal_zero: "hd (decimal n) = CHR ''0'' \<Longrightarrow> n = 0"
proof (induction n rule: decimal.induct)
  case (1 n)
  show ?case
  proof (cases "n < 10")
    case True
    with 1 have "byte (dig n) = byte (CHR ''0'')"
      by (simp add: decimal.simps [of n])
    with True show ?thesis by (simp add: dig_def)
  next
    case False
    then have "hd (decimal (n div 10)) = CHR ''0''"
      using 1 decimal_digits by (simp add: decimal.simps [of n])
    then show ?thesis using 1 False by (simp add: div_eq_0_iff)
  qed
qed

lemma scan_int_decimal:
  assumes "\<not> is_digit c"
  shows "scan_int (decimal n @ c # s) = Some (decimal n, c # s)"
proof -
  obtain d ds where d: "decimal n = d # ds" "is_digit d" "list_all is_digit ds"
    using decimal_digits [of n] by (cases "decimal n") auto
  show ?thesis
  proof (cases "d = CHR ''0''")
    case True
    then have "decimal n = ''0''"
      using decimal_zero [of n] d by (simp add: decimal.simps dig_def)
    then show ?thesis by (simp add: scan_int_def is_digit_def byte_def)
  next
    case False
    then show ?thesis
      using takeWhile_digits [of "decimal n" c s] decimal_digits(1) [of n] assms d
      by (simp add: scan_int_def)
  qed
qed

lemma no_overflow: "n < 2 ^ 64 \<Longrightarrow> \<not> float_overflow n 0"
proof -
  assume "n < 2 ^ 64"
  also have "(2 :: nat) ^ 64 < 2 ^ 1024 - 2 ^ 970" by simp
  finally show ?thesis by (simp add: float_overflow_def)
qed

lemma lexes_decimal: 
  assumes "n < 2 ^ 64"
  shows "lexes (decimal n) (TNum (decimal n))"
  unfolding lexes_def
proof (intro allI impI)
  fix c s assume "c \<in> set '',}''"
  then have c: "\<not> is_digit c" "c \<noteq> CHR ''.''" "c \<noteq> CHR ''e''" "c \<noteq> CHR ''E''"
    by (auto simp: is_digit_def byte_def)
  obtain d ds where d: "decimal n = d # ds" "is_digit d"
    using decimal_digits [of n] by (cases "decimal n") auto
  then have not: "\<not> json_space d" "d \<notin> set ''{}[]:,-ntf''" "byte d \<noteq> 0x22"
    by (auto simp: json_space_def is_digit_def byte_def)
  have "\<not> HasPrefix (decimal n @ c # s) ''-''"
    using d not(2) by simp
  moreover have "scan_frac (c # s) = Some ([], c # s)" "scan_exp (c # s) = Some ([], 0, c # s)"
    using c by simp_all
  ultimately have "scan_number (decimal n @ c # s) = Some (decimal n, c # s)"
    using no_overflow [OF assms] by (simp add: scan_number_def scan_int_decimal [OF c(1)])
  then show "json_lex (decimal n @ c # s) = TNum (decimal n) # json_lex (c # s)"
    using d not by (simp add: json_lex.simps)
qed

text \<open>A written object lexes to its members' tokens.\<close>

type_synonym jfield = "string \<times> string \<times> jtok"

definition field_ok :: "jfield \<Rightarrow> bool" where
  "field_ok f \<longleftrightarrow> plain (fst f) \<and> lexes (fst (snd f)) (snd (snd f))"

fun field_toks :: "jfield list \<Rightarrow> jtok list" where
  "field_toks [] = []"
| "field_toks [(k, v, t)] = [TStr k k, TDelim (CHR '':''), t]"
| "field_toks ((k, v, t) # fs) = [TStr k k, TDelim (CHR '':''), t, TDelim (CHR '','')] @ field_toks fs"

definition field_text :: "jfield \<Rightarrow> string \<times> string" where
  "field_text f = (fst f, fst (snd f))"

lemma json_lex_delim: "c \<in> set ''{}[]:,'' \<Longrightarrow> json_lex (c # s) = TDelim c # json_lex s"
  by (auto simp: json_lex.simps json_space_def byte_def)

lemma json_lex_member:
  assumes "plain k" "lexes v t" "c \<in> set '',}''"
  shows "json_lex (json_member (k, v) @ c # s) = [TStr k k, TDelim (CHR '':''), t] @ json_lex (c # s)"
proof -
  have shape: "json_member (k, v) @ c # s = CHR 0x22 # k @ CHR 0x22 # CHR '':'' # v @ c # s"
    by (simp add: json_member_def)
  have "json_lex (v @ c # s) = t # json_lex (c # s)"
    using assms(2,3) unfolding lexes_def by blast
  moreover have "json_lex (CHR '':'' # v @ c # s) = TDelim (CHR '':'') # json_lex (v @ c # s)"
    by (rule json_lex_delim) simp
  ultimately show ?thesis
    unfolding shape json_lex_key [OF assms(1)] by simp
qed

lemma json_lex_members:
  assumes "list_all field_ok fs"
  shows "json_lex (Join (map (\<lambda>f. json_member (field_text f)) fs) '','' @ ''}'')
    = field_toks fs @ [TDelim (CHR ''}'')]"
  using assms
proof (induction fs rule: field_toks.induct)
  case 1
  then show ?case by (simp add: json_lex_delim json_lex.simps(1))
next
  case (2 k v t)
  then have "plain k" "lexes v t" by (simp_all add: field_ok_def)
  from json_lex_member [OF this, of "CHR ''}''" "[]"] show ?case
    by (simp add: field_text_def json_lex_delim json_lex.simps(1))
next
  case (3 k v t f fs)
  then have ok: "plain k" "lexes v t" "list_all field_ok (f # fs)"
    by (simp_all add: field_ok_def [of "(k, v, t)"])
  let ?rest = "Join (map (\<lambda>f. json_member (field_text f)) (f # fs)) '','' @ ''}''"
  have "json_lex (json_member (k, v) @ CHR '','' # ?rest)
      = [TStr k k, TDelim (CHR '':''), t, TDelim (CHR '','')] @ field_toks (f # fs) @ [TDelim (CHR ''}'')]"
    using json_lex_member [OF ok(1,2), of "CHR '',''" ?rest] 3(1) [OF ok(3)]
    by (simp add: json_lex_delim)
  then show ?case by (simp add: field_text_def [of "(k, v, t)"])
qed

lemma json_lex_object:
  assumes "list_all field_ok fs"
  shows "json_lex (json_object (map field_text fs))
    = TDelim (CHR ''{'') # field_toks fs @ [TDelim (CHR ''}'')]"
proof -
  have "json_object (map field_text fs)
      = CHR ''{'' # (Join (map (\<lambda>f. json_member (field_text f)) fs) '','' @ ''}'')"
    by (simp add: json_object_def comp_def)
  then show ?thesis
    by (simp only: json_lex_members [OF assms] json_lex_delim list.set insert_iff simp_thms)
qed

lemma plain_simps [simp]:
  "plain []"
  "plain (c # s) \<longleftrightarrow> (0x20 \<le> byte c \<and> byte c < 0x80 \<and> byte c \<noteq> 0x22 \<and> byte c \<noteq> 0x5C) \<and> plain s"
  "plain (s @ t) \<longleftrightarrow> plain s \<and> plain t"
  by (simp_all only: plain_def list.pred_inject list_all_append)

lemma plain_digits: "list_all is_digit s \<Longrightarrow> plain s"
  by (auto simp: plain_def is_digit_def list_all_iff)

lemma plain_ascii: "plain s \<Longrightarrow> ascii s"
  by (auto simp: plain_def ascii_def list_all_iff)

lemma graphic_ascii: "list_all graphic s \<Longrightarrow> ascii s"
  by (auto simp: graphic_def ascii_def list_all_iff)

lemma ascii_append [simp]: "ascii (s @ t) \<longleftrightarrow> ascii s \<and> ascii t"
  by (simp add: ascii_def)

lemma plain_FormatUTC:
  assumes "0 \<le> year (date_of t)" "year (date_of t) \<le> 9999"
  shows "plain (FormatUTC t)"
proof -
  have pads: "plain (pad w n)" for w n by (intro plain_digits pad_digits)
  have trim: "plain (trim_zeros (pad 9 n))" for n by (intro plain_digits trim_zeros_digits pad_digits)
  have lits: "plain ''-''" "plain ''T''" "plain '':''" "plain ''Z''" "plain ''.''"
    by (simp_all add: byte_def)
  have "plain (stamp x)" if "0 \<le> year x" "year x \<le> 9999" for x
    using that lits by (simp only: stamp_def year_digits_def plain_simps(3) pads) (simp add: pads del: pad.simps)
  moreover have "plain (fraction n)" for n
    using trim lits by (simp add: fraction_def del: pad.simps)
  ultimately show ?thesis
    using assms lits by (simp add: FormatUTC_def Format_def UTC_def Let_def zone_suffix_def)
qed

lemma MarshalTime_UTC:
  assumes "0 \<le> year (date_of t)" "year (date_of t) \<le> 9999"
  shows "MarshalTime (UTC t) = Inr (CHR 0x22 # FormatUTC t @ [CHR 0x22])"
  using assms by (simp add: MarshalTime_def Let_def FormatUTC_def UTC_def)

end
