(* ===== verification/Strict.thy ===== *)
theory Strict
  imports Json
begin

text \<open>
  The strict decoder of the exact credentials (src/internal/accesslease/strict.go and the
  base64url reader of sign.go), and the marshalling of a flat struct. The token loop of
  \<^verbatim>\<open>scanFlatObject\<close> runs over the raw tokens of \<^const>\<open>json_lex\<close>; what it returns besides the
  verdict are the members it has read, which \<^verbatim>\<open>json.Unmarshal\<close> then assigns to the fields.
\<close>

section \<open>Canonical base64url (sign.go)\<close>

definition decodeCanonicalRawBase64URL :: "string \<Rightarrow> string result" where
  "decodeCanonicalRawBase64URL value =
     (if value = [] then Inl (Error ''accesslease: empty base64url value'' [])
      else if list_ex (\<lambda>c. byte c \<in> {13, 10, 9, 32}) value
      then Inl (Error ''accesslease: non-canonical base64url (whitespace)'' [])
      else if CHR ''='' \<in> set value then Inl (Error ''accesslease: padded base64url'' [])
      else case b64_decode value of
        None \<Rightarrow> Inl (Error ''accesslease: invalid base64url'' [])
      | Some data \<Rightarrow>
          if b64_encode data \<noteq> value then Inl (Error ''accesslease: non-canonical base64url'' [])
          else Inr data)"

lemma decodeCanonical_iff:
  "decodeCanonicalRawBase64URL v = Inr d \<longleftrightarrow> d \<noteq> [] \<and> v = b64_encode d"
proof
  assume "decodeCanonicalRawBase64URL v = Inr d"
  then show "d \<noteq> [] \<and> v = b64_encode d"
    by (auto simp: decodeCanonicalRawBase64URL_def split: if_splits option.splits)
next
  assume v: "d \<noteq> [] \<and> v = b64_encode d"
  then have "\<not> list_ex (\<lambda>c. byte c \<in> {13, 10, 9, 32}) v" "CHR ''='' \<notin> set v"
    using b64_encode_bytes by (fastforce simp: list_ex_iff graphic_def)+
  with v show "decodeCanonicalRawBase64URL v = Inr d"
    by (simp add: decodeCanonicalRawBase64URL_def)
qed

lemma decodeCanonical_encode [simp]: "d \<noteq> [] \<Longrightarrow> decodeCanonicalRawBase64URL (b64_encode d) = Inr d"
  by (simp add: decodeCanonical_iff)

section \<open>Flat objects (strict.go)\<close>

definition MaxBytes :: nat where "MaxBytes = 48 * 1024"

definition errStrict :: goerror where "errStrict = Error ''accesslease: invalid encoding'' []"

type_synonym allowed = "(string \<times> nat) list"

text \<open>The value token of one member: its checks, without the recursion.\<close>

definition value_check :: "string \<Rightarrow> nat \<Rightarrow> jtok \<Rightarrow> goerror option" where
  "value_check key limit val =
     (case val of
        TBad \<Rightarrow> Some errStrict
      | TDelim d \<Rightarrow>
          if d = CHR ''{'' \<or> d = CHR ''['' then Some (Error ''accesslease: nested value for '' [key])
          else Some errStrict
      | TStr r s \<Rightarrow>
          if length s > limit then Some (Error ''accesslease: field exceeds bound'' [key]) else None
      | _ \<Rightarrow> None)"

text \<open>The loop: \<open>first\<close> is true until a member has been read; \<open>seen\<close> are the keys so far.
  Behind the key come the colon and the value.\<close>

function scan_loop ::
  "allowed \<Rightarrow> string set \<Rightarrow> bool \<Rightarrow> jtok list \<Rightarrow> (members \<times> jtok list) result" where
  "scan_loop allowed seen first [] = Inr ([], [])"
| "scan_loop allowed seen first (tok # ts) =
    (if tok = TDelim (CHR ''}'') \<or> tok = TDelim (CHR '']'') then Inr ([], tok # ts)
     else if \<not> first \<and> tok \<noteq> TDelim (CHR '','') then Inl errStrict
     else case (if first then tok # ts else ts) of
       TStr raw key # after \<Rightarrow>
         if key \<in> seen then Inl (Error ''accesslease: duplicate key '' [key])
         else (case map_of allowed key of
           None \<Rightarrow> Inl (Error ''accesslease: unknown field '' [key])
         | Some limit \<Rightarrow>
             (case after of
                colon # val # rest \<Rightarrow>
                  if colon \<noteq> TDelim (CHR '':'') then Inl errStrict
                  else (case value_check key limit val of
                          Some e \<Rightarrow> Inl e
                        | None \<Rightarrow>
                            (case scan_loop allowed (insert key seen) False rest of
                               Inl e \<Rightarrow> Inl e
                             | Inr (ms, ts') \<Rightarrow> Inr ((key, val) # ms, ts')))
              | _ \<Rightarrow> Inl errStrict))
     | _ \<Rightarrow> Inl errStrict)"
  by pat_completeness auto
termination
  by (relation "measure (\<lambda>(_, _, _, ts). length ts)") (auto split: if_splits)

text \<open>Behind the loop: the closing brace, and nothing after it.\<close>

fun scan_end :: "members \<Rightarrow> jtok list \<Rightarrow> members result" where
  "scan_end ms [] = Inl errStrict"
| "scan_end ms (tok # rest) =
    (if tok \<noteq> TDelim (CHR ''}'') then Inl errStrict
     else if rest \<noteq> [] then Inl (Error ''accesslease: trailing payload'' [])
     else Inr ms)"

definition scanFlatObject :: "string \<Rightarrow> allowed \<Rightarrow> members result" where
  "scanFlatObject data allowed =
     (case json_lex data of
        tok # ts \<Rightarrow>
          if tok \<noteq> TDelim (CHR ''{'') then Inl errStrict
          else res_bind (scan_loop allowed {} True ts) (\<lambda>(ms, rest). scan_end ms rest)
      | [] \<Rightarrow> Inl errStrict)"

definition decodeStrictJSON :: "string \<Rightarrow> allowed \<Rightarrow> members result" where
  "decodeStrictJSON encoded allowed =
     (if length encoded > MaxBytes then Inl (Error ''accesslease: encoded field exceeds bound'' [])
      else case decodeCanonicalRawBase64URL encoded of
        Inl _ \<Rightarrow> Inl errStrict
      | Inr data \<Rightarrow>
          if length data > MaxBytes then Inl (Error ''accesslease: payload exceeds byte bound'' [])
          else scanFlatObject data allowed)"

section \<open>What the scan guarantees\<close>

definition member_ok :: "allowed \<Rightarrow> string \<times> jtok \<Rightarrow> bool" where
  "member_ok allowed m \<longleftrightarrow>
     (case map_of allowed (fst m) of
        None \<Rightarrow> False
      | Some limit \<Rightarrow> value_check (fst m) limit (snd m) = None)"

lemma scan_step:
  assumes "scan_loop allowed seen first (tok # ts) = Inr (ms, rest)"
  obtains (stop) "ms = []" "rest = tok # ts" "tok = TDelim (CHR ''}'') \<or> tok = TDelim (CHR '']'')"
  | (member) raw key val rest' ms' where
      "(if first then tok # ts else ts) = TStr raw key # TDelim (CHR '':'') # val # rest'"
      "key \<notin> seen" "member_ok allowed (key, val)" "ms = (key, val) # ms'"
      "scan_loop allowed (insert key seen) False rest' = Inr (ms', rest)"
      "\<not> first \<Longrightarrow> tok = TDelim (CHR '','')"
proof (cases "tok = TDelim (CHR ''}'') \<or> tok = TDelim (CHR '']'')")
  case True
  then show thesis using stop assms by auto
next
  case False
  then have sep: "\<not> first \<Longrightarrow> tok = TDelim (CHR '','')"
    using assms by (auto split: if_splits)
  from False assms obtain raw key after where 1:
    "(if first then tok # ts else ts) = TStr raw key # after" "key \<notin> seen"
    by (auto split: if_splits list.splits jtok.splits)
  with False assms sep obtain limit val rest' where 2: "map_of allowed key = Some limit"
    "after = TDelim (CHR '':'') # val # rest'" "value_check key limit val = None"
    by (auto split: if_splits list.splits option.splits)
  with False assms sep 1 obtain ms' where
    "scan_loop allowed (insert key seen) False rest' = Inr (ms', rest)" "ms = (key, val) # ms'"
    by (auto split: if_splits sum.splits prod.splits)
  then show thesis
    using member 1 2 sep by (simp add: member_ok_def)
qed

lemma scan_loop_sound:
  assumes "scan_loop allowed seen first ts = Inr (ms, rest)"
  shows "distinct (map fst ms) \<and> set (map fst ms) \<inter> seen = {} \<and> list_all (member_ok allowed) ms"
  using assms
proof (induction "length ts" arbitrary: seen first ts ms rule: less_induct)
  case less
  show ?case
  proof (cases ts)
    case (Cons tok ts')
    with less.prems have "scan_loop allowed seen first (tok # ts') = Inr (ms, rest)" by simp
    then show ?thesis
    proof (cases rule: scan_step)
      case (member raw key val rest' ms')
      have "length rest' < length ts"
        using member(1) Cons by (cases first) auto
      from less.hyps [OF this member(5)] show ?thesis
        using member(2,3,4) by auto
    qed simp
  qed (use less.prems in auto)
qed

lemma scanFlatObject_sound:
  assumes "scanFlatObject data allowed = Inr ms"
  shows "distinct (map fst ms)" "list_all (member_ok allowed) ms"
    "\<exists>ts. json_lex data = TDelim (CHR ''{'') # ts
      \<and> scan_loop allowed {} True ts = Inr (ms, [TDelim (CHR ''}'')])"
proof -
  obtain ts ms' rest where 1: "json_lex data = TDelim (CHR ''{'') # ts"
    "scan_loop allowed {} True ts = Inr (ms', rest)"
    and 2: "scan_end ms' rest = Inr ms"
    using assms by (auto simp: scanFlatObject_def result_simps split: list.splits if_splits)
  from 2 have "rest = [TDelim (CHR ''}'')] \<and> ms' = ms"
    by (cases rest) (auto split: if_splits)
  with 1 have ts: "json_lex data = TDelim (CHR ''{'') # ts"
    "scan_loop allowed {} True ts = Inr (ms, [TDelim (CHR ''}'')])" by simp_all
  then show "distinct (map fst ms)" "list_all (member_ok allowed) ms"
    using scan_loop_sound by auto
  from ts show "\<exists>ts. json_lex data = TDelim (CHR ''{'') # ts
      \<and> scan_loop allowed {} True ts = Inr (ms, [TDelim (CHR ''}'')])" by blast
qed

definition field_member :: "jfield \<Rightarrow> string \<times> jtok" where
  "field_member f = (fst f, snd (snd f))"

lemma member_okE:
  assumes "member_ok allowed (k, t)"
  obtains limit where "map_of allowed k = Some limit" "value_check k limit t = None"
  using assms by (auto simp: member_ok_def split: option.splits)

lemma scan_member:
  assumes "member_ok allowed (k, t)" "k \<notin> seen" "first \<longleftrightarrow> pre = []" "\<not> first \<longleftrightarrow> pre = [TDelim (CHR '','')]"
  shows "scan_loop allowed seen first (pre @ TStr k k # TDelim (CHR '':'') # t # ts)
    = (case scan_loop allowed (insert k seen) False ts of
         Inl e \<Rightarrow> Inl e | Inr (ms, ts') \<Rightarrow> Inr ((k, t) # ms, ts'))"
proof -
  obtain limit where "map_of allowed k = Some limit" "value_check k limit t = None"
    using assms(1) by (rule member_okE)
  then show ?thesis
    using assms(2-4) by (cases first) auto
qed

lemma scan_loop_fields:
  assumes "list_all (member_ok allowed \<circ> field_member) fs" "distinct (map fst fs)"
    "set (map fst fs) \<inter> seen = {}" "fs \<noteq> []"
    "first \<longleftrightarrow> pre = []" "\<not> first \<longleftrightarrow> pre = [TDelim (CHR '','')]"
  shows "scan_loop allowed seen first (pre @ field_toks fs @ [TDelim (CHR ''}'')])
    = Inr (map field_member fs, [TDelim (CHR ''}'')])"
  using assms
proof (induction fs arbitrary: seen first pre rule: field_toks.induct)
  case (2 k v t)
  then show ?case
    by (simp add: scan_member field_member_def)
next
  case (3 k v t f fs)
  have "scan_loop allowed (insert k seen) False ([TDelim (CHR '','')] @ field_toks (f # fs) @ [TDelim (CHR ''}'')])
      = Inr (map field_member (f # fs), [TDelim (CHR ''}'')])"
    using 3(2-5) by (intro 3(1)) auto
  then show ?case
    using 3(2-) by (simp add: scan_member field_member_def [of "(k, v, t)"])
qed simp

text \<open>Reading back a written object gives its members.\<close>

lemma scanFlatObject_fields:
  assumes "list_all field_ok fs" "list_all (member_ok allowed \<circ> field_member) fs"
    "distinct (map fst fs)" "fs \<noteq> []"
  shows "scanFlatObject (json_object (map field_text fs)) allowed = Inr (map field_member fs)"
  using json_lex_object [OF assms(1)] scan_loop_fields [of allowed fs "{}" True "[]"] assms(2-4)
  by (simp add: scanFlatObject_def)

lemma decodeStrictJSON_fields:
  assumes "list_all field_ok fs" "list_all (member_ok allowed \<circ> field_member) fs"
    "distinct (map fst fs)" "fs \<noteq> []"
    "length (b64_encode (json_object (map field_text fs))) \<le> MaxBytes"
  shows "decodeStrictJSON (b64_encode (json_object (map field_text fs))) allowed
    = Inr (map field_member fs)"
proof -
  let ?data = "json_object (map field_text fs)"
  have "?data \<noteq> []" by (simp add: json_object_def)
  then have "decodeCanonicalRawBase64URL (b64_encode ?data) = Inr ?data"
    by (simp add: decodeCanonical_iff)
  moreover have "length ?data \<le> MaxBytes"
    using assms(5) by (simp add: length_b64_encode)
  ultimately show ?thesis
    using assms(5) scanFlatObject_fields [OF assms(1-4)] by (simp add: decodeStrictJSON_def)
qed

section \<open>Marshalling a flat struct\<close>

text \<open>The members of a struct in declaration order; a member that cannot be marshalled is the
  result's error.\<close>

fun marshal_members :: "(string \<times> string result) list \<Rightarrow> (string \<times> string) list result" where
  "marshal_members [] = Inr []"
| "marshal_members ((k, v) # ms) =
    res_bind v (\<lambda>t. res_bind (marshal_members ms) (\<lambda>ts. Inr ((k, t) # ts)))"

definition Marshal :: "(string \<times> string result) list \<Rightarrow> string result" where
  "Marshal ms = res_bind (marshal_members ms) (\<lambda>ts. Inr (json_object ts))"

lemma marshal_members_ok:
  "marshal_members (map (\<lambda>(k, v). (k, Inr v)) ms) = Inr ms"
  by (induction ms) auto

section \<open>Fields of each kind\<close>

definition json_time_ok :: "ztime \<Rightarrow> bool" where
  "json_time_ok zt \<longleftrightarrow> snd zt = 0 \<and> 0 \<le> year (date_of (fst zt)) \<and> year (date_of (fst zt)) \<le> 9999"

lemma json_time_okE:
  assumes "json_time_ok zt"
  shows "MarshalTime zt = Inr (CHR 0x22 # FormatUTC (fst zt) @ [CHR 0x22])"
    "lexes (CHR 0x22 # FormatUTC (fst zt) @ [CHR 0x22]) (TStr (FormatUTC (fst zt)) (FormatUTC (fst zt)))"
    "ParseTime True (FormatUTC (fst zt)) = Some zt"
proof -
  have "zt = UTC (fst zt)" using assms by (simp add: json_time_ok_def UTC_def prod_eq_iff)
  then show "MarshalTime zt = Inr (CHR 0x22 # FormatUTC (fst zt) @ [CHR 0x22])"
    "ParseTime True (FormatUTC (fst zt)) = Some zt"
    "lexes (CHR 0x22 # FormatUTC (fst zt) @ [CHR 0x22]) (TStr (FormatUTC (fst zt)) (FormatUTC (fst zt)))"
    using assms MarshalTime_UTC [of "fst zt"] ParseTime_FormatUTC [of "fst zt" True]
      lexes_plain [OF plain_FormatUTC, of "fst zt"]
    by (simp_all add: json_time_ok_def)
qed

lemma length_trim_zeros: "length (trim_zeros s) \<le> length s"
  using length_dropWhile_le [of _ "rev s"] by (simp add: trim_zeros_def)

lemma length_FormatUTC:
  assumes "0 \<le> year (date_of t)" "year (date_of t) \<le> 9999"
  shows "length (FormatUTC t) \<le> 30"
proof -
  have "length (stamp (date_of t)) = 19"
    using assms by (simp add: stamp_def year_digits_def del: pad.simps)
  moreover have "length (fraction n) \<le> 10" for n
    using length_trim_zeros [of "pad 9 (nat n)"] by (simp add: fraction_def del: pad.simps)
  ultimately show ?thesis
    using assms by (simp add: FormatUTC_def Format_def UTC_def Let_def zone_suffix_def)
qed

text \<open>One member of each kind, as a written and lexed field.\<close>

definition str_field :: "string \<Rightarrow> string \<Rightarrow> jfield" where
  "str_field k s = (k, json_string s, TStr (json_escape s) s)"
definition nat_field :: "string \<Rightarrow> nat \<Rightarrow> jfield" where
  "nat_field k n = (k, decimal n, TNum (decimal n))"
definition bool_field :: "string \<Rightarrow> bool \<Rightarrow> jfield" where
  "bool_field k b = (k, json_bool b, TLit (json_bool b))"
definition time_field :: "string \<Rightarrow> ztime \<Rightarrow> jfield" where
  "time_field k t = (k, CHR 0x22 # FormatUTC (fst t) @ [CHR 0x22], TStr (FormatUTC (fst t)) (FormatUTC (fst t)))"

lemmas field_defs = str_field_def nat_field_def bool_field_def time_field_def

lemma field_oks:
  "plain k \<Longrightarrow> ascii s \<Longrightarrow> field_ok (str_field k s)"
  "plain k \<Longrightarrow> n < 2 ^ 64 \<Longrightarrow> field_ok (nat_field k n)"
  "plain k \<Longrightarrow> field_ok (bool_field k b)"
  "plain k \<Longrightarrow> json_time_ok t \<Longrightarrow> field_ok (time_field k t)"
  by (simp_all add: field_ok_def field_defs lexes_string lexes_decimal lexes_bool json_time_okE)

lemma member_oks:
  "member_ok al (field_member (str_field k s)) \<longleftrightarrow>
     (case map_of al k of None \<Rightarrow> False | Some n \<Rightarrow> length s \<le> n)"
  "member_ok al (field_member (nat_field k m)) \<longleftrightarrow> map_of al k \<noteq> None"
  "member_ok al (field_member (bool_field k b)) \<longleftrightarrow> map_of al k \<noteq> None"
  by (simp_all add: member_ok_def field_member_def field_defs value_check_def split: option.splits)

lemma member_ok_time:
  assumes "json_time_ok t" "case map_of al k of None \<Rightarrow> False | Some n \<Rightarrow> 30 \<le> n"
  shows "member_ok al (field_member (time_field k t))"
  using assms length_FormatUTC [of "fst t"]
  by (auto simp: member_ok_def field_member_def field_defs value_check_def json_time_ok_def
      split: option.splits)

lemma get_fields:
  "map_of ms k = Some (snd (field_member (str_field k s))) \<Longrightarrow> get_string ms k = Inr s"
  "map_of ms k = Some (snd (field_member (nat_field k n))) \<Longrightarrow> n < 2 ^ 64 \<Longrightarrow> get_uint64 ms k = Inr n"
  "map_of ms k = Some (snd (field_member (nat_field k n))) \<Longrightarrow> n < 2 ^ 63 \<Longrightarrow> get_int ms k = Inr (int n)"
  "map_of ms k = Some (snd (field_member (bool_field k b))) \<Longrightarrow> get_bool ms k = Inr b"
  "map_of ms k = Some (snd (field_member (time_field k t))) \<Longrightarrow> json_time_ok t \<Longrightarrow> get_time ms k = Inr t"
proof -
  assume "map_of ms k = Some (snd (field_member (nat_field k n)))" "n < 2 ^ 63"
  moreover have "\<not> HasPrefix (decimal n) ''-''"
    using decimal_digits [of n] by (cases "decimal n") (auto simp: is_digit_def byte_def)
  ultimately show "get_int ms k = Inr (int n)"
    using decimal_digits [of n]
    by (simp add: get_int_def field_member_def field_defs Let_def)
qed (use decimal_digits [of n] in \<open>auto simp: get_string_def get_uint64_def get_bool_def get_time_def
      field_member_def field_defs json_bool_def json_time_okE\<close>)

lemma Marshal_fields:
  assumes "ms = map (\<lambda>f. (fst f, Inr (fst (snd f)))) fs"
  shows "Marshal ms = Inr (json_object (map field_text fs))"
proof -
  have "marshal_members ms = Inr (map field_text fs)"
    unfolding assms by (induction fs) (simp_all add: field_text_def)
  then show ?thesis by (simp add: Marshal_def)
qed

end
