(* ===== verification/Keys.thy ===== *)
theory Keys
  imports Strict
begin

text \<open>
  Keys, identifiers and possession proofs (src/internal/accesslease/sign.go).

  Ed25519 and SHA-256 are cryptographic primitives of Go's standard library whose security is
  not a matter of this development. They are the functions of a record \<open>crypto\<close> that every
  signing or verifying definition takes as an argument. What is assumed of them, where it is
  assumed, is the documented behaviour in \<open>keypair\<close>: the signature a private key makes has 64
  bytes and verifies under the public key it carries in its last 32 bytes. Fresh randomness is
  an argument too.
\<close>

record crypto =
  ed_sign :: "string \<Rightarrow> string \<Rightarrow> string"
  ed_verify :: "string \<Rightarrow> string \<Rightarrow> string \<Rightarrow> bool"
  sha256 :: "string \<Rightarrow> string"
  NewKeyFromSeed :: "string \<Rightarrow> string"

definition PublicKeySize :: nat where "PublicKeySize = 32"
definition PrivateKeySize :: nat where "PrivateKeySize = 64"
definition SignatureSize :: nat where "SignatureSize = 64"

text \<open>\<^verbatim>\<open>private.Public()\<close>.\<close>

definition Public :: "string \<Rightarrow> string" where "Public private = drop 32 private"

definition keypair :: "crypto \<Rightarrow> string \<Rightarrow> bool" where
  "keypair C private \<longleftrightarrow> length private = PrivateKeySize
     \<and> (\<forall>m. length (ed_sign C private m) = SignatureSize
           \<and> ed_verify C (Public private) m (ed_sign C private m))"

text \<open>\<^verbatim>\<open>ed25519.NewKeyFromSeed\<close> gives the 64-byte key pair that starts with its seed; key generation
  is that function on 32 random bytes.\<close>

definition seed_keys :: "crypto \<Rightarrow> bool" where
  "seed_keys C \<longleftrightarrow> (\<forall>seed. length seed = 32 \<longrightarrow>
     take 32 (NewKeyFromSeed C seed) = seed \<and> keypair C (NewKeyFromSeed C seed))"

definition GenerateKey :: "crypto \<Rightarrow> string result \<Rightarrow> string result" where
  "GenerateKey C random = res_bind random (\<lambda>seed. Inr (NewKeyFromSeed C seed))"

section \<open>Bounds\<close>

definition MaxFieldLen :: nat where "MaxFieldLen = 4096"
definition MaxRedemptionAddrLen :: nat where "MaxRedemptionAddrLen = 1024"
definition MaxRedemptionProtocolLen :: nat where "MaxRedemptionProtocolLen = 128"
definition MaxPipeIDLen :: nat where "MaxPipeIDLen = 256"
definition MaxRedemptionAddresses :: nat where "MaxRedemptionAddresses = 8"
definition MaxClockSkew :: int where "MaxClockSkew = 30 * second"
definition MaxTTL :: int where "MaxTTL = 10 * minute"
definition Version :: int where "Version = 1"

lemmas bounds = MaxFieldLen_def MaxRedemptionAddrLen_def MaxRedemptionProtocolLen_def
  MaxPipeIDLen_def MaxRedemptionAddresses_def MaxClockSkew_def MaxTTL_def Version_def
  PublicKeySize_def PrivateKeySize_def SignatureSize_def MaxBytes_def

definition validString :: "string \<Rightarrow> bool" where
  "validString value \<longleftrightarrow> length value > 0 \<and> length value \<le> MaxFieldLen"

section \<open>Public keys and Pipe identifiers\<close>

definition PublicString :: "string \<Rightarrow> string" where "PublicString public = b64_encode public"

definition PublicFromString :: "string \<Rightarrow> string result" where
  "PublicFromString value =
     (let bad = Error ''accesslease: invalid Ed25519 public key'' [] in
      case decodeCanonicalRawBase64URL value of
        Inl _ \<Rightarrow> Inl bad
      | Inr data \<Rightarrow> if length data \<noteq> PublicKeySize then Inl bad else Inr data)"

definition PipeIDFromOwner :: "crypto \<Rightarrow> string \<Rightarrow> string" where
  "PipeIDFromOwner C owner = ''pip_'' @ map to_lower (b32_encode (take 20 (sha256 C owner)))"

definition VerifyPipeOwner :: "crypto \<Rightarrow> string \<Rightarrow> string \<Rightarrow> bool" where
  "VerifyPipeOwner C pipeID owner \<longleftrightarrow>
     \<not> (pipeID = [] \<or> length owner \<noteq> PublicKeySize) \<and> pipeID = PipeIDFromOwner C owner"

text \<open>\<^verbatim>\<open>randomID(prefix)\<close>; the argument is what \<^verbatim>\<open>rand.Read\<close> gave.\<close>

definition randomID :: "string \<Rightarrow> string result \<Rightarrow> string result" where
  "randomID prefix rnd = res_bind rnd (\<lambda>value. Inr (prefix @ b32_encode value))"

definition NewJTI :: "string result \<Rightarrow> string result" where "NewJTI = randomID ''jti_''"

section \<open>Possession proofs\<close>

definition nul :: char where "nul = CHR 0x00"

definition OpenProofPurpose :: string where "OpenProofPurpose = ''tubo-open-v2''"
definition RedeemProofPurpose :: string where "RedeemProofPurpose = ''tubo-exact-redeem-v2''"
definition RenewProofPurpose :: string where "RenewProofPurpose = ''tubo-exact-renew-v2''"

lemmas purposes = OpenProofPurpose_def RedeemProofPurpose_def RenewProofPurpose_def

definition proof_message :: "string \<Rightarrow> string list \<Rightarrow> string" where
  "proof_message purpose parts = purpose @ [nul] @ Join parts [nul]"

definition decodeSignature :: "string \<Rightarrow> string result" where
  "decodeSignature signature =
     (let bad = Error ''accesslease: invalid signature encoding'' [] in
      case decodeCanonicalRawBase64URL signature of
        Inl _ \<Rightarrow> Inl bad
      | Inr value \<Rightarrow> if length value \<noteq> SignatureSize then Inl bad else Inr value)"

definition SignProof :: "crypto \<Rightarrow> string \<Rightarrow> string \<Rightarrow> string list \<Rightarrow> string" where
  "SignProof C private purpose parts = b64_encode (ed_sign C private (proof_message purpose parts))"

definition VerifyProof :: "crypto \<Rightarrow> string \<Rightarrow> string \<Rightarrow> string \<Rightarrow> string list \<Rightarrow> bool" where
  "VerifyProof C public signature purpose parts =
     (case decodeSignature signature of
        Inl _ \<Rightarrow> False
      | Inr value \<Rightarrow> ed_verify C public (proof_message purpose parts) value)"

definition domainBytes :: "string \<Rightarrow> string \<Rightarrow> string" where
  "domainBytes domain payload = domain @ payload"

definition AccessLeaseSigningDomain :: string where
  "AccessLeaseSigningDomain = ''tubo://access-lease/v1'' @ [nul]"
definition OwnerBindingSigningDomain :: string where
  "OwnerBindingSigningDomain = ''tubo://exact-owner-binding/v1'' @ [nul]"
definition ExactInviteSigningDomain :: string where
  "ExactInviteSigningDomain = ''tubo://exact-invite/v1'' @ [nul]"

lemmas domains = AccessLeaseSigningDomain_def OwnerBindingSigningDomain_def
  ExactInviteSigningDomain_def

section \<open>Facts\<close>

lemma PublicFromString_iff:
  "PublicFromString v = Inr p \<longleftrightarrow> v = PublicString p \<and> length p = PublicKeySize"
proof
  assume "PublicFromString v = Inr p"
  then show "v = PublicString p \<and> length p = PublicKeySize"
    by (auto simp: PublicFromString_def PublicString_def Let_def decodeCanonical_iff
        split: sum.splits if_splits)
next
  assume v: "v = PublicString p \<and> length p = PublicKeySize"
  then have "p \<noteq> []" by (auto simp: bounds)
  with v show "PublicFromString v = Inr p"
    by (simp add: PublicFromString_def PublicString_def)
qed

lemma PublicFromString_of [simp]:
  "length p = PublicKeySize \<Longrightarrow> PublicFromString (PublicString p) = Inr p"
  by (simp add: PublicFromString_iff)

lemma decodeSignature_iff:
  "decodeSignature v = Inr s \<longleftrightarrow> v = b64_encode s \<and> length s = SignatureSize"
proof
  assume "decodeSignature v = Inr s"
  then show "v = b64_encode s \<and> length s = SignatureSize"
    by (auto simp: decodeSignature_def Let_def decodeCanonical_iff split: sum.splits if_splits)
next
  assume v: "v = b64_encode s \<and> length s = SignatureSize"
  then have "s \<noteq> []" by (auto simp: bounds)
  with v show "decodeSignature v = Inr s"
    by (simp add: decodeSignature_def)
qed

lemma keypair_facts:
  assumes "keypair C k"
  shows "length (Public k) = PublicKeySize" "length (ed_sign C k m) = SignatureSize"
    "ed_verify C (Public k) m (ed_sign C k m)"
  using assms by (auto simp: keypair_def Public_def bounds)

lemma decodeSignature_sign:
  "keypair C k \<Longrightarrow> decodeSignature (PublicString (ed_sign C k m)) = Inr (ed_sign C k m)"
  by (simp add: decodeSignature_iff PublicString_def keypair_facts)

lemma length_PublicString: "length (PublicString p) = (4 * length p + 2) div 3"
  by (simp add: PublicString_def length_b64_encode)

lemma validString_PublicString: "length p = PublicKeySize \<Longrightarrow> validString (PublicString p)"
  by (simp add: validString_def length_PublicString bounds)

lemma ascii_PublicString: "ascii (PublicString p)"
  by (simp add: PublicString_def graphic_ascii b64_encode_graphic)

lemma PublicString_inject [simp]: "PublicString p = PublicString q \<longleftrightarrow> p = q"
  by (simp add: PublicString_def)

lemma VerifyProof_SignProof:
  "keypair C k \<Longrightarrow> VerifyProof C (Public k) (SignProof C k purpose parts) purpose parts"
  using decodeSignature_sign [of C k]
  by (simp add: VerifyProof_def SignProof_def PublicString_def keypair_facts)

lemma length_bits8 [simp]: "length (bits8 c) = 8"
  by (simp add: bits8_def)

lemma length_concat_bits8: "length (concat (map bits8 s)) = 8 * length s"
  by (induction s) simp_all

lemma PipeIDFromOwner_length:
  assumes "length (sha256 C owner) = 32"
  shows "length (PipeIDFromOwner C owner) = 36"
  using assms
  by (simp add: PipeIDFromOwner_def b32_encode_def length_b32_groups length_concat_bits8)

text \<open>Two proof messages over the same number of separator-free parts are equal only for the
  same purpose and the same parts.\<close>

lemma Join_nul_split:
  assumes "\<forall>p \<in> set ps. nul \<notin> set p" "ps \<noteq> []"
  shows "Split (Join ps [nul]) nul = ps"
proof -
  have single: "Split p nul = [p]" if "nul \<notin> set p" for p
    using that by (induction p) auto
  have cons: "Split (p @ nul # s) nul = p # Split s nul" if "nul \<notin> set p" for p s
    using that by (induction p) auto
  show ?thesis
    using assms by (induction ps "[nul]" rule: Join.induct) (auto simp: single cons)
qed

lemma append_nul_inject:
  assumes "nul \<notin> set a" "nul \<notin> set b" "a @ nul # s = b @ nul # t"
  shows "a = b" "s = t"
proof -
  from Cut_append [OF assms(1), of s] have "Cut (b @ nul # t) nul = (a, s, True)"
    by (simp only: assms(3))
  then show "a = b" "s = t"
    using Cut_append [OF assms(2), of t] by simp_all
qed

section \<open>An instance of the primitives\<close>

text \<open>A record of primitives with the documented behaviour, for evaluating the definitions on concrete
  inputs. It is of no cryptographic value.\<close>

definition example_crypto :: crypto where
  "example_crypto = \<lparr>ed_sign = (\<lambda>k m. Public k @ Public k), ed_verify = (\<lambda>p m s. s = p @ p),
     sha256 = (\<lambda>m. take 32 (m @ replicate 32 nul)), NewKeyFromSeed = (\<lambda>seed. seed @ seed)\<rparr>"

lemma example_crypto_simps [simp]:
  "ed_sign example_crypto k m = Public k @ Public k"
  "ed_verify example_crypto p m s \<longleftrightarrow> s = p @ p"
  "sha256 example_crypto m = take 32 (m @ replicate 32 nul)"
  "NewKeyFromSeed example_crypto seed = seed @ seed"
  by (simp_all add: example_crypto_def)

lemma example_keypair: "length k = 64 \<Longrightarrow> keypair example_crypto k"
  by (simp add: keypair_def Public_def bounds)

lemma example_seed_keys: "seed_keys example_crypto"
  by (simp add: seed_keys_def example_keypair)

end
