(* ===== verification/AccessLease.thy ===== *)
theory AccessLease
  imports Keys
begin

text \<open>
  The exact-Pipe Access Lease (src/internal/accesslease/accesslease.go): minting, signing,
  verification against a pinned authority key, and the wire form.
\<close>

section \<open>The credential\<close>

record AccessLease =
  al_Version :: int
  al_Type :: string
  al_Issuer :: string
  al_Subject :: string
  al_AudiencePipeID :: string
  al_JTI :: string
  al_IssuedAt :: ztime
  al_NotBefore :: ztime
  al_ExpiresAt :: ztime
  al_AccessEpoch :: nat
  al_Signature :: string

definition AccessLeaseType :: string where "AccessLeaseType = ''pipe.open.access''"

definition leaseAllowed :: allowed where
  "leaseAllowed =
     [(''audience_pipe_id'', MaxPipeIDLen), (''version'', MaxFieldLen), (''type'', MaxFieldLen),
      (''issuer'', MaxFieldLen), (''subject'', MaxFieldLen), (''jti'', MaxFieldLen),
      (''issued_at'', MaxFieldLen), (''not_before'', MaxFieldLen), (''expires_at'', MaxFieldLen),
      (''access_epoch'', MaxFieldLen), (''signature'', MaxFieldLen)]"

text \<open>The members of the signing form, in declaration order.\<close>

definition lease_members :: "AccessLease \<Rightarrow> (string \<times> string result) list" where
  "lease_members l =
     [(''version'', Inr (json_int (al_Version l))),
      (''type'', Inr (json_string (al_Type l))),
      (''issuer'', Inr (json_string (al_Issuer l))),
      (''subject'', Inr (json_string (al_Subject l))),
      (''audience_pipe_id'', Inr (json_string (al_AudiencePipeID l))),
      (''jti'', Inr (json_string (al_JTI l))),
      (''issued_at'', MarshalTime (al_IssuedAt l)),
      (''not_before'', MarshalTime (al_NotBefore l)),
      (''expires_at'', MarshalTime (al_ExpiresAt l)),
      (''access_epoch'', Inr (json_int (int (al_AccessEpoch l))))]"

definition lease_signingBody :: "AccessLease \<Rightarrow> string result" where
  "lease_signingBody l =
     res_bind (Marshal (lease_members l)) (\<lambda>canonical.
     Inr (domainBytes AccessLeaseSigningDomain canonical))"

definition lease_Sign :: "crypto \<Rightarrow> string \<Rightarrow> AccessLease \<Rightarrow> AccessLease result" where
  "lease_Sign C private l =
     (let l1 = l\<lparr>al_Issuer := PublicString (Public private)\<rparr> in
      res_bind (lease_signingBody l1) (\<lambda>canonical.
      Inr (l1\<lparr>al_Signature := PublicString (ed_sign C private canonical)\<rparr>)))"

definition NewAccessLease ::
  "crypto \<Rightarrow> string result \<Rightarrow> string \<Rightarrow> string \<Rightarrow> string \<Rightarrow> gotime \<Rightarrow> int \<Rightarrow> nat \<Rightarrow> AccessLease result" where
  "NewAccessLease C rnd private subject pipeID now lifetime accessEpoch =
     (if \<not> validString subject \<or> \<not> validString pipeID \<or> length pipeID > MaxPipeIDLen
      then Inl (Error ''accesslease: invalid subject or pipe'' [])
      else case PublicFromString subject of
        Inl _ \<Rightarrow> Inl (Error ''accesslease: subject is not a canonical Ed25519 public key'' [])
      | Inr _ \<Rightarrow>
          if lifetime \<le> 0 \<or> lifetime > MaxTTL
          then Inl (Error ''accesslease: lifetime outside allowed window'' [])
          else
            res_bind (NewJTI rnd) (\<lambda>jti.
            lease_Sign C private
              \<lparr>al_Version = Version, al_Type = AccessLeaseType, al_Issuer = [], al_Subject = subject,
               al_AudiencePipeID = pipeID, al_JTI = jti, al_IssuedAt = UTC now,
               al_NotBefore = UTC now, al_ExpiresAt = UTC (now + lifetime),
               al_AccessEpoch = accessEpoch, al_Signature = []\<rparr>))"

text \<open>\<^verbatim>\<open>AccessLease.Verify\<close>; \<open>clock\<close> is the wall clock read when \<open>now\<close> is the zero time.\<close>

definition lease_Verify ::
  "crypto \<Rightarrow> gotime \<Rightarrow> string \<Rightarrow> string \<Rightarrow> string \<Rightarrow> gotime \<Rightarrow> AccessLease \<Rightarrow> goerror option" where
  "lease_Verify C clock public subject pipeID now0 l =
     (if al_Version l \<noteq> Version \<or> al_Type l \<noteq> AccessLeaseType
      then Some (Error ''accesslease: wrong kind or version'' [])
      else if al_Issuer l \<noteq> PublicString public \<or> \<not> validString (al_Issuer l)
        \<or> \<not> validString (al_Subject l) \<or> \<not> validString (al_AudiencePipeID l)
        \<or> \<not> validString (al_JTI l) \<or> \<not> HasPrefix (al_JTI l) ''jti_''
      then Some (Error ''accesslease: invalid identity or metadata'' [])
      else if \<not> is_ok (PublicFromString (al_Subject l))
      then Some (Error ''accesslease: subject is not a canonical Ed25519 public key'' [])
      else if length (al_AudiencePipeID l) > MaxPipeIDLen
      then Some (Error ''accesslease: pipe audience too long'' [])
      else if IsZero (instant (al_IssuedAt l)) \<or> IsZero (instant (al_NotBefore l))
        \<or> \<not> instant (al_ExpiresAt l) > instant (al_IssuedAt l)
      then Some (Error ''accesslease: invalid lifetime'' [])
      else
        let now = (if IsZero now0 then clock else now0) in
        if instant (al_IssuedAt l) > now + MaxClockSkew
        then Some (Error ''accesslease: issued too far in future'' [])
        else if instant (al_NotBefore l) > now + MaxClockSkew
        then Some (Error ''accesslease: not yet valid'' [])
        else if \<not> instant (al_ExpiresAt l) > now
        then Some (Error ''accesslease: expired'' [])
        else if instant (al_ExpiresAt l) - instant (al_IssuedAt l) > MaxTTL
        then Some (Error ''accesslease: max TTL exceeded'' [])
        else if subject \<noteq> [] \<and> al_Subject l \<noteq> subject
        then Some (Error ''accesslease: subject mismatch'' [])
        else if pipeID \<noteq> [] \<and> al_AudiencePipeID l \<noteq> pipeID
        then Some (Error ''accesslease: pipe audience mismatch'' [])
        else case decodeSignature (al_Signature l) of
          Inl e \<Rightarrow> Some e
        | Inr signature \<Rightarrow>
            (case lease_signingBody l of
               Inl e \<Rightarrow> Some e
             | Inr canonical \<Rightarrow>
                 if \<not> ed_verify C public canonical signature
                 then Some (Error ''accesslease: invalid signature'' [])
                 else None))"

definition lease_Encode :: "AccessLease \<Rightarrow> string result" where
  "lease_Encode l =
     res_bind (Marshal (lease_members l @ [(''signature'', Inr (json_string (al_Signature l)))]))
       (\<lambda>data. let encoded = b64_encode data in
          if length encoded > MaxBytes then Inl (Error ''accesslease: exceeds bounded field'' [])
          else Inr encoded)"

text \<open>\<^verbatim>\<open>json.Unmarshal\<close> into an \<^verbatim>\<open>AccessLease\<close>, member by member.\<close>

definition lease_of_members :: "members \<Rightarrow> AccessLease result" where
  "lease_of_members ms =
     res_bind (get_int ms ''version'') (\<lambda>version.
     res_bind (get_string ms ''type'') (\<lambda>type.
     res_bind (get_string ms ''issuer'') (\<lambda>issuer.
     res_bind (get_string ms ''subject'') (\<lambda>subject.
     res_bind (get_string ms ''audience_pipe_id'') (\<lambda>audience.
     res_bind (get_string ms ''jti'') (\<lambda>jti.
     res_bind (get_time ms ''issued_at'') (\<lambda>issued.
     res_bind (get_time ms ''not_before'') (\<lambda>notbefore.
     res_bind (get_time ms ''expires_at'') (\<lambda>expires.
     res_bind (get_uint64 ms ''access_epoch'') (\<lambda>epoch.
     res_bind (get_string ms ''signature'') (\<lambda>signature.
     Inr \<lparr>al_Version = version, al_Type = type, al_Issuer = issuer, al_Subject = subject,
          al_AudiencePipeID = audience, al_JTI = jti, al_IssuedAt = issued,
          al_NotBefore = notbefore, al_ExpiresAt = expires, al_AccessEpoch = epoch,
          al_Signature = signature\<rparr>)))))))))))"

definition lease_Decode :: "string \<Rightarrow> AccessLease result" where
  "lease_Decode encoded =
     res_bind (decodeStrictJSON encoded leaseAllowed) (\<lambda>ms.
     map_err (\<lambda>_. errStrict) (lease_of_members ms))"

section \<open>Verification\<close>

lemma lease_VerifyD:
  assumes "lease_Verify C clock public subject pipeID now0 l = None"
  defines "now \<equiv> (if IsZero now0 then clock else now0)"
  shows "al_Version l = Version" "al_Type l = AccessLeaseType" "al_Issuer l = PublicString public"
    "\<exists>p. al_Subject l = PublicString p \<and> length p = PublicKeySize"
    "subject \<noteq> [] \<Longrightarrow> al_Subject l = subject" "pipeID \<noteq> [] \<Longrightarrow> al_AudiencePipeID l = pipeID"
    "now < instant (al_ExpiresAt l)" "instant (al_IssuedAt l) \<le> now + MaxClockSkew"
    "instant (al_NotBefore l) \<le> now + MaxClockSkew"
    "instant (al_ExpiresAt l) - instant (al_IssuedAt l) \<le> MaxTTL"
    "instant (al_IssuedAt l) < instant (al_ExpiresAt l)"
    "HasPrefix (al_JTI l) ''jti_''" "validString (al_AudiencePipeID l)"
    "length (al_AudiencePipeID l) \<le> MaxPipeIDLen" "instant (al_IssuedAt l) \<noteq> zero_time"
    "\<exists>sig body. decodeSignature (al_Signature l) = Inr sig \<and> lease_signingBody l = Inr body
       \<and> ed_verify C public body sig"
  using assms(1) unfolding now_def
  by (auto simp: lease_Verify_def Let_def result_simps PublicFromString_iff
      split: if_splits sum.splits)

section \<open>Minting\<close>

lemma lease_signingBody_signature [simp]:
  "lease_signingBody (l\<lparr>al_Signature := s\<rparr>) = lease_signingBody l"
  by (simp add: lease_signingBody_def lease_members_def)

lemma lease_Sign_Inr:
  assumes "lease_Sign C k l = Inr l'"
  obtains body where "l' = l\<lparr>al_Issuer := PublicString (Public k),
      al_Signature := PublicString (ed_sign C k body)\<rparr>" "lease_signingBody l' = Inr body"
  using assms by (auto simp: lease_Sign_def Let_def result_simps)

lemma NewJTI_Inr: "NewJTI rnd = Inr jti \<Longrightarrow> \<exists>v. rnd = Inr v \<and> jti = ''jti_'' @ b32_encode v"
  by (auto simp: NewJTI_def randomID_def result_simps)

lemma NewAccessLease_Inr:
  assumes "NewAccessLease C rnd k subject pipeID now lifetime epoch = Inr lease"
  obtains v p body where
    "lease = \<lparr>al_Version = Version, al_Type = AccessLeaseType, al_Issuer = PublicString (Public k),
        al_Subject = subject, al_AudiencePipeID = pipeID, al_JTI = ''jti_'' @ b32_encode v,
        al_IssuedAt = UTC now, al_NotBefore = UTC now, al_ExpiresAt = UTC (now + lifetime),
        al_AccessEpoch = epoch, al_Signature = PublicString (ed_sign C k body)\<rparr>"
    "lease_signingBody lease = Inr body" "rnd = Inr v" "subject = PublicString p"
    "length p = PublicKeySize" "validString pipeID" "length pipeID \<le> MaxPipeIDLen"
    "0 < lifetime" "lifetime \<le> MaxTTL"
proof -
  obtain p jti where 1: "validString pipeID" "length pipeID \<le> MaxPipeIDLen"
    "PublicFromString subject = Inr p" "0 < lifetime" "lifetime \<le> MaxTTL" "NewJTI rnd = Inr jti"
    and sign: "lease_Sign C k \<lparr>al_Version = Version, al_Type = AccessLeaseType, al_Issuer = [],
      al_Subject = subject, al_AudiencePipeID = pipeID, al_JTI = jti, al_IssuedAt = UTC now,
      al_NotBefore = UTC now, al_ExpiresAt = UTC (now + lifetime), al_AccessEpoch = epoch,
      al_Signature = []\<rparr> = Inr lease"
    using assms by (auto simp: NewAccessLease_def result_simps split: if_splits)
  obtain v where v: "rnd = Inr v" "jti = ''jti_'' @ b32_encode v" using NewJTI_Inr [OF 1(6)] by blast
  have p: "subject = PublicString p" "length p = PublicKeySize"
    using 1(3) by (simp_all add: PublicFromString_iff)
  from sign obtain body where body: "lease_signingBody lease = Inr body"
    "lease = \<lparr>al_Version = Version, al_Type = AccessLeaseType, al_Issuer = PublicString (Public k),
      al_Subject = subject, al_AudiencePipeID = pipeID, al_JTI = jti, al_IssuedAt = UTC now,
      al_NotBefore = UTC now, al_ExpiresAt = UTC (now + lifetime), al_AccessEpoch = epoch,
      al_Signature = PublicString (ed_sign C k body)\<rparr>"
    by (rule lease_Sign_Inr) simp
  show thesis
    using that [OF body(2) [unfolded v(2)] body(1) v(1) p 1(1,2,4,5)] .
qed

text \<open>What was minted for 16 bytes of randomness verifies from the clock skew before its issue
  until just before its expiry.\<close>

lemma NewAccessLease_verifies:
  assumes "NewAccessLease C rnd k subject pipeID now lifetime epoch = Inr lease"
    and "keypair C k" "\<And>v. rnd = Inr v \<Longrightarrow> length v = 16" "now \<noteq> zero_time"
    and "at \<noteq> zero_time" "now \<le> at + MaxClockSkew" "at < now + lifetime"
  shows "lease_Verify C clock (Public k) subject pipeID at lease = None"
proof -
  obtain v p body where l: "lease = \<lparr>al_Version = Version, al_Type = AccessLeaseType,
        al_Issuer = PublicString (Public k), al_Subject = subject, al_AudiencePipeID = pipeID,
        al_JTI = ''jti_'' @ b32_encode v, al_IssuedAt = UTC now, al_NotBefore = UTC now,
        al_ExpiresAt = UTC (now + lifetime), al_AccessEpoch = epoch,
        al_Signature = PublicString (ed_sign C k body)\<rparr>"
    and b: "lease_signingBody lease = Inr body" "rnd = Inr v" "subject = PublicString p"
      "length p = PublicKeySize" "validString pipeID" "length pipeID \<le> MaxPipeIDLen"
      "0 < lifetime" "lifetime \<le> MaxTTL"
    using assms(1) by (rule NewAccessLease_Inr)
  have jti: "validString (''jti_'' @ b32_encode v)"
    using assms(3) [OF b(2)]
    by (simp add: validString_def b32_encode_def length_b32_groups length_concat_bits8 MaxFieldLen_def)
  have sig: "decodeSignature (PublicString (ed_sign C k body)) = Inr (ed_sign C k body)"
    using assms(2) by (rule decodeSignature_sign)
  show ?thesis
    using b jti sig assms(2,4-7) keypair_facts [OF assms(2)]
    by (simp add: lease_Verify_def Let_def l UTC_def is_ok_iff validString_PublicString)
qed

section \<open>Wire form\<close>

definition lease_fields :: "AccessLease \<Rightarrow> jfield list" where
  "lease_fields l =
     [nat_field ''version'' (nat (al_Version l)), str_field ''type'' (al_Type l),
      str_field ''issuer'' (al_Issuer l), str_field ''subject'' (al_Subject l),
      str_field ''audience_pipe_id'' (al_AudiencePipeID l), str_field ''jti'' (al_JTI l),
      time_field ''issued_at'' (al_IssuedAt l), time_field ''not_before'' (al_NotBefore l),
      time_field ''expires_at'' (al_ExpiresAt l), nat_field ''access_epoch'' (al_AccessEpoch l),
      str_field ''signature'' (al_Signature l)]"

text \<open>A lease whose fields have the shape every minted lease has.\<close>

definition lease_wf :: "AccessLease \<Rightarrow> bool" where
  "lease_wf l \<longleftrightarrow>
     al_Version l = Version \<and> al_AccessEpoch l < 2 ^ 64
     \<and> list_all ascii [al_Type l, al_Issuer l, al_Subject l, al_AudiencePipeID l, al_JTI l, al_Signature l]
     \<and> list_all (\<lambda>s. length s \<le> MaxFieldLen) [al_Type l, al_Issuer l, al_Subject l, al_JTI l, al_Signature l]
     \<and> length (al_AudiencePipeID l) \<le> MaxPipeIDLen
     \<and> list_all json_time_ok [al_IssuedAt l, al_NotBefore l, al_ExpiresAt l]"

lemma lease_fields_ok:
  assumes "lease_wf l"
  shows "list_all field_ok (lease_fields l)" "distinct (map fst (lease_fields l))"
    "list_all (member_ok leaseAllowed \<circ> field_member) (lease_fields l)"
proof -
  have wf: "nat (al_Version l) < 2 ^ 64"
    "al_AccessEpoch l < 2 ^ 64" "ascii (al_Type l)"
    "ascii (al_Issuer l)" "ascii (al_Subject l)" "ascii (al_AudiencePipeID l)" "ascii (al_JTI l)"
    "ascii (al_Signature l)" "json_time_ok (al_IssuedAt l)" "json_time_ok (al_NotBefore l)"
    "json_time_ok (al_ExpiresAt l)" "length (al_Type l) \<le> MaxFieldLen"
    "length (al_Issuer l) \<le> MaxFieldLen" "length (al_Subject l) \<le> MaxFieldLen"
    "length (al_JTI l) \<le> MaxFieldLen" "length (al_Signature l) \<le> MaxFieldLen"
    "length (al_AudiencePipeID l) \<le> MaxPipeIDLen"
    using assms by (simp_all add: lease_wf_def Version_def)
  show "list_all field_ok (lease_fields l)"
    by (simp only: lease_fields_def list.pred_inject simp_thms)
      (intro conjI field_oks wf; simp add: byte_def)
  show "distinct (map fst (lease_fields l))"
    by (simp add: lease_fields_def field_defs)
  show "list_all (member_ok leaseAllowed \<circ> field_member) (lease_fields l)"
    using wf
    by (simp add: lease_fields_def member_oks member_ok_time leaseAllowed_def bounds)
qed

lemma lease_Marshal:
  assumes "lease_wf l"
  shows "Marshal (lease_members l @ [(''signature'', Inr (json_string (al_Signature l)))])
    = Inr (json_object (map field_text (lease_fields l)))"
  using assms
  by (intro Marshal_fields)
    (simp add: lease_members_def lease_fields_def field_defs lease_wf_def json_time_okE json_int_def Version_def)

lemma lease_of_fields:
  assumes "lease_wf l"
  shows "lease_of_members (map field_member (lease_fields l)) = Inr l"
proof -
  let ?ms = "map field_member (lease_fields l)"
  have m: "map_of ?ms ''version'' = Some (snd (field_member (nat_field ''version'' (nat (al_Version l)))))"
    "map_of ?ms ''type'' = Some (snd (field_member (str_field ''type'' (al_Type l))))"
    "map_of ?ms ''issuer'' = Some (snd (field_member (str_field ''issuer'' (al_Issuer l))))"
    "map_of ?ms ''subject'' = Some (snd (field_member (str_field ''subject'' (al_Subject l))))"
    "map_of ?ms ''audience_pipe_id''
      = Some (snd (field_member (str_field ''audience_pipe_id'' (al_AudiencePipeID l))))"
    "map_of ?ms ''jti'' = Some (snd (field_member (str_field ''jti'' (al_JTI l))))"
    "map_of ?ms ''issued_at'' = Some (snd (field_member (time_field ''issued_at'' (al_IssuedAt l))))"
    "map_of ?ms ''not_before'' = Some (snd (field_member (time_field ''not_before'' (al_NotBefore l))))"
    "map_of ?ms ''expires_at'' = Some (snd (field_member (time_field ''expires_at'' (al_ExpiresAt l))))"
    "map_of ?ms ''access_epoch''
      = Some (snd (field_member (nat_field ''access_epoch'' (al_AccessEpoch l))))"
    "map_of ?ms ''signature'' = Some (snd (field_member (str_field ''signature'' (al_Signature l))))"
    by (simp_all add: lease_fields_def field_member_def field_defs)
  show ?thesis
    using assms
    by (simp add: lease_of_members_def m(1) [THEN get_fields(3)] m(2-6,11) [THEN get_fields(1)]
        m(7-9) [THEN get_fields(5)] m(10) [THEN get_fields(2)] lease_wf_def Version_def)
qed

lemma lease_Decode_Encode:
  assumes "lease_wf l" "lease_Encode l = Inr s"
  shows "lease_Decode s = Inr l"
proof -
  have s: "s = b64_encode (json_object (map field_text (lease_fields l)))" "length s \<le> MaxBytes"
    using assms(2) lease_Marshal [OF assms(1)]
    by (auto simp: lease_Encode_def Let_def split: if_splits)
  have "lease_fields l \<noteq> []" by (simp add: lease_fields_def)
  then have "decodeStrictJSON s leaseAllowed = Inr (map field_member (lease_fields l))"
    using decodeStrictJSON_fields lease_fields_ok [OF assms(1)] s by blast
  then show ?thesis
    by (simp add: lease_Decode_def lease_of_fields [OF assms(1)])
qed

end
