(* ===== verification/Owner.thy ===== *)
theory Owner
  imports AccessLease
begin

text \<open>
  The owner-signed binding of one Exact Authority key to one Pipe
  (src/internal/accesslease/owner.go).
\<close>

section \<open>The credential\<close>

record OwnerBinding =
  ob_Version :: int
  ob_Type :: string
  ob_Owner :: string
  ob_AuthorityKey :: string
  ob_PipeID :: string
  ob_RedemptionPeers :: string
  ob_RedemptionProtocol :: string
  ob_Epoch :: nat
  ob_Signature :: string

definition OwnerBindingType :: string where "OwnerBindingType = ''exact.owner.binding''"

definition ownerBindingAllowed :: allowed where
  "ownerBindingAllowed =
     [(''pipe_id'', MaxPipeIDLen), (''redemption_peers'', MaxRedemptionAddrLen),
      (''redemption_protocol'', MaxRedemptionProtocolLen), (''version'', MaxFieldLen),
      (''type'', MaxFieldLen), (''owner'', MaxFieldLen), (''authority_key'', MaxFieldLen),
      (''epoch'', MaxFieldLen), (''signature'', MaxFieldLen)]"

text \<open>A member tagged \<^verbatim>\<open>omitempty\<close>.\<close>

definition omitempty :: "string \<Rightarrow> string \<Rightarrow> (string \<times> string result) list" where
  "omitempty k s = (if s = [] then [] else [(k, Inr (json_string s))])"

definition binding_members :: "OwnerBinding \<Rightarrow> (string \<times> string result) list" where
  "binding_members b =
     [(''version'', Inr (json_int (ob_Version b))),
      (''type'', Inr (json_string (ob_Type b))),
      (''owner'', Inr (json_string (ob_Owner b))),
      (''authority_key'', Inr (json_string (ob_AuthorityKey b))),
      (''pipe_id'', Inr (json_string (ob_PipeID b)))]
     @ omitempty ''redemption_peers'' (ob_RedemptionPeers b)
     @ omitempty ''redemption_protocol'' (ob_RedemptionProtocol b)
     @ [(''epoch'', Inr (json_int (int (ob_Epoch b))))]"

definition binding_signingBody :: "OwnerBinding \<Rightarrow> string result" where
  "binding_signingBody b =
     res_bind (Marshal (binding_members b)) (\<lambda>canonical.
     Inr (domainBytes OwnerBindingSigningDomain canonical))"

definition binding_Sign :: "crypto \<Rightarrow> string \<Rightarrow> OwnerBinding \<Rightarrow> OwnerBinding result" where
  "binding_Sign C owner b =
     (let b1 = b\<lparr>ob_Owner := PublicString (Public owner)\<rparr> in
      res_bind (binding_signingBody b1) (\<lambda>canonical.
      Inr (b1\<lparr>ob_Signature := PublicString (ed_sign C owner canonical)\<rparr>)))"

definition NewOwnerBinding ::
  "crypto \<Rightarrow> string \<Rightarrow> string \<Rightarrow> string \<Rightarrow> nat \<Rightarrow> string \<Rightarrow> string \<Rightarrow> OwnerBinding result" where
  "NewOwnerBinding C ownerPrivate authorityKey pipeID epoch redemptionPeers redemptionProtocol =
     (let owner = Public ownerPrivate in
      if length owner \<noteq> PublicKeySize then Inl (Error ''accesslease: invalid owner key'' [])
      else if \<not> VerifyPipeOwner C pipeID owner
      then Inl (Error ''accesslease: owner cannot bind a foreign Pipe'' [])
      else if \<not> validString pipeID \<or> length pipeID > MaxPipeIDLen
      then Inl (Error ''accesslease: invalid pipe id'' [])
      else if length authorityKey \<noteq> PublicKeySize
      then Inl (Error ''accesslease: invalid authority key'' [])
      else if length (Split redemptionPeers (CHR '','')) > MaxRedemptionAddresses
        \<or> length redemptionPeers > MaxRedemptionAddrLen
      then Inl (Error ''accesslease: redemption peers out of bounds'' [])
      else if redemptionProtocol \<noteq> [] \<and> length redemptionProtocol > MaxRedemptionProtocolLen
      then Inl (Error ''accesslease: redemption protocol out of bounds'' [])
      else binding_Sign C ownerPrivate
        \<lparr>ob_Version = Version, ob_Type = OwnerBindingType, ob_Owner = PublicString owner,
         ob_AuthorityKey = PublicString authorityKey, ob_PipeID = pipeID,
         ob_RedemptionPeers = redemptionPeers, ob_RedemptionProtocol = redemptionProtocol,
         ob_Epoch = epoch, ob_Signature = []\<rparr>)"

definition VerifyOwnerBinding :: "crypto \<Rightarrow> OwnerBinding \<Rightarrow> string result" where
  "VerifyOwnerBinding C b =
     (if ob_Version b \<noteq> Version \<or> ob_Type b \<noteq> OwnerBindingType
      then Inl (Error ''accesslease: wrong binding kind or version'' [])
      else if \<not> validString (ob_Owner b) \<or> \<not> validString (ob_AuthorityKey b)
        \<or> \<not> validString (ob_PipeID b) \<or> length (ob_PipeID b) > MaxPipeIDLen
      then Inl (Error ''accesslease: invalid binding identity or metadata'' [])
      else if length (ob_RedemptionPeers b) > MaxRedemptionAddrLen
      then Inl (Error ''accesslease: redemption peers out of bounds'' [])
      else if ob_RedemptionPeers b \<noteq> []
        \<and> length (Split (ob_RedemptionPeers b) (CHR '','')) > MaxRedemptionAddresses
      then Inl (Error ''accesslease: too many redemption peers'' [])
      else if ob_RedemptionProtocol b \<noteq> []
        \<and> length (ob_RedemptionProtocol b) > MaxRedemptionProtocolLen
      then Inl (Error ''accesslease: redemption protocol out of bounds'' [])
      else
        res_bind (PublicFromString (ob_Owner b)) (\<lambda>ownerPub.
        res_bind (PublicFromString (ob_AuthorityKey b)) (\<lambda>authorityPub.
        if length authorityPub \<noteq> PublicKeySize
        then Inl (Error ''accesslease: invalid authority key'' [])
        else
          res_bind (decodeSignature (ob_Signature b)) (\<lambda>signature.
          res_bind (binding_signingBody b) (\<lambda>canonical.
          if \<not> ed_verify C ownerPub canonical signature
          then Inl (Error ''accesslease: invalid owner binding signature'' [])
          else Inr ownerPub)))))"

record OwnerAuthority =
  oa_Owner :: string
  oa_AuthorityKey :: string
  oa_PipeID :: string
  oa_Epoch :: nat

definition VerifyOwnerAuthority :: "crypto \<Rightarrow> string \<Rightarrow> OwnerBinding \<Rightarrow> OwnerAuthority result" where
  "VerifyOwnerAuthority C authorityKey b =
     res_bind (VerifyOwnerBinding C b) (\<lambda>ownerPub.
     if \<not> VerifyPipeOwner C (ob_PipeID b) ownerPub
     then Inl (Error ''accesslease: binding owner is not the Pipe owner'' [])
     else if authorityKey \<noteq> [] \<and> ob_AuthorityKey b \<noteq> authorityKey
     then Inl (Error ''accesslease: authority key does not match binding'' [])
     else Inr \<lparr>oa_Owner = ob_Owner b, oa_AuthorityKey = ob_AuthorityKey b,
               oa_PipeID = ob_PipeID b, oa_Epoch = ob_Epoch b\<rparr>)"

definition EncodeOwnerBinding :: "OwnerBinding \<Rightarrow> string result" where
  "EncodeOwnerBinding b =
     res_bind (Marshal (binding_members b @ [(''signature'', Inr (json_string (ob_Signature b)))]))
       (\<lambda>data. let encoded = b64_encode data in
          if length encoded > MaxBytes
          then Inl (Error ''accesslease: owner binding exceeds bounded field'' [])
          else Inr encoded)"

definition binding_of_members :: "members \<Rightarrow> OwnerBinding result" where
  "binding_of_members ms =
     res_bind (get_int ms ''version'') (\<lambda>version.
     res_bind (get_string ms ''type'') (\<lambda>type.
     res_bind (get_string ms ''owner'') (\<lambda>owner.
     res_bind (get_string ms ''authority_key'') (\<lambda>authority.
     res_bind (get_string ms ''pipe_id'') (\<lambda>pipe.
     res_bind (get_string ms ''redemption_peers'') (\<lambda>peers.
     res_bind (get_string ms ''redemption_protocol'') (\<lambda>protocol.
     res_bind (get_uint64 ms ''epoch'') (\<lambda>epoch.
     res_bind (get_string ms ''signature'') (\<lambda>signature.
     Inr \<lparr>ob_Version = version, ob_Type = type, ob_Owner = owner, ob_AuthorityKey = authority,
          ob_PipeID = pipe, ob_RedemptionPeers = peers, ob_RedemptionProtocol = protocol,
          ob_Epoch = epoch, ob_Signature = signature\<rparr>)))))))))"

definition DecodeOwnerBinding :: "string \<Rightarrow> OwnerBinding result" where
  "DecodeOwnerBinding encoded =
     res_bind (decodeStrictJSON encoded ownerBindingAllowed) (\<lambda>ms.
     map_err (\<lambda>_. errStrict) (binding_of_members ms))"

section \<open>Verification\<close>

lemma VerifyOwnerBindingD:
  assumes "VerifyOwnerBinding C b = Inr owner"
  shows "ob_Owner b = PublicString owner" "length owner = PublicKeySize"
    "\<exists>a. ob_AuthorityKey b = PublicString a \<and> length a = PublicKeySize"
    "ob_Version b = Version" "ob_Type b = OwnerBindingType"
    "\<exists>sig body. decodeSignature (ob_Signature b) = Inr sig \<and> binding_signingBody b = Inr body
       \<and> ed_verify C owner body sig"
  using assms
  by (auto simp: VerifyOwnerBinding_def result_simps PublicFromString_iff split: if_splits)

lemma VerifyOwnerAuthorityD:
  assumes "VerifyOwnerAuthority C key b = Inr oa"
  shows "\<exists>owner. VerifyOwnerBinding C b = Inr owner \<and> ob_PipeID b = PipeIDFromOwner C owner"
    "oa_PipeID oa = ob_PipeID b" "key \<noteq> [] \<Longrightarrow> ob_AuthorityKey b = key"
  using assms
  by (auto simp: VerifyOwnerAuthority_def VerifyPipeOwner_def result_simps split: if_splits)

section \<open>Minting\<close>

lemma binding_signingBody_signature [simp]:
  "binding_signingBody (b\<lparr>ob_Signature := s\<rparr>) = binding_signingBody b"
  by (simp add: binding_signingBody_def binding_members_def)

lemma binding_members_marshal: "\<exists>ts. marshal_members (binding_members b) = Inr ts"
  by (simp add: binding_members_def omitempty_def)

lemma binding_signingBody_ok: "\<exists>body. binding_signingBody b = Inr body"
  using binding_members_marshal [of b] by (auto simp: binding_signingBody_def Marshal_def)

lemma binding_Sign_Inr:
  assumes "binding_Sign C k b = Inr b'"
  obtains body where "b' = b\<lparr>ob_Owner := PublicString (Public k),
      ob_Signature := PublicString (ed_sign C k body)\<rparr>" "binding_signingBody b' = Inr body"
  using assms by (auto simp: binding_Sign_def Let_def result_simps)

lemma NewOwnerBinding_Inr:
  assumes "NewOwnerBinding C k a pipeID epoch peers protocol = Inr b"
  obtains body where
    "b = \<lparr>ob_Version = Version, ob_Type = OwnerBindingType, ob_Owner = PublicString (Public k),
        ob_AuthorityKey = PublicString a, ob_PipeID = pipeID, ob_RedemptionPeers = peers,
        ob_RedemptionProtocol = protocol, ob_Epoch = epoch,
        ob_Signature = PublicString (ed_sign C k body)\<rparr>"
    "binding_signingBody b = Inr body" "VerifyPipeOwner C pipeID (Public k)" "validString pipeID"
    "length pipeID \<le> MaxPipeIDLen" "length a = PublicKeySize" "length peers \<le> MaxRedemptionAddrLen"
    "length (Split peers (CHR '','')) \<le> MaxRedemptionAddresses"
    "length protocol \<le> MaxRedemptionProtocolLen" "length (Public k) = PublicKeySize"
proof -
  have checks: "VerifyPipeOwner C pipeID (Public k)" "validString pipeID"
    "length pipeID \<le> MaxPipeIDLen" "length a = PublicKeySize" "length peers \<le> MaxRedemptionAddrLen"
    "length (Split peers (CHR '','')) \<le> MaxRedemptionAddresses"
    "length protocol \<le> MaxRedemptionProtocolLen" "length (Public k) = PublicKeySize"
    and sign: "binding_Sign C k \<lparr>ob_Version = Version, ob_Type = OwnerBindingType,
      ob_Owner = PublicString (Public k), ob_AuthorityKey = PublicString a, ob_PipeID = pipeID,
      ob_RedemptionPeers = peers, ob_RedemptionProtocol = protocol, ob_Epoch = epoch,
      ob_Signature = []\<rparr> = Inr b"
    using assms by (auto simp: NewOwnerBinding_def Let_def split: if_splits)
  from sign obtain body where "binding_signingBody b = Inr body"
    "b = \<lparr>ob_Version = Version, ob_Type = OwnerBindingType, ob_Owner = PublicString (Public k),
        ob_AuthorityKey = PublicString a, ob_PipeID = pipeID, ob_RedemptionPeers = peers,
        ob_RedemptionProtocol = protocol, ob_Epoch = epoch,
        ob_Signature = PublicString (ed_sign C k body)\<rparr>"
    by (rule binding_Sign_Inr) simp
  with checks that show thesis by blast
qed

lemma NewOwnerBinding_verifies:
  assumes "NewOwnerBinding C k a pipeID epoch peers protocol = Inr b" "keypair C k"
  shows "VerifyOwnerBinding C b = Inr (Public k)"
    "VerifyOwnerAuthority C (PublicString a) b = Inr \<lparr>oa_Owner = PublicString (Public k),
       oa_AuthorityKey = PublicString a, oa_PipeID = pipeID, oa_Epoch = epoch\<rparr>"
proof -
  obtain body where b: "b = \<lparr>ob_Version = Version, ob_Type = OwnerBindingType,
        ob_Owner = PublicString (Public k), ob_AuthorityKey = PublicString a, ob_PipeID = pipeID,
        ob_RedemptionPeers = peers, ob_RedemptionProtocol = protocol, ob_Epoch = epoch,
        ob_Signature = PublicString (ed_sign C k body)\<rparr>"
    and c: "binding_signingBody b = Inr body" "VerifyPipeOwner C pipeID (Public k)" "validString pipeID"
    "length pipeID \<le> MaxPipeIDLen" "length a = PublicKeySize" "length peers \<le> MaxRedemptionAddrLen"
    "length (Split peers (CHR '','')) \<le> MaxRedemptionAddresses"
    "length protocol \<le> MaxRedemptionProtocolLen" "length (Public k) = PublicKeySize"
    using assms(1) by (rule NewOwnerBinding_Inr)
  show v: "VerifyOwnerBinding C b = Inr (Public k)"
    using c keypair_facts [OF assms(2)] decodeSignature_sign [OF assms(2)]
    by (simp add: VerifyOwnerBinding_def b validString_PublicString)
  show "VerifyOwnerAuthority C (PublicString a) b = Inr \<lparr>oa_Owner = PublicString (Public k),
       oa_AuthorityKey = PublicString a, oa_PipeID = pipeID, oa_Epoch = epoch\<rparr>"
    using c(2) v by (simp add: VerifyOwnerAuthority_def b)
qed

section \<open>Wire form\<close>

definition opt_field :: "string \<Rightarrow> string \<Rightarrow> jfield list" where
  "opt_field k s = (if s = [] then [] else [str_field k s])"

definition binding_fields :: "OwnerBinding \<Rightarrow> jfield list" where
  "binding_fields b =
     [nat_field ''version'' (nat (ob_Version b)), str_field ''type'' (ob_Type b),
      str_field ''owner'' (ob_Owner b), str_field ''authority_key'' (ob_AuthorityKey b),
      str_field ''pipe_id'' (ob_PipeID b)]
     @ opt_field ''redemption_peers'' (ob_RedemptionPeers b)
     @ opt_field ''redemption_protocol'' (ob_RedemptionProtocol b)
     @ [nat_field ''epoch'' (ob_Epoch b), str_field ''signature'' (ob_Signature b)]"

definition binding_wf :: "OwnerBinding \<Rightarrow> bool" where
  "binding_wf b \<longleftrightarrow>
     ob_Version b = Version \<and> ob_Epoch b < 2 ^ 64
     \<and> list_all ascii [ob_Type b, ob_Owner b, ob_AuthorityKey b, ob_PipeID b, ob_RedemptionPeers b,
         ob_RedemptionProtocol b, ob_Signature b]
     \<and> list_all (\<lambda>s. length s \<le> MaxFieldLen) [ob_Type b, ob_Owner b, ob_AuthorityKey b, ob_Signature b]
     \<and> length (ob_PipeID b) \<le> MaxPipeIDLen \<and> length (ob_RedemptionPeers b) \<le> MaxRedemptionAddrLen
     \<and> length (ob_RedemptionProtocol b) \<le> MaxRedemptionProtocolLen"

lemma binding_fields_ok:
  assumes "binding_wf b"
  shows "list_all field_ok (binding_fields b)" "distinct (map fst (binding_fields b))"
    "list_all (member_ok ownerBindingAllowed \<circ> field_member) (binding_fields b)"
proof -
  have wf: "nat (ob_Version b) < 2 ^ 64" "ob_Epoch b < 2 ^ 64" "ascii (ob_Type b)" "ascii (ob_Owner b)"
    "ascii (ob_AuthorityKey b)" "ascii (ob_PipeID b)" "ascii (ob_RedemptionPeers b)"
    "ascii (ob_RedemptionProtocol b)" "ascii (ob_Signature b)"
    "length (ob_Type b) \<le> MaxFieldLen" "length (ob_Owner b) \<le> MaxFieldLen"
    "length (ob_AuthorityKey b) \<le> MaxFieldLen" "length (ob_Signature b) \<le> MaxFieldLen"
    "length (ob_PipeID b) \<le> MaxPipeIDLen" "length (ob_RedemptionPeers b) \<le> MaxRedemptionAddrLen"
    "length (ob_RedemptionProtocol b) \<le> MaxRedemptionProtocolLen"
    using assms by (simp_all add: binding_wf_def Version_def)
  have opt: "list_all field_ok (opt_field k s)" if "plain k" "ascii s" for k s
    using field_oks(1) [OF that] by (simp add: opt_field_def)
  show "list_all field_ok (binding_fields b)"
    by (simp only: binding_fields_def list.pred_inject list_all_append simp_thms)
      (intro conjI field_oks opt wf; simp add: byte_def)
  show "distinct (map fst (binding_fields b))"
    by (simp add: binding_fields_def opt_field_def field_defs)
  show "list_all (member_ok ownerBindingAllowed \<circ> field_member) (binding_fields b)"
    using wf
    by (simp add: binding_fields_def opt_field_def member_oks ownerBindingAllowed_def bounds)
qed

lemma binding_Marshal:
  assumes "binding_wf b"
  shows "Marshal (binding_members b @ [(''signature'', Inr (json_string (ob_Signature b)))])
    = Inr (json_object (map field_text (binding_fields b)))"
  using assms
  by (intro Marshal_fields)
    (simp add: binding_members_def binding_fields_def omitempty_def opt_field_def field_defs
      binding_wf_def json_int_def Version_def)

lemma get_opt_field:
  assumes "map_of ms k = (if s = [] then None else Some (snd (field_member (str_field k s))))"
  shows "get_string ms k = Inr s"
  using assms get_fields(1) [of ms k s] by (cases "s = []") (simp_all add: get_string_def)

lemma binding_of_fields:
  assumes "binding_wf b"
  shows "binding_of_members (map field_member (binding_fields b)) = Inr b"
proof -
  let ?ms = "map field_member (binding_fields b)"
  have m: "map_of ?ms ''version'' = Some (snd (field_member (nat_field ''version'' (nat (ob_Version b)))))"
    "map_of ?ms ''type'' = Some (snd (field_member (str_field ''type'' (ob_Type b))))"
    "map_of ?ms ''owner'' = Some (snd (field_member (str_field ''owner'' (ob_Owner b))))"
    "map_of ?ms ''authority_key'' = Some (snd (field_member (str_field ''authority_key'' (ob_AuthorityKey b))))"
    "map_of ?ms ''pipe_id'' = Some (snd (field_member (str_field ''pipe_id'' (ob_PipeID b))))"
    "map_of ?ms ''epoch'' = Some (snd (field_member (nat_field ''epoch'' (ob_Epoch b))))"
    "map_of ?ms ''signature'' = Some (snd (field_member (str_field ''signature'' (ob_Signature b))))"
    and o: "map_of ?ms ''redemption_peers'' = (if ob_RedemptionPeers b = [] then None
      else Some (snd (field_member (str_field ''redemption_peers'' (ob_RedemptionPeers b)))))"
    "map_of ?ms ''redemption_protocol'' = (if ob_RedemptionProtocol b = [] then None
      else Some (snd (field_member (str_field ''redemption_protocol'' (ob_RedemptionProtocol b)))))"
    by (simp_all add: binding_fields_def opt_field_def field_member_def field_defs)
  show ?thesis
    using assms
    by (simp add: binding_of_members_def m(1) [THEN get_fields(3)] m(2-5,7) [THEN get_fields(1)]
        m(6) [THEN get_fields(2)] o [THEN get_opt_field] binding_wf_def Version_def)
qed

lemma DecodeOwnerBinding_Encode:
  assumes "binding_wf b" "EncodeOwnerBinding b = Inr s"
  shows "DecodeOwnerBinding s = Inr b"
proof -
  have s: "s = b64_encode (json_object (map field_text (binding_fields b)))" "length s \<le> MaxBytes"
    using assms(2) binding_Marshal [OF assms(1)]
    by (auto simp: EncodeOwnerBinding_def Let_def split: if_splits)
  have "binding_fields b \<noteq> []" by (simp add: binding_fields_def)
  then have "decodeStrictJSON s ownerBindingAllowed = Inr (map field_member (binding_fields b))"
    using decodeStrictJSON_fields binding_fields_ok [OF assms(1)] s by blast
  then show ?thesis
    by (simp add: DecodeOwnerBinding_def binding_of_fields [OF assms(1)])
qed

end
