(* ===== verification/Invite.thy ===== *)
theory Invite
  imports Owner
begin

text \<open>
  The one-time Exact Invite that composes an owner binding
  (src/internal/accesslease/invite.go).
\<close>

section \<open>The credential\<close>

record ExactInvite =
  ei_Version :: int
  ei_Type :: string
  ei_Issuer :: string
  ei_AudiencePipeID :: string
  ei_Binding :: string
  ei_JTI :: string
  ei_IssuedAt :: ztime
  ei_NotBefore :: ztime
  ei_ExpiresAt :: ztime
  ei_AccessEpoch :: nat
  ei_OneTime :: bool
  ei_Signature :: string

definition InviteType :: string where "InviteType = ''pipe.open.invite''"

definition inviteAllowed :: allowed where
  "inviteAllowed =
     [(''audience_pipe_id'', MaxPipeIDLen), (''binding'', MaxBytes), (''version'', MaxFieldLen),
      (''type'', MaxFieldLen), (''issuer'', MaxFieldLen), (''jti'', MaxFieldLen),
      (''issued_at'', MaxFieldLen), (''not_before'', MaxFieldLen), (''expires_at'', MaxFieldLen),
      (''access_epoch'', MaxFieldLen), (''one_time'', MaxFieldLen), (''signature'', MaxFieldLen)]"

definition invite_members :: "ExactInvite \<Rightarrow> (string \<times> string result) list" where
  "invite_members i =
     [(''version'', Inr (json_int (ei_Version i))),
      (''type'', Inr (json_string (ei_Type i))),
      (''issuer'', Inr (json_string (ei_Issuer i))),
      (''audience_pipe_id'', Inr (json_string (ei_AudiencePipeID i))),
      (''binding'', Inr (json_string (ei_Binding i))),
      (''jti'', Inr (json_string (ei_JTI i))),
      (''issued_at'', MarshalTime (ei_IssuedAt i)),
      (''not_before'', MarshalTime (ei_NotBefore i)),
      (''expires_at'', MarshalTime (ei_ExpiresAt i)),
      (''access_epoch'', Inr (json_int (int (ei_AccessEpoch i)))),
      (''one_time'', Inr (json_bool (ei_OneTime i)))]"

definition invite_signingBody :: "ExactInvite \<Rightarrow> string result" where
  "invite_signingBody i =
     res_bind (Marshal (invite_members i)) (\<lambda>canonical.
     Inr (domainBytes ExactInviteSigningDomain canonical))"

definition invite_Sign :: "crypto \<Rightarrow> string \<Rightarrow> ExactInvite \<Rightarrow> ExactInvite result" where
  "invite_Sign C private i =
     (let i1 = i\<lparr>ei_Issuer := PublicString (Public private)\<rparr> in
      res_bind (invite_signingBody i1) (\<lambda>canonical.
      Inr (i1\<lparr>ei_Signature := PublicString (ed_sign C private canonical)\<rparr>)))"

definition NewExactInvite ::
  "crypto \<Rightarrow> string result \<Rightarrow> string \<Rightarrow> OwnerBinding \<Rightarrow> string \<Rightarrow> gotime \<Rightarrow> int \<Rightarrow> nat \<Rightarrow> ExactInvite result" where
  "NewExactInvite C rnd private binding pipeID now lifetime accessEpoch =
     res_bind (VerifyOwnerAuthority C (PublicString (Public private)) binding) (\<lambda>bound.
     if \<not> validString pipeID \<or> length pipeID > MaxPipeIDLen \<or> oa_PipeID bound \<noteq> pipeID
     then Inl (Error ''accesslease: binding pipe mismatch'' [])
     else
       res_bind (EncodeOwnerBinding binding) (\<lambda>bindingEncoded.
       if lifetime \<le> 0 \<or> lifetime > MaxTTL
       then Inl (Error ''accesslease: invite lifetime outside allowed window'' [])
       else
         res_bind (NewJTI rnd) (\<lambda>jti.
         invite_Sign C private
           \<lparr>ei_Version = Version, ei_Type = InviteType, ei_Issuer = [], ei_AudiencePipeID = pipeID,
            ei_Binding = bindingEncoded, ei_JTI = jti, ei_IssuedAt = UTC now, ei_NotBefore = UTC now,
            ei_ExpiresAt = UTC (now + lifetime), ei_AccessEpoch = accessEpoch, ei_OneTime = True,
            ei_Signature = []\<rparr>)))"

text \<open>The composition checks of \<^verbatim>\<open>Verify\<close>: the embedded binding, then the signature.\<close>

definition invite_composition :: "crypto \<Rightarrow> ExactInvite \<Rightarrow> goerror option" where
  "invite_composition C i =
     (case DecodeOwnerBinding (ei_Binding i) of
        Inl _ \<Rightarrow> Some (Error ''accesslease: invite has invalid owner binding'' [])
      | Inr binding \<Rightarrow>
          (case VerifyOwnerBinding C binding of
             Inl _ \<Rightarrow> Some (Error ''accesslease: invite owner binding invalid'' [])
           | Inr ownerPub \<Rightarrow>
               if \<not> VerifyPipeOwner C (ei_AudiencePipeID i) ownerPub
               then Some (Error ''accesslease: invite owner is not the Pipe owner'' [])
               else if ob_AuthorityKey binding \<noteq> ei_Issuer i
               then Some (Error ''accesslease: invite issuer not bound by owner'' [])
               else if ob_PipeID binding \<noteq> ei_AudiencePipeID i
               then Some (Error ''accesslease: invite binding pipe mismatch'' [])
               else (case decodeSignature (ei_Signature i) of
                  Inl e \<Rightarrow> Some e
                | Inr signature \<Rightarrow>
                    (case invite_signingBody i of
                       Inl e \<Rightarrow> Some e
                     | Inr canonical \<Rightarrow>
                         (case PublicFromString (ei_Issuer i) of
                            Inl e \<Rightarrow> Some e
                          | Inr issuer \<Rightarrow>
                              if \<not> ed_verify C issuer canonical signature
                              then Some (Error ''accesslease: invalid invite signature'' [])
                              else None)))))"

definition invite_Verify :: "crypto \<Rightarrow> gotime \<Rightarrow> gotime \<Rightarrow> string \<Rightarrow> ExactInvite \<Rightarrow> goerror option" where
  "invite_Verify C clock now0 pipeID i =
     (if ei_Version i \<noteq> Version \<or> ei_Type i \<noteq> InviteType
      then Some (Error ''accesslease: wrong invite kind or version'' [])
      else if \<not> validString (ei_Issuer i) \<or> \<not> validString (ei_AudiencePipeID i)
        \<or> \<not> validString (ei_JTI i) \<or> \<not> HasPrefix (ei_JTI i) ''jti_''
      then Some (Error ''accesslease: invalid invite identity or metadata'' [])
      else if length (ei_AudiencePipeID i) > MaxPipeIDLen
      then Some (Error ''accesslease: invite pipe audience too long'' [])
      else if ei_Binding i = [] \<or> length (ei_Binding i) > MaxBytes
      then Some (Error ''accesslease: invite missing owner binding'' [])
      else if \<not> ei_OneTime i then Some (Error ''accesslease: invite must be one-time'' [])
      else if IsZero (instant (ei_IssuedAt i)) \<or> IsZero (instant (ei_NotBefore i))
        \<or> \<not> instant (ei_ExpiresAt i) > instant (ei_IssuedAt i)
      then Some (Error ''accesslease: invalid invite lifetime'' [])
      else
        let now = (if IsZero now0 then clock else now0) in
        if instant (ei_IssuedAt i) > now + MaxClockSkew
        then Some (Error ''accesslease: invite issued too far in future'' [])
        else if instant (ei_NotBefore i) > now + MaxClockSkew
        then Some (Error ''accesslease: invite not yet valid'' [])
        else if \<not> instant (ei_ExpiresAt i) > now
        then Some (Error ''accesslease: invite expired'' [])
        else if instant (ei_ExpiresAt i) - instant (ei_IssuedAt i) > MaxTTL
        then Some (Error ''accesslease: invite max TTL exceeded'' [])
        else if pipeID \<noteq> [] \<and> ei_AudiencePipeID i \<noteq> pipeID
        then Some (Error ''accesslease: invite pipe audience mismatch'' [])
        else invite_composition C i)"

definition EncodeInvite :: "ExactInvite \<Rightarrow> string result" where
  "EncodeInvite i =
     res_bind (Marshal (invite_members i @ [(''signature'', Inr (json_string (ei_Signature i)))]))
       (\<lambda>data. let encoded = b64_encode data in
          if length encoded > MaxBytes then Inl (Error ''accesslease: invite exceeds bounded field'' [])
          else Inr encoded)"

definition invite_of_members :: "members \<Rightarrow> ExactInvite result" where
  "invite_of_members ms =
     res_bind (get_int ms ''version'') (\<lambda>version.
     res_bind (get_string ms ''type'') (\<lambda>type.
     res_bind (get_string ms ''issuer'') (\<lambda>issuer.
     res_bind (get_string ms ''audience_pipe_id'') (\<lambda>audience.
     res_bind (get_string ms ''binding'') (\<lambda>binding.
     res_bind (get_string ms ''jti'') (\<lambda>jti.
     res_bind (get_time ms ''issued_at'') (\<lambda>issued.
     res_bind (get_time ms ''not_before'') (\<lambda>notbefore.
     res_bind (get_time ms ''expires_at'') (\<lambda>expires.
     res_bind (get_uint64 ms ''access_epoch'') (\<lambda>epoch.
     res_bind (get_bool ms ''one_time'') (\<lambda>onetime.
     res_bind (get_string ms ''signature'') (\<lambda>signature.
     Inr \<lparr>ei_Version = version, ei_Type = type, ei_Issuer = issuer, ei_AudiencePipeID = audience,
          ei_Binding = binding, ei_JTI = jti, ei_IssuedAt = issued, ei_NotBefore = notbefore,
          ei_ExpiresAt = expires, ei_AccessEpoch = epoch, ei_OneTime = onetime,
          ei_Signature = signature\<rparr>))))))))))))"

definition DecodeInvite :: "string \<Rightarrow> ExactInvite result" where
  "DecodeInvite encoded =
     res_bind (decodeStrictJSON encoded inviteAllowed) (\<lambda>ms.
     map_err (\<lambda>_. errStrict) (invite_of_members ms))"

section \<open>Verification\<close>

lemma invite_compositionD:
  assumes "invite_composition C i = None"
  obtains binding owner issuer sig body where
    "DecodeOwnerBinding (ei_Binding i) = Inr binding" "VerifyOwnerBinding C binding = Inr owner"
    "ei_AudiencePipeID i = PipeIDFromOwner C owner" "ob_AuthorityKey binding = ei_Issuer i"
    "ob_PipeID binding = ei_AudiencePipeID i" "PublicFromString (ei_Issuer i) = Inr issuer"
    "decodeSignature (ei_Signature i) = Inr sig" "invite_signingBody i = Inr body"
    "ed_verify C issuer body sig"
  using assms
  by (auto simp: invite_composition_def VerifyPipeOwner_def split: sum.splits if_splits)

lemma invite_VerifyD:
  assumes "invite_Verify C clock now0 pipeID i = None"
  defines "now \<equiv> (if IsZero now0 then clock else now0)"
  shows "ei_Version i = Version" "ei_Type i = InviteType" "ei_OneTime i"
    "pipeID \<noteq> [] \<Longrightarrow> ei_AudiencePipeID i = pipeID" "now < instant (ei_ExpiresAt i)"
    "instant (ei_IssuedAt i) \<le> now + MaxClockSkew" "instant (ei_NotBefore i) \<le> now + MaxClockSkew"
    "instant (ei_ExpiresAt i) - instant (ei_IssuedAt i) \<le> MaxTTL" "invite_composition C i = None"
    "HasPrefix (ei_JTI i) ''jti_''" "validString (ei_AudiencePipeID i)"
    "length (ei_AudiencePipeID i) \<le> MaxPipeIDLen" "validString (ei_Issuer i)"
  using assms(1) unfolding now_def
  by (auto simp: invite_Verify_def Let_def split: if_splits)

section \<open>Minting\<close>

lemma invite_signingBody_signature [simp]:
  "invite_signingBody (i\<lparr>ei_Signature := s\<rparr>) = invite_signingBody i"
  by (simp add: invite_signingBody_def invite_members_def)

lemma invite_Sign_Inr:
  assumes "invite_Sign C k i = Inr i'"
  obtains body where "i' = i\<lparr>ei_Issuer := PublicString (Public k),
      ei_Signature := PublicString (ed_sign C k body)\<rparr>" "invite_signingBody i' = Inr body"
  using assms by (auto simp: invite_Sign_def Let_def result_simps)

lemma NewExactInvite_Inr:
  assumes "NewExactInvite C rnd k binding pipeID now lifetime epoch = Inr invite"
  obtains enc v body oa where
    "invite = \<lparr>ei_Version = Version, ei_Type = InviteType, ei_Issuer = PublicString (Public k),
        ei_AudiencePipeID = pipeID, ei_Binding = enc, ei_JTI = ''jti_'' @ b32_encode v,
        ei_IssuedAt = UTC now, ei_NotBefore = UTC now, ei_ExpiresAt = UTC (now + lifetime),
        ei_AccessEpoch = epoch, ei_OneTime = True,
        ei_Signature = PublicString (ed_sign C k body)\<rparr>"
    "invite_signingBody invite = Inr body" "rnd = Inr v" "EncodeOwnerBinding binding = Inr enc"
    "VerifyOwnerAuthority C (PublicString (Public k)) binding = Inr oa" "oa_PipeID oa = pipeID"
    "validString pipeID" "length pipeID \<le> MaxPipeIDLen" "0 < lifetime" "lifetime \<le> MaxTTL"
proof -
  obtain oa enc jti where 1: "validString pipeID" "length pipeID \<le> MaxPipeIDLen"
    "VerifyOwnerAuthority C (PublicString (Public k)) binding = Inr oa" "oa_PipeID oa = pipeID"
    "EncodeOwnerBinding binding = Inr enc" "0 < lifetime" "lifetime \<le> MaxTTL" "NewJTI rnd = Inr jti"
    and sign: "invite_Sign C k \<lparr>ei_Version = Version, ei_Type = InviteType, ei_Issuer = [],
      ei_AudiencePipeID = pipeID, ei_Binding = enc, ei_JTI = jti, ei_IssuedAt = UTC now,
      ei_NotBefore = UTC now, ei_ExpiresAt = UTC (now + lifetime), ei_AccessEpoch = epoch,
      ei_OneTime = True, ei_Signature = []\<rparr> = Inr invite"
    using assms by (auto simp: NewExactInvite_def result_simps split: if_splits)
  obtain v where v: "rnd = Inr v" "jti = ''jti_'' @ b32_encode v" using NewJTI_Inr [OF 1(8)] by blast
  from sign obtain body where body: "invite_signingBody invite = Inr body"
    "invite = \<lparr>ei_Version = Version, ei_Type = InviteType, ei_Issuer = PublicString (Public k),
        ei_AudiencePipeID = pipeID, ei_Binding = enc, ei_JTI = jti,
        ei_IssuedAt = UTC now, ei_NotBefore = UTC now, ei_ExpiresAt = UTC (now + lifetime),
        ei_AccessEpoch = epoch, ei_OneTime = True,
        ei_Signature = PublicString (ed_sign C k body)\<rparr>"
    by (rule invite_Sign_Inr) simp
  show thesis
    using that [OF body(2) [unfolded v(2)] body(1) v(1) 1(5,3,4,1,2,6,7)] .
qed

lemma EncodeOwnerBinding_bounds:
  "EncodeOwnerBinding b = Inr s \<Longrightarrow> s \<noteq> [] \<and> length s \<le> MaxBytes \<and> ascii s"
  by (auto simp: EncodeOwnerBinding_def Marshal_def Let_def result_simps json_object_def
      b64_encode_graphic graphic_ascii split: if_splits)

lemma NewExactInvite_verifies:
  assumes "NewExactInvite C rnd k binding pipeID now lifetime epoch = Inr invite"
    and "keypair C k" "binding_wf binding" "\<And>v. rnd = Inr v \<Longrightarrow> length v = 16" "now \<noteq> zero_time"
    and "at \<noteq> zero_time" "now \<le> at + MaxClockSkew" "at < now + lifetime"
  shows "invite_Verify C clock at pipeID invite = None"
proof -
  obtain enc v body oa where i: "invite = \<lparr>ei_Version = Version, ei_Type = InviteType,
        ei_Issuer = PublicString (Public k), ei_AudiencePipeID = pipeID, ei_Binding = enc,
        ei_JTI = ''jti_'' @ b32_encode v, ei_IssuedAt = UTC now, ei_NotBefore = UTC now,
        ei_ExpiresAt = UTC (now + lifetime), ei_AccessEpoch = epoch, ei_OneTime = True,
        ei_Signature = PublicString (ed_sign C k body)\<rparr>"
    and c: "invite_signingBody invite = Inr body" "rnd = Inr v" "EncodeOwnerBinding binding = Inr enc"
      "VerifyOwnerAuthority C (PublicString (Public k)) binding = Inr oa" "oa_PipeID oa = pipeID"
      "validString pipeID" "length pipeID \<le> MaxPipeIDLen" "0 < lifetime" "lifetime \<le> MaxTTL"
    using assms(1) by (rule NewExactInvite_Inr)
  have key: "PublicString (Public k) \<noteq> []"
    using keypair_facts(1) [OF assms(2)] by (auto simp: PublicString_def bounds)
  obtain owner where o: "VerifyOwnerBinding C binding = Inr owner" "pipeID = PipeIDFromOwner C owner"
    "ob_PipeID binding = pipeID" "ob_AuthorityKey binding = PublicString (Public k)"
    using VerifyOwnerAuthorityD [OF c(4)] c(5) key by auto
  have "validString (''jti_'' @ b32_encode v)"
    using assms(4) [OF c(2)]
    by (simp add: validString_def b32_encode_def length_b32_groups length_concat_bits8 MaxFieldLen_def)
  moreover have "invite_composition C invite = None"
    using c(1,6) o keypair_facts [OF assms(2)] decodeSignature_sign [OF assms(2)]
      DecodeOwnerBinding_Encode [OF assms(3) c(3)] VerifyOwnerBindingD(2) [OF o(1)]
    by (simp add: invite_composition_def i VerifyPipeOwner_def validString_def)
  ultimately show ?thesis
    using c(6-9) assms(5-8) keypair_facts [OF assms(2)] EncodeOwnerBinding_bounds [OF c(3)]
    by (simp add: invite_Verify_def Let_def i UTC_def validString_PublicString)
qed

section \<open>Wire form\<close>

definition invite_fields :: "ExactInvite \<Rightarrow> jfield list" where
  "invite_fields i =
     [nat_field ''version'' (nat (ei_Version i)), str_field ''type'' (ei_Type i),
      str_field ''issuer'' (ei_Issuer i), str_field ''audience_pipe_id'' (ei_AudiencePipeID i),
      str_field ''binding'' (ei_Binding i), str_field ''jti'' (ei_JTI i),
      time_field ''issued_at'' (ei_IssuedAt i), time_field ''not_before'' (ei_NotBefore i),
      time_field ''expires_at'' (ei_ExpiresAt i), nat_field ''access_epoch'' (ei_AccessEpoch i),
      bool_field ''one_time'' (ei_OneTime i), str_field ''signature'' (ei_Signature i)]"

definition invite_wf :: "ExactInvite \<Rightarrow> bool" where
  "invite_wf i \<longleftrightarrow>
     ei_Version i = Version \<and> ei_AccessEpoch i < 2 ^ 64
     \<and> list_all ascii [ei_Type i, ei_Issuer i, ei_AudiencePipeID i, ei_Binding i, ei_JTI i, ei_Signature i]
     \<and> list_all (\<lambda>s. length s \<le> MaxFieldLen) [ei_Type i, ei_Issuer i, ei_JTI i, ei_Signature i]
     \<and> length (ei_AudiencePipeID i) \<le> MaxPipeIDLen \<and> length (ei_Binding i) \<le> MaxBytes
     \<and> list_all json_time_ok [ei_IssuedAt i, ei_NotBefore i, ei_ExpiresAt i]"

lemma invite_fields_ok:
  assumes "invite_wf i"
  shows "list_all field_ok (invite_fields i)" "distinct (map fst (invite_fields i))"
    "list_all (member_ok inviteAllowed \<circ> field_member) (invite_fields i)"
proof -
  have wf: "nat (ei_Version i) < 2 ^ 64" "ei_AccessEpoch i < 2 ^ 64" "ascii (ei_Type i)"
    "ascii (ei_Issuer i)" "ascii (ei_AudiencePipeID i)" "ascii (ei_Binding i)" "ascii (ei_JTI i)"
    "ascii (ei_Signature i)" "json_time_ok (ei_IssuedAt i)" "json_time_ok (ei_NotBefore i)"
    "json_time_ok (ei_ExpiresAt i)" "length (ei_Type i) \<le> MaxFieldLen"
    "length (ei_Issuer i) \<le> MaxFieldLen" "length (ei_Binding i) \<le> MaxBytes"
    "length (ei_JTI i) \<le> MaxFieldLen" "length (ei_Signature i) \<le> MaxFieldLen"
    "length (ei_AudiencePipeID i) \<le> MaxPipeIDLen"
    using assms by (simp_all add: invite_wf_def Version_def)
  show "list_all field_ok (invite_fields i)"
    by (simp only: invite_fields_def list.pred_inject simp_thms)
      (intro conjI field_oks wf; simp add: byte_def)
  show "distinct (map fst (invite_fields i))"
    by (simp add: invite_fields_def field_defs)
  show "list_all (member_ok inviteAllowed \<circ> field_member) (invite_fields i)"
    using wf
    by (simp add: invite_fields_def member_oks member_ok_time inviteAllowed_def bounds)
qed

lemma invite_Marshal:
  assumes "invite_wf i"
  shows "Marshal (invite_members i @ [(''signature'', Inr (json_string (ei_Signature i)))])
    = Inr (json_object (map field_text (invite_fields i)))"
  using assms
  by (intro Marshal_fields)
    (simp add: invite_members_def invite_fields_def field_defs invite_wf_def json_time_okE
      json_int_def Version_def)

lemma invite_of_fields:
  assumes "invite_wf i"
  shows "invite_of_members (map field_member (invite_fields i)) = Inr i"
proof -
  let ?ms = "map field_member (invite_fields i)"
  have m: "map_of ?ms ''version'' = Some (snd (field_member (nat_field ''version'' (nat (ei_Version i)))))"
    "map_of ?ms ''type'' = Some (snd (field_member (str_field ''type'' (ei_Type i))))"
    "map_of ?ms ''issuer'' = Some (snd (field_member (str_field ''issuer'' (ei_Issuer i))))"
    "map_of ?ms ''audience_pipe_id''
      = Some (snd (field_member (str_field ''audience_pipe_id'' (ei_AudiencePipeID i))))"
    "map_of ?ms ''binding'' = Some (snd (field_member (str_field ''binding'' (ei_Binding i))))"
    "map_of ?ms ''jti'' = Some (snd (field_member (str_field ''jti'' (ei_JTI i))))"
    "map_of ?ms ''issued_at'' = Some (snd (field_member (time_field ''issued_at'' (ei_IssuedAt i))))"
    "map_of ?ms ''not_before'' = Some (snd (field_member (time_field ''not_before'' (ei_NotBefore i))))"
    "map_of ?ms ''expires_at'' = Some (snd (field_member (time_field ''expires_at'' (ei_ExpiresAt i))))"
    "map_of ?ms ''access_epoch''
      = Some (snd (field_member (nat_field ''access_epoch'' (ei_AccessEpoch i))))"
    "map_of ?ms ''one_time'' = Some (snd (field_member (bool_field ''one_time'' (ei_OneTime i))))"
    "map_of ?ms ''signature'' = Some (snd (field_member (str_field ''signature'' (ei_Signature i))))"
    by (simp_all add: invite_fields_def field_member_def field_defs)
  show ?thesis
    using assms
    by (simp add: invite_of_members_def m(1) [THEN get_fields(3)] m(2-6,12) [THEN get_fields(1)]
        m(7-9) [THEN get_fields(5)] m(10) [THEN get_fields(2)] m(11) [THEN get_fields(4)]
        invite_wf_def Version_def)
qed

lemma DecodeInvite_Encode:
  assumes "invite_wf i" "EncodeInvite i = Inr s"
  shows "DecodeInvite s = Inr i"
proof -
  have s: "s = b64_encode (json_object (map field_text (invite_fields i)))" "length s \<le> MaxBytes"
    using assms(2) invite_Marshal [OF assms(1)]
    by (auto simp: EncodeInvite_def Let_def split: if_splits)
  have "invite_fields i \<noteq> []" by (simp add: invite_fields_def)
  then have "decodeStrictJSON s inviteAllowed = Inr (map field_member (invite_fields i))"
    using decodeStrictJSON_fields invite_fields_ok [OF assms(1)] s by blast
  then show ?thesis
    by (simp add: DecodeInvite_def invite_of_fields [OF assms(1)])
qed

end
