(* ===== verification/Credentials.thy ===== *)
theory Credentials
  imports Invite
begin

text \<open>
  What the three exact credentials (access lease, owner binding, invite) have in common: the signature
  of each covers every field, under a signing domain of its own.

  The interface \<open>credential\<close> is the shape of src/internal/accesslease/accesslease.go, owner.go and
  invite.go: a strict flat JSON object whose last member is the signature over the members before it.
\<close>

section \<open>Tokens determine members\<close>

lemma field_toks_Cons:
  "fs \<noteq> [] \<Longrightarrow> field_toks ((k, v, t) # fs) = TStr k k # TDelim (CHR '':'') # t # TDelim (CHR '','') # field_toks fs"
  by (cases fs) auto

lemma length_field_toks: "fs \<noteq> [] \<Longrightarrow> length (field_toks fs) + 1 = 4 * length fs"
proof (induction fs)
  case (Cons f fs)
  then show ?case by (cases f; cases "fs = []") (auto simp: field_toks_Cons)
qed simp

lemma field_toks_members:
  "field_toks fs = field_toks gs \<Longrightarrow> map field_member fs = map field_member gs"
proof (induction fs arbitrary: gs)
  case Nil
  then have "gs = []" using length_field_toks [of gs] by (cases "gs = []") auto
  then show ?case by simp
next
  case (Cons f fs)
  obtain k v t where f: "f = (k, v, t)" by (cases f)
  have "length (field_toks gs) = length (field_toks (f # fs))" using Cons.prems by simp
  moreover have "gs \<noteq> []"
    using Cons.prems f by (cases gs; cases fs) auto
  ultimately have len: "length gs = length (f # fs)"
    using length_field_toks [of gs] length_field_toks [of "f # fs"] by simp
  then obtain k' v' t' gs' where gs: "gs = (k', v', t') # gs'" by (cases gs) auto
  show ?case
  proof (cases "fs = []")
    case True
    then show ?thesis using Cons.prems f gs len by (simp add: field_member_def)
  next
    case False
    then have "gs' \<noteq> []" using len gs by auto
    then show ?thesis
      using Cons.prems Cons.IH [of gs'] False f gs by (auto simp: field_toks_Cons field_member_def)
  qed
qed

lemma json_object_members:
  assumes "list_all field_ok fs" "list_all field_ok gs"
    "json_object (map field_text fs) = json_object (map field_text gs)"
  shows "map field_member fs = map field_member gs"
proof (rule field_toks_members)
  have "TDelim (CHR ''{'') # field_toks fs @ [TDelim (CHR ''}'')]
      = TDelim (CHR ''{'') # field_toks gs @ [TDelim (CHR ''}'')]"
    using json_lex_object [OF assms(1)] json_lex_object [OF assms(2)] assms(3) by simp
  then show "field_toks fs = field_toks gs" by simp
qed

section \<open>The interface\<close>

locale credential =
  fixes wf :: "'c \<Rightarrow> bool" and body :: "'c \<Rightarrow> jfield list" and signature :: "'c \<Rightarrow> string"
    and of_members :: "members \<Rightarrow> 'c result" and set_signature :: "string \<Rightarrow> 'c \<Rightarrow> 'c"
    and signingBody :: "'c \<Rightarrow> string result" and domain_prefix :: string
  assumes body_ok: "wf c \<Longrightarrow> list_all field_ok (body c)"
    and signed: "wf c \<Longrightarrow> signingBody c = Inr (domainBytes domain_prefix (json_object (map field_text (body c))))"
    and read: "wf c \<Longrightarrow> of_members (map field_member (body c) @ [field_member (str_field ''signature'' (signature c))]) = Inr c"
    and resigned: "wf c \<Longrightarrow> wf d \<Longrightarrow>
      of_members (map field_member (body c) @ [field_member (str_field ''signature'' (signature d))])
        = Inr (set_signature (signature d) c)"
begin

lemma signature_covers:
  assumes "wf c" "wf d" "signingBody c = signingBody d"
  shows "d = set_signature (signature d) c"
proof -
  have "json_object (map field_text (body c)) = json_object (map field_text (body d))"
    using assms(3) by (simp add: signed [OF assms(1)] signed [OF assms(2)] domainBytes_def)
  then have "map field_member (body c) = map field_member (body d)"
    using json_object_members body_ok assms(1,2) by blast
  then have "Inr d = (Inr (set_signature (signature d) c) :: 'c result)"
    using read [OF assms(2)] resigned [OF assms(1,2)] by simp
  then show ?thesis by simp
qed

end

lemma list_all_butlast: "list_all P xs \<Longrightarrow> list_all P (butlast xs)"
  by (auto simp: list_all_iff dest: in_set_butlastD)

text \<open>The three credentials provide it.\<close>

definition lease_body :: "AccessLease \<Rightarrow> jfield list" where "lease_body l = butlast (lease_fields l)"
definition binding_body :: "OwnerBinding \<Rightarrow> jfield list" where "binding_body b = butlast (binding_fields b)"
definition invite_body :: "ExactInvite \<Rightarrow> jfield list" where "invite_body i = butlast (invite_fields i)"

interpretation lease: credential lease_wf lease_body al_Signature lease_of_members
  "\<lambda>s l. l\<lparr>al_Signature := s\<rparr>" lease_signingBody AccessLeaseSigningDomain
proof
  fix c assume wf: "lease_wf c"
  show "list_all field_ok (lease_body c)"
    unfolding lease_body_def by (rule list_all_butlast) (rule lease_fields_ok(1) [OF wf])
  have "Marshal (lease_members c) = Inr (json_object (map field_text (lease_body c)))"
    using wf by (intro Marshal_fields) (simp add: lease_members_def lease_body_def lease_fields_def field_defs
        lease_wf_def json_time_okE json_int_def Version_def)
  then show "lease_signingBody c
      = Inr (domainBytes AccessLeaseSigningDomain (json_object (map field_text (lease_body c))))"
    by (simp add: lease_signingBody_def)
  show "lease_of_members (map field_member (lease_body c)
      @ [field_member (str_field ''signature'' (al_Signature c))]) = Inr c"
    using lease_of_fields [OF wf] by (simp add: lease_body_def lease_fields_def)
next
  fix c d assume wf: "lease_wf c" "lease_wf d"
  have "lease_wf (c\<lparr>al_Signature := al_Signature d\<rparr>)" using wf by (simp add: lease_wf_def)
  from lease_of_fields [OF this]
  show "lease_of_members (map field_member (lease_body c)
      @ [field_member (str_field ''signature'' (al_Signature d))]) = Inr (c\<lparr>al_Signature := al_Signature d\<rparr>)"
    by (simp add: lease_body_def lease_fields_def)
qed

interpretation binding: credential binding_wf binding_body ob_Signature binding_of_members
  "\<lambda>s b. b\<lparr>ob_Signature := s\<rparr>" binding_signingBody OwnerBindingSigningDomain
proof
  fix c assume wf: "binding_wf c"
  show "list_all field_ok (binding_body c)"
    unfolding binding_body_def by (rule list_all_butlast) (rule binding_fields_ok(1) [OF wf])
  have "Marshal (binding_members c) = Inr (json_object (map field_text (binding_body c)))"
    using wf by (intro Marshal_fields) (simp add: binding_members_def binding_body_def binding_fields_def
        omitempty_def opt_field_def field_defs binding_wf_def json_int_def Version_def butlast_append)
  then show "binding_signingBody c
      = Inr (domainBytes OwnerBindingSigningDomain (json_object (map field_text (binding_body c))))"
    by (simp add: binding_signingBody_def)
  show "binding_of_members (map field_member (binding_body c)
      @ [field_member (str_field ''signature'' (ob_Signature c))]) = Inr c"
    using binding_of_fields [OF wf] by (simp add: binding_body_def binding_fields_def butlast_append)
next
  fix c d assume wf: "binding_wf c" "binding_wf d"
  have "binding_wf (c\<lparr>ob_Signature := ob_Signature d\<rparr>)" using wf by (simp add: binding_wf_def)
  from binding_of_fields [OF this]
  show "binding_of_members (map field_member (binding_body c)
      @ [field_member (str_field ''signature'' (ob_Signature d))]) = Inr (c\<lparr>ob_Signature := ob_Signature d\<rparr>)"
    by (simp add: binding_body_def binding_fields_def butlast_append)
qed

interpretation invite: credential invite_wf invite_body ei_Signature invite_of_members
  "\<lambda>s i. i\<lparr>ei_Signature := s\<rparr>" invite_signingBody ExactInviteSigningDomain
proof
  fix c assume wf: "invite_wf c"
  show "list_all field_ok (invite_body c)"
    unfolding invite_body_def by (rule list_all_butlast) (rule invite_fields_ok(1) [OF wf])
  have "Marshal (invite_members c) = Inr (json_object (map field_text (invite_body c)))"
    using wf by (intro Marshal_fields) (simp add: invite_members_def invite_body_def invite_fields_def field_defs
        invite_wf_def json_time_okE json_int_def Version_def)
  then show "invite_signingBody c
      = Inr (domainBytes ExactInviteSigningDomain (json_object (map field_text (invite_body c))))"
    by (simp add: invite_signingBody_def)
  show "invite_of_members (map field_member (invite_body c)
      @ [field_member (str_field ''signature'' (ei_Signature c))]) = Inr c"
    using invite_of_fields [OF wf] by (simp add: invite_body_def invite_fields_def)
next
  fix c d assume wf: "invite_wf c" "invite_wf d"
  have "invite_wf (c\<lparr>ei_Signature := ei_Signature d\<rparr>)" using wf by (simp add: invite_wf_def)
  from invite_of_fields [OF this]
  show "invite_of_members (map field_member (invite_body c)
      @ [field_member (str_field ''signature'' (ei_Signature d))]) = Inr (c\<lparr>ei_Signature := ei_Signature d\<rparr>)"
    by (simp add: invite_body_def invite_fields_def)
qed

section \<open>Minting never fails on admissible arguments\<close>

lemma length_decimal: "n < 10 ^ k \<Longrightarrow> 0 < k \<Longrightarrow> length (decimal n) \<le> k"
proof (induction k arbitrary: n)
  case (Suc k)
  show ?case
  proof (cases "n < 10")
    case True
    then show ?thesis by (simp add: decimal.simps [of n])
  next
    case False
    then have "0 < k" using Suc.prems by (cases k) auto
    moreover have "n div 10 < 10 ^ k" using Suc.prems(1) by (simp add: less_mult_imp_div_less)
    ultimately have "length (decimal (n div 10)) \<le> k" using Suc.IH by blast
    then show ?thesis using False by (simp add: decimal.simps [of n])
  qed
qed simp

lemma length_json_string: "ascii s \<Longrightarrow> length (json_string s) \<le> 6 * length s + 2"
proof -
  assume a: "ascii s"
  have "length (concat (map escape_byte s)) \<le> 6 * length s"
    by (induction s) (auto simp: escape_byte_def)
  then show ?thesis using a by (simp add: json_string_def json_escape_ascii)
qed

lemma length_json_object:
  "length (json_object ms) \<le> 2 + sum_list (map (\<lambda>m. length (fst m) + length (snd m) + 4) ms)"
proof -
  have "length (Join ts '','') \<le> sum_list (map (\<lambda>t. length t + 1) ts)" for ts :: "string list"
  proof (induction ts)
    case (Cons t ts)
    then show ?case by (cases ts) auto
  qed simp
  from this [of "map json_member ms"] show ?thesis
    by (simp add: json_object_def json_member_def comp_def add.commute add.left_commute numeral_eq_Suc)
qed

lemma lease_signingBody_ok:
  assumes "json_time_ok (al_IssuedAt l)" "json_time_ok (al_NotBefore l)" "json_time_ok (al_ExpiresAt l)"
  shows "\<exists>b. lease_signingBody l = Inr b"
  using assms by (simp add: lease_signingBody_def Marshal_def lease_members_def json_time_okE(1))

lemma invite_signingBody_ok:
  assumes "json_time_ok (ei_IssuedAt i)" "json_time_ok (ei_NotBefore i)" "json_time_ok (ei_ExpiresAt i)"
  shows "\<exists>b. invite_signingBody i = Inr b"
  using assms by (simp add: invite_signingBody_def Marshal_def invite_members_def json_time_okE(1))

text \<open>The years JSON can write.\<close>

definition writable :: "gotime \<Rightarrow> bool" where
  "writable t \<longleftrightarrow> t \<noteq> zero_time \<and> json_time_ok (UTC t)"

lemma NewAccessLease_complete:
  assumes "length p = PublicKeySize" "validString pipeID" "length pipeID \<le> MaxPipeIDLen"
    "0 < lifetime" "lifetime \<le> MaxTTL" "writable now" "writable (now + lifetime)"
  shows "\<exists>l. NewAccessLease C (Inr v) k (PublicString p) pipeID now lifetime epoch = Inr l"
proof -
  let ?l = "\<lparr>al_Version = Version, al_Type = AccessLeaseType, al_Issuer = PublicString (Public k),
      al_Subject = PublicString p, al_AudiencePipeID = pipeID, al_JTI = ''jti_'' @ b32_encode v,
      al_IssuedAt = UTC now, al_NotBefore = UTC now, al_ExpiresAt = UTC (now + lifetime),
      al_AccessEpoch = epoch, al_Signature = []\<rparr>"
  obtain b where "lease_signingBody ?l = Inr b"
    using lease_signingBody_ok [of ?l] assms(6,7) by (auto simp: writable_def)
  then show ?thesis
    using assms by (simp add: NewAccessLease_def NewJTI_def randomID_def lease_Sign_def Let_def validString_PublicString)
qed

lemma bits_val_less: "bits_val bs < 2 ^ length bs"
  by (induction bs rule: rev_induct) (auto simp: bits_val_def)

lemma b32_groups_ascii: "ascii (b32_groups bs)"
proof (induction bs rule: b32_groups.induct)
  case (1 bs)
  have "bits_val (take 5 (bs @ replicate 4 False)) < 2 ^ 5"
    using bits_val_less [of "take 5 (bs @ replicate 4 False)"]
    by (rule less_le_trans) (rule power_increasing, simp_all)
  then have "byte (b32_char (bits_val (take 5 (bs @ replicate 4 False)))) < 0x80"
    by (simp add: b32_char_def byte_def)
  then show ?case using 1 by (subst b32_groups.simps) (simp add: ascii_def)
qed

lemma PipeIDFromOwner_ascii: "ascii (PipeIDFromOwner C owner)"
proof -
  have "ascii s \<Longrightarrow> ascii (map to_lower s)" for s
    by (induction s) (auto simp: ascii_def to_lower_def is_upper_def byte_def)
  then show ?thesis
    using b32_groups_ascii by (simp add: PipeIDFromOwner_def b32_encode_def ascii_def byte_def)
qed

lemma b64_encode_ascii [simp]: "ascii (b64_encode s)"
  by (rule graphic_ascii) (rule b64_encode_graphic)

lemma EncodeOwnerBinding_complete:
  assumes "binding_wf b" "length (ob_Type b) \<le> 64" "length (ob_Owner b) \<le> 64"
    "length (ob_AuthorityKey b) \<le> 64" "length (ob_Signature b) \<le> 128"
  shows "\<exists>s. EncodeOwnerBinding b = Inr s"
proof -
  let ?fs = "binding_fields b"
  have wf: "ob_Version b = Version" "ob_Epoch b < 2 ^ 64" "ascii (ob_Type b)" "ascii (ob_Owner b)"
    "ascii (ob_AuthorityKey b)" "ascii (ob_PipeID b)" "ascii (ob_RedemptionPeers b)"
    "ascii (ob_RedemptionProtocol b)" "ascii (ob_Signature b)"
    "length (ob_PipeID b) \<le> 256" "length (ob_RedemptionPeers b) \<le> 1024" "length (ob_RedemptionProtocol b) \<le> 128"
    using assms(1) by (simp_all add: binding_wf_def bounds)
  have "length (decimal (ob_Epoch b)) \<le> 20" "length (decimal (nat Version)) \<le> 1"
    using wf(2) length_decimal [of "ob_Epoch b" 20] length_decimal [of "nat Version" 1] by (simp_all add: Version_def)
  moreover note len = length_json_string [OF wf(3)] length_json_string [OF wf(4)] length_json_string [OF wf(5)]
    length_json_string [OF wf(6)] length_json_string [OF wf(7)] length_json_string [OF wf(8)] length_json_string [OF wf(9)]
  ultimately have "sum_list (map (\<lambda>m. length (fst m) + length (snd m) + 4) (map field_text ?fs)) \<le> 20000"
    using wf assms(2-5) by (simp add: binding_fields_def opt_field_def field_defs field_text_def)
  then have "length (json_object (map field_text ?fs)) \<le> 20002"
    using length_json_object [of "map field_text ?fs"] by linarith
  then have "length (b64_encode (json_object (map field_text ?fs))) \<le> MaxBytes"
    by (simp add: length_b64_encode bounds)
  then show ?thesis
    by (simp add: EncodeOwnerBinding_def binding_Marshal [OF assms(1)] Let_def)
qed

text \<open>A minted binding has the shape the wire form needs.\<close>

lemma NewOwnerBinding_complete:
  assumes "keypair C k" "length a = PublicKeySize" "length (sha256 C (Public k)) = 32"
    "length peers \<le> MaxRedemptionAddrLen" "length (Split peers (CHR '','')) \<le> MaxRedemptionAddresses"
    "length protocol \<le> MaxRedemptionProtocolLen" "ascii peers" "ascii protocol" "epoch < 2 ^ 64"
  defines "pipeID \<equiv> PipeIDFromOwner C (Public k)"
  obtains b s where "NewOwnerBinding C k a pipeID epoch peers protocol = Inr b"
    "binding_wf b" "EncodeOwnerBinding b = Inr s"
proof -
  have len: "length pipeID = 36" using PipeIDFromOwner_length [OF assms(3)] by (simp add: pipeID_def)
  have valid: "validString pipeID" "PipeIDFromOwner C (Public k) \<noteq> []"
    using len by (auto simp: validString_def MaxFieldLen_def pipeID_def)
  have type: "ascii OwnerBindingType" "length OwnerBindingType = 19"
    by (simp_all add: OwnerBindingType_def ascii_def byte_def)
  let ?b = "\<lparr>ob_Version = Version, ob_Type = OwnerBindingType, ob_Owner = PublicString (Public k),
      ob_AuthorityKey = PublicString a, ob_PipeID = pipeID, ob_RedemptionPeers = peers,
      ob_RedemptionProtocol = protocol, ob_Epoch = epoch, ob_Signature = []\<rparr>"
  obtain body where body: "binding_signingBody ?b = Inr body" using binding_signingBody_ok by blast
  let ?s = "?b\<lparr>ob_Signature := PublicString (ed_sign C k body)\<rparr>"
  have new: "NewOwnerBinding C k a pipeID epoch peers protocol = Inr ?s"
    using assms len valid keypair_facts(1) [OF assms(1)] body
    by (simp add: NewOwnerBinding_def Let_def binding_Sign_def VerifyPipeOwner_def bounds)
  have "binding_wf ?s"
    using assms len keypair_facts(1,2) [OF assms(1)] PipeIDFromOwner_ascii [of C "Public k"]
    by (simp add: binding_wf_def PublicString_def length_b64_encode bounds type)
  moreover from this obtain s where "EncodeOwnerBinding ?s = Inr s"
    using EncodeOwnerBinding_complete [of ?s] assms(2) keypair_facts(1,2) [OF assms(1)]
    by (auto simp: PublicString_def length_b64_encode bounds type)
  ultimately show thesis using that new by blast
qed

lemma NewExactInvite_complete:
  assumes "VerifyOwnerAuthority C (PublicString (Public k)) binding = Inr oa" "oa_PipeID oa = pipeID"
    "EncodeOwnerBinding binding = Inr enc" "validString pipeID" "length pipeID \<le> MaxPipeIDLen"
    "0 < lifetime" "lifetime \<le> MaxTTL" "writable now" "writable (now + lifetime)"
  shows "\<exists>i. NewExactInvite C (Inr v) k binding pipeID now lifetime epoch = Inr i"
proof -
  let ?i = "\<lparr>ei_Version = Version, ei_Type = InviteType, ei_Issuer = PublicString (Public k),
      ei_AudiencePipeID = pipeID, ei_Binding = enc, ei_JTI = ''jti_'' @ b32_encode v, ei_IssuedAt = UTC now,
      ei_NotBefore = UTC now, ei_ExpiresAt = UTC (now + lifetime), ei_AccessEpoch = epoch, ei_OneTime = True,
      ei_Signature = []\<rparr>"
  obtain b where "invite_signingBody ?i = Inr b"
    using invite_signingBody_ok [of ?i] assms(8,9) by (auto simp: writable_def)
  then show ?thesis
    using assms by (simp add: NewExactInvite_def NewJTI_def randomID_def invite_Sign_def Let_def)
qed

text \<open>Concrete arguments for the witnesses.\<close>

definition example_key :: string where "example_key = replicate 64 (CHR ''k'')"
definition example_public :: string where "example_public = replicate 32 (CHR ''a'')"
definition example_rnd :: string where "example_rnd = replicate 16 (CHR ''r'')"
definition example_now :: gotime where "example_now = 1700000000 * second"

lemma example_lengths:
  "length example_key = 64" "length example_public = PublicKeySize" "length example_rnd = 16"
  "length (sha256 example_crypto s) = 32"
  by (simp_all add: example_key_def example_public_def example_rnd_def bounds)

lemma example_times: "writable example_now" "writable (example_now + minute)"
proof -
  have "year (date_of example_now) = 2023" "year (date_of (example_now + minute)) = 2023" by code_simp+
  then show "writable example_now" "writable (example_now + minute)"
    by (simp_all add: writable_def json_time_ok_def UTC_def zero_time_def example_now_def second_def minute_def)
qed

lemma example_window:
  "0 < minute" "minute \<le> MaxTTL" "example_now \<noteq> zero_time" "example_now \<le> example_now + MaxClockSkew"
  "example_now < example_now + minute"
  by (simp_all add: minute_def second_def bounds zero_time_def example_now_def)

section \<open>Properties\<close>

text \<open>A minted access lease is accepted: with an admissible subject key, Pipe, lifetime and clock the
  issuer's \<^verbatim>\<open>NewAccessLease\<close> succeeds, and \<^verbatim>\<open>Verify\<close> under its public key, for its subject and Pipe,
  accepts the lease at every instant from the issue time (less the tolerated skew) to the expiry.\<close>

theorem minted_lease_accepted:
  assumes "keypair C k" "length p = PublicKeySize" "validString pipeID" "length pipeID \<le> MaxPipeIDLen"
    "0 < lifetime" "lifetime \<le> MaxTTL" "writable now" "writable (now + lifetime)" "length v = 16"
  shows "\<exists>l. NewAccessLease C (Inr v) k (PublicString p) pipeID now lifetime epoch = Inr l
    \<and> (\<forall>clock at. at \<noteq> zero_time \<and> now \<le> at + MaxClockSkew \<and> at < now + lifetime
         \<longrightarrow> lease_Verify C clock (Public k) (PublicString p) pipeID at l = None)"
proof -
  obtain l where l: "NewAccessLease C (Inr v) k (PublicString p) pipeID now lifetime epoch = Inr l"
    using NewAccessLease_complete assms by blast
  have "now \<noteq> zero_time" using assms(7) by (simp add: writable_def)
  then have "lease_Verify C clock (Public k) (PublicString p) pipeID at l = None"
    if "at \<noteq> zero_time \<and> now \<le> at + MaxClockSkew \<and> at < now + lifetime" for clock at
    using NewAccessLease_verifies [OF l assms(1)] assms(9) that by simp
  with l show ?thesis by blast
qed

theorem minted_lease_accepted_witness:
  "\<exists>l. NewAccessLease example_crypto (Inr example_rnd) example_key (PublicString example_public) ''pip_x''
       example_now minute 3 = Inr l
    \<and> lease_Verify example_crypto 0 (Public example_key) (PublicString example_public) ''pip_x'' example_now l = None"
proof -
  have "validString ''pip_x''" "length ''pip_x'' \<le> MaxPipeIDLen"
    by (simp_all add: validString_def bounds)
  from minted_lease_accepted [OF example_keypair [OF example_lengths(1)] example_lengths(2) this
      example_window(1,2) example_times example_lengths(3), of 3]
  show ?thesis using example_window by blast
qed

text \<open>C27. The sharing chain: an owner binds a dedicated authority key to their Pipe, the authority mints
  an invite on that binding, and the invite, binding embedded, passes the full verification of a
  redeemer at every instant of its window.\<close>

theorem shared_invite_accepted:
  assumes keys: "keypair C owner" "keypair C auth" "length (sha256 C (Public owner)) = 32"
    and peers: "length peers \<le> MaxRedemptionAddrLen" "length (Split peers (CHR '','')) \<le> MaxRedemptionAddresses"
      "length protocol \<le> MaxRedemptionProtocolLen" "ascii peers" "ascii protocol" "epoch < 2 ^ 64"
    and window: "0 < lifetime" "lifetime \<le> MaxTTL" "writable now" "writable (now + lifetime)" "length v = 16"
    and pipe: "pipeID = PipeIDFromOwner C (Public owner)"
  shows "\<exists>b i. NewOwnerBinding C owner (Public auth) pipeID epoch peers protocol = Inr b
    \<and> NewExactInvite C (Inr v) auth b pipeID now lifetime accessEpoch = Inr i
    \<and> (\<forall>clock at. at \<noteq> zero_time \<and> now \<le> at + MaxClockSkew \<and> at < now + lifetime
         \<longrightarrow> invite_Verify C clock at pipeID i = None)"
proof -
  obtain b s where b: "NewOwnerBinding C owner (Public auth) pipeID epoch peers protocol = Inr b"
    "binding_wf b" "EncodeOwnerBinding b = Inr s"
    unfolding pipe by (rule NewOwnerBinding_complete [OF keys(1) keypair_facts(1) [OF keys(2)] keys(3) peers])
  note oa = NewOwnerBinding_verifies(2) [OF b(1) keys(1)]
  have "length pipeID = 36" using PipeIDFromOwner_length [OF keys(3)] by (simp add: pipe)
  then have "validString pipeID" "length pipeID \<le> MaxPipeIDLen"
    by (auto simp: validString_def MaxFieldLen_def MaxPipeIDLen_def)
  then obtain i where i: "NewExactInvite C (Inr v) auth b pipeID now lifetime accessEpoch = Inr i"
    using NewExactInvite_complete [OF oa _ b(3)] window(1-4) by fastforce
  have "now \<noteq> zero_time" using window(3) by (simp add: writable_def)
  then have "invite_Verify C clock at pipeID i = None"
    if "at \<noteq> zero_time \<and> now \<le> at + MaxClockSkew \<and> at < now + lifetime" for clock at
    using NewExactInvite_verifies [OF i keys(2) b(2)] window(5) that by simp
  with b i show ?thesis by blast
qed

theorem shared_invite_accepted_witness:
  "\<exists>b i. NewOwnerBinding example_crypto example_key (Public example_key)
       (PipeIDFromOwner example_crypto (Public example_key)) 7 ''/ip4/10.0.0.1'' ''/tubo/redeem'' = Inr b
    \<and> NewExactInvite example_crypto (Inr example_rnd) example_key b
        (PipeIDFromOwner example_crypto (Public example_key)) example_now minute 3 = Inr i
    \<and> invite_Verify example_crypto 0 example_now (PipeIDFromOwner example_crypto (Public example_key)) i = None"
proof -
  note k = example_keypair [OF example_lengths(1)]
  have "length ''/ip4/10.0.0.1'' \<le> MaxRedemptionAddrLen"
    "length (Split ''/ip4/10.0.0.1'' (CHR '','')) \<le> MaxRedemptionAddresses"
    "length ''/tubo/redeem'' \<le> MaxRedemptionProtocolLen" "ascii ''/ip4/10.0.0.1''" "ascii ''/tubo/redeem''"
    "(7::nat) < 2 ^ 64"
    by (simp_all add: bounds ascii_def byte_def)
  from shared_invite_accepted [OF k k example_lengths(4) this example_window(1,2) example_times
      example_lengths(3) refl, of 3]
  show ?thesis using example_window by blast
qed

text \<open>C28. A lease cannot be stretched: whatever its fields say, a lease accepted at one instant is
  refused from the maximal lifetime plus the clock skew after it on.\<close>

theorem lease_window_bounded:
  assumes "lease_Verify C clock public subject pipeID at l = None" "at \<noteq> zero_time"
    "at + MaxTTL + MaxClockSkew \<le> later" "later \<noteq> zero_time"
  shows "lease_Verify C clock' public' subject' pipeID' later l \<noteq> None"
proof
  assume v: "lease_Verify C clock' public' subject' pipeID' later l = None"
  have "later < instant (al_ExpiresAt l)" using lease_VerifyD(7) [OF v] assms(4) by simp
  moreover have "instant (al_ExpiresAt l) \<le> at + MaxTTL + MaxClockSkew"
    using lease_VerifyD(8,10) [OF assms(1)] assms(2) by simp
  ultimately show False using assms(3) by simp
qed

theorem lease_window_bounded_witness:
  "\<exists>l. lease_Verify example_crypto 0 (Public example_key) (PublicString example_public) ''pip_x'' example_now l = None
    \<and> lease_Verify example_crypto 0 (Public example_key) (PublicString example_public) ''pip_x''
        (example_now + MaxTTL + MaxClockSkew) l \<noteq> None"
proof -
  have "validString ''pip_x''" "length ''pip_x'' \<le> MaxPipeIDLen"
    by (simp_all add: validString_def bounds)
  then obtain l where l: "NewAccessLease example_crypto (Inr example_rnd) example_key (PublicString example_public)
      ''pip_x'' example_now minute 3 = Inr l"
    using NewAccessLease_complete [OF example_lengths(2) _ _ example_window(1,2) example_times] by blast
  have "lease_Verify example_crypto 0 (Public example_key) (PublicString example_public) ''pip_x'' example_now l = None"
    using NewAccessLease_verifies [OF l example_keypair [OF example_lengths(1)]] example_window example_lengths(3) by simp
  moreover have "example_now + MaxTTL + MaxClockSkew \<noteq> zero_time"
    by (simp add: bounds example_now_def zero_time_def second_def minute_def)
  ultimately show ?thesis using lease_window_bounded example_window(3) by blast
qed

text \<open>C3. What a verified invite proves: its Pipe is the one derived from a key that signed the embedded
  binding, that binding names this Pipe and the invite's issuer, and the issuer's key signed the
  invite's canonical form. Nobody but the Pipe's owner can authorise an issuer for it.\<close>

theorem verified_invite_trust_chain:
  assumes "invite_Verify C clock now pipeID i = None"
  shows "\<exists>binding owner issuer sig1 body1 sig2 body2.
     DecodeOwnerBinding (ei_Binding i) = Inr binding \<and> ob_Owner binding = PublicString owner
   \<and> ei_AudiencePipeID i = PipeIDFromOwner C owner \<and> ob_PipeID binding = ei_AudiencePipeID i
   \<and> binding_signingBody binding = Inr body1 \<and> decodeSignature (ob_Signature binding) = Inr sig1
   \<and> ed_verify C owner body1 sig1
   \<and> ob_AuthorityKey binding = ei_Issuer i \<and> ei_Issuer i = PublicString issuer
   \<and> invite_signingBody i = Inr body2 \<and> decodeSignature (ei_Signature i) = Inr sig2
   \<and> ed_verify C issuer body2 sig2"
proof -
  obtain binding owner issuer sig body where b: "DecodeOwnerBinding (ei_Binding i) = Inr binding"
    "VerifyOwnerBinding C binding = Inr owner" "ei_AudiencePipeID i = PipeIDFromOwner C owner"
    "ob_AuthorityKey binding = ei_Issuer i" "ob_PipeID binding = ei_AudiencePipeID i"
    "PublicFromString (ei_Issuer i) = Inr issuer" "decodeSignature (ei_Signature i) = Inr sig"
    "invite_signingBody i = Inr body" "ed_verify C issuer body sig"
    using invite_VerifyD(9) [OF assms] by (rule invite_compositionD)
  then show ?thesis using VerifyOwnerBindingD(1,6) [OF b(2)] by (auto simp: PublicFromString_iff)
qed

theorem verified_invite_trust_chain_witness:
  "\<exists>i owner. ei_AudiencePipeID i = PipeIDFromOwner example_crypto owner
     \<and> invite_Verify example_crypto 0 example_now (PipeIDFromOwner example_crypto (Public example_key)) i = None"
proof -
  note k = example_keypair [OF example_lengths(1)]
  let ?pipe = "PipeIDFromOwner example_crypto (Public example_key)"
  obtain b s where b: "NewOwnerBinding example_crypto example_key (Public example_key) ?pipe 7 [] [] = Inr b"
    "binding_wf b" "EncodeOwnerBinding b = Inr s"
    by (rule NewOwnerBinding_complete [OF k keypair_facts(1) [OF k] example_lengths(4), of "[]" "[]" 7])
      (simp_all add: bounds ascii_def)
  have "length ?pipe = 36" by (rule PipeIDFromOwner_length [OF example_lengths(4)])
  then have "validString ?pipe" "length ?pipe \<le> MaxPipeIDLen"
    by (auto simp: validString_def MaxFieldLen_def MaxPipeIDLen_def)
  then obtain i where i: "NewExactInvite example_crypto (Inr example_rnd) example_key b ?pipe example_now minute 3 = Inr i"
    using NewExactInvite_complete [OF NewOwnerBinding_verifies(2) [OF b(1) k] _ b(3) _ _ example_window(1,2) example_times]
    by fastforce
  have v: "invite_Verify example_crypto 0 example_now ?pipe i = None"
    using NewExactInvite_verifies [OF i k b(2)] example_window example_lengths(3) by simp
  then show ?thesis using verified_invite_trust_chain [OF v] by blast
qed

text \<open>C24. The signatures cover everything: two credentials of one kind with the same canonical bytes differ at most in the
  signature itself, provided both have the shape every minted one has: version 1, ASCII text within the field bounds, times
  in UTC of the writable years, epochs of 64 bits. (Outside of it canonical bytes can coincide: text that is not UTF-8 is
  replaced when it is marshalled.)\<close>

theorem signatures_cover_all_fields:
  "(lease_wf l \<and> lease_wf l' \<and> lease_signingBody l = lease_signingBody l' \<longrightarrow> l' = l\<lparr>al_Signature := al_Signature l'\<rparr>)
   \<and> (binding_wf b \<and> binding_wf b' \<and> binding_signingBody b = binding_signingBody b' \<longrightarrow> b' = b\<lparr>ob_Signature := ob_Signature b'\<rparr>)
   \<and> (invite_wf i \<and> invite_wf i' \<and> invite_signingBody i = invite_signingBody i' \<longrightarrow> i' = i\<lparr>ei_Signature := ei_Signature i'\<rparr>)"
  using lease.signature_covers binding.signature_covers invite.signature_covers by blast

definition example_lease :: AccessLease where
  "example_lease = \<lparr>al_Version = 1, al_Type = ''pipe.open.access'', al_Issuer = ''i'', al_Subject = ''s'',
     al_AudiencePipeID = ''pip_x'', al_JTI = ''jti_1'', al_IssuedAt = UTC example_now, al_NotBefore = UTC example_now,
     al_ExpiresAt = UTC (example_now + minute), al_AccessEpoch = 3, al_Signature = ''one''\<rparr>"

lemma example_lease_wf: "lease_wf example_lease" "lease_wf (example_lease\<lparr>al_Signature := ''two''\<rparr>)"
  using example_times by (simp_all add: lease_wf_def example_lease_def writable_def bounds ascii_def byte_def Version_def)

theorem signatures_cover_all_fields_witness:
  "lease_signingBody example_lease = lease_signingBody (example_lease\<lparr>al_Signature := ''two''\<rparr>)
   \<and> example_lease\<lparr>al_Signature := ''two''\<rparr> = example_lease\<lparr>al_Signature := al_Signature (example_lease\<lparr>al_Signature := ''two''\<rparr>)\<rparr>"
proof -
  have "lease_signingBody example_lease = lease_signingBody (example_lease\<lparr>al_Signature := ''two''\<rparr>)"
    by (simp add: lease_signingBody_def lease_members_def)
  then show ?thesis
    using signatures_cover_all_fields [of example_lease "example_lease\<lparr>al_Signature := ''two''\<rparr>"] example_lease_wf by blast
qed

text \<open>C25. Signing domains are separate: the canonical bytes of a lease, a binding, an invite and the
  messages of the three possession proofs are pairwise different, whatever they contain. A
  signature made for one purpose is never a signature for another.\<close>

theorem signing_domains_separate:
  assumes "lease_signingBody l = Inr m1" "binding_signingBody b = Inr m2" "invite_signingBody i = Inr m3"
  shows "distinct [m1, m2, m3, proof_message OpenProofPurpose ps, proof_message RedeemProofPurpose qs,
    proof_message RenewProofPurpose rs]"
proof -
  define tag where "tag m = takeWhile (\<lambda>c. c \<noteq> nul) m" for m
  have tags: "map tag [m1, m2, m3, proof_message OpenProofPurpose ps, proof_message RedeemProofPurpose qs,
      proof_message RenewProofPurpose rs]
    = [''tubo://access-lease/v1'', ''tubo://exact-owner-binding/v1'', ''tubo://exact-invite/v1'',
       OpenProofPurpose, RedeemProofPurpose, RenewProofPurpose]"
    using assms
    by (auto simp: tag_def lease_signingBody_def binding_signingBody_def invite_signingBody_def result_simps
        domainBytes_def domains proof_message_def purposes nul_def)
  have "distinct (map tag [m1, m2, m3, proof_message OpenProofPurpose ps, proof_message RedeemProofPurpose qs,
      proof_message RenewProofPurpose rs])"
    unfolding tags by (simp add: purposes)
  then show ?thesis by (simp only: distinct_map)
qed

definition example_binding :: OwnerBinding where
  "example_binding = \<lparr>ob_Version = 1, ob_Type = ''exact.owner.binding'', ob_Owner = ''o'', ob_AuthorityKey = ''i'',
     ob_PipeID = ''pip_x'', ob_RedemptionPeers = [], ob_RedemptionProtocol = [], ob_Epoch = 0, ob_Signature = []\<rparr>"

definition example_invite :: ExactInvite where
  "example_invite = \<lparr>ei_Version = 1, ei_Type = ''pipe.open.invite'', ei_Issuer = ''i'', ei_AudiencePipeID = ''pip_x'',
     ei_Binding = [], ei_JTI = ''jti_1'', ei_IssuedAt = UTC example_now, ei_NotBefore = UTC example_now,
     ei_ExpiresAt = UTC (example_now + minute), ei_AccessEpoch = 0, ei_OneTime = True, ei_Signature = []\<rparr>"

theorem signing_domains_separate_witness:
  "\<exists>m1 m2 m3. lease_signingBody example_lease = Inr m1 \<and> binding_signingBody example_binding = Inr m2
    \<and> invite_signingBody example_invite = Inr m3
    \<and> distinct [m1, m2, m3, proof_message OpenProofPurpose [], proof_message RedeemProofPurpose [], proof_message RenewProofPurpose []]"
proof -
  obtain m1 where m1: "lease_signingBody example_lease = Inr m1"
    using lease_signingBody_ok [of example_lease] example_times by (auto simp: example_lease_def writable_def)
  obtain m2 where m2: "binding_signingBody example_binding = Inr m2" using binding_signingBody_ok by blast
  obtain m3 where m3: "invite_signingBody example_invite = Inr m3"
    using invite_signingBody_ok [of example_invite] example_times by (auto simp: example_invite_def writable_def)
  show ?thesis using signing_domains_separate [OF m1 m2 m3] m1 m2 m3 by blast
qed

text \<open>C29. The wire forms lose nothing: a lease, a binding or an invite of the shape every minted one has (version 1, ASCII
  text within the field bounds, times in UTC of the writable years, epochs of 64 bits) is decoded from its encoding exactly
  as it was.\<close>

theorem wire_round_trip:
  "(lease_wf l \<and> lease_Encode l = Inr s \<longrightarrow> lease_Decode s = Inr l)
   \<and> (binding_wf b \<and> EncodeOwnerBinding b = Inr s \<longrightarrow> DecodeOwnerBinding s = Inr b)
   \<and> (invite_wf i \<and> EncodeInvite i = Inr s \<longrightarrow> DecodeInvite s = Inr i)"
  using lease_Decode_Encode DecodeOwnerBinding_Encode DecodeInvite_Encode by blast

theorem wire_round_trip_witness:
  "\<exists>s. EncodeOwnerBinding example_binding = Inr s \<and> DecodeOwnerBinding s = Inr example_binding"
proof -
  have wf: "binding_wf example_binding"
    by (simp add: binding_wf_def example_binding_def bounds ascii_def byte_def Version_def)
  obtain s where s: "EncodeOwnerBinding example_binding = Inr s"
    using EncodeOwnerBinding_complete [OF wf] by (auto simp: example_binding_def)
  then show ?thesis using wire_round_trip [of _ s example_binding] wf by blast
qed

end
