(* ===== verification/GoPath.thy ===== *)
theory GoPath
  imports GoNet
begin

text \<open>
  The functions of package \<^verbatim>\<open>path/filepath\<close> the code calls, for Unix: \<^verbatim>\<open>Clean\<close>, \<^verbatim>\<open>Dir\<close>, \<^verbatim>\<open>Base\<close>
  and \<^verbatim>\<open>Join\<close>. \<^verbatim>\<open>Clean\<close> is its lexical rules on path elements: empty and \<^verbatim>\<open>.\<close> elements vanish, an
  inner \<^verbatim>\<open>..\<close> removes the element before it, a leading \<^verbatim>\<open>..\<close> of a rooted path vanishes.
\<close>

abbreviation slash :: char where "slash \<equiv> CHR ''/''"

definition rooted :: "string \<Rightarrow> bool" where "rooted path \<longleftrightarrow> path \<noteq> [] \<and> hd path = slash"

text \<open>The stack of kept elements, innermost first.\<close>

fun clean_elems :: "bool \<Rightarrow> string list \<Rightarrow> string list \<Rightarrow> string list" where
  "clean_elems r [] st = rev st"
| "clean_elems r (e # es) st =
     (if e = [] \<or> e = ''.'' then clean_elems r es st
      else if e = ''..'' then
        (case st of
           [] \<Rightarrow> clean_elems r es (if r then [] else [e])
         | prev # st' \<Rightarrow> clean_elems r es (if prev = ''..'' then e # st else st'))
      else clean_elems r es (e # st))"

definition Clean :: "string \<Rightarrow> string" where
  "Clean path =
     (let out = (if rooted path then [slash] else [])
            @ Join (clean_elems (rooted path) (Split path slash) []) [slash]
      in if out = [] then ''.'' else out)"

definition Dir :: "string \<Rightarrow> string" where
  "Dir path = Clean (case last_index path slash of None \<Rightarrow> [] | Some i \<Rightarrow> take (Suc i) path)"

definition strip_slashes :: "string \<Rightarrow> string" where
  "strip_slashes path = rev (dropWhile (\<lambda>c. c = slash) (rev path))"

definition Base :: "string \<Rightarrow> string" where
  "Base path =
     (if path = [] then ''.''
      else
        let path' = strip_slashes path;
            last = (case last_index path' slash of None \<Rightarrow> path' | Some i \<Rightarrow> drop (Suc i) path')
        in if last = [] then [slash] else last)"

definition Join_path :: "string list \<Rightarrow> string" where
  "Join_path elems =
     (case dropWhile (\<lambda>e. e = []) elems of [] \<Rightarrow> [] | es \<Rightarrow> Clean (Join es [slash]))"

section \<open>Elements\<close>

lemma last_index_None: "last_index s c = None \<longleftrightarrow> c \<notin> set s"
  by (induction s) (auto split: option.splits)

lemma last_index_append:
  "c \<notin> set n \<Longrightarrow> last_index (p @ c # n) c = Some (length p)"
proof (induction p)
  case Nil
  then have "last_index n c = None" by (simp add: last_index_None)
  then show ?case by simp
next
  case (Cons a p)
  then show ?case by simp
qed

lemma Split_no_sep: "c \<notin> set n \<Longrightarrow> Split n c = [n]"
  by (induction n) auto

lemma Split_nonempty [simp]: "Split s c \<noteq> []"
  by (induction s c rule: Split.induct) (auto split: list.splits)

lemma Split_append: "Split (p @ c # q) c = Split p c @ Split q c"
proof (induction p)
  case Nil
  then show ?case by simp
next
  case (Cons a p)
  then show ?case by (cases "Split p c") auto
qed

lemma clean_elems_last:
  assumes "n \<noteq> []" "n \<noteq> ''.''" "n \<noteq> ''..''"
  shows "\<exists>xs. clean_elems r (es @ [n]) st = xs @ [n]"
  using assms
  by (induction r es st rule: clean_elems.induct) (auto split: list.splits)

lemma Join_snoc: "Join (xs @ [n]) sep = (if xs = [] then n else Join xs sep @ sep @ n)"
proof (induction xs)
  case Nil
  then show ?case by simp
next
  case (Cons a xs)
  then show ?case by (cases xs) auto
qed

lemma strip_slashes_elem: "n \<noteq> [] \<Longrightarrow> slash \<notin> set n \<Longrightarrow> strip_slashes (p @ n) = p @ n"
  unfolding strip_slashes_def by (cases n rule: rev_cases) auto

lemma Base_elem:
  assumes "n \<noteq> []" "slash \<notin> set n" "p = [] \<or> (\<exists>q. p = q @ [slash])"
  shows "Base (p @ n) = n"
proof (cases "p = []")
  case True
  then show ?thesis
    using assms strip_slashes_elem [OF assms(1,2), of "[]"] last_index_None [of n slash]
    by (simp add: Base_def Let_def)
next
  case False
  then obtain q where q: "p = q @ [slash]" using assms(3) by blast
  have "strip_slashes (p @ n) = q @ slash # n"
    using strip_slashes_elem [OF assms(1,2), of p] q by simp
  moreover have "last_index (q @ slash # n) slash = Some (length q)"
    using assms(2) by (rule last_index_append)
  ultimately show ?thesis using assms(1) q by (simp add: Base_def Let_def)
qed

text \<open>A file name joined to a directory is the base of the joined path.\<close>

lemma Base_Join_path:
  assumes n: "n \<noteq> []" "n \<noteq> ''.''" "n \<noteq> ''..''" "slash \<notin> set n"
  shows "Base (Join_path [d, n]) = n"
proof -
  obtain es r where c: "Join_path [d, n] =
      (if r then [slash] else []) @ Join (clean_elems r (es @ [n]) []) [slash]"
  proof (cases "d = []")
    case True
    have "Join_path [d, n] = Clean n" using True n(1) by (simp add: Join_path_def)
    moreover have "clean_elems (rooted n) (Split n slash) [] = [n]"
      using n Split_no_sep [OF n(4)] by simp
    ultimately have "Join_path [d, n] =
      (if rooted n then [slash] else []) @ Join (clean_elems (rooted n) ([] @ [n]) []) [slash]"
      using n Split_no_sep [OF n(4)] by (simp add: Clean_def Let_def)
    then show ?thesis by (rule that)
  next
    case False
    let ?p = "d @ slash # n"
    obtain xs where xs: "clean_elems (rooted ?p) (Split d slash @ [n]) [] = xs @ [n]"
      using clean_elems_last [OF n(1-3)] by blast
    have "Join (xs @ [n]) [slash] \<noteq> []" using n(1) by (simp add: Join_snoc)
    then have "Join_path [d, n] =
      (if rooted ?p then [slash] else []) @ Join (clean_elems (rooted ?p) (Split d slash @ [n]) []) [slash]"
      using False xs Split_append [of d slash n] Split_no_sep [OF n(4)]
      by (simp add: Join_path_def Clean_def Let_def)
    then show ?thesis by (rule that)
  qed
  moreover obtain xs where "clean_elems r (es @ [n]) [] = xs @ [n]"
    using clean_elems_last [OF n(1-3)] by blast
  ultimately have "Join_path [d, n] = (if r then [slash] else []) @ (if xs = [] then [] else Join xs [slash] @ [slash]) @ n"
    by (simp add: Join_snoc)
  then show ?thesis
    using Base_elem [OF n(1,4), of "(if r then [slash] else []) @ (if xs = [] then [] else Join xs [slash] @ [slash])"]
    by (simp split: if_splits)
qed

section \<open>Walking up\<close>

text \<open>\<^verbatim>\<open>Dir\<close> gives a shorter path, the path itself (at a root), or \<^verbatim>\<open>.\<close>: a loop that walks up to its
  fixed point ends.\<close>

definition path_rank :: "string \<Rightarrow> nat" where
  "path_rank p = (if p = [] then 5 else 2 * length p + (if p = ''.'' then 0 else 1))"

definition elems_size :: "string list \<Rightarrow> nat" where
  "elems_size es = sum_list (map (\<lambda>e. length e + 1) es)"

lemma elems_size_simps [simp]:
  "elems_size [] = 0" "elems_size (e # es) = length e + 1 + elems_size es"
  "elems_size (es @ fs) = elems_size es + elems_size fs" "elems_size (rev es) = elems_size es"
  by (simp_all add: elems_size_def rev_map [symmetric])

lemma length_Join_elems: "length (Join es [c]) = elems_size es - 1"
proof (induction es)
  case Nil
  then show ?case by simp
next
  case (Cons e es)
  then show ?case by (cases es) auto
qed

lemma elems_size_Split: "elems_size (Split s c) = length s + 1"
proof (induction s)
  case Nil
  then show ?case by simp
next
  case (Cons d s)
  then show ?case by (cases "Split s c") auto
qed

lemma elems_size_clean: "elems_size (clean_elems r es st) \<le> elems_size es + elems_size st"
  by (induction r es st rule: clean_elems.induct) (auto split: list.splits intro: order_trans)

lemma clean_elems_snoc_Nil: "clean_elems r (es @ [[]]) st = clean_elems r es st"
  by (induction r es st rule: clean_elems.induct) (auto split: list.splits)

lemma Clean_root: "Clean [slash] = [slash]"
  by (simp add: Clean_def rooted_def)

lemma Clean_nonempty: "Clean p \<noteq> []"
  by (simp add: Clean_def Let_def)

lemma Clean_shorter:
  assumes "p = q @ [slash]" "q \<noteq> []"
  shows "length (Clean p) < length p"
proof -
  let ?es = "clean_elems (rooted p) (Split p slash) []"
  have split: "Split p slash = Split q slash @ [[]]"
    using assms(1) Split_append [of q slash "[]"] by simp
  have clean: "?es = clean_elems (rooted p) (Split q slash) []"
    unfolding split by (rule clean_elems_snoc_Nil)
  have size: "elems_size ?es \<le> length q + 1"
    using elems_size_clean [of "rooted p" "Split q slash" "[]"] elems_size_Split [of q slash] clean by simp
  show ?thesis
  proof (cases "rooted p")
    case True
    then obtain q' where q: "q = slash # q'" using assms by (cases q) (auto simp: rooted_def)
    have "?es = clean_elems True (Split q' slash) []" using clean True q by simp
    then have "elems_size ?es \<le> length q' + 1"
      using elems_size_clean [of True "Split q' slash" "[]"] elems_size_Split [of q' slash] by simp
    then have "length (Join ?es [slash]) \<le> length q'" by (simp add: length_Join_elems)
    then show ?thesis using True q assms(1) by (simp add: Clean_def Let_def)
  next
    case False
    have "length (Join ?es [slash]) \<le> length q" using size by (simp add: length_Join_elems)
    moreover have "0 < length q" using assms(2) by simp
    ultimately show ?thesis using False assms by (simp add: Clean_def Let_def)
  qed
qed

lemma last_index_Some: "last_index s c = Some i \<Longrightarrow> \<exists>n. s = take i s @ c # n \<and> i < length s"
proof (induction s arbitrary: i)
  case Nil
  then show ?case by simp
next
  case (Cons d s)
  then show ?case by (cases "last_index s c") (auto split: if_splits)
qed

lemma Dir_rank: "Dir p = p \<or> path_rank (Dir p) < path_rank p"
proof (cases "last_index p slash")
  case None
  then have "Dir p = ''.''" by (simp add: Dir_def Clean_def rooted_def)
  then show ?thesis by (cases p) (auto simp: path_rank_def)
next
  case (Some i)
  then obtain n where n: "p = take i p @ slash # n" "i < length p" using last_index_Some by blast
  have pre: "take (Suc i) p = take i p @ [slash]"
    using n by (metis nth_append_length length_take min.absorb4 take_Suc_conv_app_nth)
  show ?thesis
  proof (cases "i = 0")
    case True
    then have "Dir p = [slash]" using Some pre by (simp add: Dir_def Clean_root)
    then show ?thesis using n True by (cases n) (auto simp: path_rank_def)
  next
    case False
    then have "length (Clean (take (Suc i) p)) < length (take (Suc i) p)"
      using Clean_shorter [OF pre] n(2) by (cases p) auto
    then have "length (Dir p) < length p" using Some n(2) by (simp add: Dir_def)
    moreover have "Dir p \<noteq> []" by (simp add: Dir_def Clean_nonempty)
    ultimately show ?thesis by (auto simp: path_rank_def)
  qed
qed

text \<open>Only a root and \<^verbatim>\<open>.\<close> are their own directory.\<close>

lemma Dir_fixed: "Dir p = p \<Longrightarrow> p = ''.'' \<or> p = [slash]"
proof (cases "last_index p slash")
  case None
  then have "Dir p = ''.''" by (simp add: Dir_def Clean_def rooted_def)
  then show "Dir p = p \<Longrightarrow> p = ''.'' \<or> p = [slash]" by simp
next
  case (Some i)
  then obtain n where n: "p = take i p @ slash # n" "i < length p" using last_index_Some by blast
  have pre: "take (Suc i) p = take i p @ [slash]"
    using n by (metis nth_append_length length_take min.absorb4 take_Suc_conv_app_nth)
  assume fixed: "Dir p = p"
  show ?thesis
  proof (cases "i = 0")
    case True
    then show ?thesis using Some pre fixed by (simp add: Dir_def Clean_root)
  next
    case False
    then have "length (Clean (take (Suc i) p)) < length (take (Suc i) p)"
      using Clean_shorter [OF pre] n(2) by (cases p) auto
    then have "length (Dir p) < length p" using Some n(2) by (simp add: Dir_def)
    then show ?thesis using fixed by simp
  qed
qed

lemma Clean_rank:
  assumes "q \<noteq> []"
  shows "path_rank (Clean q) \<le> path_rank q"
proof -
  let ?es = "clean_elems (rooted q) (Split q slash) []"
  have "length (Clean q) \<le> length q"
  proof (cases "rooted q")
    case True
    then obtain q' where q: "q = slash # q'" by (cases q) (auto simp: rooted_def)
    then have "?es = clean_elems True (Split q' slash) []" using True by simp
    then have "elems_size ?es \<le> length q' + 1"
      using elems_size_clean [of True "Split q' slash" "[]"] elems_size_Split [of q' slash] by simp
    then have "length (Join ?es [slash]) \<le> length q'" by (simp add: length_Join_elems)
    then show ?thesis using True q by (simp add: Clean_def Let_def)
  next
    case False
    have "elems_size ?es \<le> length q + 1"
      using elems_size_clean [of "rooted q" "Split q slash" "[]"] elems_size_Split [of q slash] by simp
    then have "length (Join ?es [slash]) \<le> length q" by (simp add: length_Join_elems)
    moreover have "1 \<le> length q" using assms by (cases q) auto
    ultimately show ?thesis using False by (simp add: Clean_def Let_def)
  qed
  moreover have "Clean ''.'' = ''.''" by (simp add: Clean_def rooted_def)
  ultimately show ?thesis using Clean_nonempty [of q] assms by (auto simp: path_rank_def)
qed

end
