(* ===== verification/LocalKey.thy ===== *)
theory LocalKey
  imports GoPath Keys "HOL-Library.Word"
begin

unbundle bit_operations_syntax

text \<open>
  The owner-local private-key file (src/internal/localkey/key.go).

  The file system is a map from paths to nodes, with a plan of the system calls that fail: every
  call of the code is one of \<open>syscall\<close>, and \<open>faults\<close> gives the error the kernel answers it with, if
  any. The paths are those the callers build with \<^verbatim>\<open>filepath.Join\<close>, so one file has one path.
  The test hooks of the package are unset, as they are outside its tests.
\<close>

section \<open>The file system\<close>

datatype kind = Regular string | Directory | Symlink | Irregular

record node =
  n_kind :: kind
  n_perm :: "9 word"
  n_special :: bool

datatype syscall =
    Lstat string | OpenRead string | Stat string | ReadAll string | Mkdir string | OpenLock string
  | Flock string | CreateExcl string | Write string | SyncFile string | CloseFile string
  | Link string string | Remove string | SyncDir string

record FS =
  nodes :: "string \<Rightarrow> node option"
  faults :: "syscall \<Rightarrow> goerror option"

definition ErrNotExist :: goerror where "ErrNotExist = Error ''file does not exist'' []"
definition ErrExist :: goerror where "ErrExist = Error ''file already exists'' []"
definition ELOOP :: goerror where "ELOOP = Error ''too many levels of symbolic links'' []"
definition ErrUnsafe :: goerror where "ErrUnsafe = Error ''localkey: unsafe key state'' []"
definition ErrInvalid :: goerror where "ErrInvalid = Error ''localkey: invalid key file'' []"

lemmas os_errors = ErrNotExist_def ErrExist_def ELOOP_def ErrUnsafe_def ErrInvalid_def

definition lstat :: "FS \<Rightarrow> string \<Rightarrow> node result" where
  "lstat fs path =
     (case faults fs (Lstat path) of
        Some e \<Rightarrow> Inl e
      | None \<Rightarrow> (case nodes fs path of
                  None \<Rightarrow> Inl (Wrap ''lstat %s: %w'' [path] ErrNotExist)
                | Some n \<Rightarrow> Inr n))"

text \<open>\<^verbatim>\<open>os.OpenFile(path, os.O_RDONLY|syscall.O_NOFOLLOW, 0)\<close>.\<close>

definition open_read :: "FS \<Rightarrow> string \<Rightarrow> node result" where
  "open_read fs path =
     (case faults fs (OpenRead path) of
        Some e \<Rightarrow> Inl e
      | None \<Rightarrow> (case nodes fs path of
                  None \<Rightarrow> Inl (Wrap ''open %s: %w'' [path] ErrNotExist)
                | Some n \<Rightarrow> if n_kind n = Symlink then Inl (Wrap ''open %s: %w'' [path] ELOOP) else Inr n))"

definition mkdir :: "string \<Rightarrow> FS \<Rightarrow> goerror option \<times> FS" where
  "mkdir path fs =
     (case faults fs (Mkdir path) of
        Some e \<Rightarrow> (Some e, fs)
      | None \<Rightarrow> (case nodes fs path of
                  Some _ \<Rightarrow> (Some (Wrap ''mkdir %s: %w'' [path] ErrExist), fs)
                | None \<Rightarrow> (None, fs\<lparr>nodes := (nodes fs)
                    (path \<mapsto> \<lparr>n_kind = Directory, n_perm = 448, n_special = False\<rparr>)\<rparr>)))"

text \<open>\<^verbatim>\<open>os.Remove\<close>; the code ignores its error except in one place.\<close>

definition remove :: "string \<Rightarrow> FS \<Rightarrow> goerror option \<times> FS" where
  "remove path fs =
     (case faults fs (Remove path) of
        Some e \<Rightarrow> (Some e, fs)
      | None \<Rightarrow> (case nodes fs path of
                  None \<Rightarrow> (Some (Wrap ''remove %s: %w'' [path] ErrNotExist), fs)
                | Some _ \<Rightarrow> (None, fs\<lparr>nodes := (nodes fs)(path := None)\<rparr>)))"

definition rm :: "string \<Rightarrow> FS \<Rightarrow> FS" where "rm path fs = snd (remove path fs)"

section \<open>Checks\<close>

definition encodedPrivateKeyLen :: nat where "encodedPrivateKeyLen = 86"
definition lockSuffix :: string where "lockSuffix = ''.lock''"

fun octal :: "nat \<Rightarrow> string" where
  "octal n = (if n < 8 then [char_of (48 + n)] else octal (n div 8) @ [char_of (48 + n mod 8)])"

declare octal.simps [simp del]

definition perm_text :: "node \<Rightarrow> string" where "perm_text n = octal (unat (n_perm n))"

definition validateFinalPath :: "string \<Rightarrow> goerror option" where
  "validateFinalPath path =
     (if path = [] \<or> Base path = ''.'' \<or> Base path = [slash]
      then Some (Wrap ''%w: invalid key path'' [] ErrInvalid)
      else if slash \<in> set (Base path)
      then Some (Wrap ''%w: invalid key filename'' [] ErrInvalid)
      else None)"

definition unsafeMode :: "node \<Rightarrow> 9 word \<Rightarrow> bool" where
  "unsafeMode info allowed \<longleftrightarrow> n_perm info AND NOT allowed \<noteq> 0 \<or> n_special info"

definition checkFileInfo :: "node \<Rightarrow> goerror option" where
  "checkFileInfo info =
     (case n_kind info of
        Symlink \<Rightarrow> Some (Wrap ''%w: key file is symlink'' [] ErrUnsafe)
      | Regular data \<Rightarrow>
          if unsafeMode info 384 then Some (Wrap ''%w: key file mode %o'' [perm_text info] ErrUnsafe)
          else if length data > encodedPrivateKeyLen
          then Some (Wrap ''%w: key file oversized'' [] ErrInvalid)
          else if length data \<noteq> encodedPrivateKeyLen
          then Some (Wrap ''%w: key file wrong length'' [] ErrInvalid)
          else None
      | _ \<Rightarrow> Some (Wrap ''%w: key file is not regular'' [] ErrUnsafe))"

definition checkLockInfo :: "node \<Rightarrow> goerror option" where
  "checkLockInfo info =
     (case n_kind info of
        Regular _ \<Rightarrow> if unsafeMode info 384 then Some (Wrap ''%w: key lock mode'' [] ErrUnsafe) else None
      | _ \<Rightarrow> Some (Wrap ''%w: key lock mode'' [] ErrUnsafe))"

definition parseCanonicalPrivate :: "crypto \<Rightarrow> string \<Rightarrow> string result" where
  "parseCanonicalPrivate C text0 =
     (if length text0 > encodedPrivateKeyLen then Inl (Wrap ''%w: key file oversized'' [] ErrInvalid)
      else if length text0 \<noteq> encodedPrivateKeyLen
      then Inl (Wrap ''%w: key file wrong length'' [] ErrInvalid)
      else if list_ex (\<lambda>c. byte c \<in> {13, 10, 9, 32}) text0 \<or> CHR ''='' \<in> set text0
      then Inl (Wrap ''%w: non-canonical private key'' [] ErrInvalid)
      else case b64_decode text0 of
        None \<Rightarrow> Inl (Wrap ''%w: invalid Ed25519 private key'' [] ErrInvalid)
      | Some decoded \<Rightarrow>
          if length decoded \<noteq> PrivateKeySize
          then Inl (Wrap ''%w: invalid Ed25519 private key'' [] ErrInvalid)
          else if b64_encode decoded \<noteq> text0
          then Inl (Wrap ''%w: non-canonical private key'' [] ErrInvalid)
          else if NewKeyFromSeed C (take 32 decoded) \<noteq> decoded
          then Inl (Wrap ''%w: private key public suffix inconsistent with seed'' [] ErrInvalid)
          else Inr decoded)"

section \<open>Directories\<close>

definition checkDir :: "node \<Rightarrow> goerror option" where
  "checkDir info =
     (if n_kind info = Symlink then Some (Wrap ''%w: key directory is symlink'' [] ErrUnsafe)
      else if n_kind info \<noteq> Directory
      then Some (Wrap ''%w: key directory is not directory'' [] ErrUnsafe)
      else None)"

text \<open>The first loop of \<^verbatim>\<open>mkdirAllSecure\<close>: the missing directories from the wanted one up to the
  first that exists.\<close>

function missing_dirs :: "FS \<Rightarrow> string \<Rightarrow> string list result" where
  "missing_dirs fs cur =
     (case lstat fs cur of
        Inr info \<Rightarrow> check (checkDir info) (Inr [])
      | Inl e \<Rightarrow>
          if \<not> errors_is e ErrNotExist then Inl e
          else if Dir cur = cur then Inl e
          else res_bind (missing_dirs fs (Dir cur)) (\<lambda>missing. Inr (cur # missing)))"
  by pat_completeness auto
termination
  using Dir_rank by (relation "measure (\<lambda>(fs, cur). path_rank cur)") auto

declare missing_dirs.simps [simp del]

text \<open>The second loop: create them from the outermost in.\<close>

fun make_dirs :: "string list \<Rightarrow> FS \<Rightarrow> goerror option \<times> FS" where
  "make_dirs [] fs = (None, fs)"
| "make_dirs (path # paths) fs =
     (let (err, fs1) = mkdir path fs;
          stop = (case err of
                    Some e \<Rightarrow> if errors_is e ErrExist then None else Some e
                  | None \<Rightarrow> faults fs1 (SyncDir (Dir path)))
      in case stop of
           Some e \<Rightarrow> (Some e, fs1)
         | None \<Rightarrow>
             (case lstat fs1 path of
                Inl e \<Rightarrow> (Some e, fs1)
              | Inr info \<Rightarrow>
                  if n_kind info \<noteq> Directory \<or> unsafeMode info 448
                  then (Some (Wrap ''%w: key directory mode'' [] ErrUnsafe), fs1)
                  else make_dirs paths fs1))"

definition mkdirAllSecure :: "string \<Rightarrow> FS \<Rightarrow> goerror option \<times> FS" where
  "mkdirAllSecure dir fs =
     (let clean = Clean dir in
      if clean = ''.'' then (None, fs)
      else case missing_dirs fs clean of
        Inl e \<Rightarrow> (Some e, fs)
      | Inr missing \<Rightarrow> make_dirs (rev missing) fs)"

definition secureDir :: "FS \<Rightarrow> string \<Rightarrow> goerror option" where
  "secureDir fs dir =
     (case lstat fs dir of
        Inl e \<Rightarrow> Some e
      | Inr info \<Rightarrow>
          (case checkDir info of
             Some e \<Rightarrow> Some e
           | None \<Rightarrow>
               if unsafeMode info 448
               then Some (Wrap ''%w: key directory mode %o'' [perm_text info] ErrUnsafe)
               else None))"

definition requireSecureDir :: "string \<Rightarrow> bool \<Rightarrow> FS \<Rightarrow> goerror option \<times> FS" where
  "requireSecureDir dir create fs =
     (let (err, fs1) = (if create then mkdirAllSecure dir fs else (None, fs)) in
      case err of
        Some e \<Rightarrow> (Some e, fs1)
      | None \<Rightarrow> (secureDir fs1 dir, fs1))"

section \<open>Load\<close>

definition node_data :: "node \<Rightarrow> string" where
  "node_data n = (case n_kind n of Regular data \<Rightarrow> data | _ \<Rightarrow> [])"

definition Load :: "crypto \<Rightarrow> FS \<Rightarrow> string \<Rightarrow> string result" where
  "Load C fs path =
     check (validateFinalPath path) (
     check (fst (requireSecureDir (Dir path) False fs)) (
     res_bind (lstat fs path) (\<lambda>info.
     check (checkFileInfo info) (
     case open_read fs path of
       Inl e \<Rightarrow> if errors_is e ELOOP then Inl (Wrap ''%w: key file is symlink'' [] ErrUnsafe) else Inl e
     | Inr opened \<Rightarrow>
         check (faults fs (Stat path)) (
         check (checkFileInfo opened) (
         check (faults fs (ReadAll path)) (
         parseCanonicalPrivate C (take (encodedPrivateKeyLen + 1) (node_data opened)))))))))"

section \<open>Provision\<close>

definition acquireLock :: "string \<Rightarrow> string \<Rightarrow> FS \<Rightarrow> string result \<times> FS" where
  "acquireLock dir name fs =
     (let path = Join_path [dir, name];
          opened = (case faults fs (OpenLock path) of
             Some e \<Rightarrow> (Inl e, fs)
           | None \<Rightarrow>
               (case nodes fs path of
                  None \<Rightarrow>
                    (let n = \<lparr>n_kind = Regular [], n_perm = 384, n_special = False\<rparr>
                     in (Inr n, fs\<lparr>nodes := (nodes fs)(path \<mapsto> n)\<rparr>))
                | Some n \<Rightarrow>
                    if n_kind n = Symlink
                    then (Inl (Wrap ''%w: lock file is symlink'' [] ErrUnsafe), fs)
                    else (Inr n, fs)))
      in case opened of
           (Inl e, fs1) \<Rightarrow> (Inl e, fs1)
         | (Inr info, fs1) \<Rightarrow>
             (check (faults fs1 (Stat path)) (
              check (checkLockInfo info) (
              check (faults fs1 (Flock path)) (Inr path))), fs1))"

definition tmp_name :: "string \<Rightarrow> string \<Rightarrow> string" where
  "tmp_name path suffix = Join_path [Dir path, ''.'' @ Base path @ ''.tmp.'' @ b64_encode suffix]"

definition key_file :: "string \<Rightarrow> node" where
  "key_file k = \<lparr>n_kind = Regular (b64_encode k), n_perm = 384, n_special = False\<rparr>"

text \<open>The final name is published with a hard link, which fails when it exists.\<close>

definition writeDurableNoClobber :: "string \<Rightarrow> string result \<Rightarrow> string \<Rightarrow> FS \<Rightarrow> goerror option \<times> FS" where
  "writeDurableNoClobber path random private fs =
     (case random of
        Inl e \<Rightarrow> (Some e, fs)
      | Inr suffix \<Rightarrow>
          let dir = Dir path;
              tmp = tmp_name path suffix;
              file = key_file private
          in case faults fs (CreateExcl tmp) of
               Some e \<Rightarrow> (Some e, fs)
             | None \<Rightarrow>
                 if nodes fs tmp \<noteq> None then (Some (Wrap ''open %s: %w'' [tmp] ErrExist), fs)
                 else
                   let fs1 = fs\<lparr>nodes := (nodes fs)(tmp \<mapsto> file)\<rparr>
                   in case (faults fs1 (Write tmp), faults fs1 (SyncFile tmp), faults fs1 (CloseFile tmp)) of
                        (Some e, _, _) \<Rightarrow> (Some e, rm tmp fs1)
                      | (None, Some e, _) \<Rightarrow> (Some e, rm tmp fs1)
                      | (None, None, Some e) \<Rightarrow> (Some e, rm tmp fs1)
                      | (None, None, None) \<Rightarrow>
                          (case faults fs1 (Link tmp path) of
                             Some e \<Rightarrow> (Some e, rm tmp fs1)
                           | None \<Rightarrow>
                               if nodes fs1 path \<noteq> None
                               then (Some (Wrap ''%w: key appeared during provision'' [] ErrUnsafe), rm tmp fs1)
                               else
                                 let fs2 = fs1\<lparr>nodes := (nodes fs1)(path \<mapsto> file)\<rparr>
                                 in (case remove tmp fs2 of
                                       (Some e, fs3) \<Rightarrow> (Some e, rm tmp (rm path fs3))
                                     | (None, fs3) \<Rightarrow>
                                         (case faults fs3 (SyncDir dir) of
                                            Some e \<Rightarrow> (Some e, rm tmp (rm path fs3))
                                          | None \<Rightarrow> (None, fs3)))))"

text \<open>\<open>seed\<close> and \<open>suffix\<close> are the bytes the two reads of the random source give.\<close>

definition Provision :: "crypto \<Rightarrow> string result \<Rightarrow> string result \<Rightarrow> string \<Rightarrow> FS \<Rightarrow> string result \<times> FS" where
  "Provision C seed suffix path fs =
     (case validateFinalPath path of
        Some e \<Rightarrow> (Inl e, fs)
      | None \<Rightarrow>
          (case requireSecureDir (Dir path) True fs of
             (Some e, fs1) \<Rightarrow> (Inl e, fs1)
           | (None, fs1) \<Rightarrow>
               (case acquireLock (Dir path) (Base path @ lockSuffix) fs1 of
                  (Inl e, fs2) \<Rightarrow> (Inl e, fs2)
                | (Inr lockPath, fs2) \<Rightarrow>
                    (case Load C fs2 path of
                       Inr private \<Rightarrow> (Inr private, rm lockPath fs2)
                     | Inl e \<Rightarrow>
                         if \<not> errors_is e ErrNotExist then (Inl e, rm lockPath fs2)
                         else
                           (case GenerateKey C seed of
                              Inl e \<Rightarrow> (Inl e, rm lockPath fs2)
                            | Inr private \<Rightarrow>
                                (case writeDurableNoClobber path suffix private fs2 of
                                   (Some e, fs3) \<Rightarrow> (Inl e, rm lockPath fs3)
                                 | (None, fs3) \<Rightarrow> (Inr private, rm lockPath fs3)))))))"

section \<open>Key files\<close>

lemma b64_encode_no_slash: "slash \<notin> set (b64_encode s)"
proof -
  have "n < 64 \<Longrightarrow> slash \<noteq> b64_char n" for n
    by (auto simp: b64_char_def byte_def byte_eq_iff [symmetric])
  then show ?thesis using b64_vals_less [of s] by (fastforce simp: b64_encode_map list_all_iff)
qed

text \<open>A key file holds the canonical text of a key that its own seed generates.\<close>

definition key_text :: "crypto \<Rightarrow> string \<Rightarrow> string \<Rightarrow> bool" where
  "key_text C k enc \<longleftrightarrow> length k = PrivateKeySize \<and> NewKeyFromSeed C (take 32 k) = k \<and> enc = b64_encode k"

lemma parseCanonicalPrivate_iff: "parseCanonicalPrivate C enc = Inr k \<longleftrightarrow> key_text C k enc"
proof
  assume "parseCanonicalPrivate C enc = Inr k"
  then show "key_text C k enc"
    by (auto simp: parseCanonicalPrivate_def key_text_def split: if_splits option.splits)
next
  assume k: "key_text C k enc"
  then have len: "length enc = encodedPrivateKeyLen"
    by (simp add: key_text_def length_b64_encode encodedPrivateKeyLen_def bounds)
  have "\<not> list_ex (\<lambda>c. byte c \<in> {13, 10, 9, 32}) enc" "CHR ''='' \<notin> set enc"
    using k b64_encode_bytes by (force simp: key_text_def graphic_def list_ex_iff)+
  then show "parseCanonicalPrivate C enc = Inr k"
    using k len by (simp add: parseCanonicalPrivate_def key_text_def)
qed

definition key_node :: "crypto \<Rightarrow> string \<Rightarrow> node \<Rightarrow> bool" where
  "key_node C k n \<longleftrightarrow> (\<exists>enc. n_kind n = Regular enc \<and> key_text C k enc) \<and> \<not> unsafeMode n 384"

lemma checkFileInfo_None_iff:
  "checkFileInfo n = None \<longleftrightarrow>
    (\<exists>d. n_kind n = Regular d \<and> length d = encodedPrivateKeyLen) \<and> \<not> unsafeMode n 384"
  by (auto simp: checkFileInfo_def split: kind.splits if_splits)

text \<open>What loading accepts, and that it accepts it when the kernel answers its calls.\<close>

lemma Load_Inr:
  assumes "Load C fs path = Inr k"
  shows "\<exists>n. nodes fs path = Some n \<and> key_node C k n"
    "secureDir fs (Dir path) = None" "validateFinalPath path = None"
proof -
  from assms obtain n m where n: "lstat fs path = Inr n" "checkFileInfo n = None"
    and m: "open_read fs path = Inr m"
      "parseCanonicalPrivate C (take (encodedPrivateKeyLen + 1) (node_data m)) = Inr k"
    by (auto simp: Load_def result_simps split: sum.splits if_splits)
  have node: "nodes fs path = Some n" using n(1) by (simp add: lstat_def split: option.splits)
  with m(1) have "m = n" by (auto simp: open_read_def split: option.splits if_splits)
  then have "key_node C k n"
    using n(2) m(2) by (auto simp: checkFileInfo_None_iff parseCanonicalPrivate_iff key_node_def node_data_def)
  with node show "\<exists>n. nodes fs path = Some n \<and> key_node C k n" by blast
  show "secureDir fs (Dir path) = None" "validateFinalPath path = None"
    using assms by (auto simp: Load_def result_simps requireSecureDir_def)
qed

definition readable :: "FS \<Rightarrow> string \<Rightarrow> bool" where
  "readable fs path \<longleftrightarrow> faults fs (Lstat path) = None \<and> faults fs (OpenRead path) = None
     \<and> faults fs (Stat path) = None \<and> faults fs (ReadAll path) = None"

lemma Load_complete:
  assumes "validateFinalPath path = None" "secureDir fs (Dir path) = None" "readable fs path"
    "nodes fs path = Some n" "key_node C k n"
  shows "Load C fs path = Inr k"
proof -
  obtain enc where t: "n_kind n = Regular enc" "key_text C k enc" "\<not> unsafeMode n 384"
    using assms(5) by (auto simp: key_node_def)
  then have len: "length enc = encodedPrivateKeyLen"
    by (simp add: key_text_def length_b64_encode encodedPrivateKeyLen_def bounds)
  have "checkFileInfo n = None" using t len by (simp add: checkFileInfo_None_iff)
  moreover have "parseCanonicalPrivate C (take (encodedPrivateKeyLen + 1) (node_data n)) = Inr k"
    using t len by (simp add: node_data_def parseCanonicalPrivate_iff)
  ultimately show ?thesis
    using assms t(1) by (simp add: Load_def requireSecureDir_def lstat_def open_read_def readable_def)
qed

lemma Load_absent:
  assumes "Load C fs path = Inl e" "nodes fs path = None" "readable fs path"
    "validateFinalPath path = None" "secureDir fs (Dir path) = None"
  shows "errors_is e ErrNotExist"
  using assms by (auto simp: Load_def requireSecureDir_def lstat_def readable_def os_errors)

section \<open>Provisioning\<close>

text \<open>No operation changes the fault plan, and none removes what it did not create itself.\<close>

lemma rm_simps [simp]:
  "faults (rm p fs) = faults fs"
  "q \<noteq> p \<Longrightarrow> nodes (rm p fs) q = nodes fs q"
  by (auto simp: rm_def remove_def split: option.splits)

lemma rm_gone: "faults fs (Remove p) = None \<Longrightarrow> nodes (rm p fs) p = None"
  by (auto simp: rm_def remove_def split: option.splits)

lemma mkdir_frame:
  "mkdir p fs = (r, fs') \<Longrightarrow> faults fs' = faults fs \<and> (\<forall>q. q \<noteq> p \<or> nodes fs q \<noteq> None \<longrightarrow> nodes fs' q = nodes fs q)"
  by (auto simp: mkdir_def split: option.splits)

lemma make_dirs_frame:
  "make_dirs ps fs = (r, fs') \<Longrightarrow>
    faults fs' = faults fs \<and> (\<forall>q. q \<notin> set ps \<or> nodes fs q \<noteq> None \<longrightarrow> nodes fs' q = nodes fs q)"
proof (induction ps arbitrary: fs)
  case Nil
  then show ?case by simp
next
  case (Cons p ps)
  obtain err fs1 where m: "mkdir p fs = (err, fs1)" by fastforce
  note frame = mkdir_frame [OF m]
  have "fs' = fs1 \<or> make_dirs ps fs1 = (r, fs')"
    using Cons.prems m by (auto simp: Let_def split: option.splits sum.splits if_splits)
  then show ?case
  proof
    assume "fs' = fs1"
    then show ?thesis using frame by auto
  next
    assume "make_dirs ps fs1 = (r, fs')"
    from Cons.IH [OF this] frame show ?thesis by (metis list.set_intros(1,2))
  qed
qed

lemma missing_dirs_rank:
  "missing_dirs fs cur = Inr ps \<Longrightarrow> p \<in> set ps \<Longrightarrow> path_rank p \<le> path_rank cur"
proof (induction fs cur arbitrary: ps rule: missing_dirs.induct)
  case (1 fs cur)
  show ?case
  proof (cases "lstat fs cur")
    case (Inr info)
    then have "ps = []" using "1.prems"(1) by (subst (asm) missing_dirs.simps) (simp add: result_simps)
    then show ?thesis using "1.prems"(2) by simp
  next
    case (Inl e)
    then obtain qs where g: "errors_is e ErrNotExist" "Dir cur \<noteq> cur" "missing_dirs fs (Dir cur) = Inr qs"
      and ps: "ps = cur # qs"
      using "1.prems"(1) by (subst (asm) missing_dirs.simps) (auto simp: result_simps split: if_splits)
    have "p \<in> set qs \<Longrightarrow> path_rank p \<le> path_rank (Dir cur)"
      using "1.IH" [OF Inl] g by blast
    then show ?thesis using ps "1.prems"(2) Dir_rank [of cur] g(2) by auto
  qed
qed

lemma requireSecureDir_frame:
  assumes "requireSecureDir dir create fs = (r, fs')"
  shows "faults fs' = faults fs"
    "path_rank (Clean dir) < path_rank q \<or> nodes fs q \<noteq> None \<Longrightarrow> nodes fs' q = nodes fs q"
    "r = None \<Longrightarrow> secureDir fs' dir = None"
proof -
  obtain err where m: "(if create then mkdirAllSecure dir fs else (None, fs)) = (err, fs')"
    and r: "err = None \<Longrightarrow> r = secureDir fs' dir" "err \<noteq> None \<Longrightarrow> r \<noteq> None"
    using assms by (cases "if create then mkdirAllSecure dir fs else (None, fs)")
      (auto simp: requireSecureDir_def split: option.splits)
  have "fs' = fs \<or> (\<exists>ps. missing_dirs fs (Clean dir) = Inr ps \<and> make_dirs (rev ps) fs = (err, fs'))"
    using m by (auto simp: mkdirAllSecure_def Let_def split: if_splits sum.splits)
  then have frame: "faults fs' = faults fs
      \<and> (path_rank (Clean dir) < path_rank q \<or> nodes fs q \<noteq> None \<longrightarrow> nodes fs' q = nodes fs q)" for q
  proof
    assume "\<exists>ps. missing_dirs fs (Clean dir) = Inr ps \<and> make_dirs (rev ps) fs = (err, fs')"
    then obtain ps where ps: "missing_dirs fs (Clean dir) = Inr ps" "make_dirs (rev ps) fs = (err, fs')"
      by blast
    have "q \<in> set ps \<Longrightarrow> path_rank q \<le> path_rank (Clean dir)" using missing_dirs_rank [OF ps(1)] .
    then show ?thesis using make_dirs_frame [OF ps(2)] by fastforce
  qed simp
  show "faults fs' = faults fs" using frame by blast
  show "path_rank (Clean dir) < path_rank q \<or> nodes fs q \<noteq> None \<Longrightarrow> nodes fs' q = nodes fs q"
    using frame by blast
  show "r = None \<Longrightarrow> secureDir fs' dir = None" using r by (cases err) auto
qed

lemma acquireLock_frame:
  assumes "acquireLock dir name fs = (r, fs')"
  shows "faults fs' = faults fs"
    "q \<noteq> Join_path [dir, name] \<or> nodes fs q \<noteq> None \<Longrightarrow> nodes fs' q = nodes fs q"
    "r = Inr lock \<Longrightarrow> lock = Join_path [dir, name]
       \<and> (\<exists>n d. nodes fs' lock = Some n \<and> n_kind n = Regular d)"
  using assms
  by (auto simp: acquireLock_def Let_def result_simps checkLockInfo_def
      split: option.splits sum.splits prod.splits if_splits kind.splits)

lemma Base_no_slash: "validateFinalPath path = None \<Longrightarrow> Base path \<noteq> [] \<and> slash \<notin> set (Base path)"
  by (auto simp: validateFinalPath_def Base_def Let_def split: if_splits)

lemma tmp_name_neq: "validateFinalPath path = None \<Longrightarrow> tmp_name path suffix \<noteq> path"
proof -
  assume "validateFinalPath path = None"
  then have "Base (tmp_name path suffix) = ''.'' @ Base path @ ''.tmp.'' @ b64_encode suffix"
    unfolding tmp_name_def by (intro Base_Join_path) (auto simp: Base_no_slash b64_encode_no_slash)
  then have "length (Base (tmp_name path suffix)) > length (Base path)" by simp
  then show "tmp_name path suffix \<noteq> path" by fastforce
qed

lemma lock_neq: "validateFinalPath path = None \<Longrightarrow> Join_path [dir, Base path @ lockSuffix] \<noteq> path"
proof -
  assume "validateFinalPath path = None"
  then have "Base (Join_path [dir, Base path @ lockSuffix]) = Base path @ lockSuffix"
    by (intro Base_Join_path) (auto simp: Base_no_slash lockSuffix_def append_eq_Cons_conv)
  then have "length (Base (Join_path [dir, Base path @ lockSuffix])) > length (Base path)"
    by (simp add: lockSuffix_def)
  then show "Join_path [dir, Base path @ lockSuffix] \<noteq> path" by fastforce
qed

text \<open>The outcomes of publishing: on success the new key is at the path, which was free; on failure
  everything but the scratch name and a half-published path is as before, and the path is as before
  when the kernel carries out the clean-up.\<close>

lemma writeDurable_cases:
  assumes "writeDurableNoClobber path (Inr suffix) k fs = (r, fs')"
  shows "faults fs' = faults fs"
    "q \<noteq> tmp_name path suffix \<Longrightarrow> q \<noteq> path \<or> nodes fs q \<noteq> None \<Longrightarrow> nodes fs' q = nodes fs q"
    "nodes fs (tmp_name path suffix) \<noteq> None \<Longrightarrow> fs' = fs"
    "r = None \<Longrightarrow> tmp_name path suffix \<noteq> path \<Longrightarrow> nodes fs path = None \<and> nodes fs' path = Some (key_file k)"
    "r \<noteq> None \<Longrightarrow> tmp_name path suffix \<noteq> path \<Longrightarrow> faults fs (Remove path) = None \<Longrightarrow> nodes fs path = None
       \<Longrightarrow> nodes fs' path = None"
  using assms
  by (auto simp: writeDurableNoClobber_def Let_def remove_def rm_gone
      split: option.splits prod.splits if_splits)

lemma Provision_invalid: "validateFinalPath path \<noteq> None \<Longrightarrow> Provision C seed suffix path fs = (r, fs') \<Longrightarrow> fs' = fs \<and> \<not> is_ok r"
  by (auto simp: Provision_def)

lemma Provision_cases:
  assumes "Provision C seed suffix path fs = (r, fs')" "validateFinalPath path = None"
  obtains (early) e fs1 x where "requireSecureDir (Dir path) True fs = (e, fs1)" "r = Inl x"
      "fs' = fs1 \<or> acquireLock (Dir path) (Base path @ lockSuffix) fs1 = (Inl x, fs')"
    | (locked) fs1 fs2 lock where "requireSecureDir (Dir path) True fs = (None, fs1)"
      "acquireLock (Dir path) (Base path @ lockSuffix) fs1 = (Inr lock, fs2)" "fs' = rm lock fs2"
      "\<And>k. r = Inr k \<Longrightarrow> Load C fs2 path = Inr k"
    | (written) fs1 fs2 fs3 lock k sfx w where "requireSecureDir (Dir path) True fs = (None, fs1)"
      "acquireLock (Dir path) (Base path @ lockSuffix) fs1 = (Inr lock, fs2)" "GenerateKey C seed = Inr k"
      "suffix = Inr sfx" "writeDurableNoClobber path (Inr sfx) k fs2 = (w, fs3)" "fs' = rm lock fs3"
      "r = (case w of None \<Rightarrow> Inr k | Some e \<Rightarrow> Inl e)"
proof -
  obtain e fs1 where d: "requireSecureDir (Dir path) True fs = (e, fs1)" by fastforce
  obtain l fs2 where a: "acquireLock (Dir path) (Base path @ lockSuffix) fs1 = (l, fs2)" by fastforce
  consider "e \<noteq> None" | x where "e = None" "l = Inl x" | lock where "e = None" "l = Inr lock"
    by (cases e; cases l) auto
  then show thesis
  proof cases
    case 1
    then show ?thesis using early [OF d] assms d by (auto simp: Provision_def)
  next
    case 2
    then show ?thesis using early [OF d] assms d a by (auto simp: Provision_def)
  next
    case 3
    show ?thesis
    proof (cases "\<exists>e k sfx. Load C fs2 path = Inl e \<and> errors_is e ErrNotExist \<and> GenerateKey C seed = Inr k \<and> suffix = Inr sfx")
      case True
      then obtain e' k sfx where t: "Load C fs2 path = Inl e'" "errors_is e' ErrNotExist"
        "GenerateKey C seed = Inr k" "suffix = Inr sfx" by blast
      obtain w fs3 where w: "writeDurableNoClobber path (Inr sfx) k fs2 = (w, fs3)" by fastforce
      show ?thesis
        using assms 3 d a t w by (intro written [OF _ _ t(3,4) w]) (auto simp: Provision_def split: option.splits)
    next
      case False
      then show ?thesis
        using assms 3 d a
        by (intro locked)
          (auto simp: Provision_def writeDurableNoClobber_def split: sum.splits if_splits)
    qed
  qed
qed

text \<open>Whatever happens, a file that is at the path stays there as it is.\<close>

lemma Provision_keeps:
  assumes "Provision C seed suffix path fs = (r, fs')" "nodes fs path = Some n"
  shows "nodes fs' path = Some n"
proof (cases "validateFinalPath path = None")
  case False
  then show ?thesis using assms Provision_invalid by blast
next
  case True
  note tmp = tmp_name_neq [OF True] and lk = lock_neq [OF True]
  from assms(1) True show ?thesis
  proof (cases rule: Provision_cases)
    case (early e fs1 x)
    then show ?thesis
      using assms(2) requireSecureDir_frame(2) [OF early(1)] acquireLock_frame(2) by fastforce
  next
    case (locked fs1 fs2 lock)
    have "nodes fs1 path = Some n" using assms(2) requireSecureDir_frame(2) [OF locked(1)] by simp
    then have "nodes fs2 path = Some n" using acquireLock_frame(2) [OF locked(2)] by simp
    then show ?thesis using locked(3) lk acquireLock_frame(3) [OF locked(2)] by (metis rm_simps(2))
  next
    case (written fs1 fs2 fs3 lock k sfx w)
    have "nodes fs1 path = Some n" using assms(2) requireSecureDir_frame(2) [OF written(1)] by simp
    then have "nodes fs2 path = Some n" using acquireLock_frame(2) [OF written(2)] by simp
    then have "nodes fs3 path = Some n"
      using writeDurable_cases(2) [OF written(5)] tmp by (metis option.distinct(1))
    then show ?thesis using written(6) lk acquireLock_frame(3) [OF written(2)] by (metis rm_simps(2))
  qed
qed

lemma key_file_node: "seed_keys C \<Longrightarrow> length s = 32 \<Longrightarrow> key_node C (NewKeyFromSeed C s) (key_file (NewKeyFromSeed C s))"
  by (auto simp: key_node_def key_file_def key_text_def seed_keys_def keypair_def unsafeMode_def)

lemma secureDir_cong:
  "faults fs' = faults fs \<Longrightarrow> nodes fs' d = nodes fs d \<Longrightarrow> secureDir fs' d = secureDir fs d"
  unfolding secureDir_def lstat_def by (simp only:)

lemma secureDir_node: "secureDir fs d = None \<Longrightarrow> \<exists>n. nodes fs d = Some n \<and> n_kind n = Directory"
  by (auto simp: secureDir_def lstat_def checkDir_def split: option.splits if_splits sum.splits)

lemma locked_dir:
  assumes "requireSecureDir (Dir path) True fs = (None, fs1)" "acquireLock (Dir path) name fs1 = (Inr lock, fs2)"
  shows "secureDir fs2 (Dir path) = None" "Dir path \<noteq> lock" "nodes fs2 (Dir path) \<noteq> None"
    "faults fs2 = faults fs"
proof -
  note d = requireSecureDir_frame [OF assms(1)] and l = acquireLock_frame [OF assms(2)]
  have s1: "secureDir fs1 (Dir path) = None" by (rule d(3)) simp
  then obtain n where n: "nodes fs1 (Dir path) = Some n" "n_kind n = Directory" using secureDir_node by blast
  then have n2: "nodes fs2 (Dir path) = Some n" using l(2) [of "Dir path"] by simp
  then show "nodes fs2 (Dir path) \<noteq> None" by simp
  show "secureDir fs2 (Dir path) = None" using secureDir_cong [OF l(1)] n(1) n2 s1 by simp
  show "Dir path \<noteq> lock" using l(3) [OF refl] n2 n(2) by auto
  show "faults fs2 = faults fs" using d(1) l(1) by simp
qed

text \<open>After a success the key is at the path, in a directory that is still secure.\<close>

lemma Provision_Inr:
  assumes "Provision C seed suffix path fs = (Inr k, fs')" "seed_keys C" "\<And>s. seed = Inr s \<Longrightarrow> length s = 32"
  shows "\<exists>n. nodes fs' path = Some n \<and> key_node C k n" "secureDir fs' (Dir path) = None"
    "faults fs' = faults fs" "validateFinalPath path = None"
proof -
  have valid: "validateFinalPath path = None"
    using assms(1) by (cases "validateFinalPath path") (auto simp: Provision_def)
  note tmp = tmp_name_neq [OF valid] and lk = lock_neq [OF valid]
  have "(\<exists>n. nodes fs' path = Some n \<and> key_node C k n) \<and> secureDir fs' (Dir path) = None \<and> faults fs' = faults fs"
    using assms(1) valid
  proof (cases rule: Provision_cases)
    case (locked fs1 fs2 lock)
    note l = locked_dir [OF locked(1,2)]
    have "lock \<noteq> path" using acquireLock_frame(3) [OF locked(2) refl] lk by simp
    moreover obtain n where "nodes fs2 path = Some n" "key_node C k n" using Load_Inr(1) [OF locked(4)] by blast
    moreover have "secureDir fs' (Dir path) = secureDir fs2 (Dir path)"
      using locked(3) l(2) by (intro secureDir_cong) simp_all
    ultimately show ?thesis using locked(3) l by auto
  next
    case (written fs1 fs2 fs3 lock k' sfx w)
    note l = locked_dir [OF written(1,2)] and w = writeDurable_cases [OF written(5)]
    have k: "w = None" "k' = k" using written(7) by (auto split: option.splits)
    have "lock \<noteq> path" using acquireLock_frame(3) [OF written(2) refl] lk by simp
    moreover have "nodes fs3 path = Some (key_file k)" using w(4) [OF k(1) tmp] k(2) by simp
    moreover have "key_node C k (key_file k)"
      using written(3) k(2) key_file_node [OF assms(2) assms(3)] by (auto simp: GenerateKey_def result_simps)
    moreover have "nodes fs3 (Dir path) = nodes fs2 (Dir path)"
      using w(2) [of "Dir path"] w(3) l(3) by (cases "Dir path = tmp_name path sfx") auto
    then have "secureDir fs' (Dir path) = secureDir fs2 (Dir path)"
      using written(6) l(2) w(1) by (intro secureDir_cong) simp_all
    ultimately show ?thesis using written(6) l w(1) by auto
  qed simp
  then show "\<exists>n. nodes fs' path = Some n \<and> key_node C k n" "secureDir fs' (Dir path) = None"
    "faults fs' = faults fs" by auto
  show "validateFinalPath path = None" by (rule valid)
qed

text \<open>A failed provisioning leaves no key behind: the directories it may have created are above the
  path, and a half-published key is removed again.\<close>

lemma Dir_above:
  assumes "validateFinalPath path = None"
  shows "path_rank (Clean (Dir path)) < path_rank path"
proof -
  have "path \<noteq> ''.''" "path \<noteq> [slash]" "path \<noteq> []"
    using assms by (auto simp: validateFinalPath_def Base_def strip_slashes_def Let_def)
  then have "path_rank (Dir path) < path_rank path" using Dir_rank Dir_fixed by blast
  moreover have "path_rank (Clean (Dir path)) \<le> path_rank (Dir path)"
    using Clean_rank [of "Dir path"] by (simp add: Dir_def Clean_nonempty)
  ultimately show ?thesis by simp
qed

lemma Provision_Inl:
  assumes "Provision C seed suffix path fs = (Inl err, fs')" "nodes fs path = None"
    "faults fs (Remove path) = None"
  shows "nodes fs' path = None"
proof (cases "validateFinalPath path = None")
  case False
  then show ?thesis using assms Provision_invalid by blast
next
  case True
  note tmp = tmp_name_neq [OF True] and lk = lock_neq [OF True]
  have free: "nodes fs1 path = None" if "requireSecureDir (Dir path) True fs = (e, fs1)" for e fs1
    using assms(2) requireSecureDir_frame(2) [OF that, of path] Dir_above [OF True] by simp
  have free2: "nodes fs2 path = None"
    if "requireSecureDir (Dir path) True fs = (e, fs1)" "acquireLock (Dir path) (Base path @ lockSuffix) fs1 = (l, fs2)" for e fs1 l fs2
    using free [OF that(1)] acquireLock_frame(2) [OF that(2), of path] lk by metis
  from assms(1) True show ?thesis
  proof (cases rule: Provision_cases)
    case (early e fs1 x)
    from early(3) show ?thesis using free [OF early(1)] free2 [OF early(1)] by auto
  next
    case (locked fs1 fs2 lock)
    have "path \<noteq> lock" using acquireLock_frame(3) [OF locked(2) refl] lk [of "Dir path"] by simp
    then show ?thesis using free2 [OF locked(1,2)] locked(3) by simp
  next
    case (written fs1 fs2 fs3 lock k sfx w)
    have "path \<noteq> lock" using acquireLock_frame(3) [OF written(2) refl] lk [of "Dir path"] by simp
    moreover have "w \<noteq> None" using written(7) by (auto split: option.splits)
    then have "nodes fs3 path = None"
      using writeDurable_cases(5) [OF written(5) _ tmp] assms(3) locked_dir(4) [OF written(1,2)]
        free2 [OF written(1,2)] by simp
    ultimately show ?thesis using written(6) by simp
  qed
qed

lemma key_node_unique: "key_node C k n \<Longrightarrow> key_node C k' n \<Longrightarrow> k = k'"
  by (auto simp: key_node_def key_text_def)

section \<open>Properties\<close>

text \<open>C32. A provisioned key is durable: after \<^verbatim>\<open>Provision\<close> returns a key, \<^verbatim>\<open>Load\<close> on the file system it
  leaves returns that key whenever the kernel answers the reads, and every later successful
  \<^verbatim>\<open>Provision\<close> of the path returns the same key, with whatever randomness it draws.\<close>

theorem provisioned_key_durable:
  assumes "Provision C seed suffix path fs = (Inr k, fs')" "seed_keys C"
    and len: "\<forall>s. seed = Inr s \<longrightarrow> length s = 32" and read: "readable fs path"
  shows "Load C fs' path = Inr k
    \<and> (\<forall>s suffix2 k2 fs2. length s = 32 \<longrightarrow> Provision C (Inr s) suffix2 path fs' = (Inr k2, fs2) \<longrightarrow> k2 = k)"
proof -
  note p = Provision_Inr [OF assms(1,2) len [rule_format]]
  obtain n where n: "nodes fs' path = Some n" "key_node C k n" using p(1) by blast
  have "readable fs' path" using read p(3) by (simp add: readable_def)
  then have "Load C fs' path = Inr k" using Load_complete p(2,4) n by blast
  moreover have "k2 = k" if "length s = 32" "Provision C (Inr s) suffix2 path fs' = (Inr k2, fs2)" for s suffix2 k2 fs2
  proof -
    have "\<exists>m. nodes fs2 path = Some m \<and> key_node C k2 m" using Provision_Inr(1) [OF that(2) assms(2)] that(1) by auto
    moreover have "nodes fs2 path = Some n" using Provision_keeps [OF that(2) n(1)] .
    ultimately show "k2 = k" using n(2) key_node_unique by fastforce
  qed
  ultimately show ?thesis by blast
qed

definition example_fs :: FS where
  "example_fs = \<lparr>nodes = [''d'' \<mapsto> \<lparr>n_kind = Directory, n_perm = 448, n_special = False\<rparr>], faults = (\<lambda>_. None)\<rparr>"

definition example_seed :: string where "example_seed = replicate 32 (CHR ''a'')"

lemma example_provision:
  "fst (Provision example_crypto (Inr example_seed) (Inr ''t'') ''d/k'' example_fs) = Inr (example_seed @ example_seed)"
  by code_simp

theorem provisioned_key_durable_witness:
  "Load example_crypto (snd (Provision example_crypto (Inr example_seed) (Inr ''t'') ''d/k'' example_fs)) ''d/k''
     = Inr (example_seed @ example_seed)"
proof -
  have "readable example_fs ''d/k''" by (simp add: readable_def example_fs_def)
  moreover have "length example_seed = 32" by (simp add: example_seed_def)
  ultimately show ?thesis
    using provisioned_key_durable [OF _ example_seed_keys, of "Inr example_seed" "Inr ''t''" "''d/k''" example_fs
        "example_seed @ example_seed" "snd (Provision example_crypto (Inr example_seed) (Inr ''t'') ''d/k'' example_fs)"]
      example_provision by (simp add: prod_eq_iff)
qed

text \<open>C33. Provisioning never clobbers: on every outcome a node already at the path is left as it is,
  and a provisioning that fails leaves no node at a path that had none, when the kernel carries
  out the removal of a half-published key.\<close>

theorem provision_no_clobber:
  assumes "Provision C seed suffix path fs = (r, fs')"
  shows "(\<forall>n. nodes fs path = Some n \<longrightarrow> nodes fs' path = Some n)
    \<and> (nodes fs path = None \<and> \<not> is_ok r \<and> faults fs (Remove path) = None \<longrightarrow> nodes fs' path = None)"
  using assms Provision_keeps Provision_Inl by (cases r) auto

text \<open>The witness: the directory cannot be synced after the key was published.\<close>

definition example_bad_fs :: FS where
  "example_bad_fs = example_fs\<lparr>faults := (\<lambda>c. if c = SyncDir ''d'' then Some (Error ''EIO'' []) else None)\<rparr>"

lemma example_failure:
  "fst (Provision example_crypto (Inr example_seed) (Inr ''t'') ''d/k'' example_bad_fs) = Inl (Error ''EIO'' [])"
  by code_simp

theorem provision_no_clobber_witness:
  "nodes (snd (Provision example_crypto (Inr example_seed) (Inr ''t'') ''d/k'' example_bad_fs)) ''d/k'' = None"
  using provision_no_clobber [of example_crypto "Inr example_seed" "Inr ''t''" "''d/k''" example_bad_fs
      "Inl (Error ''EIO'' [])" "snd (Provision example_crypto (Inr example_seed) (Inr ''t'') ''d/k'' example_bad_fs)"]
    example_failure
  by (simp add: prod_eq_iff example_bad_fs_def example_fs_def)

end
