(* ===== verification/ExactAuthority.thy ===== *)
theory ExactAuthority
  imports Credentials LocalKey
begin

text \<open>
  The Exact Pipe Authority (src/internal/exactauthority): the owner's provisioning of the dedicated key,
  its read-only loader, and the two remote services that mint access leases, redemption of an invite
  and renewal of an accepted relationship.

  The persistence ports of state.go are records of functions over an abstract state \<open>'s\<close>; a Go \<^verbatim>\<open>nil\<close>
  interface is \<open>None\<close>. What the services rely on is the contract of the locales \<open>revocation_port\<close>,
  \<open>redemption_port\<close> and \<open>accepted_port\<close>.
\<close>

section \<open>Keys (exactauthority.go)\<close>

definition validPipeIDComponent :: "string \<Rightarrow> bool" where
  "validPipeIDComponent pipeID \<longleftrightarrow>
     HasPrefix pipeID ''pip_'' \<and> \<not> (slash \<in> set pipeID \<or> CHR 0x5C \<in> set pipeID) \<and> length pipeID \<le> MaxPipeIDLen"

definition KeyPath :: "string \<Rightarrow> string \<Rightarrow> string result" where
  "KeyPath secretsDir pipeID =
     (if secretsDir = [] \<or> \<not> validPipeIDComponent pipeID
      then Inl (Error ''exactauthority: invalid key path'' [])
      else Inr (Join_path [secretsDir, ''exact-authorities'', pipeID @ ''.key'']))"

record Authority =
  au_Private :: string
  au_Binding :: OwnerBinding
  au_Owner :: OwnerAuthority

definition fromBinding :: "crypto \<Rightarrow> string \<Rightarrow> OwnerBinding \<Rightarrow> Authority result" where
  "fromBinding C private binding =
     (if length private \<noteq> PrivateKeySize then Inl (Error ''exactauthority: invalid private key'' [])
      else
        res_bind (VerifyOwnerAuthority C (PublicString (Public private)) binding) (\<lambda>owner.
        if oa_AuthorityKey owner = oa_Owner owner
        then Inl (Error ''exactauthority: authority key must be dedicated and distinct from owner'' [])
        else Inr \<lparr>au_Private = private, au_Binding = binding, au_Owner = owner\<rparr>))"

record LocalOwnerWorkflow =
  wf_KeyPath :: string
  wf_PipeID :: string
  wf_Epoch :: nat
  wf_RedemptionPeers :: string
  wf_RedemptionProtocol :: string

text \<open>\<^verbatim>\<open>LocalOwnerWorkflow.Provision\<close>.\<close>

definition ProvisionAuthority ::
  "crypto \<Rightarrow> string result \<Rightarrow> string result \<Rightarrow> LocalOwnerWorkflow \<Rightarrow> string \<Rightarrow> FS \<Rightarrow> Authority result \<times> FS" where
  "ProvisionAuthority C seed suffix w ownerPrivate fs =
     (if \<not> VerifyPipeOwner C (wf_PipeID w) (Public ownerPrivate)
      then (Inl (Error ''exactauthority: owner cannot provision authority for foreign Pipe'' []), fs)
      else case Provision C seed suffix (wf_KeyPath w) fs of
        (Inl e, fs') \<Rightarrow> (Inl e, fs')
      | (Inr private, fs') \<Rightarrow>
          (res_bind (NewOwnerBinding C ownerPrivate (Public private) (wf_PipeID w) (wf_Epoch w)
             (wf_RedemptionPeers w) (wf_RedemptionProtocol w)) (fromBinding C private), fs'))"

record Loader =
  ld_KeyPath :: string
  ld_Binding :: OwnerBinding

definition Loader_Load :: "crypto \<Rightarrow> FS \<Rightarrow> Loader \<Rightarrow> Authority result" where
  "Loader_Load C fs l =
     res_bind (Load C fs (ld_KeyPath l)) (\<lambda>private. fromBinding C private (ld_Binding l))"

section \<open>Ports (state.go)\<close>

record 's RevocationState =
  port_IsRevoked :: "'s \<Rightarrow> string \<Rightarrow> string \<Rightarrow> bool result"
  port_RevocationEpoch :: "'s \<Rightarrow> string \<Rightarrow> string \<Rightarrow> nat result"

record 's RedemptionStore =
  port_RedeemInviteAndAccept :: "string \<Rightarrow> string \<Rightarrow> string \<Rightarrow> string \<Rightarrow> nat \<Rightarrow> gotime \<Rightarrow> 's \<Rightarrow> bool result \<times> 's"

record 's AcceptedBindingStore =
  port_AcceptedRelationship :: "'s \<Rightarrow> string \<Rightarrow> string \<Rightarrow> (string \<times> nat) option result"

section \<open>Redemption (redeem.go)\<close>

definition NewSessionID :: "string result \<Rightarrow> string result" where "NewSessionID = randomID ''ses_''"

definition ea :: "string \<Rightarrow> goerror" where "ea message = Error (''exactauthority: '' @ message) []"

text \<open>\<^verbatim>\<open>if err != nil { return zero, errors.New(message) }\<close>.\<close>

definition or_ea :: "string \<Rightarrow> 'a result \<Rightarrow> 'a result" where "or_ea message = map_err (\<lambda>_. ea message)"

text \<open>Steps 2 to 9: everything before the revocation checks, on the decoded invite.\<close>

definition redeem_credentials ::
  "crypto \<Rightarrow> gotime \<Rightarrow> FS \<Rightarrow> gotime \<Rightarrow> string \<Rightarrow> string \<Rightarrow> string \<Rightarrow> string \<Rightarrow> Loader \<Rightarrow> (ExactInvite \<times> Authority) result" where
  "redeem_credentials C clock fs now encodedInvite recipientPublic serverChallenge challengeProof loader =
     res_bind (DecodeInvite encodedInvite) (\<lambda>invite.
     res_bind (or_ea ''redeeming invite has invalid owner binding'' (DecodeOwnerBinding (ei_Binding invite))) (\<lambda>binding.
     res_bind (or_ea ''redeeming invite owner binding invalid'' (VerifyOwnerBinding C binding)) (\<lambda>_.
     res_bind (or_ea ''redeeming invite invalid owner key'' (PublicFromString (ob_Owner binding))) (\<lambda>ownerPub.
     if \<not> VerifyPipeOwner C (ei_AudiencePipeID invite) ownerPub
     then Inl (ea ''redeeming invite owner is not the Pipe owner'')
     else if ob_AuthorityKey binding \<noteq> ei_Issuer invite
     then Inl (ea ''redeeming invite issuer not bound by owner'')
     else if ob_PipeID binding \<noteq> ei_AudiencePipeID invite
     then Inl (ea ''redeeming invite binding pipe mismatch'')
     else
       res_bind (or_ea ''redeeming invite authority key unavailable'' (Loader_Load C fs loader)) (\<lambda>auth.
       check (invite_Verify C clock now (ei_AudiencePipeID invite) invite) (
       if \<not> ei_OneTime invite then Inl (ea ''invite must be one-time'')
       else
         res_bind (or_ea ''invalid recipient public key'' (PublicFromString recipientPublic)) (\<lambda>recipientPubKey.
         if serverChallenge = [] then Inl (ea ''missing server challenge'')
         else if \<not> VerifyProof C recipientPubKey challengeProof RedeemProofPurpose
           [ei_JTI invite, ei_AudiencePipeID invite, serverChallenge]
         then Inl (ea ''invalid challenge proof in redemption'')
         else Inr (invite, auth))))))))"

text \<open>Step 6B: revocation and epoch, before any mutation.\<close>

definition redeem_state :: "'s RevocationState \<Rightarrow> 's \<Rightarrow> ExactInvite \<Rightarrow> goerror option" where
  "redeem_state state s invite =
     (case port_IsRevoked state s (ei_JTI invite) ''exact.invite'' of
        Inl _ \<Rightarrow> Some (ea ''revocation state unavailable'')
      | Inr revoked \<Rightarrow>
          if revoked then Some (ea ''invite revoked'')
          else case port_RevocationEpoch state s (ei_AudiencePipeID invite) ''pipe-access'' of
            Inl _ \<Rightarrow> Some (ea ''epoch state unavailable'')
          | Inr currentEpoch \<Rightarrow>
              if currentEpoch \<noteq> ei_AccessEpoch invite then Some (ea ''invite epoch stale'') else None)"

text \<open>Step 11: the lifetime is the server's, capped by the rest of the invite's.\<close>

definition redeem_lifetime :: "ExactInvite \<Rightarrow> gotime \<Rightarrow> int \<Rightarrow> int" where
  "redeem_lifetime invite now leaseLifetime =
     (let l1 = (if leaseLifetime \<le> 0 \<or> leaseLifetime > MaxTTL then MaxTTL else leaseLifetime);
          rest = instant (ei_ExpiresAt invite) - now;
          l2 = (if rest < l1 \<and> rest > 0 then rest else l1)
      in if l2 \<le> 0 then MaxTTL else l2)"

definition RedeemExactInvite ::
  "crypto \<Rightarrow> gotime \<Rightarrow> string result \<Rightarrow> string result \<Rightarrow> FS \<Rightarrow> gotime \<Rightarrow> string \<Rightarrow> string \<Rightarrow> string \<Rightarrow> string \<Rightarrow> Loader
   \<Rightarrow> 's RevocationState option \<Rightarrow> 's RedemptionStore option \<Rightarrow> int \<Rightarrow> 's \<Rightarrow> AccessLease result \<times> 's" where
  "RedeemExactInvite C clock sessionRnd jtiRnd fs now encodedInvite recipientPublic serverChallenge challengeProof
      loader state redemption leaseLifetime s =
     (case (state, redemption) of
        (Some st, Some rd) \<Rightarrow>
          (case redeem_credentials C clock fs now encodedInvite recipientPublic serverChallenge challengeProof loader of
             Inl e \<Rightarrow> (Inl e, s)
           | Inr (invite, auth) \<Rightarrow>
               (case redeem_state st s invite of
                  Some e \<Rightarrow> (Inl e, s)
                | None \<Rightarrow>
                    (case NewSessionID sessionRnd of
                       Inl e \<Rightarrow> (Inl e, s)
                     | Inr sessionID \<Rightarrow>
                         (case port_RedeemInviteAndAccept rd (ei_JTI invite) (ei_AudiencePipeID invite) sessionID
                             recipientPublic (ei_AccessEpoch invite) now s of
                            (Inl _, s') \<Rightarrow> (Inl (ea ''redemption persistence failed''), s')
                          | (Inr ok, s') \<Rightarrow>
                              if \<not> ok then (Inl (ea ''invite already redeemed by another''), s')
                              else (NewAccessLease C jtiRnd (au_Private auth) recipientPublic (ei_AudiencePipeID invite)
                                now (redeem_lifetime invite now leaseLifetime) (ei_AccessEpoch invite), s')))))
      | _ \<Rightarrow> (Inl (ea ''redemption requires revocation and redemption state''), s))"

definition NewAccessLeaseForReissuance ::
  "crypto \<Rightarrow> string result \<Rightarrow> Authority \<Rightarrow> string \<Rightarrow> string \<Rightarrow> gotime \<Rightarrow> int \<Rightarrow> nat \<Rightarrow> AccessLease result" where
  "NewAccessLeaseForReissuance C rnd auth recipientPublic pipeID now leaseLifetime accessEpoch =
     NewAccessLease C rnd (au_Private auth) recipientPublic pipeID now
       (if leaseLifetime \<le> 0 \<or> leaseLifetime > MaxTTL then MaxTTL else leaseLifetime) accessEpoch"

section \<open>Renewal (renew.go)\<close>

definition RenewAcceptedAccess ::
  "crypto \<Rightarrow> string result \<Rightarrow> FS \<Rightarrow> gotime \<Rightarrow> string \<Rightarrow> string \<Rightarrow> string \<Rightarrow> string \<Rightarrow> string \<Rightarrow> Loader
   \<Rightarrow> 's RevocationState option \<Rightarrow> 's AcceptedBindingStore option \<Rightarrow> int \<Rightarrow> 's \<Rightarrow> AccessLease result" where
  "RenewAcceptedAccess C jtiRnd fs now pipeID recipientPublic ownerBindingEncoded serverChallenge challengeProof
      loader state accepted leaseLifetime s =
     (case (state, accepted) of
        (Some st, Some ac) \<Rightarrow>
          if pipeID = [] \<or> length pipeID > MaxPipeIDLen then Inl (ea ''renewing invalid pipe id'')
          else
            res_bind (or_ea ''renewing invalid recipient public key'' (PublicFromString recipientPublic)) (\<lambda>recipientPubKey.
            res_bind (or_ea ''renewing binding invalid'' (DecodeOwnerBinding ownerBindingEncoded)) (\<lambda>binding.
            res_bind (or_ea ''renewing binding owner signature invalid'' (VerifyOwnerBinding C binding)) (\<lambda>_.
            if ob_PipeID binding \<noteq> pipeID then Inl (ea ''renewing binding pipe mismatch'')
            else
              res_bind (or_ea ''renewing binding invalid owner key'' (PublicFromString (ob_Owner binding))) (\<lambda>ownerPub.
              if \<not> VerifyPipeOwner C pipeID ownerPub then Inl (ea ''renewing binding owner is not the Pipe owner'')
              else
                res_bind (or_ea ''renewing authority key unavailable'' (Loader_Load C fs loader)) (\<lambda>auth.
                if ob_AuthorityKey binding \<noteq> PublicString (Public (au_Private auth))
                then Inl (ea ''renewing binding authority mismatch'')
                else
                  res_bind (or_ea ''renewal accepted state unavailable''
                    (port_AcceptedRelationship ac s pipeID recipientPublic)) (\<lambda>found.
                  res_bind (case found of None \<Rightarrow> Inl (ea ''no accepted binding for renewal'') | Some r \<Rightarrow> Inr r)
                    (\<lambda>(jti, acceptedEpoch).
                  res_bind (or_ea ''renewal revocation state unavailable'' (port_IsRevoked st s jti ''exact.invite'')) (\<lambda>revoked.
                  if revoked then Inl (ea ''accepted relationship revoked'')
                  else
                    res_bind (or_ea ''renewal epoch state unavailable''
                      (port_RevocationEpoch st s pipeID ''pipe-access'')) (\<lambda>currentEpoch.
                    if currentEpoch \<noteq> acceptedEpoch then Inl (ea ''renewal epoch stale'')
                    else if serverChallenge = [] then Inl (ea ''missing renewal challenge'')
                    else if \<not> VerifyProof C recipientPubKey challengeProof RenewProofPurpose [pipeID, serverChallenge]
                    then Inl (ea ''invalid renewal possession proof'')
                    else NewAccessLeaseForReissuance C jtiRnd auth recipientPublic pipeID now leaseLifetime acceptedEpoch)))))))))
      | _ \<Rightarrow> Inl (ea ''renewal requires revocation and accepted-binding state''))"

section \<open>What the credential checks establish\<close>

lemma or_ea_Inr [result_simps]: "or_ea m r = Inr x \<longleftrightarrow> r = Inr x"
  by (simp add: or_ea_def map_err_Inr_iff)

lemma fromBinding_Inr:
  assumes "fromBinding C k b = Inr a"
  shows "length k = PrivateKeySize" "au_Private a = k" "au_Binding a = b"
    "VerifyOwnerAuthority C (PublicString (Public k)) b = Inr (au_Owner a)"
    "oa_AuthorityKey (au_Owner a) \<noteq> oa_Owner (au_Owner a)"
  using assms by (auto simp: fromBinding_def result_simps split: if_splits)

lemma PublicString_private: "length k = PrivateKeySize \<Longrightarrow> PublicString (Public k) \<noteq> []"
  by (auto simp: PublicString_def Public_def bounds)

text \<open>A loaded authority key is the one its binding names, and it is not the owner's.\<close>

lemma Loader_Load_Inr:
  assumes "Loader_Load C fs l = Inr a"
  shows "Load C fs (ld_KeyPath l) = Inr (au_Private a)" "length (au_Private a) = PrivateKeySize"
    "ob_AuthorityKey (ld_Binding l) = PublicString (Public (au_Private a))"
    "ob_Owner (ld_Binding l) \<noteq> ob_AuthorityKey (ld_Binding l)"
proof -
  obtain k where k: "Load C fs (ld_KeyPath l) = Inr k" "fromBinding C k (ld_Binding l) = Inr a"
    using assms by (auto simp: Loader_Load_def result_simps)
  note f = fromBinding_Inr [OF k(2)]
  show "Load C fs (ld_KeyPath l) = Inr (au_Private a)" "length (au_Private a) = PrivateKeySize"
    using k f(1,2) by simp_all
  show "ob_AuthorityKey (ld_Binding l) = PublicString (Public (au_Private a))"
    using VerifyOwnerAuthorityD(3) [OF f(4)] PublicString_private [OF f(1)] f(2) by simp
  have "au_Owner a = \<lparr>oa_Owner = ob_Owner (ld_Binding l), oa_AuthorityKey = ob_AuthorityKey (ld_Binding l),
      oa_PipeID = ob_PipeID (ld_Binding l), oa_Epoch = ob_Epoch (ld_Binding l)\<rparr>"
    using f(4) by (auto simp: VerifyOwnerAuthority_def result_simps split: if_splits)
  then show "ob_Owner (ld_Binding l) \<noteq> ob_AuthorityKey (ld_Binding l)" using f(5) by simp
qed

lemma redeem_credentials_Inr:
  assumes "redeem_credentials C clock fs now enc rcpt chal prf loader = Inr (invite, auth)"
  shows "DecodeInvite enc = Inr invite" "invite_Verify C clock now (ei_AudiencePipeID invite) invite = None"
    "Loader_Load C fs loader = Inr auth" "chal \<noteq> []"
    "\<exists>p. PublicFromString rcpt = Inr p
       \<and> VerifyProof C p prf RedeemProofPurpose [ei_JTI invite, ei_AudiencePipeID invite, chal]"
    "\<exists>b. DecodeOwnerBinding (ei_Binding invite) = Inr b \<and> ob_AuthorityKey b = ei_Issuer invite
       \<and> ob_PipeID b = ei_AudiencePipeID invite"
  using assms by (auto simp: redeem_credentials_def result_simps split: if_splits)

lemma redeem_lifetime_bounds:
  "0 < redeem_lifetime i now lt" "redeem_lifetime i now lt \<le> MaxTTL"
  "now < instant (ei_ExpiresAt i) \<Longrightarrow> now + redeem_lifetime i now lt \<le> instant (ei_ExpiresAt i)"
  by (auto simp: redeem_lifetime_def Let_def bounds second_def minute_def)

section \<open>The contract of the ports\<close>

locale revocation_port =
  fixes state :: "'s RevocationState" and revoked :: "'s \<Rightarrow> string \<Rightarrow> string \<Rightarrow> bool"
    and epoch :: "'s \<Rightarrow> string \<Rightarrow> string \<Rightarrow> nat"
  assumes is_revoked: "port_IsRevoked state s jti subjectType = Inr b \<Longrightarrow> b = revoked s subjectType jti"
    and revocation_epoch: "port_RevocationEpoch state s pipeID subjectType = Inr n \<Longrightarrow> n = epoch s subjectType pipeID"
begin

lemma redeem_state_None:
  assumes "redeem_state state s invite = None"
  shows "\<not> revoked s ''exact.invite'' (ei_JTI invite)"
    "epoch s ''pipe-access'' (ei_AudiencePipeID invite) = ei_AccessEpoch invite"
  using assms is_revoked revocation_epoch by (fastforce simp: redeem_state_def split: sum.splits if_splits)+

end

locale redemption_port =
  fixes redemption :: "'s RedemptionStore" and redeemed :: "'s \<Rightarrow> string \<Rightarrow> string \<Rightarrow> string option"
    and relation :: "'s \<Rightarrow> string \<Rightarrow> string \<Rightarrow> (string \<times> nat) option"
  assumes redeem_fails: "port_RedeemInviteAndAccept redemption jti p sid c ep now s = (Inl e, s') \<Longrightarrow> s' = s"
    and redeem_ok: "port_RedeemInviteAndAccept redemption jti p sid c ep now s = (Inr ok, s') \<Longrightarrow>
      ok \<and> redeemed s' jti p = Some c
      \<and> (redeemed s jti p = None \<and> relation s' p c = Some (jti, ep) \<or> redeemed s jti p = Some c \<and> s' = s)"

locale accepted_port =
  fixes accepted :: "'s AcceptedBindingStore" and relation :: "'s \<Rightarrow> string \<Rightarrow> string \<Rightarrow> (string \<times> nat) option"
  assumes accepted_relationship: "port_AcceptedRelationship accepted s p c = Inr r \<Longrightarrow> r = relation s p c"

text \<open>The redemption service over its ports.\<close>

locale redemption_service = revocation_port state revoked epoch + redemption_port redemption redeemed relation
  for state :: "'s RevocationState" and revoked epoch and redemption :: "'s RedemptionStore" and redeemed relation
begin

lemma redeem_success:
  assumes "RedeemExactInvite C clock srnd jrnd fs now enc rcpt chal prf loader (Some state) (Some redemption) lt s = (Inr lease, s')"
  obtains invite auth where
    "redeem_credentials C clock fs now enc rcpt chal prf loader = Inr (invite, auth)"
    "\<not> revoked s ''exact.invite'' (ei_JTI invite)"
    "epoch s ''pipe-access'' (ei_AudiencePipeID invite) = ei_AccessEpoch invite"
    "redeemed s' (ei_JTI invite) (ei_AudiencePipeID invite) = Some rcpt"
    "redeemed s (ei_JTI invite) (ei_AudiencePipeID invite) = None
       \<and> relation s' (ei_AudiencePipeID invite) rcpt = Some (ei_JTI invite, ei_AccessEpoch invite)
     \<or> redeemed s (ei_JTI invite) (ei_AudiencePipeID invite) = Some rcpt \<and> s' = s"
    "NewAccessLease C jrnd (au_Private auth) rcpt (ei_AudiencePipeID invite) now
       (redeem_lifetime invite now lt) (ei_AccessEpoch invite) = Inr lease"
proof -
  obtain invite auth sid ok where c: "redeem_credentials C clock fs now enc rcpt chal prf loader = Inr (invite, auth)"
    "redeem_state state s invite = None"
    "port_RedeemInviteAndAccept redemption (ei_JTI invite) (ei_AudiencePipeID invite) sid rcpt (ei_AccessEpoch invite) now s = (Inr ok, s')"
    "NewAccessLease C jrnd (au_Private auth) rcpt (ei_AudiencePipeID invite) now
       (redeem_lifetime invite now lt) (ei_AccessEpoch invite) = Inr lease"
    using assms
    by (auto simp: RedeemExactInvite_def split: sum.splits option.splits prod.splits if_splits)
  from that [OF c(1) redeem_state_None [OF c(2)] _ _ c(4)] redeem_ok [OF c(3)] show thesis by blast
qed

text \<open>Refusals leave the state alone; the only failure after the redemption is the minting itself, for an invite that was
  neither revoked nor stale nor redeemed before.\<close>

lemma redeem_refusal:
  assumes "RedeemExactInvite C clock srnd jrnd fs now enc rcpt chal prf loader (Some state) (Some redemption) lt s = (Inl e, s')"
  obtains "s' = s"
    | invite auth where "redeem_credentials C clock fs now enc rcpt chal prf loader = Inr (invite, auth)"
      "\<not> revoked s ''exact.invite'' (ei_JTI invite)"
      "epoch s ''pipe-access'' (ei_AudiencePipeID invite) = ei_AccessEpoch invite"
      "redeemed s (ei_JTI invite) (ei_AudiencePipeID invite) = None"
      "redeemed s' (ei_JTI invite) (ei_AudiencePipeID invite) = Some rcpt"
      "relation s' (ei_AudiencePipeID invite) rcpt = Some (ei_JTI invite, ei_AccessEpoch invite)"
      "NewAccessLease C jrnd (au_Private auth) rcpt (ei_AudiencePipeID invite) now
         (redeem_lifetime invite now lt) (ei_AccessEpoch invite) = Inl e"
proof (cases "\<exists>invite auth sid. redeem_credentials C clock fs now enc rcpt chal prf loader = Inr (invite, auth)
    \<and> redeem_state state s invite = None \<and> NewSessionID srnd = Inr sid")
  case False
  then have "s' = s"
    using assms by (auto simp: RedeemExactInvite_def split: sum.splits option.splits prod.splits)
  then show thesis by (rule that(1))
next
  case True
  then obtain invite auth sid where c: "redeem_credentials C clock fs now enc rcpt chal prf loader = Inr (invite, auth)"
    "redeem_state state s invite = None" "NewSessionID srnd = Inr sid" by blast
  obtain r s1 where r: "port_RedeemInviteAndAccept redemption (ei_JTI invite) (ei_AudiencePipeID invite) sid rcpt
      (ei_AccessEpoch invite) now s = (r, s1)" by fastforce
  show thesis
  proof (cases r)
    case (Inl e')
    then have "s' = s1" using assms c r by (simp add: RedeemExactInvite_def)
    then show thesis using that(1) redeem_fails r Inl by blast
  next
    case (Inr ok)
    note law = redeem_ok [OF r [unfolded Inr]]
    have s1: "s' = s1" and l: "NewAccessLease C jrnd (au_Private auth) rcpt (ei_AudiencePipeID invite) now
         (redeem_lifetime invite now lt) (ei_AccessEpoch invite) = Inl e"
      using assms c r Inr law by (simp_all add: RedeemExactInvite_def)
    show thesis using law that(1) that(2) [OF c(1) redeem_state_None [OF c(2)] _ _ _ l] s1 by blast
  qed
qed

end

text \<open>The renewal service over its ports.\<close>

locale renewal_service = revocation_port state revoked epoch + accepted_port accepted relation
  for state :: "'s RevocationState" and revoked epoch and accepted :: "'s AcceptedBindingStore" and relation
begin

lemma renew_success:
  assumes "RenewAcceptedAccess C jrnd fs now p rcpt benc chal prf loader (Some state) (Some accepted) lt s = Inr lease"
  obtains jti ep auth key binding where
    "relation s p rcpt = Some (jti, ep)" "\<not> revoked s ''exact.invite'' jti" "epoch s ''pipe-access'' p = ep"
    "PublicFromString rcpt = Inr key" "VerifyProof C key prf RenewProofPurpose [p, chal]" "chal \<noteq> []"
    "DecodeOwnerBinding benc = Inr binding" "ob_PipeID binding = p" "Loader_Load C fs loader = Inr auth"
    "ob_AuthorityKey binding = PublicString (Public (au_Private auth))"
    "NewAccessLeaseForReissuance C jrnd auth rcpt p now lt ep = Inr lease"
proof -
  obtain r0 jti ep auth key binding b n where c:
    "port_AcceptedRelationship accepted s p rcpt = Inr (Some (jti, ep))"
    "port_IsRevoked state s jti ''exact.invite'' = Inr b" "\<not> b"
    "port_RevocationEpoch state s p ''pipe-access'' = Inr n" "n = ep"
    "PublicFromString rcpt = Inr key" "VerifyProof C key prf RenewProofPurpose [p, chal]" "chal \<noteq> []"
    "DecodeOwnerBinding benc = Inr binding" "ob_PipeID binding = p" "Loader_Load C fs loader = Inr auth"
    "ob_AuthorityKey binding = PublicString (Public (au_Private auth))"
    "NewAccessLeaseForReissuance C jrnd auth rcpt p now lt ep = Inr lease"
    using assms by (auto simp: RenewAcceptedAccess_def result_simps split: if_splits option.splits)
  show thesis
    using is_revoked [OF c(2)] revocation_epoch [OF c(4)] c(3,5)
    by (intro that [OF accepted_relationship [OF c(1), symmetric] _ _ c(6-13)]) simp_all
qed

end

end
