(* ===== verification/Store.thy ===== *)
theory Store
  imports Domain GoTime "HOL-Library.AList"
begin

text \<open>
  The local SQLite state (src/internal/store): its tables and its transactions.

  A table is an association list from primary keys to rows, in insertion order, as SQLite scans it;
  \<^const>\<open>AList.update\<close> is an upsert. Instants are stored as RFC 3339 text and compared as text, as the
  SQL does. A \<^verbatim>\<open>spec\<close> column holds the JSON document of a value; the model keeps the value.
  The database is an external component: \<open>db_fault\<close> is the error it answers with while it is out of
  service (a cancelled context, a locked or unreadable file).
\<close>

type_synonym ('k, 'v) tab = "('k \<times> 'v) list"

abbreviation get :: "('k, 'v) tab \<Rightarrow> 'k \<Rightarrow> 'v option" where "get \<equiv> map_of"
abbreviation put :: "'k \<Rightarrow> 'v \<Rightarrow> ('k, 'v) tab \<Rightarrow> ('k, 'v) tab" where "put \<equiv> AList.update"

definition del_where :: "('k \<Rightarrow> 'v \<Rightarrow> bool) \<Rightarrow> ('k, 'v) tab \<Rightarrow> ('k, 'v) tab" where
  "del_where P t = filter (\<lambda>(k, v). \<not> P k v) t"

definition keyed :: "('k, 'v) tab \<Rightarrow> bool" where "keyed t \<longleftrightarrow> distinct (map fst t)"

section \<open>Rows\<close>

record PipeRow =
  pr_spec :: PipeSpec
  pr_owner_key_file :: string
  pr_publish_grant :: string

record RevocationRow =
  rv_revoked_at :: string
  rv_epoch :: nat

record RedemptionRow =
  rd_redeemed_at :: string
  rd_session_id :: string
  rd_client_public :: string
  rd_kind :: string

record RelationshipRow =
  rel_invite_jti :: string
  rel_access_epoch :: nat
  rel_accepted_at :: string
  rel_updated_at :: string

record BindingRow =
  br_authority_public :: string
  br_owner_binding :: string
  br_locator :: string
  br_recipient_public :: string
  br_source :: string
  br_created_at :: string
  br_updated_at :: string

record LeaseCacheRow =
  lc_access_lease :: string
  lc_expires_at :: string

record RecordRow =
  rr_name :: string
  rr_payload :: string
  rr_expires_at :: string
  rr_sequence :: nat
  rr_discovered :: bool

record FreshnessRow =
  fr_last_attempt :: string
  fr_last_success :: string
  fr_source :: string
  fr_complete :: bool
  fr_error_class :: string
  fr_next_retry :: string
  fr_snapshot_generation :: nat
  fr_snapshot_high_water :: nat
  fr_snapshot_digest :: string

record SyncLeaseRow =
  sl_holder_ref :: string
  sl_holder_process_identity :: string
  sl_lease_token :: string
  sl_acquired_at :: string
  sl_renewed_at :: string
  sl_expires_at :: string

record Store =
  db_fault :: "goerror option"
  services :: "(string, ServiceSpec) tab"
  pipes :: "(string, PipeRow) tab"
  sessions :: "(string, string) tab"
  records :: "(string \<times> string, RecordRow) tab"
  scope_freshness :: "(string, FreshnessRow) tab"
  authority_snapshots :: "(string, nat \<times> nat) tab"
  scope_sync_leases :: "(string, SyncLeaseRow) tab"
  revocations :: "(string \<times> string \<times> string, RevocationRow) tab"
  invite_redemptions :: "(string \<times> string, RedemptionRow) tab"
  accepted_exact_relationships :: "(string \<times> string, RelationshipRow) tab"
  remote_pipe_bindings :: "(string, BindingRow) tab"
  exact_lease_cache :: "(string, LeaseCacheRow) tab"

definition empty_store :: Store where
  "empty_store =
     \<lparr>db_fault = None, services = [], pipes = [], sessions = [], records = [], scope_freshness = [],
      authority_snapshots = [], scope_sync_leases = [], revocations = [], invite_redemptions = [],
      accepted_exact_relationships = [], remote_pipe_bindings = [], exact_lease_cache = []\<rparr>"

text \<open>Every table has its primary key.\<close>

definition store_keyed :: "Store \<Rightarrow> bool" where
  "store_keyed db \<longleftrightarrow> keyed (services db) \<and> keyed (pipes db) \<and> keyed (sessions db) \<and> keyed (records db)
     \<and> keyed (scope_freshness db) \<and> keyed (authority_snapshots db) \<and> keyed (scope_sync_leases db)
     \<and> keyed (revocations db) \<and> keyed (invite_redemptions db) \<and> keyed (accepted_exact_relationships db)
     \<and> keyed (remote_pipe_bindings db) \<and> keyed (exact_lease_cache db)"

section \<open>Statements and transactions\<close>

text \<open>A query outside a transaction, and a single statement that changes tables.\<close>

definition query :: "Store \<Rightarrow> 'a result \<Rightarrow> 'a result" where
  "query db r = (case db_fault db of Some e \<Rightarrow> Inl e | None \<Rightarrow> r)"

text \<open>\<^verbatim>\<open>beginWriteTx\<close>, the body, \<^verbatim>\<open>tx.Commit()\<close>; the deferred \<^verbatim>\<open>tx.Rollback()\<close> undoes the body when it
  returns an error.\<close>

definition write_tx :: "Store \<Rightarrow> 'a result \<times> Store \<Rightarrow> 'a result \<times> Store" where
  "write_tx db body =
     (case db_fault db of
        Some e \<Rightarrow> (Inl e, db)
      | None \<Rightarrow> (case body of (Inl e, _) \<Rightarrow> (Inl e, db) | (Inr x, db') \<Rightarrow> (Inr x, db')))"

text \<open>\<^verbatim>\<open>database/sql\<close> refuses an unsigned argument with its top bit set.\<close>

definition uint64_arg :: "nat \<Rightarrow> goerror option" where
  "uint64_arg n =
     (if n \<ge> 2 ^ 63 then Some (Error ''uint64 values with high bit set are not supported'' []) else None)"

lemma write_tx_Inl: "write_tx db body = (Inl e, db') \<Longrightarrow> db' = db"
  by (auto simp: write_tx_def split: option.splits sum.splits prod.splits)

lemma write_tx_Inr: "write_tx db body = (Inr x, db') \<longleftrightarrow> db_fault db = None \<and> body = (Inr x, db')"
  by (auto simp: write_tx_def split: option.splits sum.splits prod.splits)

lemma query_Inr: "query db r = Inr x \<longleftrightarrow> db_fault db = None \<and> r = Inr x"
  by (auto simp: query_def split: option.splits)

lemmas tx_simps = write_tx_Inr query_Inr

section \<open>Tables\<close>

lemma get_put [simp]: "get (put k v t) k' = (if k' = k then Some v else get t k')"
  by (simp add: update_conv)

lemma keyed_put [simp]: "keyed t \<Longrightarrow> keyed (put k v t)"
  by (simp add: keyed_def distinct_update)

lemma keyed_Nil [simp]: "keyed []"
  by (simp add: keyed_def)

lemma keyed_filter: "keyed t \<Longrightarrow> keyed (filter P t)"
  unfolding keyed_def by (induction t) auto

lemma keyed_del_where [simp]: "keyed t \<Longrightarrow> keyed (del_where P t)"
  by (simp add: del_where_def keyed_filter)

lemma get_del_where:
  assumes "keyed t"
  shows "get (del_where P t) k = (case get t k of Some v \<Rightarrow> if P k v then None else Some v | None \<Rightarrow> None)"
  using assms
proof (induction t)
  case Nil
  then show ?case by (simp add: del_where_def)
next
  case (Cons kv t)
  obtain a b where kv: "kv = (a, b)" by fastforce
  have "keyed t" and new: "a \<notin> fst ` set t" using Cons.prems kv by (auto simp: keyed_def)
  note ih = Cons.IH [OF this(1)]
  have "get t a = None" using new by (simp add: map_of_eq_None_iff)
  then show ?case using ih kv by (auto simp: del_where_def split: option.splits)
qed

lemma get_in_set: "keyed t \<Longrightarrow> get t k = Some v \<longleftrightarrow> (k, v) \<in> set t"
  by (simp add: keyed_def)

lemma store_keyed_empty: "store_keyed empty_store"
  by (simp add: store_keyed_def empty_store_def)

end
