(* ===== verification/StoreExact.thy ===== *)
theory StoreExact
  imports Store
begin

text \<open>
  The tables of the exact path: revocations and their epochs, one-time invite redemptions, accepted
  relationships (src/internal/store/store.go, from \<^verbatim>\<open>Revoke\<close> on), and on the consumer's side the
  durable remote-Pipe bindings and the lease cache (src/internal/store/exact_connection.go).
  \<open>clock\<close> is the instant \<^verbatim>\<open>time.Now()\<close> gives.
\<close>

definition blank :: "string \<Rightarrow> bool" where "blank s \<longleftrightarrow> TrimSpace s = []"

lemma graphic_not_blank: "list_all graphic s \<Longrightarrow> s \<noteq> [] \<Longrightarrow> \<not> blank s"
  by (simp add: blank_def TrimSpace_graphic)

section \<open>Revocation\<close>

definition Revoke :: "gotime \<Rightarrow> string \<Rightarrow> string \<Rightarrow> string \<Rightarrow> nat \<Rightarrow> Store \<Rightarrow> unit result \<times> Store" where
  "Revoke clock scope subjectType subjectJTI epoch db =
     (if blank scope \<or> blank subjectType \<or> blank subjectJTI
        \<or> length scope > 8192 \<or> length subjectType > 128 \<or> length subjectJTI > 8192
      then (Inl (Error ''invalid revocation'' []), db)
      else if epoch = 0 then (Inl (Error ''invalid revocation epoch'' []), db)
      else write_tx db
        (let key = (scope, subjectType, subjectJTI);
             existing = map_option rv_epoch (get (revocations db) key);
             maximum = (if subjectType = ''pipe-access'' \<or> subjectType = ''pipe-publish'' then existing else None);
             row = \<lparr>rv_revoked_at = FormatUTC clock, rv_epoch = epoch\<rparr>
         in if (case existing of Some n \<Rightarrow> n > epoch | None \<Rightarrow> False)
            then (Inl (Error ''revocation epoch rollback'' []), db)
            else if (case maximum of Some n \<Rightarrow> n > epoch | None \<Rightarrow> False)
            then (Inl (Error ''revocation epoch rollback'' []), db)
            else case uint64_arg epoch of
              Some e \<Rightarrow> (Inl e, db)
            | None \<Rightarrow>
                if (case existing of Some n \<Rightarrow> epoch \<ge> n | None \<Rightarrow> True)
                then (Inr (), db\<lparr>revocations := put key row (revocations db)\<rparr>)
                else (Inr (), db)))"

definition RevocationEpoch :: "Store \<Rightarrow> string \<Rightarrow> string \<Rightarrow> string \<Rightarrow> nat result" where
  "RevocationEpoch db scope subjectType subjectJTI =
     query db (case get (revocations db) (scope, subjectType, subjectJTI) of
                 None \<Rightarrow> Inr 0
               | Some row \<Rightarrow> Inr (rv_epoch row))"

definition IsRevoked :: "Store \<Rightarrow> string \<Rightarrow> string \<Rightarrow> string \<Rightarrow> bool result" where
  "IsRevoked db scope subjectType subjectJTI =
     query db (Inr (get (revocations db) (scope, subjectType, subjectJTI) \<noteq> None))"

section \<open>Redemption\<close>

definition ErrInviteRedeemed :: goerror where
  "ErrInviteRedeemed = Error ''invite already redeemed by another client'' []"

definition RedeemInvite ::
  "gotime \<Rightarrow> string \<Rightarrow> string \<Rightarrow> string \<Rightarrow> string \<Rightarrow> Store \<Rightarrow> bool result \<times> Store" where
  "RedeemInvite clock jti pipeID sessionID clientPublic db =
     (if blank jti \<or> blank pipeID \<or> blank sessionID \<or> blank clientPublic
      then (Inl (Error ''invalid invite redemption'' []), db)
      else case db_fault db of
        Some e \<Rightarrow> (Inl e, db)
      | None \<Rightarrow>
          (case get (invite_redemptions db) (jti, pipeID) of
             None \<Rightarrow>
               (Inr True, db\<lparr>invite_redemptions := put (jti, pipeID)
                  \<lparr>rd_redeemed_at = FormatUTC clock, rd_session_id = sessionID,
                   rd_client_public = clientPublic, rd_kind = ''scoped''\<rparr> (invite_redemptions db)\<rparr>)
           | Some row \<Rightarrow>
               if rd_client_public row \<noteq> clientPublic then (Inl ErrInviteRedeemed, db)
               else (Inr False, db)))"

definition RedemptionCount :: "Store \<Rightarrow> string \<Rightarrow> string \<Rightarrow> nat result" where
  "RedemptionCount db jti pipeID =
     query db (Inr (length (filter (\<lambda>(k, _). k = (jti, pipeID)) (invite_redemptions db))))"

definition RedeemInviteAndAccept ::
  "string \<Rightarrow> string \<Rightarrow> string \<Rightarrow> string \<Rightarrow> nat \<Rightarrow> gotime \<Rightarrow> Store \<Rightarrow> bool result \<times> Store" where
  "RedeemInviteAndAccept jti pipeID sessionID clientPublic accessEpoch now db =
     (if blank jti \<or> blank pipeID \<or> blank sessionID \<or> blank clientPublic
      then (Inl (Error ''invalid invite redemption'' []), db)
      else write_tx db
        (case get (invite_redemptions db) (jti, pipeID) of
           None \<Rightarrow>
             (let redemption = \<lparr>rd_redeemed_at = FormatUTC now, rd_session_id = sessionID,
                    rd_client_public = clientPublic, rd_kind = ''exact''\<rparr>;
                  accepted_at = (case get (accepted_exact_relationships db) (pipeID, clientPublic) of
                    None \<Rightarrow> FormatUTC now
                  | Some row \<Rightarrow> rel_accepted_at row);
                  relationship = \<lparr>rel_invite_jti = jti, rel_access_epoch = accessEpoch,
                    rel_accepted_at = accepted_at, rel_updated_at = FormatUTC now\<rparr>
              in case uint64_arg accessEpoch of
                   Some e \<Rightarrow> (Inl e, db)
                 | None \<Rightarrow>
                     (Inr True, db\<lparr>invite_redemptions := put (jti, pipeID) redemption (invite_redemptions db),
                        accepted_exact_relationships :=
                          put (pipeID, clientPublic) relationship (accepted_exact_relationships db)\<rparr>))
         | Some row \<Rightarrow>
             if rd_client_public row \<noteq> clientPublic then (Inl ErrInviteRedeemed, db)
             else (Inr True, db)))"

text \<open>The triple of results \<^verbatim>\<open>(jti, epoch, ok)\<close> is an option.\<close>

definition AcceptedRelationship :: "Store \<Rightarrow> string \<Rightarrow> string \<Rightarrow> (string \<times> nat) option result" where
  "AcceptedRelationship db pipeID clientPublic =
     (if blank pipeID \<or> blank clientPublic then Inl (Error ''invalid accepted relationship lookup'' [])
      else query db (Inr (map_option (\<lambda>row. (rel_invite_jti row, rel_access_epoch row))
        (get (accepted_exact_relationships db) (pipeID, clientPublic)))))"

text \<open>\<^verbatim>\<open>LIMIT 1\<close>: the first row the scan meets.\<close>

definition first_pipe :: "(string \<Rightarrow> RedemptionRow \<Rightarrow> bool) \<Rightarrow> (string \<times> string, RedemptionRow) tab \<Rightarrow> string option" where
  "first_pipe P t = map_option (snd \<circ> fst) (find (\<lambda>((jti, _), row). P jti row) t)"

definition RedemptionPipeForInvite :: "Store \<Rightarrow> string \<Rightarrow> string option result" where
  "RedemptionPipeForInvite db jti =
     (if blank jti then Inl (Error ''invalid redemption lookup'' [])
      else query db (Inr (first_pipe (\<lambda>j _. j = jti) (invite_redemptions db))))"

definition ExactRedemptionPipeForInvite :: "Store \<Rightarrow> string \<Rightarrow> string option result" where
  "ExactRedemptionPipeForInvite db jti =
     (if blank jti then Inl (Error ''invalid exact redemption lookup'' [])
      else query db (Inr (first_pipe (\<lambda>j row. j = jti \<and> rd_kind row = ''exact'') (invite_redemptions db))))"

definition ResolveRevokeInvite :: "Store \<Rightarrow> string \<Rightarrow> (string \<times> string) result" where
  "ResolveRevokeInvite db jti =
     res_bind (ExactRedemptionPipeForInvite db jti) (\<lambda>found.
     case found of
       Some pipeID \<Rightarrow> Inr (''exact'', pipeID)
     | None \<Rightarrow> Inr (''scoped'', []))"

section \<open>Durable bindings and the lease cache (exact\_connection.go)\<close>

definition parse_time :: "string \<Rightarrow> gotime result" where
  "parse_time s = (case ParseTime False s of
     None \<Rightarrow> Inl (Error ''parsing time'' [s]) | Some t \<Rightarrow> Inr (instant t))"

definition GetRemotePipeBinding :: "Store \<Rightarrow> string \<Rightarrow> RemotePipeBinding result" where
  "GetRemotePipeBinding db remotePipeID =
     query db (case get (remote_pipe_bindings db) remotePipeID of
       None \<Rightarrow> Inl (Wrap ''%w: remote pipe binding for %s'' [remotePipeID] ErrNotFound)
     | Some row \<Rightarrow>
         res_bind (parse_time (br_created_at row)) (\<lambda>created.
         res_bind (parse_time (br_updated_at row)) (\<lambda>updated.
         let b = \<lparr>rpb_RemotePipeID = remotePipeID, rpb_AuthorityPublic = br_authority_public row,
               rpb_OwnerBinding = br_owner_binding row, rpb_Locator = br_locator row,
               rpb_RecipientPublic = br_recipient_public row, rpb_Source = br_source row,
               rpb_CreatedAt = created, rpb_UpdatedAt = updated\<rparr>
         in case RemotePipeBinding_Validate b of
              Some e \<Rightarrow> Inl (Wrap ''corrupt remote pipe binding for %s: %w'' [remotePipeID] e)
            | None \<Rightarrow> Inr b)))"

definition PutRemotePipeBinding :: "gotime \<Rightarrow> RemotePipeBinding \<Rightarrow> Store \<Rightarrow> unit result \<times> Store" where
  "PutRemotePipeBinding clock b db =
     (case RemotePipeBinding_Validate b of
        Some e \<Rightarrow> (Inl e, db)
      | None \<Rightarrow>
          (case db_fault db of
             Some e \<Rightarrow> (Inl e, db)
           | None \<Rightarrow>
               let created = (if IsZero (rpb_CreatedAt b) then clock else rpb_CreatedAt b);
                   row = \<lparr>br_authority_public = rpb_AuthorityPublic b, br_owner_binding = rpb_OwnerBinding b,
                     br_locator = rpb_Locator b, br_recipient_public = rpb_RecipientPublic b,
                     br_source = rpb_Source b, br_created_at = FormatUTC created,
                     br_updated_at = FormatUTC clock\<rparr>
               in (Inr (), db\<lparr>remote_pipe_bindings := put (rpb_RemotePipeID b) row (remote_pipe_bindings db)\<rparr>)))"

definition DeleteRemotePipeBinding :: "string \<Rightarrow> Store \<Rightarrow> unit result \<times> Store" where
  "DeleteRemotePipeBinding remotePipeID db =
     (case db_fault db of
        Some e \<Rightarrow> (Inl e, db)
      | None \<Rightarrow> (Inr (), db\<lparr>remote_pipe_bindings :=
          del_where (\<lambda>k _. k = remotePipeID) (remote_pipe_bindings db)\<rparr>))"

definition GetAccessLeaseCache :: "gotime \<Rightarrow> string \<Rightarrow> Store \<Rightarrow> AccessLeaseCache result \<times> Store" where
  "GetAccessLeaseCache clock remotePipeID db =
     (case db_fault db of
        Some e \<Rightarrow> (Inl e, db)
      | None \<Rightarrow>
          (case get (exact_lease_cache db) remotePipeID of
             None \<Rightarrow> (Inl (Wrap ''%w: access lease cache for %s'' [remotePipeID] ErrNotFound), db)
           | Some row \<Rightarrow>
               (case parse_time (lc_expires_at row) of
                  Inl e \<Rightarrow> (Inl e, db)
                | Inr expires \<Rightarrow>
                    if IsZero expires \<or> \<not> expires > clock
                    then (Inl (Wrap ''%w: access lease cache expired for %s'' [remotePipeID] ErrNotFound),
                          db\<lparr>exact_lease_cache := del_where (\<lambda>k _. k = remotePipeID) (exact_lease_cache db)\<rparr>)
                    else if remotePipeID = [] \<or> lc_access_lease row = []
                    then (Inl (Error ''corrupt access lease cache'' []), db)
                    else (Inr \<lparr>alc_RemotePipeID = remotePipeID, alc_AccessLease = lc_access_lease row,
                            alc_ExpiresAt = expires\<rparr>, db))))"

definition PutAccessLeaseCache :: "AccessLeaseCache \<Rightarrow> Store \<Rightarrow> unit result \<times> Store" where
  "PutAccessLeaseCache c db =
     (if alc_RemotePipeID c = [] \<or> alc_AccessLease c = [] \<or> IsZero (alc_ExpiresAt c)
      then (Inl (Error ''invalid access lease cache: missing required fields'' []), db)
      else case db_fault db of
        Some e \<Rightarrow> (Inl e, db)
      | None \<Rightarrow>
          (Inr (), db\<lparr>exact_lease_cache := put (alc_RemotePipeID c)
             \<lparr>lc_access_lease = alc_AccessLease c, lc_expires_at = FormatUTC (alc_ExpiresAt c)\<rparr>
             (exact_lease_cache db)\<rparr>))"

definition DeleteAccessLeaseCache :: "string \<Rightarrow> Store \<Rightarrow> unit result \<times> Store" where
  "DeleteAccessLeaseCache remotePipeID db =
     (case db_fault db of
        Some e \<Rightarrow> (Inl e, db)
      | None \<Rightarrow> (Inr (), db\<lparr>exact_lease_cache :=
          del_where (\<lambda>k _. k = remotePipeID) (exact_lease_cache db)\<rparr>))"

section \<open>What each operation does\<close>

definition epoch_of :: "Store \<Rightarrow> string \<times> string \<times> string \<Rightarrow> nat" where
  "epoch_of db key = (case get (revocations db) key of None \<Rightarrow> 0 | Some row \<Rightarrow> rv_epoch row)"

definition redeemed_by :: "Store \<Rightarrow> string \<Rightarrow> string \<Rightarrow> string option" where
  "redeemed_by db jti pipeID = map_option rd_client_public (get (invite_redemptions db) (jti, pipeID))"

definition relationship :: "Store \<Rightarrow> string \<Rightarrow> string \<Rightarrow> (string \<times> nat) option" where
  "relationship db pipeID client =
     map_option (\<lambda>row. (rel_invite_jti row, rel_access_epoch row))
       (get (accepted_exact_relationships db) (pipeID, client))"

lemma RevocationEpoch_Inr: "RevocationEpoch db s t j = Inr n \<longleftrightarrow> db_fault db = None \<and> n = epoch_of db (s, t, j)"
  by (auto simp: RevocationEpoch_def query_Inr epoch_of_def split: option.splits)

lemma IsRevoked_Inr: "IsRevoked db s t j = Inr b \<longleftrightarrow> db_fault db = None \<and> b = (get (revocations db) (s, t, j) \<noteq> None)"
  by (auto simp: IsRevoked_def query_Inr)

lemma AcceptedRelationship_Inr:
  "AcceptedRelationship db p c = Inr r \<longleftrightarrow> \<not> blank p \<and> \<not> blank c \<and> db_fault db = None \<and> r = relationship db p c"
  by (auto simp: AcceptedRelationship_def query_Inr relationship_def)

lemma Revoke_Inl: "Revoke clock s t j n db = (Inl e, db') \<Longrightarrow> db' = db"
  by (auto simp: Revoke_def dest: write_tx_Inl split: if_splits)

lemma Revoke_Inr:
  assumes "Revoke clock s t j n db = (Inr u, db')"
  shows "db_fault db = None" "n \<noteq> 0" "n < 2 ^ 63" "epoch_of db (s, t, j) \<le> n"
    "db' = db\<lparr>revocations := put (s, t, j) \<lparr>rv_revoked_at = FormatUTC clock, rv_epoch = n\<rparr> (revocations db)\<rparr>"
proof -
  show "db_fault db = None" "n \<noteq> 0" "n < 2 ^ 63"
    using assms by (auto simp: Revoke_def write_tx_Inr Let_def uint64_arg_def split: if_splits option.splits)
  show "epoch_of db (s, t, j) \<le> n"
    using assms by (auto simp: Revoke_def write_tx_Inr Let_def epoch_of_def split: if_splits option.splits)
  show "db' = db\<lparr>revocations := put (s, t, j) \<lparr>rv_revoked_at = FormatUTC clock, rv_epoch = n\<rparr> (revocations db)\<rparr>"
    using assms by (auto simp: Revoke_def write_tx_Inr Let_def split: if_splits option.splits)
qed

lemma Revoke_complete:
  assumes "\<not> blank s" "\<not> blank t" "\<not> blank j" "length s \<le> 8192" "length t \<le> 128" "length j \<le> 8192"
    "n \<noteq> 0" "n < 2 ^ 63" "db_fault db = None" "epoch_of db (s, t, j) \<le> n"
  shows "fst (Revoke clock s t j n db) = Inr ()"
  using assms by (auto simp: Revoke_def write_tx_def Let_def epoch_of_def uint64_arg_def split: option.splits)

lemma epoch_of_put [simp]:
  "epoch_of (db\<lparr>revocations := put k row (revocations db)\<rparr>) k' = (if k' = k then rv_epoch row else epoch_of db k')"
  by (simp add: epoch_of_def)

lemma RedeemInvite_cases:
  assumes "RedeemInvite clock jti p sid c db = (r, db')"
  shows "db' = db \<or> get (invite_redemptions db) (jti, p) = None \<and> r = Inr True
    \<and> db' = db\<lparr>invite_redemptions := put (jti, p)
         \<lparr>rd_redeemed_at = FormatUTC clock, rd_session_id = sid, rd_client_public = c, rd_kind = ''scoped''\<rparr>
         (invite_redemptions db)\<rparr>"
proof (cases "blank jti \<or> blank p \<or> blank sid \<or> blank c \<or> db_fault db \<noteq> None")
  case True
  then have "db' = db" using assms by (auto simp: RedeemInvite_def split: option.splits if_splits)
  then show ?thesis ..
next
  case False
  then show ?thesis
    using assms by (cases "get (invite_redemptions db) (jti, p)") (simp_all add: RedeemInvite_def split: if_splits)
qed

lemma RedeemInviteAndAccept_Inl: "RedeemInviteAndAccept jti p sid c ep now db = (Inl e, db') \<Longrightarrow> db' = db"
  by (auto simp: RedeemInviteAndAccept_def dest: write_tx_Inl split: if_splits)

lemma RedeemInviteAndAccept_Inr:
  assumes "RedeemInviteAndAccept jti p sid c ep now db = (Inr b, db')"
  shows "b" "db_fault db = None"
    "redeemed_by db jti p = None \<and> redeemed_by db' jti p = Some c \<and> relationship db' p c = Some (jti, ep)
     \<or> redeemed_by db jti p = Some c \<and> db' = db"
  using assms
  by (auto simp: RedeemInviteAndAccept_def write_tx_Inr Let_def redeemed_by_def relationship_def
      split: if_splits option.splits)

text \<open>The effect of a first redemption on every row.\<close>

lemma RedeemInviteAndAccept_first:
  assumes "RedeemInviteAndAccept jti p sid c ep now db = (Inr b, db')" "redeemed_by db jti p = None"
  shows "ep < 2 ^ 63"
    "\<exists>at. db' = db\<lparr>invite_redemptions := put (jti, p)
        \<lparr>rd_redeemed_at = FormatUTC now, rd_session_id = sid, rd_client_public = c, rd_kind = ''exact''\<rparr>
        (invite_redemptions db),
       accepted_exact_relationships := put (p, c)
        \<lparr>rel_invite_jti = jti, rel_access_epoch = ep, rel_accepted_at = at, rel_updated_at = FormatUTC now\<rparr>
        (accepted_exact_relationships db)\<rparr>"
proof -
  have none: "get (invite_redemptions db) (jti, p) = None" using assms(2) by (simp add: redeemed_by_def)
  show "ep < 2 ^ 63"
    using assms(1) none
    by (simp add: RedeemInviteAndAccept_def write_tx_Inr Let_def uint64_arg_def split: if_splits)
  show "\<exists>at. db' = db\<lparr>invite_redemptions := put (jti, p)
        \<lparr>rd_redeemed_at = FormatUTC now, rd_session_id = sid, rd_client_public = c, rd_kind = ''exact''\<rparr>
        (invite_redemptions db),
       accepted_exact_relationships := put (p, c)
        \<lparr>rel_invite_jti = jti, rel_access_epoch = ep, rel_accepted_at = at, rel_updated_at = FormatUTC now\<rparr>
        (accepted_exact_relationships db)\<rparr>"
    using assms(1) none
    by (simp add: RedeemInviteAndAccept_def write_tx_Inr Let_def uint64_arg_def split: if_splits) (metis refl)
qed

lemma RedeemInviteAndAccept_other:
  "redeemed_by db jti p = Some c' \<Longrightarrow> c' \<noteq> c \<Longrightarrow> \<not> is_ok (fst (RedeemInviteAndAccept jti p sid c ep now db))"
  by (auto simp: RedeemInviteAndAccept_def redeemed_by_def write_tx_def split: option.splits)

lemma RedeemInviteAndAccept_complete:
  assumes "\<not> blank jti" "\<not> blank p" "\<not> blank sid" "\<not> blank c" "db_fault db = None" "ep < 2 ^ 63"
    "redeemed_by db jti p = None \<or> redeemed_by db jti p = Some c"
  shows "fst (RedeemInviteAndAccept jti p sid c ep now db) = Inr True"
  using assms
  by (auto simp: RedeemInviteAndAccept_def redeemed_by_def write_tx_def Let_def uint64_arg_def split: option.splits)

section \<open>Histories\<close>

text \<open>Every operation on these tables, in any order and with any arguments, on a database that may go
  out of service and come back in between.\<close>

inductive exact_step :: "Store \<Rightarrow> Store \<Rightarrow> bool" where
  step_revoke: "Revoke clock s t j n db = (r, db') \<Longrightarrow> exact_step db db'"
| step_redeem: "RedeemInvite clock jti p sid c db = (r, db') \<Longrightarrow> exact_step db db'"
| step_accept: "RedeemInviteAndAccept jti p sid c ep now db = (r, db') \<Longrightarrow> exact_step db db'"
| step_put_binding: "PutRemotePipeBinding clock b db = (r, db') \<Longrightarrow> exact_step db db'"
| step_delete_binding: "DeleteRemotePipeBinding p db = (r, db') \<Longrightarrow> exact_step db db'"
| step_get_cache: "GetAccessLeaseCache clock p db = (r, db') \<Longrightarrow> exact_step db db'"
| step_put_cache: "PutAccessLeaseCache l db = (r, db') \<Longrightarrow> exact_step db db'"
| step_delete_cache: "DeleteAccessLeaseCache p db = (r, db') \<Longrightarrow> exact_step db db'"
| step_fault: "exact_step db (db\<lparr>db_fault := f\<rparr>)"

definition exact_tables :: "Store \<Rightarrow> _" where
  "exact_tables db = (revocations db, invite_redemptions db, accepted_exact_relationships db)"

lemma consumer_frame:
  "PutRemotePipeBinding clock b db = (r1, db1) \<Longrightarrow> exact_tables db1 = exact_tables db"
  "DeleteRemotePipeBinding p db = (r2, db2) \<Longrightarrow> exact_tables db2 = exact_tables db"
  "GetAccessLeaseCache clock p db = (r3, db3) \<Longrightarrow> exact_tables db3 = exact_tables db"
  "PutAccessLeaseCache l db = (r4, db4) \<Longrightarrow> exact_tables db4 = exact_tables db"
  "DeleteAccessLeaseCache p db = (r5, db5) \<Longrightarrow> exact_tables db5 = exact_tables db"
proof -
  show "PutRemotePipeBinding clock b db = (r1, db1) \<Longrightarrow> exact_tables db1 = exact_tables db"
    by (auto simp: PutRemotePipeBinding_def Let_def exact_tables_def split: option.splits)
  show "DeleteRemotePipeBinding p db = (r2, db2) \<Longrightarrow> exact_tables db2 = exact_tables db"
    by (auto simp: DeleteRemotePipeBinding_def exact_tables_def split: option.splits)
  show "GetAccessLeaseCache clock p db = (r3, db3) \<Longrightarrow> exact_tables db3 = exact_tables db"
    by (auto simp: GetAccessLeaseCache_def exact_tables_def split: option.splits sum.splits if_splits)
  show "PutAccessLeaseCache l db = (r4, db4) \<Longrightarrow> exact_tables db4 = exact_tables db"
    by (auto simp: PutAccessLeaseCache_def exact_tables_def split: option.splits if_splits)
  show "DeleteAccessLeaseCache p db = (r5, db5) \<Longrightarrow> exact_tables db5 = exact_tables db"
    by (auto simp: DeleteAccessLeaseCache_def exact_tables_def split: option.splits)
qed

text \<open>What a step can do to the three authority tables.\<close>

lemma exact_step_cases:
  assumes "exact_step db db'"
  obtains (unchanged) "exact_tables db' = exact_tables db"
    | (revoked) s t j row where "epoch_of db (s, t, j) \<le> rv_epoch row"
      "exact_tables db' = (put (s, t, j) row (revocations db), invite_redemptions db, accepted_exact_relationships db)"
    | (redeemed) jti p row where "get (invite_redemptions db) (jti, p) = None"
      "exact_tables db' = (revocations db, put (jti, p) row (invite_redemptions db), accepted_exact_relationships db)"
    | (accepted) jti p c row rel where "get (invite_redemptions db) (jti, p) = None"
      "rd_client_public row = c" "rd_kind row = ''exact''" "rel_invite_jti rel = jti"
      "exact_tables db' = (revocations db, put (jti, p) row (invite_redemptions db),
         put (p, c) rel (accepted_exact_relationships db))"
  using assms
proof (cases rule: exact_step.cases)
  case (step_revoke clock s t j n r)
  show thesis
  proof (cases r)
    case (Inl e)
    then show thesis using step_revoke Revoke_Inl unchanged by blast
  next
    case (Inr u)
    note d = Revoke_Inr [OF step_revoke(1) [unfolded Inr]]
    show thesis using d(4) by (rule revoked [where row = "\<lparr>rv_revoked_at = FormatUTC clock, rv_epoch = n\<rparr>", simplified])
        (simp add: d(5) exact_tables_def)
  qed
next
  case (step_redeem clock jti p sid c r)
  from RedeemInvite_cases [OF this] show thesis
  proof
    assume "db' = db"
    then show thesis using unchanged by simp
  next
    assume "get (invite_redemptions db) (jti, p) = None \<and> r = Inr True
      \<and> db' = db\<lparr>invite_redemptions := put (jti, p)
         \<lparr>rd_redeemed_at = FormatUTC clock, rd_session_id = sid, rd_client_public = c, rd_kind = ''scoped''\<rparr>
         (invite_redemptions db)\<rparr>"
    then show thesis by (intro redeemed) (auto simp: exact_tables_def)
  qed
next
  case (step_accept jti p sid c ep now r)
  show thesis
  proof (cases r)
    case (Inl e)
    then show thesis using step_accept RedeemInviteAndAccept_Inl unchanged by blast
  next
    case (Inr b)
    note ok = step_accept(1) [unfolded Inr]
    show thesis
    proof (cases "redeemed_by db jti p")
      case None
      obtain at where "db' = db\<lparr>invite_redemptions := put (jti, p)
          \<lparr>rd_redeemed_at = FormatUTC now, rd_session_id = sid, rd_client_public = c, rd_kind = ''exact''\<rparr>
          (invite_redemptions db),
         accepted_exact_relationships := put (p, c)
          \<lparr>rel_invite_jti = jti, rel_access_epoch = ep, rel_accepted_at = at, rel_updated_at = FormatUTC now\<rparr>
          (accepted_exact_relationships db)\<rparr>"
        using RedeemInviteAndAccept_first(2) [OF ok None] by blast
      then show thesis using None by (intro accepted [of jti p]) (auto simp: exact_tables_def redeemed_by_def)
    next
      case (Some x)
      then have "db' = db" using RedeemInviteAndAccept_Inr(3) [OF ok] by simp
      then show thesis using unchanged by simp
    qed
  qed
qed (use consumer_frame unchanged in \<open>auto simp: exact_tables_def\<close>)

lemma exact_tables_eq:
  "exact_tables db = (a, b, c) \<longleftrightarrow> revocations db = a \<and> invite_redemptions db = b \<and> accepted_exact_relationships db = c"
  by (auto simp: exact_tables_def)

lemma epoch_of_cong: "revocations db' = revocations db \<Longrightarrow> epoch_of db' k = epoch_of db k"
  by (simp add: epoch_of_def)

lemma step_epoch: "exact_step db db' \<Longrightarrow> epoch_of db k \<le> epoch_of db' k"
  by (erule exact_step_cases) (auto simp: exact_tables_eq exact_tables_def epoch_of_def)

lemma step_revoked: "exact_step db db' \<Longrightarrow> get (revocations db) k \<noteq> None \<Longrightarrow> get (revocations db') k \<noteq> None"
  by (erule exact_step_cases) (auto simp: exact_tables_eq exact_tables_def)

lemma step_redemption:
  "exact_step db db' \<Longrightarrow> get (invite_redemptions db) k = Some row \<Longrightarrow> get (invite_redemptions db') k = Some row"
  by (erule exact_step_cases) (auto simp: exact_tables_eq exact_tables_def)

lemma run_epoch: "exact_step\<^sup>*\<^sup>* db db' \<Longrightarrow> epoch_of db k \<le> epoch_of db' k"
  by (induction rule: rtranclp_induct) (auto dest: step_epoch order_trans)

lemma run_revoked: "exact_step\<^sup>*\<^sup>* db db' \<Longrightarrow> get (revocations db) k \<noteq> None \<Longrightarrow> get (revocations db') k \<noteq> None"
  by (induction rule: rtranclp_induct) (auto dest: step_revoked)

lemma run_redemption:
  "exact_step\<^sup>*\<^sup>* db db' \<Longrightarrow> get (invite_redemptions db) k = Some row \<Longrightarrow> get (invite_redemptions db') k = Some row"
  by (induction rule: rtranclp_induct) (auto dest: step_redemption)

lemma run_redeemed_by:
  "exact_step\<^sup>*\<^sup>* db db' \<Longrightarrow> redeemed_by db jti p = Some c \<Longrightarrow> redeemed_by db' jti p = Some c"
  by (auto simp: redeemed_by_def dest: run_redemption)

section \<open>Properties\<close>

text \<open>C26. Revocation is monotone: along any history of operations on the store, with outages in between,
  the epoch of a subject never decreases and a revoked subject stays revoked.\<close>

theorem revocation_monotone:
  assumes "exact_step\<^sup>*\<^sup>* db db'"
  shows "epoch_of db key \<le> epoch_of db' key \<and> (get (revocations db) key \<noteq> None \<longrightarrow> get (revocations db') key \<noteq> None)"
  using run_epoch [OF assms] run_revoked [OF assms] by blast

definition example_revoked :: "nat \<Rightarrow> Store \<Rightarrow> Store" where
  "example_revoked n db = snd (Revoke 0 ''pip_x'' ''pipe-access'' ''pip_x'' n db)"

lemma example_revoked_step: "exact_step db (example_revoked n db)"
  unfolding example_revoked_def by (rule step_revoke) (rule prod.collapse [symmetric])

lemma example_revoked_epoch:
  assumes "db_fault db = None" "n \<noteq> 0" "n < 2 ^ 63" "epoch_of db (''pip_x'', ''pipe-access'', ''pip_x'') \<le> n"
  shows "epoch_of (example_revoked n db) (''pip_x'', ''pipe-access'', ''pip_x'') = n \<and> db_fault (example_revoked n db) = None"
proof -
  have "\<not> blank ''pip_x''" "\<not> blank ''pipe-access''"
    by (rule graphic_not_blank; simp add: graphic_def byte_def)+
  then have "fst (Revoke 0 ''pip_x'' ''pipe-access'' ''pip_x'' n db) = Inr ()"
    using Revoke_complete assms by simp
  then have "Revoke 0 ''pip_x'' ''pipe-access'' ''pip_x'' n db = (Inr (), example_revoked n db)"
    by (simp add: example_revoked_def prod_eq_iff)
  from Revoke_Inr(5) [OF this] show ?thesis using assms(1) by simp
qed

theorem revocation_monotone_witness:
  "epoch_of (example_revoked 1 empty_store) (''pip_x'', ''pipe-access'', ''pip_x'')
     \<le> epoch_of (example_revoked 2 (example_revoked 1 empty_store)) (''pip_x'', ''pipe-access'', ''pip_x'')
   \<and> epoch_of (example_revoked 2 (example_revoked 1 empty_store)) (''pip_x'', ''pipe-access'', ''pip_x'') = 2"
proof -
  have "epoch_of empty_store k = 0" "db_fault empty_store = None" for k
    by (simp_all add: epoch_of_def empty_store_def)
  then have "epoch_of (example_revoked 2 (example_revoked 1 empty_store)) (''pip_x'', ''pipe-access'', ''pip_x'') = 2"
    using example_revoked_epoch [of empty_store 1] example_revoked_epoch [of "example_revoked 1 empty_store" 2] by simp
  then show ?thesis
    using revocation_monotone [OF r_into_rtranclp [of exact_step, OF example_revoked_step]] by blast
qed

text \<open>C4. Redemption is one-time: once an invite is redeemed for a Pipe by one client, then after any
  further history it is redeemed by that client, and every attempt of another client to redeem it
  fails and changes nothing.\<close>

theorem redemption_one_time:
  assumes "exact_step\<^sup>*\<^sup>* db db'" "redeemed_by db jti p = Some c" "c' \<noteq> c"
  shows "redeemed_by db' jti p = Some c \<and> (\<exists>e. RedeemInviteAndAccept jti p sid c' ep now db' = (Inl e, db'))"
proof -
  have r: "redeemed_by db' jti p = Some c" using run_redeemed_by [OF assms(1,2)] .
  obtain res db2 where out: "RedeemInviteAndAccept jti p sid c' ep now db' = (res, db2)" by fastforce
  then obtain e where "res = Inl e"
    using RedeemInviteAndAccept_other [OF r, of c' sid ep now] assms(3) by (cases res) auto
  then show ?thesis using r out RedeemInviteAndAccept_Inl by metis
qed

definition example_accepted :: Store where
  "example_accepted = snd (RedeemInviteAndAccept ''jti_1'' ''pip_x'' ''ses_1'' ''alice'' 0 0 empty_store)"

lemma example_accepted_by: "redeemed_by example_accepted ''jti_1'' ''pip_x'' = Some ''alice''"
proof -
  have "\<not> blank ''jti_1''" "\<not> blank ''pip_x''" "\<not> blank ''ses_1''" "\<not> blank ''alice''"
    by (rule graphic_not_blank; simp add: graphic_def byte_def)+
  then have "fst (RedeemInviteAndAccept ''jti_1'' ''pip_x'' ''ses_1'' ''alice'' 0 0 empty_store) = Inr True"
    by (intro RedeemInviteAndAccept_complete) (simp_all add: empty_store_def redeemed_by_def)
  then have "RedeemInviteAndAccept ''jti_1'' ''pip_x'' ''ses_1'' ''alice'' 0 0 empty_store = (Inr True, example_accepted)"
    by (simp add: example_accepted_def prod_eq_iff)
  from RedeemInviteAndAccept_Inr(3) [OF this] show ?thesis by auto
qed

theorem redemption_one_time_witness:
  "\<exists>e. RedeemInviteAndAccept ''jti_1'' ''pip_x'' ''ses_2'' ''mallory'' 0 0 example_accepted = (Inl e, example_accepted)"
  using redemption_one_time [OF rtranclp.rtrancl_refl example_accepted_by, of "''mallory''"] by simp

end
