(* ===== verification/Adapter.thy ===== *)
theory Adapter
  imports ExactAuthority StoreExact
begin

text \<open>
  The store behind the ports of the exact authority (src/internal/store/exactauthority\_adapter.go), and the
  interpretation of the port contracts on it: the laws of the locales are discharged for the store's
  own operations, for every scope.
\<close>

definition RevocationAdapter :: "string \<Rightarrow> Store RevocationState" where
  "RevocationAdapter scope =
     \<lparr>port_IsRevoked = (\<lambda>db jti subjectType. IsRevoked db scope subjectType jti),
      port_RevocationEpoch = (\<lambda>db pipeID subjectType. RevocationEpoch db scope subjectType pipeID)\<rparr>"

definition RedemptionAdapter :: "Store RedemptionStore" where
  "RedemptionAdapter = \<lparr>port_RedeemInviteAndAccept = RedeemInviteAndAccept\<rparr>"

definition AcceptedAdapter :: "Store AcceptedBindingStore" where
  "AcceptedAdapter = \<lparr>port_AcceptedRelationship = AcceptedRelationship\<rparr>"

text \<open>\<^verbatim>\<open>ExactEpochAdapter.PipeAccessEpoch\<close>.\<close>

definition PipeAccessEpoch :: "Store \<Rightarrow> string \<Rightarrow> nat result" where
  "PipeAccessEpoch db pipeID = RevocationEpoch db pipeID ''pipe-access'' pipeID"

text \<open>\<^verbatim>\<open>NewExactAuthorityRevocationStateFromOwner\<close>.\<close>

definition RevocationAdapterFromOwner :: "crypto \<Rightarrow> string \<Rightarrow> Store RevocationState" where
  "RevocationAdapterFromOwner C ownerPrivate = RevocationAdapter (PipeIDFromOwner C (Public ownerPrivate))"

lemma adapter_simps [simp]:
  "port_IsRevoked (RevocationAdapter scope) db jti t = IsRevoked db scope t jti"
  "port_RevocationEpoch (RevocationAdapter scope) db p t = RevocationEpoch db scope t p"
  "port_RedeemInviteAndAccept RedemptionAdapter = RedeemInviteAndAccept"
  "port_AcceptedRelationship AcceptedAdapter = AcceptedRelationship"
  by (simp_all add: RevocationAdapter_def RedemptionAdapter_def AcceptedAdapter_def)

definition revoked_in :: "string \<Rightarrow> Store \<Rightarrow> string \<Rightarrow> string \<Rightarrow> bool" where
  "revoked_in scope db subjectType jti \<longleftrightarrow> get (revocations db) (scope, subjectType, jti) \<noteq> None"

definition epoch_in :: "string \<Rightarrow> Store \<Rightarrow> string \<Rightarrow> string \<Rightarrow> nat" where
  "epoch_in scope db subjectType pipeID = epoch_of db (scope, subjectType, pipeID)"

interpretation store_revocation: revocation_port "RevocationAdapter scope" "revoked_in scope" "epoch_in scope" for scope
  by unfold_locales (simp_all add: IsRevoked_Inr RevocationEpoch_Inr revoked_in_def epoch_in_def)

interpretation store_redemption: redemption_port RedemptionAdapter redeemed_by relationship
proof
  fix jti p sid c ep now s e s'
  assume "port_RedeemInviteAndAccept RedemptionAdapter jti p sid c ep now s = (Inl e, s')"
  then show "s' = s" by (simp add: RedeemInviteAndAccept_Inl)
next
  fix jti p sid c ep now s ok s'
  assume "port_RedeemInviteAndAccept RedemptionAdapter jti p sid c ep now s = (Inr ok, s')"
  then have a: "RedeemInviteAndAccept jti p sid c ep now s = (Inr ok, s')" by simp
  from RedeemInviteAndAccept_Inr(1,3) [OF a]
  show "ok \<and> redeemed_by s' jti p = Some c
      \<and> (redeemed_by s jti p = None \<and> relationship s' p c = Some (jti, ep) \<or> redeemed_by s jti p = Some c \<and> s' = s)"
    by auto
qed

interpretation store_accepted: accepted_port AcceptedAdapter relationship
  by unfold_locales (simp add: AcceptedRelationship_Inr)

interpretation store_redeem: redemption_service "RevocationAdapter scope" "revoked_in scope" "epoch_in scope"
  RedemptionAdapter redeemed_by relationship for scope
  by unfold_locales

interpretation store_renew: renewal_service "RevocationAdapter scope" "revoked_in scope" "epoch_in scope"
  AcceptedAdapter relationship for scope
  by unfold_locales

end
