(* ===== verification/OpenAuth.thy ===== *)
theory OpenAuth
  imports Adapter
begin

text \<open>
  The receiving boundary's open authorizer (src/internal/openauth/openauth.go and
  src/internal/runtime/exact\_authorizer.go): a lease of the trusted authority, a possession proof over the
  receiver's challenge, and the revocation state. The lazy wrapper loads the authority key on its
  first use and keeps it.
\<close>

record OpenRequest =
  or_PipeID :: string
  or_ClientPublic :: string
  or_Challenge :: string
  or_ChallengeProof :: string
  or_AccessLease :: string
  or_Now :: gotime

record Authorization =
  az_PipeID :: string
  az_Subject :: string
  az_Issuer :: string
  az_LeaseID :: string
  az_ExpiresAt :: ztime
  az_AccessEpoch :: nat

record 's ExactOpenAuthorizer =
  eo_leasePublic :: string
  eo_pipeID :: string
  eo_state :: "'s RevocationState"

definition NewExactOpenAuthorizer ::
  "string \<Rightarrow> string \<Rightarrow> 's RevocationState option \<Rightarrow> 's ExactOpenAuthorizer result" where
  "NewExactOpenAuthorizer leasePublic pipeID state =
     (case state of
        None \<Rightarrow> Inl (Error ''exact open authorizer requires revocation state'' [])
      | Some st \<Rightarrow> Inr \<lparr>eo_leasePublic = leasePublic, eo_pipeID = pipeID, eo_state = st\<rparr>)"

definition authDenied :: goerror where "authDenied = Error ''authorization denied'' []"

text \<open>Every failure is the same generic denial.\<close>

definition AuthorizeOpen ::
  "crypto \<Rightarrow> gotime \<Rightarrow> 's ExactOpenAuthorizer \<Rightarrow> 's \<Rightarrow> OpenRequest \<Rightarrow> Authorization result" where
  "AuthorizeOpen C clock a s req =
     map_err (\<lambda>_. authDenied) (
     res_bind (lease_Decode (or_AccessLease req)) (\<lambda>lease.
     check (lease_Verify C clock (eo_leasePublic a) (or_ClientPublic req) (or_PipeID req) (or_Now req) lease) (
     if al_Issuer lease \<noteq> PublicString (eo_leasePublic a) then Inl authDenied
     else
       res_bind (PublicFromString (or_ClientPublic req)) (\<lambda>clientPub.
       if \<not> VerifyProof C clientPub (or_ChallengeProof req) OpenProofPurpose [or_Challenge req, or_PipeID req]
       then Inl authDenied
       else
         res_bind (port_IsRevoked (eo_state a) s (al_JTI lease) ''access-lease'') (\<lambda>revoked.
         if revoked then Inl authDenied
         else
           res_bind (port_RevocationEpoch (eo_state a) s (or_PipeID req) ''pipe-access'') (\<lambda>currentEpoch.
           if currentEpoch > al_AccessEpoch lease then Inl authDenied
           else Inr \<lparr>az_PipeID = or_PipeID req, az_Subject = or_ClientPublic req, az_Issuer = al_Issuer lease,
                     az_LeaseID = al_JTI lease, az_ExpiresAt = al_ExpiresAt lease,
                     az_AccessEpoch = al_AccessEpoch lease\<rparr>))))))"

text \<open>\<^verbatim>\<open>LazyExactAuthorizer\<close>: the wrapper's state is the authorizer once it is loaded. \<^verbatim>\<open>SecretPath()\<close> is the
  secrets directory under the store's home.\<close>

record LazyExactAuthorizer =
  lz_pipeID :: string
  lz_auth :: "Store ExactOpenAuthorizer option"

definition SecretPath :: "string \<Rightarrow> string list \<Rightarrow> string" where
  "SecretPath home parts = Join_path ([home, ''secrets''] @ parts)"

definition lazy_load :: "crypto \<Rightarrow> FS \<Rightarrow> string \<Rightarrow> LazyExactAuthorizer \<Rightarrow> LazyExactAuthorizer" where
  "lazy_load C fs home a =
     (case lz_auth a of
        Some _ \<Rightarrow> a
      | None \<Rightarrow>
          (case res_bind (KeyPath (SecretPath home []) (lz_pipeID a)) (\<lambda>keyPath.
                res_bind (Load C fs keyPath) (\<lambda>private.
                NewExactOpenAuthorizer (Public private) (lz_pipeID a) (Some (RevocationAdapter (lz_pipeID a))))) of
             Inl _ \<Rightarrow> a
           | Inr auth \<Rightarrow> a\<lparr>lz_auth := Some auth\<rparr>))"

definition LazyAuthorizeOpen ::
  "crypto \<Rightarrow> gotime \<Rightarrow> FS \<Rightarrow> string \<Rightarrow> Store \<Rightarrow> OpenRequest \<Rightarrow> LazyExactAuthorizer \<Rightarrow> Authorization result \<times> LazyExactAuthorizer" where
  "LazyAuthorizeOpen C clock fs home db req a =
     (let a' = lazy_load C fs home a in
      case lz_auth a' of
        None \<Rightarrow> (Inl (Error ''authorization denied: no open authorizer'' []), a')
      | Some auth \<Rightarrow> (AuthorizeOpen C clock auth db req, a'))"

section \<open>Soundness and completeness\<close>

lemma AuthorizeOpen_Inr:
  assumes "AuthorizeOpen C clock a s req = Inr az"
  obtains lease key b n where "lease_Decode (or_AccessLease req) = Inr lease"
    "lease_Verify C clock (eo_leasePublic a) (or_ClientPublic req) (or_PipeID req) (or_Now req) lease = None"
    "PublicFromString (or_ClientPublic req) = Inr key"
    "VerifyProof C key (or_ChallengeProof req) OpenProofPurpose [or_Challenge req, or_PipeID req]"
    "port_IsRevoked (eo_state a) s (al_JTI lease) ''access-lease'' = Inr False"
    "port_RevocationEpoch (eo_state a) s (or_PipeID req) ''pipe-access'' = Inr n" "n \<le> al_AccessEpoch lease"
    "az = \<lparr>az_PipeID = or_PipeID req, az_Subject = or_ClientPublic req, az_Issuer = al_Issuer lease,
       az_LeaseID = al_JTI lease, az_ExpiresAt = al_ExpiresAt lease, az_AccessEpoch = al_AccessEpoch lease\<rparr>"
  using assms by (auto simp: AuthorizeOpen_def result_simps split: if_splits)

lemma AuthorizeOpen_complete:
  assumes "lease_Decode (or_AccessLease req) = Inr lease"
    "lease_Verify C clock (eo_leasePublic a) (or_ClientPublic req) (or_PipeID req) (or_Now req) lease = None"
    "PublicFromString (or_ClientPublic req) = Inr key"
    "VerifyProof C key (or_ChallengeProof req) OpenProofPurpose [or_Challenge req, or_PipeID req]"
    "port_IsRevoked (eo_state a) s (al_JTI lease) ''access-lease'' = Inr False"
    "port_RevocationEpoch (eo_state a) s (or_PipeID req) ''pipe-access'' = Inr n" "n \<le> al_AccessEpoch lease"
  shows "is_ok (AuthorizeOpen C clock a s req)"
  using assms lease_VerifyD(3) [OF assms(2)] by (simp add: AuthorizeOpen_def)

text \<open>The authorizer the wrapper ends up with trusts the key in the Pipe's key file, and never changes.\<close>

definition lazy_trusts :: "crypto \<Rightarrow> FS \<Rightarrow> string \<Rightarrow> LazyExactAuthorizer \<Rightarrow> bool" where
  "lazy_trusts C fs home a \<longleftrightarrow>
     (\<forall>auth. lz_auth a = Some auth \<longrightarrow> (\<exists>path k. KeyPath (SecretPath home []) (lz_pipeID a) = Inr path
        \<and> Load C fs path = Inr k \<and> auth = \<lparr>eo_leasePublic = Public k, eo_pipeID = lz_pipeID a,
             eo_state = RevocationAdapter (lz_pipeID a)\<rparr>))"

lemma lazy_load_trusts: "lazy_trusts C fs home a \<Longrightarrow> lazy_trusts C fs home (lazy_load C fs home a)"
  by (auto simp: lazy_load_def lazy_trusts_def NewExactOpenAuthorizer_def result_simps split: option.splits sum.splits)

end
