(* ===== verification/ExactHandlers.thy ===== *)
theory ExactHandlers
  imports OpenAuth
begin

text \<open>
  The two challenge exchanges of an exact Pipe: redemption of an invite (src/internal/runtime/redemption\_handler.go,
  exact\_redemption\_client.go) and renewal (renewal\_handler.go, exact\_renewal.go), with the messages of
  src/internal/protocol/frame.go. The stream is the argument of each side: a request as \<^verbatim>\<open>ReadFrame\<close> gave it, and
  functions that say what a frame the side writes is answered with.
\<close>

section \<open>Messages\<close>

record ExactRedemptionRequest = rq_Invite :: string

record ExactRedemptionProof =
  rp_RecipientPublic :: string
  rp_ChallengeProof :: string

record ExactRenewalRequest =
  nq_PipeID :: string
  nq_RecipientPublic :: string
  nq_OwnerBinding :: string

text \<open>\<^verbatim>\<open>ExactRedemptionResponse\<close> and \<^verbatim>\<open>ExactRenewalResponse\<close> have the same fields; a challenge message is its
  one string, a renewal proof its one string.\<close>

record ExactResponse =
  rs_OK :: bool
  rs_Error :: string
  rs_AccessLease :: string
  rs_ExpiresAt :: ztime

definition RandomChallenge :: "string result \<Rightarrow> string result" where
  "RandomChallenge rnd = res_bind rnd (\<lambda>value. Inr (b32_encode value))"

section \<open>The handlers\<close>

record exactHandler =
  eh_pipeID :: string
  eh_leaseTTL :: int

definition newExactHandler :: "string \<Rightarrow> int \<Rightarrow> exactHandler" where
  "newExactHandler pipeID leaseTTL =
     \<lparr>eh_pipeID = pipeID, eh_leaseTTL = (if leaseTTL \<le> 0 \<or> leaseTTL > MaxTTL then MaxTTL else leaseTTL)\<rparr>"

text \<open>A refusal on the wire: the error field carries the message, nothing else is set.\<close>

definition refuse :: "goerror \<Rightarrow> ExactResponse" where
  "refuse e = \<lparr>rs_OK = False, rs_Error = (case e of Error m _ \<Rightarrow> m | _ \<Rightarrow> []), rs_AccessLease = [],
     rs_ExpiresAt = (zero_time, 0)\<rparr>"

definition grant :: "string \<Rightarrow> AccessLease \<Rightarrow> ExactResponse" where
  "grant encodedLease lease = \<lparr>rs_OK = True, rs_Error = [], rs_AccessLease = encodedLease, rs_ExpiresAt = al_ExpiresAt lease\<rparr>"

definition or_wire :: "string \<Rightarrow> 'a result \<Rightarrow> 'a result" where "or_wire message = map_err (\<lambda>_. Error message [])"

text \<open>Redemption, up to the challenge.\<close>

definition redemption_admit :: "exactHandler \<Rightarrow> ExactRedemptionRequest result \<Rightarrow> ExactInvite result" where
  "redemption_admit h req =
     res_bind (or_wire ''invalid_request'' req) (\<lambda>rq.
     if length (rq_Invite rq) > 8192 \<or> length (rq_Invite rq) = 0
     then Inl (Error ''invalid_request: invite too large or empty'' [])
     else
       res_bind (or_wire ''invalid_invite'' (DecodeInvite (rq_Invite rq))) (\<lambda>invite.
       if ei_AudiencePipeID invite \<noteq> eh_pipeID h then Inl (Error ''not_found'' []) else Inr invite))"

text \<open>The bounds of the proof frame, and the loader of the Pipe's authority key.\<close>

definition redemption_loader ::
  "crypto \<Rightarrow> FS \<Rightarrow> string \<Rightarrow> exactHandler \<Rightarrow> ExactInvite \<Rightarrow> ExactRedemptionProof result \<Rightarrow> (ExactRedemptionProof \<times> Loader) result" where
  "redemption_loader C fs home h invite frame =
     res_bind (or_wire ''invalid_proof'' frame) (\<lambda>pf.
     if length (rp_RecipientPublic pf) > 8192 \<or> length (rp_ChallengeProof pf) > 8192
     then Inl (Error ''invalid_proof: field too large'' [])
     else
       res_bind (or_wire ''authority_unavailable'' (KeyPath (SecretPath home []) (eh_pipeID h))) (\<lambda>keyPath.
       res_bind (or_wire ''authority_unavailable'' (Load C fs keyPath)) (\<lambda>_.
       res_bind (or_wire ''invalid_invite'' (DecodeOwnerBinding (ei_Binding invite))) (\<lambda>binding.
       Inr (pf, \<lparr>ld_KeyPath = keyPath, ld_Binding = binding\<rparr>)))))"

definition respond :: "string \<Rightarrow> AccessLease result \<Rightarrow> ExactResponse" where
  "respond failure lease =
     (case res_bind (or_wire failure lease) (\<lambda>l. map_err (\<lambda>_. Error ''internal_error'' [])
             (res_bind (lease_Encode l) (\<lambda>encoded. Inr (grant encoded l)))) of
        Inl e \<Rightarrow> refuse e | Inr r \<Rightarrow> r)"

definition redemption_finish ::
  "crypto \<Rightarrow> gotime \<Rightarrow> string result \<Rightarrow> string result \<Rightarrow> FS \<Rightarrow> string \<Rightarrow> exactHandler \<Rightarrow> string \<Rightarrow> string \<Rightarrow> ExactInvite
   \<Rightarrow> ExactRedemptionProof result \<Rightarrow> Store \<Rightarrow> ExactResponse \<times> Store" where
  "redemption_finish C now sessionRnd jtiRnd fs home h encodedInvite challenge invite frame db =
     (case redemption_loader C fs home h invite frame of
        Inl e \<Rightarrow> (refuse e, db)
      | Inr (pf, loader) \<Rightarrow>
          (case RedeemExactInvite C now sessionRnd jtiRnd fs now encodedInvite (rp_RecipientPublic pf) challenge
              (rp_ChallengeProof pf) loader (Some (RevocationAdapter (eh_pipeID h))) (Some RedemptionAdapter)
              (eh_leaseTTL h) db of
             (lease, db') \<Rightarrow> (respond ''redemption_failed'' lease, db')))"

text \<open>The whole handler: what it writes after the challenge (\<open>None\<close> when the challenge could not be written),
  and the store it leaves. \<open>answer\<close> is the result of writing the challenge frame and reading the next one.\<close>

definition redemption_handle ::
  "crypto \<Rightarrow> gotime \<Rightarrow> string result \<Rightarrow> string result \<Rightarrow> string result \<Rightarrow> FS \<Rightarrow> string \<Rightarrow> exactHandler
   \<Rightarrow> ExactRedemptionRequest result \<Rightarrow> (string \<Rightarrow> goerror option) \<Rightarrow> (string \<Rightarrow> ExactRedemptionProof result)
   \<Rightarrow> Store \<Rightarrow> ExactResponse option \<times> Store" where
  "redemption_handle C now chalRnd sessionRnd jtiRnd fs home h req writeChallenge answer db =
     (case redemption_admit h req of
        Inl e \<Rightarrow> (Some (refuse e), db)
      | Inr invite \<Rightarrow>
          (case or_wire ''internal_error'' (RandomChallenge chalRnd) of
             Inl e \<Rightarrow> (Some (refuse e), db)
           | Inr challenge \<Rightarrow>
               (case writeChallenge challenge of
                  Some _ \<Rightarrow> (None, db)
                | None \<Rightarrow> apfst Some (redemption_finish C now sessionRnd jtiRnd fs home h
                    (case req of Inl _ \<Rightarrow> [] | Inr rq \<Rightarrow> rq_Invite rq) challenge invite (answer challenge) db))))"

text \<open>Renewal.\<close>

definition renewal_admit :: "string \<Rightarrow> exactHandler \<Rightarrow> ExactRenewalRequest result \<Rightarrow> (ExactRenewalRequest \<times> Loader) result" where
  "renewal_admit home h req =
     res_bind (or_wire ''invalid_request'' req) (\<lambda>rq.
     if length (nq_PipeID rq) = 0 \<or> length (nq_PipeID rq) > 8192 \<or> length (nq_RecipientPublic rq) = 0
        \<or> length (nq_RecipientPublic rq) > 8192 \<or> length (nq_OwnerBinding rq) = 0 \<or> length (nq_OwnerBinding rq) > 49152
     then Inl (Error ''invalid_request: field too large or empty'' [])
     else if nq_PipeID rq \<noteq> eh_pipeID h then Inl (Error ''not_found'' [])
     else
       res_bind (or_wire ''authority_unavailable'' (KeyPath (SecretPath home []) (eh_pipeID h))) (\<lambda>keyPath.
       res_bind (or_wire ''invalid_binding'' (DecodeOwnerBinding (nq_OwnerBinding rq))) (\<lambda>binding.
       Inr (rq, \<lparr>ld_KeyPath = keyPath, ld_Binding = binding\<rparr>))))"

definition renewal_finish ::
  "crypto \<Rightarrow> gotime \<Rightarrow> string result \<Rightarrow> FS \<Rightarrow> exactHandler \<Rightarrow> string \<Rightarrow> ExactRenewalRequest \<Rightarrow> Loader \<Rightarrow> string result
   \<Rightarrow> Store \<Rightarrow> ExactResponse" where
  "renewal_finish C now jtiRnd fs h challenge rq loader frame db =
     (case res_bind (or_wire ''invalid_proof'' frame) (\<lambda>pf.
           if length pf = 0 \<or> length pf > 8192 then Inl (Error ''invalid_proof: field too large or empty'' []) else Inr pf) of
        Inl e \<Rightarrow> refuse e
      | Inr pf \<Rightarrow> respond ''renewal_failed''
          (RenewAcceptedAccess C jtiRnd fs now (nq_PipeID rq) (nq_RecipientPublic rq) (nq_OwnerBinding rq) challenge pf
             loader (Some (RevocationAdapter (eh_pipeID h))) (Some AcceptedAdapter) (eh_leaseTTL h) db))"

definition renewal_handle ::
  "crypto \<Rightarrow> gotime \<Rightarrow> string result \<Rightarrow> string result \<Rightarrow> FS \<Rightarrow> string \<Rightarrow> exactHandler \<Rightarrow> ExactRenewalRequest result
   \<Rightarrow> (string \<Rightarrow> goerror option) \<Rightarrow> (string \<Rightarrow> string result) \<Rightarrow> Store \<Rightarrow> ExactResponse option" where
  "renewal_handle C now chalRnd jtiRnd fs home h req writeChallenge answer db =
     (case renewal_admit home h req of
        Inl e \<Rightarrow> Some (refuse e)
      | Inr (rq, loader) \<Rightarrow>
          (case or_wire ''internal_error'' (RandomChallenge chalRnd) of
             Inl e \<Rightarrow> Some (refuse e)
           | Inr challenge \<Rightarrow>
               (case writeChallenge challenge of
                  Some _ \<Rightarrow> None
                | None \<Rightarrow> Some (renewal_finish C now jtiRnd fs h challenge rq loader (answer challenge) db))))"

section \<open>The clients\<close>

text \<open>The acquired carrier, from the client's side: the error of writing each frame and the result of reading
  the next, in terms of what was written before.\<close>

record ('q, 'p) Carrier =
  ca_sendRequest :: "'q \<Rightarrow> goerror option"
  ca_readChallenge :: "'q \<Rightarrow> string result"
  ca_sendProof :: "'q \<Rightarrow> 'p \<Rightarrow> goerror option"
  ca_readResponse :: "'q \<Rightarrow> 'p \<Rightarrow> ExactResponse result"

definition wrap_opt :: "string \<Rightarrow> goerror option \<Rightarrow> goerror option" where
  "wrap_opt f = map_option (Wrap f [])"

definition connectKeyPath :: "string \<Rightarrow> string \<Rightarrow> string" where
  "connectKeyPath secretsDir pipeID = Join_path [secretsDir, ''pipes'', ''connect-'' @ pipeID @ ''.key'']"

text \<open>The last step of both clients: the lease of an accepted response.\<close>

definition lease_of_response :: "string \<Rightarrow> ExactResponse \<Rightarrow> AccessLease result" where
  "lease_of_response who response =
     (if \<not> rs_OK response
      then (if rs_Error response \<noteq> [] then Inl (Error (who @ '': server denied: %s'') [rs_Error response])
            else Inl (Error (who @ '': server denied'') []))
      else if rs_AccessLease response = [] then Inl (Error (who @ '': empty access lease'') [])
      else map_err (Wrap (who @ '': decode lease: %w'') []) (lease_Decode (rs_AccessLease response)))"

definition redeem_proof :: "crypto \<Rightarrow> string \<Rightarrow> ExactInvite \<Rightarrow> string \<Rightarrow> string \<Rightarrow> ExactRedemptionProof" where
  "redeem_proof C recipientPrivate invite recipientPublic challenge =
     \<lparr>rp_RecipientPublic = recipientPublic,
      rp_ChallengeProof = SignProof C recipientPrivate RedeemProofPurpose
        [ei_JTI invite, ei_AudiencePipeID invite, challenge]\<rparr>"

definition redeem_over ::
  "crypto \<Rightarrow> string \<Rightarrow> (ExactRedemptionRequest, ExactRedemptionProof) Carrier \<Rightarrow> ExactInvite \<Rightarrow> string \<Rightarrow> AccessLease result" where
  "redeem_over C recipientPrivate carrier invite recipientPublic =
     res_bind (map_err (Wrap ''exact_redemption: encode invite: %w'' []) (EncodeInvite invite)) (\<lambda>encodedInvite.
     let rq = \<lparr>rq_Invite = encodedInvite\<rparr> in
     check (wrap_opt ''exact_redemption: send invite: %w'' (ca_sendRequest carrier rq)) (
     res_bind (map_err (Wrap ''exact_redemption: read challenge: %w'' []) (ca_readChallenge carrier rq)) (\<lambda>challenge.
     if challenge = [] then Inl (Error ''exact_redemption: empty challenge'' [])
     else
       let pf = redeem_proof C recipientPrivate invite recipientPublic challenge in
       check (wrap_opt ''exact_redemption: send proof: %w'' (ca_sendProof carrier rq pf)) (
       res_bind (map_err (Wrap ''exact_redemption: read response: %w'' []) (ca_readResponse carrier rq pf))
         (lease_of_response ''exact_redemption'')))))"

text \<open>\<^verbatim>\<open>ExactRedemptionClient.Redeem\<close>: the recipient key is loaded, or provisioned on the first connect.\<close>

definition Redeem ::
  "crypto \<Rightarrow> string result \<Rightarrow> string result \<Rightarrow> string \<Rightarrow> (ExactRedemptionRequest, ExactRedemptionProof) Carrier
   \<Rightarrow> ExactInvite \<Rightarrow> string \<Rightarrow> FS \<Rightarrow> AccessLease result \<times> FS" where
  "Redeem C seed suffix secretsDir carrier invite recipientPublic fs =
     (let keyPath = connectKeyPath secretsDir (ei_AudiencePipeID invite);
          loaded = Load C fs keyPath;
          (key, fs') = (if is_ok loaded then (loaded, fs) else Provision C seed suffix keyPath fs)
      in (res_bind (map_err (Wrap ''exact_redemption: recipient key: %w'' []) key) (\<lambda>recipientPrivate.
            redeem_over C recipientPrivate carrier invite recipientPublic), fs'))"

record RenewalRequest =
  rn_PipeID :: string
  rn_RecipientPublic :: string
  rn_OwnerBinding :: string

text \<open>\<^verbatim>\<open>ExactRenewalClient.Renew\<close>: the key is only ever loaded.\<close>

definition Renew ::
  "crypto \<Rightarrow> FS \<Rightarrow> string \<Rightarrow> (ExactRenewalRequest, string) Carrier option \<Rightarrow> RenewalRequest \<Rightarrow> AccessLease result" where
  "Renew C fs secretsDir carrier0 req =
     (if rn_PipeID req = [] \<or> rn_RecipientPublic req = [] \<or> rn_OwnerBinding req = []
      then Inl (Error ''exact_renewal: invalid request'' [])
      else
        res_bind (case carrier0 of None \<Rightarrow> Inl (Error ''exact_renewal: missing carrier'' []) | Some c \<Rightarrow> Inr c) (\<lambda>carrier.
        res_bind (map_err (Wrap ''exact_renewal: recipient key unavailable: %w'' [])
          (Load C fs (connectKeyPath secretsDir (rn_PipeID req)))) (\<lambda>recipientPrivate.
        if PublicString (Public recipientPrivate) \<noteq> rn_RecipientPublic req
        then Inl (Error ''exact_renewal: recipient key does not match accepted binding'' [])
        else
          let rq = \<lparr>nq_PipeID = rn_PipeID req, nq_RecipientPublic = rn_RecipientPublic req,
                    nq_OwnerBinding = rn_OwnerBinding req\<rparr> in
          check (wrap_opt ''exact_renewal: send request: %w'' (ca_sendRequest carrier rq)) (
          res_bind (map_err (Wrap ''exact_renewal: read challenge: %w'' []) (ca_readChallenge carrier rq)) (\<lambda>challenge.
          if challenge = [] then Inl (Error ''exact_renewal: empty challenge'' [])
          else
            let pf = SignProof C recipientPrivate RenewProofPurpose [rn_PipeID req, challenge] in
            check (wrap_opt ''exact_renewal: send proof: %w'' (ca_sendProof carrier rq pf)) (
            res_bind (map_err (Wrap ''exact_renewal: read response: %w'' []) (ca_readResponse carrier rq pf))
              (lease_of_response ''exact_renewal'')))))))"

section \<open>The exchanges\<close>

text \<open>The carriers that end in the handlers: a refusal before the challenge is not a challenge message, so the
  client's strict read fails on it.\<close>

definition redemption_carrier ::
  "crypto \<Rightarrow> gotime \<Rightarrow> string result \<Rightarrow> string result \<Rightarrow> string result \<Rightarrow> FS \<Rightarrow> string \<Rightarrow> exactHandler \<Rightarrow> Store
   \<Rightarrow> (ExactRedemptionRequest, ExactRedemptionProof) Carrier" where
  "redemption_carrier C now chalRnd sessionRnd jtiRnd fs home h db =
     \<lparr>ca_sendRequest = (\<lambda>_. None),
      ca_readChallenge = (\<lambda>rq. res_bind (redemption_admit h (Inr rq)) (\<lambda>_. RandomChallenge chalRnd)),
      ca_sendProof = (\<lambda>_ _. None),
      ca_readResponse = (\<lambda>rq pf.
        case fst (redemption_handle C now chalRnd sessionRnd jtiRnd fs home h (Inr rq) (\<lambda>_. None) (\<lambda>_. Inr pf) db) of
          None \<Rightarrow> Inl (Error ''EOF'' []) | Some r \<Rightarrow> Inr r)\<rparr>"

definition renewal_carrier ::
  "crypto \<Rightarrow> gotime \<Rightarrow> string result \<Rightarrow> string result \<Rightarrow> FS \<Rightarrow> string \<Rightarrow> exactHandler \<Rightarrow> Store
   \<Rightarrow> (ExactRenewalRequest, string) Carrier" where
  "renewal_carrier C now chalRnd jtiRnd fs home h db =
     \<lparr>ca_sendRequest = (\<lambda>_. None),
      ca_readChallenge = (\<lambda>rq. res_bind (renewal_admit home h (Inr rq)) (\<lambda>_. RandomChallenge chalRnd)),
      ca_sendProof = (\<lambda>_ _. None),
      ca_readResponse = (\<lambda>rq pf.
        case renewal_handle C now chalRnd jtiRnd fs home h (Inr rq) (\<lambda>_. None) (\<lambda>_. Inr pf) db of
          None \<Rightarrow> Inl (Error ''EOF'' []) | Some r \<Rightarrow> Inr r)\<rparr>"

section \<open>What a granted response establishes\<close>

lemma or_wire_Inr [result_simps]: "or_wire m r = Inr x \<longleftrightarrow> r = Inr x"
  by (simp add: or_wire_def map_err_Inr_iff)

lemma refuse_not_OK [simp]: "\<not> rs_OK (refuse e)"
  by (simp add: refuse_def)

lemma respond_OK:
  assumes "rs_OK (respond m lease)"
  obtains l enc where "lease = Inr l" "lease_Encode l = Inr enc" "respond m lease = grant enc l"
proof -
  have "\<exists>l enc. lease = Inr l \<and> lease_Encode l = Inr enc \<and> respond m lease = grant enc l"
    using assms by (cases lease; cases "lease_Encode (projr lease)") (auto simp: respond_def or_wire_def)
  then show thesis using that by blast
qed

lemma redemption_handle_OK:
  assumes "redemption_handle C now crnd srnd jrnd fs home h req wr ans db = (Some r, db')" "rs_OK r"
  obtains rq invite challenge pf path k b l where
    "req = Inr rq" "DecodeInvite (rq_Invite rq) = Inr invite" "ei_AudiencePipeID invite = eh_pipeID h"
    "RandomChallenge crnd = Inr challenge" "ans challenge = Inr pf"
    "KeyPath (SecretPath home []) (eh_pipeID h) = Inr path" "Load C fs path = Inr k"
    "DecodeOwnerBinding (ei_Binding invite) = Inr b"
    "RedeemExactInvite C now srnd jrnd fs now (rq_Invite rq) (rp_RecipientPublic pf) challenge (rp_ChallengeProof pf)
       \<lparr>ld_KeyPath = path, ld_Binding = b\<rparr> (Some (RevocationAdapter (eh_pipeID h))) (Some RedemptionAdapter)
       (eh_leaseTTL h) db = (Inr l, db')"
    "lease_Encode l = Inr (rs_AccessLease r)"
proof -
  obtain invite challenge rq where a: "RandomChallenge crnd = Inr challenge"
    "req = Inr rq" "DecodeInvite (rq_Invite rq) = Inr invite" "ei_AudiencePipeID invite = eh_pipeID h"
    and f: "redemption_finish C now srnd jrnd fs home h (rq_Invite rq) challenge invite (ans challenge) db = (r, db')"
    using assms
    by (auto simp: redemption_handle_def redemption_admit_def result_simps apfst_def map_prod_def
        split: sum.splits option.splits if_splits prod.splits)
  obtain pf loader where l: "redemption_loader C fs home h invite (ans challenge) = Inr (pf, loader)"
    using f assms(2) by (auto simp: redemption_finish_def split: sum.splits)
  obtain lease where g: "RedeemExactInvite C now srnd jrnd fs now (rq_Invite rq) (rp_RecipientPublic pf) challenge
      (rp_ChallengeProof pf) loader (Some (RevocationAdapter (eh_pipeID h))) (Some RedemptionAdapter)
      (eh_leaseTTL h) db = (lease, db')" "r = respond ''redemption_failed'' lease"
    using f l by (auto simp: redemption_finish_def split: prod.splits)
  obtain x enc where x: "lease = Inr x" "lease_Encode x = Inr enc" "r = grant enc x"
    using assms(2) unfolding g(2) by (rule respond_OK) (use g(2) in simp)
  from l obtain path k b where "ans challenge = Inr pf" "KeyPath (SecretPath home []) (eh_pipeID h) = Inr path"
    "Load C fs path = Inr k" "DecodeOwnerBinding (ei_Binding invite) = Inr b" "loader = \<lparr>ld_KeyPath = path, ld_Binding = b\<rparr>"
    by (auto simp: redemption_loader_def result_simps split: if_splits)
  with a g(1) x show thesis using that by (simp add: grant_def)
qed

lemma renewal_handle_OK:
  assumes "renewal_handle C now crnd jrnd fs home h req wr ans db = Some r" "rs_OK r"
  obtains rq challenge pf path b l where
    "req = Inr rq" "nq_PipeID rq = eh_pipeID h" "RandomChallenge crnd = Inr challenge" "ans challenge = Inr pf"
    "KeyPath (SecretPath home []) (eh_pipeID h) = Inr path" "DecodeOwnerBinding (nq_OwnerBinding rq) = Inr b"
    "RenewAcceptedAccess C jrnd fs now (eh_pipeID h) (nq_RecipientPublic rq) (nq_OwnerBinding rq) challenge pf
       \<lparr>ld_KeyPath = path, ld_Binding = b\<rparr> (Some (RevocationAdapter (eh_pipeID h))) (Some AcceptedAdapter)
       (eh_leaseTTL h) db = Inr l"
    "lease_Encode l = Inr (rs_AccessLease r)"
proof -
  obtain rq challenge path b where a: "req = Inr rq" "nq_PipeID rq = eh_pipeID h" "RandomChallenge crnd = Inr challenge"
    "KeyPath (SecretPath home []) (eh_pipeID h) = Inr path" "DecodeOwnerBinding (nq_OwnerBinding rq) = Inr b"
    and f: "renewal_finish C now jrnd fs h challenge rq \<lparr>ld_KeyPath = path, ld_Binding = b\<rparr> (ans challenge) db = r"
    using assms
    by (auto simp: renewal_handle_def renewal_admit_def result_simps split: sum.splits option.splits if_splits)
  obtain pf where p: "ans challenge = Inr pf"
    and g: "r = respond ''renewal_failed'' (RenewAcceptedAccess C jrnd fs now (eh_pipeID h) (nq_RecipientPublic rq)
       (nq_OwnerBinding rq) challenge pf \<lparr>ld_KeyPath = path, ld_Binding = b\<rparr> (Some (RevocationAdapter (eh_pipeID h)))
       (Some AcceptedAdapter) (eh_leaseTTL h) db)"
    using f assms(2) a(2) by (auto simp: renewal_finish_def result_simps split: sum.splits if_splits)
  show thesis
    using assms(2) unfolding g by (rule respond_OK) (use that [OF a(1-3) p a(4,5)] g in \<open>simp add: grant_def\<close>)
qed

end
