(* ===== verification/Minting.thy ===== *)
theory Minting
  imports ExactAuthority
begin

text \<open>
  The wire forms of freshly minted credentials: what the identifiers consist of, that a minted lease and a
  minted invite encode and decode again, and how long an invite gets.
\<close>

text \<open>Identifiers are letters and digits behind their prefix.\<close>

definition word_char :: "char \<Rightarrow> bool" where
  "word_char c \<longleftrightarrow> 48 \<le> byte c \<and> byte c \<le> 57 \<or> 65 \<le> byte c \<and> byte c \<le> 90 \<or> 97 \<le> byte c \<and> byte c \<le> 122"

lemma b32_words: "list_all word_char (b32_groups bs)"
proof (induction bs rule: b32_groups.induct)
  case (1 bs)
  have "bits_val (take 5 (bs @ replicate 4 False)) < 2 ^ 5"
    using bits_val_less [of "take 5 (bs @ replicate 4 False)"]
    by (rule less_le_trans) (rule power_increasing, simp_all)
  then have "word_char (b32_char (bits_val (take 5 (bs @ replicate 4 False))))"
    by (auto simp: b32_char_def byte_def word_char_def)
  then show ?case using 1 by (subst b32_groups.simps) simp
qed

lemma word_char_facts: "word_char c \<Longrightarrow> graphic c \<and> c \<noteq> slash \<and> c \<noteq> CHR 0x5C"
  by (auto simp: word_char_def graphic_def byte_def)

lemma word_char_lower: "word_char c \<Longrightarrow> word_char (to_lower c)"
  by (auto simp: word_char_def to_lower_def is_upper_def byte_def)

lemma list_all_graphic: "list_all word_char s \<Longrightarrow> list_all graphic s"
  using word_char_facts by (simp add: list_all_iff)

lemma random_id_graphic: "list_all graphic (''jti_'' @ b32_encode v)" "list_all graphic (''ses_'' @ b32_encode v)"
  "list_all graphic (b32_encode v)"
  using list_all_graphic [OF b32_words] by (simp_all add: b32_encode_def graphic_def byte_def)

lemma PipeID_words: "list_all word_char (map to_lower (b32_encode s))"
  using b32_words [of "concat (map bits8 s)"] word_char_lower by (simp add: b32_encode_def list_all_iff)

lemma PipeID_graphic: "list_all graphic (PipeIDFromOwner C owner)"
  using list_all_graphic [OF PipeID_words] by (simp add: PipeIDFromOwner_def graphic_def byte_def)

lemma PipeID_component:
  assumes "length (sha256 C owner) = 32"
  shows "validPipeIDComponent (PipeIDFromOwner C owner)" "slash \<notin> set (PipeIDFromOwner C owner)"
proof -
  let ?s = "map to_lower (b32_encode (take 20 (sha256 C owner)))"
  have "slash \<notin> set ?s \<and> CHR 0x5C \<notin> set ?s"
    using PipeID_words [of "take 20 (sha256 C owner)"] word_char_facts unfolding list_all_iff by blast
  then show "validPipeIDComponent (PipeIDFromOwner C owner)" "slash \<notin> set (PipeIDFromOwner C owner)"
    using PipeIDFromOwner_length [OF assms]
    by (simp_all add: validPipeIDComponent_def PipeIDFromOwner_def HasPrefix_def bounds)
qed

text \<open>A minted lease has a wire form, and it reads back.\<close>

lemma minted_lease_wire:
  assumes "NewAccessLease C (Inr v) k subject pipe now lifetime epoch = Inr l" "keypair C k" "length v = 16"
    "ascii pipe" "writable now" "writable (now + lifetime)" "epoch < 2 ^ 64"
  obtains enc where "lease_wf l" "lease_Encode l = Inr enc" "lease_Decode enc = Inr l" "enc \<noteq> []"
proof -
  obtain v' p body where l: "l = \<lparr>al_Version = Version, al_Type = AccessLeaseType, al_Issuer = PublicString (Public k),
        al_Subject = subject, al_AudiencePipeID = pipe, al_JTI = ''jti_'' @ b32_encode v',
        al_IssuedAt = UTC now, al_NotBefore = UTC now, al_ExpiresAt = UTC (now + lifetime),
        al_AccessEpoch = epoch, al_Signature = PublicString (ed_sign C k body)\<rparr>"
    and c: "Inr v = (Inr v' :: string result)" "subject = PublicString p" "length p = PublicKeySize" "length pipe \<le> MaxPipeIDLen"
    using assms(1) by (rule NewAccessLease_Inr)
  have type: "ascii AccessLeaseType" "length AccessLeaseType \<le> 64"
    by (simp_all add: AccessLeaseType_def ascii_def byte_def)
  have len: "length (PublicString (Public k)) = 43" "length (PublicString p) = 43"
    "length (PublicString (ed_sign C k body)) = 86" "length (al_JTI l) = 30" "ascii (al_JTI l)"
    using graphic_ascii [OF random_id_graphic(1)] l c keypair_facts(1,2) [OF assms(2)] assms(3)
    by (simp_all add: PublicString_def length_b64_encode b32_encode_def length_b32_groups length_concat_bits8 bounds)
  have f: "al_Version l = Version" "al_Type l = AccessLeaseType" "al_Issuer l = PublicString (Public k)"
    "al_Subject l = PublicString p" "al_AudiencePipeID l = pipe" "al_IssuedAt l = UTC now" "al_NotBefore l = UTC now"
    "al_ExpiresAt l = UTC (now + lifetime)" "al_AccessEpoch l = epoch" "al_Signature l = PublicString (ed_sign C k body)"
    using l c(2) by simp_all
  have wf: "lease_wf l"
    using f c assms(4-7) len type by (simp add: lease_wf_def bounds ascii_PublicString writable_def)
  have t: "length (FormatUTC now) \<le> 30" "length (FormatUTC (now + lifetime)) \<le> 30"
    using length_FormatUTC assms(5,6) by (simp_all add: writable_def json_time_ok_def UTC_def)
  have a: "ascii (al_Type l)" "ascii (al_Issuer l)" "ascii (al_Subject l)" "ascii (al_AudiencePipeID l)" "ascii (al_JTI l)"
    "ascii (al_Signature l)" using wf by (simp_all add: lease_wf_def)
  have "length (decimal epoch) \<le> 20" "length (decimal (nat Version)) \<le> 1"
    using assms(7) length_decimal [of epoch 20] length_decimal [of "nat Version" 1] by (simp_all add: Version_def)
  moreover note length_json_string [OF a(1)] length_json_string [OF a(2)] length_json_string [OF a(3)]
    length_json_string [OF a(4)] length_json_string [OF a(5)] length_json_string [OF a(6)]
  ultimately have "sum_list (map (\<lambda>m. length (fst m) + length (snd m) + 4) (map field_text (lease_fields l))) \<le> 20000"
    using f len type(2) c(4) t by (simp add: lease_fields_def field_defs field_text_def UTC_def bounds)
  then have "length (json_object (map field_text (lease_fields l))) \<le> 20002"
    using length_json_object [of "map field_text (lease_fields l)"] by linarith
  then have "length (b64_encode (json_object (map field_text (lease_fields l)))) \<le> MaxBytes"
    by (simp add: length_b64_encode bounds)
  then have "lease_Encode l = Inr (b64_encode (json_object (map field_text (lease_fields l))))"
    by (simp add: lease_Encode_def lease_Marshal [OF wf] Let_def)
  then show thesis using that wf lease_Decode_Encode [OF wf] by (fastforce simp: json_object_def)
qed

text \<open>Strings JSON writes as they are.\<close>

definition unescaped :: "string \<Rightarrow> bool" where
  "unescaped s \<longleftrightarrow> list_all (\<lambda>c. byte c < 0x80 \<and> escape_byte c = [c]) s"

lemma unescaped_ascii: "unescaped s \<Longrightarrow> ascii s"
  by (simp add: unescaped_def ascii_def list_all_iff)

lemma length_unescaped: "unescaped s \<Longrightarrow> length (json_string s) = length s + 2"
proof -
  assume u: "unescaped s"
  then have "concat (map escape_byte s) = s" by (induction s) (auto simp: unescaped_def)
  then show ?thesis using json_escape_ascii [OF unescaped_ascii [OF u]] by (simp add: json_string_def)
qed

lemma escape_plain:
  assumes "32 \<le> byte c" "byte c \<notin> {0x22, 0x26, 0x3C, 0x3E, 0x5C}"
  shows "escape_byte c = [c]"
proof -
  have "c \<notin> set ''<>&''" using assms(2) by (auto simp: byte_def)
  then show ?thesis using assms by (simp add: escape_byte_def)
qed

lemma word_unescaped: "word_char c \<Longrightarrow> byte c < 0x80 \<and> escape_byte c = [c]"
  by (auto simp: word_char_def intro!: escape_plain)

lemma list_unescaped: "list_all word_char s \<Longrightarrow> unescaped s"
  using word_unescaped by (simp add: unescaped_def list_all_iff)

lemma b64_unescaped: "unescaped (b64_encode s)"
proof -
  have "byte (b64_char n) < 0x80 \<and> escape_byte (b64_char n) = [b64_char n]" if "n < 64" for n
  proof (cases "n < 62")
    case True
    then have "word_char (b64_char n)" by (auto simp: b64_char_def word_char_def)
    then show ?thesis by (rule word_unescaped)
  next
    case False
    then have "n = 62 \<or> n = 63" using that by auto
    then show ?thesis by (auto simp: b64_char_def byte_def intro!: escape_plain)
  qed
  then show ?thesis
    using b64_vals_less [of s] by (simp add: unescaped_def list_all_iff b64_encode_map)
qed

lemma PublicString_unescaped: "unescaped (PublicString p)"
  by (simp add: PublicString_def b64_unescaped)

lemma unescaped_append [simp]: "unescaped (s @ t) \<longleftrightarrow> unescaped s \<and> unescaped t"
  by (simp add: unescaped_def)

lemma prefix_unescaped: "unescaped ''jti_''" "unescaped ''pip_''"
  by (simp_all add: unescaped_def escape_plain byte_def)

lemma ids_unescaped: "unescaped (''jti_'' @ b32_encode v)" "unescaped (PipeIDFromOwner C owner)"
  using list_unescaped [OF b32_words] list_unescaped [OF PipeID_words] prefix_unescaped
  unfolding b32_encode_def PipeIDFromOwner_def unescaped_append by blast+

lemma binding_size:
  assumes "NewOwnerBinding C owner a pipe epoch peers proto = Inr b" "keypair C owner" "binding_wf b"
    "unescaped peers" "unescaped proto" "length pipe = 36" "unescaped pipe" "EncodeOwnerBinding b = Inr enc"
  shows "length enc \<le> 2200"
proof -
  obtain body where b: "b = \<lparr>ob_Version = Version, ob_Type = OwnerBindingType, ob_Owner = PublicString (Public owner),
        ob_AuthorityKey = PublicString a, ob_PipeID = pipe, ob_RedemptionPeers = peers,
        ob_RedemptionProtocol = proto, ob_Epoch = epoch, ob_Signature = PublicString (ed_sign C owner body)\<rparr>"
    and c: "length a = PublicKeySize" "length peers \<le> MaxRedemptionAddrLen" "length proto \<le> MaxRedemptionProtocolLen"
      "length (Public owner) = PublicKeySize"
    using assms(1) by (rule NewOwnerBinding_Inr)
  have type: "unescaped OwnerBindingType" "length OwnerBindingType = 19"
    by (simp_all add: OwnerBindingType_def unescaped_def escape_plain byte_def)
  have f: "ob_Version b = Version" "ob_Type b = OwnerBindingType" "ob_Owner b = PublicString (Public owner)"
    "ob_AuthorityKey b = PublicString a" "ob_PipeID b = pipe" "ob_RedemptionPeers b = peers"
    "ob_RedemptionProtocol b = proto" "ob_Epoch b = epoch" "ob_Signature b = PublicString (ed_sign C owner body)"
    using b by simp_all
  have len: "length (PublicString (Public owner)) = 43" "length (PublicString a) = 43"
    "length (PublicString (ed_sign C owner body)) = 86"
    using c keypair_facts(2) [OF assms(2)] by (simp_all add: PublicString_def length_b64_encode bounds)
  have "epoch < 2 ^ 64" using assms(3) f by (simp add: binding_wf_def)
  then have "length (decimal epoch) \<le> 20" "length (decimal (nat Version)) \<le> 1"
    using length_decimal [of epoch 20] length_decimal [of "nat Version" 1] by (simp_all add: Version_def)
  then have "sum_list (map (\<lambda>m. length (fst m) + length (snd m) + 4) (map field_text (binding_fields b))) \<le> 1600"
    using f len type c(2,3) assms(4-7) PublicString_unescaped
    by (simp add: binding_fields_def opt_field_def field_defs field_text_def length_unescaped bounds)
  then have "length (json_object (map field_text (binding_fields b))) \<le> 1602"
    using length_json_object [of "map field_text (binding_fields b)"] by linarith
  moreover have "enc = b64_encode (json_object (map field_text (binding_fields b)))"
    using assms(8) binding_Marshal [OF assms(3)] by (auto simp: EncodeOwnerBinding_def Let_def split: if_splits)
  ultimately show ?thesis by (simp add: length_b64_encode)
qed

lemma minted_invite_wire:
  assumes "NewExactInvite C (Inr v) k b pipe t0 lifetime ep = Inr invite" "keypair C k" "length v = 16"
    "EncodeOwnerBinding b = Inr benc" "length benc \<le> 2200" "unescaped benc" "unescaped pipe"
    "writable t0" "writable (t0 + lifetime)" "ep < 2 ^ 64"
  obtains enc where "invite_wf invite" "EncodeInvite invite = Inr enc" "length enc \<le> 8192" "ei_AccessEpoch invite = ep"
proof -
  obtain benc' v' body where i: "invite = \<lparr>ei_Version = Version, ei_Type = InviteType, ei_Issuer = PublicString (Public k),
        ei_AudiencePipeID = pipe, ei_Binding = benc', ei_JTI = ''jti_'' @ b32_encode v',
        ei_IssuedAt = UTC t0, ei_NotBefore = UTC t0, ei_ExpiresAt = UTC (t0 + lifetime),
        ei_AccessEpoch = ep, ei_OneTime = True, ei_Signature = PublicString (ed_sign C k body)\<rparr>"
    and c: "Inr v = (Inr v' :: string result)" "EncodeOwnerBinding b = Inr benc'" "length pipe \<le> MaxPipeIDLen"
    using assms(1) by (rule NewExactInvite_Inr)
  have type: "unescaped InviteType" "length InviteType \<le> 64"
    by (simp_all add: InviteType_def unescaped_def escape_plain byte_def)
  have f: "ei_Version invite = Version" "ei_Type invite = InviteType" "ei_Issuer invite = PublicString (Public k)"
    "ei_AudiencePipeID invite = pipe" "ei_Binding invite = benc" "ei_IssuedAt invite = UTC t0" "ei_NotBefore invite = UTC t0"
    "ei_ExpiresAt invite = UTC (t0 + lifetime)" "ei_AccessEpoch invite = ep" "ei_OneTime invite"
    "ei_Signature invite = PublicString (ed_sign C k body)"
    using i c(2) assms(4) by simp_all
  have len: "length (PublicString (Public k)) = 43" "length (PublicString (ed_sign C k body)) = 86"
    "length (ei_JTI invite) = 30" "unescaped (ei_JTI invite)"
    using i c(1) keypair_facts(1,2) [OF assms(2)] assms(3) ids_unescaped(1) [of v']
    by (simp_all add: PublicString_def length_b64_encode b32_encode_def length_b32_groups length_concat_bits8 bounds)
  have wf: "invite_wf invite"
    using f c(3) assms(5-10) len unescaped_ascii type
    by (simp add: invite_wf_def bounds ascii_PublicString writable_def)
  have t: "length (FormatUTC t0) \<le> 30" "length (FormatUTC (t0 + lifetime)) \<le> 30"
    using length_FormatUTC assms(8,9) by (simp_all add: writable_def json_time_ok_def UTC_def)
  have "length (decimal ep) \<le> 20" "length (decimal (nat Version)) \<le> 1"
    using assms(10) length_decimal [of ep 20] length_decimal [of "nat Version" 1] by (simp_all add: Version_def)
  then have "sum_list (map (\<lambda>m. length (fst m) + length (snd m) + 4) (map field_text (invite_fields invite))) \<le> 4000"
    using f len type c(3) t assms(5-7) PublicString_unescaped
    by (simp add: invite_fields_def field_defs field_text_def UTC_def length_unescaped json_bool_def bounds)
  then have "length (json_object (map field_text (invite_fields invite))) \<le> 4002"
    using length_json_object [of "map field_text (invite_fields invite)"] by linarith
  then have "length (b64_encode (json_object (map field_text (invite_fields invite)))) \<le> 8192"
    by (simp add: length_b64_encode)
  moreover from this have "EncodeInvite invite = Inr (b64_encode (json_object (map field_text (invite_fields invite))))"
    by (simp add: EncodeInvite_def invite_Marshal [OF wf] Let_def bounds)
  ultimately show thesis using that wf f(9) by blast
qed

text \<open>Sharing a Pipe with plain redemption addresses always yields an invite the redemption handler reads.\<close>

lemma share_complete:
  assumes keys: "keypair C owner" "keypair C k" "length (sha256 C (Public owner)) = 32"
    and peers: "length peers \<le> MaxRedemptionAddrLen" "length (Split peers (CHR '','')) \<le> MaxRedemptionAddresses"
      "length proto \<le> MaxRedemptionProtocolLen" "unescaped peers" "unescaped proto" "bepoch < 2 ^ 64" "ep < 2 ^ 64"
    and window: "0 < lifetime" "lifetime \<le> MaxTTL" "writable t0" "writable (t0 + lifetime)" "length v = 16"
  defines "pipe \<equiv> PipeIDFromOwner C (Public owner)"
  obtains b invite enc where
    "NewOwnerBinding C owner (Public k) pipe bepoch peers proto = Inr b" "binding_wf b"
    "NewExactInvite C (Inr v) k b pipe t0 lifetime ep = Inr invite" "invite_wf invite"
    "EncodeInvite invite = Inr enc" "length enc \<le> 8192" "ei_AccessEpoch invite = ep"
proof -
  obtain b benc where b: "NewOwnerBinding C owner (Public k) pipe bepoch peers proto = Inr b" "binding_wf b"
    "EncodeOwnerBinding b = Inr benc"
    unfolding pipe_def
    by (rule NewOwnerBinding_complete [OF keys(1) keypair_facts(1) [OF keys(2)] keys(3) peers(1-3)
        unescaped_ascii [OF peers(4)] unescaped_ascii [OF peers(5)] peers(6)])
  have len: "length pipe = 36" using PipeIDFromOwner_length [OF keys(3)] by (simp add: pipe_def)
  then have p: "validString pipe" "length pipe \<le> MaxPipeIDLen" by (auto simp: validString_def bounds)
  have u: "unescaped pipe" by (simp add: pipe_def ids_unescaped)
  note oa = NewOwnerBinding_verifies(2) [OF b(1) keys(1)]
  obtain invite where i: "NewExactInvite C (Inr v) k b pipe t0 lifetime ep = Inr invite"
    using NewExactInvite_complete [OF oa _ b(3) p window(1-4)] by fastforce
  have "unescaped benc"
    using b(3) b64_unescaped by (auto simp: EncodeOwnerBinding_def Let_def result_simps split: if_splits)
  then show thesis
    using that [OF b(1,2) i] minted_invite_wire [OF i keys(2) window(5) b(3) binding_size [OF b(1) keys(1) b(2) peers(4,5) len u b(3)]
        _ u window(3,4) peers(7)] by blast
qed

end
