(* ===== verification/ExactFlow.thy ===== *)
theory ExactFlow
  imports ExactHandlers Minting
begin

text \<open>
  The exact access protocol end to end: what a granted redemption, renewal or open establishes, that a
  revocation fences all three, and that the honest exchange goes through.
\<close>

section \<open>Granted redemptions and renewals\<close>

lemma redeemed_lease:
  assumes "RedeemExactInvite C clock srnd jrnd fs now enc rcpt chal prf loader (Some (RevocationAdapter p)) (Some RedemptionAdapter) lt db = (Inr l, db')"
    "DecodeInvite enc = Inr invite" "now \<noteq> zero_time"
  shows "al_Subject l = rcpt" "al_AudiencePipeID l = ei_AudiencePipeID invite" "al_AccessEpoch l = ei_AccessEpoch invite"
    "instant (al_ExpiresAt l) \<le> instant (ei_ExpiresAt invite)" "instant (al_ExpiresAt l) \<le> now + MaxTTL"
    "ei_AccessEpoch invite = epoch_of db (p, ''pipe-access'', ei_AudiencePipeID invite)"
    "get (revocations db) (p, ''exact.invite'', ei_JTI invite) = None"
    "redeemed_by db' (ei_JTI invite) (ei_AudiencePipeID invite) = Some rcpt"
    "redeemed_by db (ei_JTI invite) (ei_AudiencePipeID invite) \<in> {None, Some rcpt}"
    "invite_Verify C clock now (ei_AudiencePipeID invite) invite = None"
    "\<exists>key. PublicFromString rcpt = Inr key
       \<and> VerifyProof C key prf RedeemProofPurpose [ei_JTI invite, ei_AudiencePipeID invite, chal]"
    "\<exists>k. Load C fs (ld_KeyPath loader) = Inr k \<and> al_Issuer l = PublicString (Public k)"
proof -
  obtain i auth where s: "redeem_credentials C clock fs now enc rcpt chal prf loader = Inr (i, auth)"
    "\<not> revoked_in p db ''exact.invite'' (ei_JTI i)" "epoch_in p db ''pipe-access'' (ei_AudiencePipeID i) = ei_AccessEpoch i"
    "redeemed_by db' (ei_JTI i) (ei_AudiencePipeID i) = Some rcpt"
    "redeemed_by db (ei_JTI i) (ei_AudiencePipeID i) = None
       \<and> relationship db' (ei_AudiencePipeID i) rcpt = Some (ei_JTI i, ei_AccessEpoch i)
     \<or> redeemed_by db (ei_JTI i) (ei_AudiencePipeID i) = Some rcpt \<and> db' = db"
    "NewAccessLease C jrnd (au_Private auth) rcpt (ei_AudiencePipeID i) now (redeem_lifetime i now lt) (ei_AccessEpoch i) = Inr l"
    using assms(1) by (rule store_redeem.redeem_success)
  note cr = redeem_credentials_Inr [OF s(1)]
  have i: "i = invite" using cr(1) assms(2) by simp
  have "now < instant (ei_ExpiresAt i)" using invite_VerifyD(5) [OF cr(2)] assms(3) by simp
  note lt = redeem_lifetime_bounds(2) [of i now lt] redeem_lifetime_bounds(3) [OF this, of lt]
  obtain v q body where l: "l = \<lparr>al_Version = Version, al_Type = AccessLeaseType,
        al_Issuer = PublicString (Public (au_Private auth)), al_Subject = rcpt, al_AudiencePipeID = ei_AudiencePipeID i,
        al_JTI = ''jti_'' @ b32_encode v, al_IssuedAt = UTC now, al_NotBefore = UTC now,
        al_ExpiresAt = UTC (now + redeem_lifetime i now lt), al_AccessEpoch = ei_AccessEpoch i,
        al_Signature = PublicString (ed_sign C (au_Private auth) body)\<rparr>"
    using s(6) by (rule NewAccessLease_Inr)
  show "al_Subject l = rcpt" "al_AudiencePipeID l = ei_AudiencePipeID invite" "al_AccessEpoch l = ei_AccessEpoch invite"
    "instant (al_ExpiresAt l) \<le> instant (ei_ExpiresAt invite)" "instant (al_ExpiresAt l) \<le> now + MaxTTL"
    using l lt by (simp_all add: i UTC_def)
  show "ei_AccessEpoch invite = epoch_of db (p, ''pipe-access'', ei_AudiencePipeID invite)"
    "get (revocations db) (p, ''exact.invite'', ei_JTI invite) = None"
    "redeemed_by db' (ei_JTI invite) (ei_AudiencePipeID invite) = Some rcpt"
    "redeemed_by db (ei_JTI invite) (ei_AudiencePipeID invite) \<in> {None, Some rcpt}"
    "invite_Verify C clock now (ei_AudiencePipeID invite) invite = None"
    "\<exists>key. PublicFromString rcpt = Inr key
       \<and> VerifyProof C key prf RedeemProofPurpose [ei_JTI invite, ei_AudiencePipeID invite, chal]"
    using s(2-5) cr(2,5) by (auto simp: i revoked_in_def epoch_in_def)
  show "\<exists>k. Load C fs (ld_KeyPath loader) = Inr k \<and> al_Issuer l = PublicString (Public k)"
    using Loader_Load_Inr(1) [OF cr(3)] l by simp
qed

lemma renewed_lease:
  assumes "RenewAcceptedAccess C jrnd fs now p rcpt benc chal prf loader (Some (RevocationAdapter p)) (Some AcceptedAdapter) lt db = Inr l"
  obtains jti k where "relationship db p rcpt = Some (jti, al_AccessEpoch l)"
    "get (revocations db) (p, ''exact.invite'', jti) = None"
    "al_AccessEpoch l = epoch_of db (p, ''pipe-access'', p)"
    "al_Subject l = rcpt" "al_AudiencePipeID l = p" "instant (al_ExpiresAt l) \<le> now + MaxTTL"
    "\<exists>key. PublicFromString rcpt = Inr key \<and> VerifyProof C key prf RenewProofPurpose [p, chal]"
    "Load C fs (ld_KeyPath loader) = Inr k" "al_Issuer l = PublicString (Public k)"
proof -
  obtain jti ep auth key binding where s: "relationship db p rcpt = Some (jti, ep)"
    "\<not> revoked_in p db ''exact.invite'' jti" "epoch_in p db ''pipe-access'' p = ep"
    "PublicFromString rcpt = Inr key" "VerifyProof C key prf RenewProofPurpose [p, chal]"
    "Loader_Load C fs loader = Inr auth" "NewAccessLeaseForReissuance C jrnd auth rcpt p now lt ep = Inr l"
    using assms by (rule store_renew.renew_success)
  define life where "life = (if lt \<le> 0 \<or> lt > MaxTTL then MaxTTL else lt)"
  have "NewAccessLease C jrnd (au_Private auth) rcpt p now life ep = Inr l"
    using s(7) by (simp only: NewAccessLeaseForReissuance_def life_def)
  then obtain v q body where l: "l = \<lparr>al_Version = Version, al_Type = AccessLeaseType,
        al_Issuer = PublicString (Public (au_Private auth)), al_Subject = rcpt, al_AudiencePipeID = p,
        al_JTI = ''jti_'' @ b32_encode v, al_IssuedAt = UTC now, al_NotBefore = UTC now,
        al_ExpiresAt = UTC (now + life), al_AccessEpoch = ep,
        al_Signature = PublicString (ed_sign C (au_Private auth) body)\<rparr>" "life \<le> MaxTTL"
    by (rule NewAccessLease_Inr)
  have e: "al_AccessEpoch l = ep" "al_Subject l = rcpt" "al_AudiencePipeID l = p"
    "instant (al_ExpiresAt l) \<le> now + MaxTTL" "al_Issuer l = PublicString (Public (au_Private auth))"
    using l by (simp_all add: UTC_def)
  show thesis
  proof (rule that [of jti "au_Private auth"])
    show "relationship db p rcpt = Some (jti, al_AccessEpoch l)" using s(1) e(1) by simp
    show "get (revocations db) (p, ''exact.invite'', jti) = None" using s(2) by (simp add: revoked_in_def)
    show "al_AccessEpoch l = epoch_of db (p, ''pipe-access'', p)" using s(3) e(1) by (simp add: epoch_in_def)
    show "\<exists>key. PublicFromString rcpt = Inr key \<and> VerifyProof C key prf RenewProofPurpose [p, chal]"
      using s(4,5) by blast
    show "Load C fs (ld_KeyPath loader) = Inr (au_Private auth)" using Loader_Load_Inr(1) [OF s(6)] .
  qed (rule e)+
qed

section \<open>Completeness of the services\<close>

lemma redeem_credentials_complete:
  assumes b: "NewOwnerBinding C owner (Public k) pipe bepoch peers proto = Inr b" "keypair C owner" "binding_wf b"
      "Public k \<noteq> Public owner"
    and i: "NewExactInvite C (Inr v) k b pipe t0 lifetime ep = Inr invite" "keypair C k" "length v = 16" "invite_wf invite"
      "EncodeInvite invite = Inr enc"
    and t: "t0 \<noteq> zero_time" "now \<noteq> zero_time" "t0 \<le> now + MaxClockSkew" "now < t0 + lifetime"
    and load: "Load C fs path = Inr k"
    and c: "keypair C ck" "chal \<noteq> []"
  shows "\<exists>auth. redeem_credentials C clock fs now enc (PublicString (Public ck)) chal
      (SignProof C ck RedeemProofPurpose [ei_JTI invite, ei_AudiencePipeID invite, chal])
      \<lparr>ld_KeyPath = path, ld_Binding = b\<rparr> = Inr (invite, auth) \<and> au_Private auth = k"
proof -
  obtain benc v' body oa where s: "invite = \<lparr>ei_Version = Version, ei_Type = InviteType, ei_Issuer = PublicString (Public k),
        ei_AudiencePipeID = pipe, ei_Binding = benc, ei_JTI = ''jti_'' @ b32_encode v',
        ei_IssuedAt = UTC t0, ei_NotBefore = UTC t0, ei_ExpiresAt = UTC (t0 + lifetime),
        ei_AccessEpoch = ep, ei_OneTime = True, ei_Signature = PublicString (ed_sign C k body)\<rparr>"
    "EncodeOwnerBinding b = Inr benc"
    using i(1) by (rule NewExactInvite_Inr)
  have inv: "ei_Issuer invite = PublicString (Public k)" "ei_AudiencePipeID invite = pipe" "ei_Binding invite = benc"
    "ei_OneTime invite" using s(1) by simp_all
  obtain bbody where bb: "b = \<lparr>ob_Version = Version, ob_Type = OwnerBindingType, ob_Owner = PublicString (Public owner),
        ob_AuthorityKey = PublicString (Public k), ob_PipeID = pipe, ob_RedemptionPeers = peers,
        ob_RedemptionProtocol = proto, ob_Epoch = bepoch, ob_Signature = PublicString (ed_sign C owner bbody)\<rparr>"
    "VerifyPipeOwner C pipe (Public owner)" "length (Public owner) = PublicKeySize"
    using b(1) by (rule NewOwnerBinding_Inr)
  have fields: "ob_Owner b = PublicString (Public owner)" "ob_AuthorityKey b = PublicString (Public k)" "ob_PipeID b = pipe"
    using bb(1) by simp_all
  note ver = NewOwnerBinding_verifies [OF b(1,2)]
  have dec: "DecodeOwnerBinding benc = Inr b" using DecodeOwnerBinding_Encode [OF b(3) s(2)] .
  have "length k = PrivateKeySize" using i(2) by (simp add: keypair_def bounds)
  then obtain auth where auth: "Loader_Load C fs \<lparr>ld_KeyPath = path, ld_Binding = b\<rparr> = Inr auth" "au_Private auth = k"
    using load ver(2) b(4) by (auto simp: Loader_Load_def fromBinding_def)
  have V: "invite_Verify C clock now pipe invite = None"
    using NewExactInvite_verifies [OF i(1,2) b(3) _ t(1) t(2-4)] i(3) by simp
  have pf: "PublicFromString (PublicString (Public ck)) = Inr (Public ck)"
    "PublicFromString (PublicString (Public owner)) = Inr (Public owner)"
    using keypair_facts(1) [OF c(1)] bb(3) by simp_all
  show ?thesis
    using auth V pf dec DecodeInvite_Encode [OF i(4,5)] ver(1) bb(2) fields inv c(2) VerifyProof_SignProof [OF c(1)]
    by (simp add: redeem_credentials_def or_ea_def)
qed

text \<open>With credentials in order and the store in service, the redemption goes through.\<close>

definition redeemable :: "Store \<Rightarrow> ExactInvite \<Rightarrow> string \<Rightarrow> bool" where
  "redeemable db invite rcpt \<longleftrightarrow>
     (let pipe = ei_AudiencePipeID invite in
      db_fault db = None \<and> get (revocations db) (pipe, ''exact.invite'', ei_JTI invite) = None
      \<and> epoch_of db (pipe, ''pipe-access'', pipe) = ei_AccessEpoch invite \<and> ei_AccessEpoch invite < 2 ^ 63
      \<and> (redeemed_by db (ei_JTI invite) pipe = None \<or> redeemed_by db (ei_JTI invite) pipe = Some rcpt))"

lemma RedeemInviteAndAccept_frame:
  assumes "RedeemInviteAndAccept jti p sid c ep now db = (Inr ok, db')"
  shows "revocations db' = revocations db" "db_fault db' = db_fault db"
proof -
  have "revocations db' = revocations db \<and> db_fault db' = db_fault db"
    using RedeemInviteAndAccept_first(2) [OF assms] RedeemInviteAndAccept_Inr(3) [OF assms]
    by (cases "redeemed_by db jti p = None") auto
  then show "revocations db' = revocations db" "db_fault db' = db_fault db" by blast+
qed

lemma redeem_complete:
  assumes cr: "redeem_credentials C clock fs now enc rcpt chal prf loader = Inr (invite, auth)"
    and key: "rcpt = PublicString q" "length q = PublicKeySize"
    and db: "redeemable db invite rcpt" and ids: "list_all graphic (ei_AudiencePipeID invite)" "list_all graphic (ei_JTI invite)"
    and t: "writable now" "writable (now + redeem_lifetime invite now lt)"
  obtains l db' where
    "RedeemExactInvite C clock (Inr sv) (Inr jv) fs now enc rcpt chal prf loader
       (Some (RevocationAdapter (ei_AudiencePipeID invite))) (Some RedemptionAdapter) lt db = (Inr l, db')"
    "NewAccessLease C (Inr jv) (au_Private auth) rcpt (ei_AudiencePipeID invite) now (redeem_lifetime invite now lt)
       (ei_AccessEpoch invite) = Inr l"
    "revocations db' = revocations db" "db_fault db' = None"
proof -
  let ?p = "ei_AudiencePipeID invite"
  note V = redeem_credentials_Inr(2) [OF cr]
  have p: "validString ?p" "length ?p \<le> MaxPipeIDLen" "?p \<noteq> []" "ei_JTI invite \<noteq> []"
    using invite_VerifyD(10-12) [OF V] by (auto simp: validString_def HasPrefix_def)
  have "rcpt \<noteq> []" "list_all graphic rcpt"
    using key by (auto simp: PublicString_def bounds b64_encode_graphic)
  then have blanks: "\<not> blank (ei_JTI invite)" "\<not> blank ?p" "\<not> blank (''ses_'' @ b32_encode sv)" "\<not> blank rcpt"
    using graphic_not_blank ids p(3,4) random_id_graphic(2) [of sv] by blast+
  note d = db [unfolded redeemable_def Let_def]
  have st: "redeem_state (RevocationAdapter ?p) db invite = None"
    using d IsRevoked_Inr [of db ?p "''exact.invite''" "ei_JTI invite" False]
      RevocationEpoch_Inr [of db ?p "''pipe-access''" ?p "ei_AccessEpoch invite"]
    by (simp add: redeem_state_def)
  have ses: "NewSessionID (Inr sv) = Inr (''ses_'' @ b32_encode sv)" by (simp add: NewSessionID_def randomID_def)
  have "fst (RedeemInviteAndAccept (ei_JTI invite) ?p (''ses_'' @ b32_encode sv) rcpt (ei_AccessEpoch invite) now db) = Inr True"
    using RedeemInviteAndAccept_complete [OF blanks] d by blast
  then obtain db' where r: "RedeemInviteAndAccept (ei_JTI invite) ?p (''ses_'' @ b32_encode sv) rcpt (ei_AccessEpoch invite) now db
      = (Inr True, db')" by (metis prod.collapse)
  obtain l where l: "NewAccessLease C (Inr jv) (au_Private auth) rcpt ?p now (redeem_lifetime invite now lt)
      (ei_AccessEpoch invite) = Inr l"
    using NewAccessLease_complete [OF key(2) p(1,2) redeem_lifetime_bounds(1,2) t] key(1) by blast
  have "RedeemExactInvite C clock (Inr sv) (Inr jv) fs now enc rcpt chal prf loader (Some (RevocationAdapter ?p))
      (Some RedemptionAdapter) lt db = (Inr l, db')"
    using cr st ses r l by (simp add: RedeemExactInvite_def)
  then show thesis using that l RedeemInviteAndAccept_frame [OF r] d by simp
qed

section \<open>The honest exchange\<close>

text \<open>An owner's side that is set up: the binding of a dedicated authority key, an invite the authority minted on it,
  and the key file where the handler looks for it.\<close>

definition shared ::
  "crypto \<Rightarrow> FS \<Rightarrow> string \<Rightarrow> string \<Rightarrow> string \<Rightarrow> OwnerBinding \<Rightarrow> ExactInvite \<Rightarrow> gotime \<Rightarrow> int \<Rightarrow> bool" where
  "shared C fs home owner k b invite t0 lifetime \<longleftrightarrow>
     keypair C owner \<and> keypair C k \<and> Public k \<noteq> Public owner \<and> length (sha256 C (Public owner)) = 32 \<and> binding_wf b
     \<and> (\<exists>bepoch peers proto. NewOwnerBinding C owner (Public k) (PipeIDFromOwner C (Public owner)) bepoch peers proto = Inr b)
     \<and> (\<exists>v ep. NewExactInvite C (Inr v) k b (PipeIDFromOwner C (Public owner)) t0 lifetime ep = Inr invite \<and> length v = 16)
     \<and> writable t0 \<and> invite_wf invite
     \<and> (\<exists>path. KeyPath (SecretPath home []) (PipeIDFromOwner C (Public owner)) = Inr path \<and> Load C fs path = Inr k)"

lemma shared_fields:
  assumes "shared C fs home owner k b invite t0 lifetime"
  shows "ei_AudiencePipeID invite = PipeIDFromOwner C (Public owner)" "ei_Issuer invite = PublicString (Public k)"
    "list_all graphic (ei_JTI invite)" "instant (ei_ExpiresAt invite) = t0 + lifetime"
    "\<exists>enc. EncodeOwnerBinding b = Inr enc \<and> ei_Binding invite = enc" "DecodeOwnerBinding (ei_Binding invite) = Inr b"
proof -
  from assms obtain v ep where
    "NewExactInvite C (Inr v) k b (PipeIDFromOwner C (Public owner)) t0 lifetime ep = Inr invite"
    by (auto simp: shared_def)
  then obtain enc v' body where "invite = \<lparr>ei_Version = Version, ei_Type = InviteType, ei_Issuer = PublicString (Public k),
        ei_AudiencePipeID = PipeIDFromOwner C (Public owner), ei_Binding = enc, ei_JTI = ''jti_'' @ b32_encode v',
        ei_IssuedAt = UTC t0, ei_NotBefore = UTC t0, ei_ExpiresAt = UTC (t0 + lifetime),
        ei_AccessEpoch = ep, ei_OneTime = True, ei_Signature = PublicString (ed_sign C k body)\<rparr>"
    "EncodeOwnerBinding b = Inr enc" by (rule NewExactInvite_Inr)
  moreover have "binding_wf b" using assms by (simp add: shared_def)
  ultimately show "ei_AudiencePipeID invite = PipeIDFromOwner C (Public owner)" "ei_Issuer invite = PublicString (Public k)"
    "list_all graphic (ei_JTI invite)" "instant (ei_ExpiresAt invite) = t0 + lifetime"
    "\<exists>enc. EncodeOwnerBinding b = Inr enc \<and> ei_Binding invite = enc" "DecodeOwnerBinding (ei_Binding invite) = Inr b"
    using random_id_graphic(1) [of v'] DecodeOwnerBinding_Encode by (simp_all add: UTC_def del: append_Cons append_Nil)
qed

lemma redemption_handle_complete:
  assumes sh: "shared C fs home owner k b invite t0 lifetime" and enc: "EncodeInvite invite = Inr enc" "length enc \<le> 8192"
    and t: "t0 \<le> now + MaxClockSkew" "now < t0 + lifetime" "writable now" "writable (now + redeem_lifetime invite now (eh_leaseTTL h))"
    and h: "eh_pipeID h = ei_AudiencePipeID invite" and c: "keypair C ck"
    and db: "redeemable db invite (PublicString (Public ck))" and v: "length cv = 24" "length jv = 16"
  defines "chal \<equiv> b32_encode cv"
  obtains l lenc db' where
    "redemption_admit h (Inr \<lparr>rq_Invite = enc\<rparr>) = Inr invite"
    "redemption_handle C now (Inr cv) (Inr sv) (Inr jv) fs home h (Inr \<lparr>rq_Invite = enc\<rparr>) (\<lambda>_. None)
       (\<lambda>_. Inr (redeem_proof C ck invite (PublicString (Public ck)) chal)) db
     = (Some (grant lenc l), db')"
    "NewAccessLease C (Inr jv) k (PublicString (Public ck)) (ei_AudiencePipeID invite) now
       (redeem_lifetime invite now (eh_leaseTTL h)) (ei_AccessEpoch invite) = Inr l"
    "lease_Decode lenc = Inr l" "lenc \<noteq> []" "revocations db' = revocations db" "db_fault db' = None"
proof -
  note s = sh [unfolded shared_def]
  note f = shared_fields [OF sh]
  obtain bepoch peers proto v1 ep path where o:
    "NewOwnerBinding C owner (Public k) (PipeIDFromOwner C (Public owner)) bepoch peers proto = Inr b"
    "NewExactInvite C (Inr v1) k b (PipeIDFromOwner C (Public owner)) t0 lifetime ep = Inr invite" "length v1 = 16"
    "KeyPath (SecretPath home []) (PipeIDFromOwner C (Public owner)) = Inr path" "Load C fs path = Inr k"
    using s by blast
  have z: "now \<noteq> zero_time" "t0 \<noteq> zero_time" using t(3) s by (auto simp: writable_def)
  have chal: "chal \<noteq> []" using v(1)
    by (auto simp: chal_def b32_encode_def length_b32_groups length_concat_bits8 simp flip: length_0_conv)
  obtain auth where cr: "redeem_credentials C now fs now enc (PublicString (Public ck)) chal
      (SignProof C ck RedeemProofPurpose [ei_JTI invite, ei_AudiencePipeID invite, chal])
      \<lparr>ld_KeyPath = path, ld_Binding = b\<rparr> = Inr (invite, auth)" "au_Private auth = k"
    using redeem_credentials_complete [OF o(1) _ _ _ o(2) _ o(3) _ enc(1) z(2,1) t(1,2) o(5) c chal, of now] s by blast
  have g: "list_all graphic (ei_AudiencePipeID invite)" using PipeID_graphic by (simp add: f(1))
  obtain l db' where r: "RedeemExactInvite C now (Inr sv) (Inr jv) fs now enc (PublicString (Public ck)) chal
      (SignProof C ck RedeemProofPurpose [ei_JTI invite, ei_AudiencePipeID invite, chal]) \<lparr>ld_KeyPath = path, ld_Binding = b\<rparr>
      (Some (RevocationAdapter (ei_AudiencePipeID invite))) (Some RedemptionAdapter) (eh_leaseTTL h) db = (Inr l, db')"
    and l: "NewAccessLease C (Inr jv) (au_Private auth) (PublicString (Public ck)) (ei_AudiencePipeID invite) now
      (redeem_lifetime invite now (eh_leaseTTL h)) (ei_AccessEpoch invite) = Inr l"
    and d: "revocations db' = revocations db" "db_fault db' = None"
    using redeem_complete [OF cr(1) refl keypair_facts(1) [OF c] db g f(3) t(3,4)] by blast
  have ep: "ei_AccessEpoch invite < 2 ^ 64" using db by (simp add: redeemable_def Let_def)
  have asc: "ascii (ei_AudiencePipeID invite)" using g by (rule graphic_ascii)
  have kk: "keypair C k" using s by blast
  obtain lenc where w: "lease_Encode l = Inr lenc" "lease_Decode lenc = Inr l" "lenc \<noteq> []"
    using l unfolding cr(2) by (rule minted_lease_wire [OF _ kk v(2) asc t(3,4) ep])
  have dec: "DecodeInvite enc = Inr invite" using DecodeInvite_Encode enc(1) s by blast
  have "enc \<noteq> []"
    using enc(1) by (auto simp: EncodeInvite_def Marshal_def Let_def result_simps json_object_def split: if_splits)
  with dec have adm: "redemption_admit h (Inr \<lparr>rq_Invite = enc\<rparr>) = Inr invite"
    using enc(2) h by (simp add: redemption_admit_def or_wire_def)
  have len: "\<not> 8192 < length (PublicString (Public ck))" "\<And>ps. \<not> 8192 < length (SignProof C ck RedeemProofPurpose ps)"
    using keypair_facts(1,2) [OF c] by (simp_all add: PublicString_def SignProof_def length_b64_encode bounds)
  have "redemption_loader C fs home h invite (Inr (redeem_proof C ck invite (PublicString (Public ck)) chal))
     = Inr (redeem_proof C ck invite (PublicString (Public ck)) chal, \<lparr>ld_KeyPath = path, ld_Binding = b\<rparr>)"
    using len o(4,5) f(1,6) h by (simp add: redemption_loader_def or_wire_def redeem_proof_def)
  then show thesis
    using that [OF adm _ l [unfolded cr(2)] w(2,3) d] adm r w(1) h
    by (simp add: redemption_handle_def redemption_finish_def respond_def or_wire_def RandomChallenge_def chal_def
        redeem_proof_def)
qed

lemma redemption_handle_cong:
  assumes "RandomChallenge crnd = Inr chal" "ans chal = ans' chal"
  shows "redemption_handle C now crnd srnd jrnd fs home h req wr ans db = redemption_handle C now crnd srnd jrnd fs home h req wr ans' db"
  using assms by (simp add: redemption_handle_def or_wire_def split: sum.split option.split)

text \<open>The lazy authorizer accepts a lease of the Pipe's authority key while nothing revoked it.\<close>

lemma LazyAuthorizeOpen_complete:
  assumes path: "KeyPath (SecretPath home []) pipe = Inr path" "Load C fs path = Inr k"
    and l: "lease_Decode lenc = Inr l" "lease_Verify C clock (Public k) (PublicString (Public ck)) pipe at l = None"
    and c: "keypair C ck" and db: "db_fault db = None" "get (revocations db) (pipe, ''access-lease'', al_JTI l) = None"
      "epoch_of db (pipe, ''pipe-access'', pipe) \<le> al_AccessEpoch l"
  shows "is_ok (fst (LazyAuthorizeOpen C clock fs home db
    \<lparr>or_PipeID = pipe, or_ClientPublic = PublicString (Public ck), or_Challenge = chal,
     or_ChallengeProof = SignProof C ck OpenProofPurpose [chal, pipe], or_AccessLease = lenc, or_Now = at\<rparr>
    \<lparr>lz_pipeID = pipe, lz_auth = None\<rparr>))"
proof -
  let ?a = "\<lparr>eo_leasePublic = Public k, eo_pipeID = pipe, eo_state = RevocationAdapter pipe\<rparr>"
  have "is_ok (AuthorizeOpen C clock ?a db
    \<lparr>or_PipeID = pipe, or_ClientPublic = PublicString (Public ck), or_Challenge = chal,
     or_ChallengeProof = SignProof C ck OpenProofPurpose [chal, pipe], or_AccessLease = lenc, or_Now = at\<rparr>)"
    using l VerifyProof_SignProof [OF c] keypair_facts(1) [OF c] db
    by (intro AuthorizeOpen_complete [where lease = l and n = "epoch_of db (pipe, ''pipe-access'', pipe)"])
      (simp_all add: IsRevoked_Inr RevocationEpoch_Inr)
  then show ?thesis
    using path by (simp add: LazyAuthorizeOpen_def lazy_load_def NewExactOpenAuthorizer_def)
qed

text \<open>The renewal side: an accepted relationship at the current epoch.\<close>

definition renewable :: "Store \<Rightarrow> string \<Rightarrow> string \<Rightarrow> nat \<Rightarrow> bool" where
  "renewable db pipe rcpt ep \<longleftrightarrow>
     db_fault db = None \<and> epoch_of db (pipe, ''pipe-access'', pipe) = ep \<and> ep < 2 ^ 64
     \<and> (\<exists>jti. relationship db pipe rcpt = Some (jti, ep) \<and> get (revocations db) (pipe, ''exact.invite'', jti) = None)"

lemma renew_complete:
  assumes sh: "shared C fs home owner k b invite t0 lifetime" and p: "pipe = ei_AudiencePipeID invite"
    and path: "Load C fs path = Inr k" and benc: "ei_Binding invite = benc"
    and t: "0 < ttl" "ttl \<le> MaxTTL" "writable now" "writable (now + ttl)"
    and c: "keypair C ck" and db: "renewable db pipe (PublicString (Public ck)) ep" and v: "chal \<noteq> []"
  obtains l where
    "RenewAcceptedAccess C (Inr jv) fs now pipe (PublicString (Public ck)) benc chal (SignProof C ck RenewProofPurpose [pipe, chal])
       \<lparr>ld_KeyPath = path, ld_Binding = b\<rparr> (Some (RevocationAdapter pipe)) (Some AcceptedAdapter) ttl db = Inr l"
    "NewAccessLease C (Inr jv) k (PublicString (Public ck)) pipe now ttl ep = Inr l"
proof -
  note f = shared_fields [OF sh]
  note s = sh [unfolded shared_def]
  obtain bepoch peers proto where nb: "NewOwnerBinding C owner (Public k) pipe bepoch peers proto = Inr b"
    using s f(1) p by auto
  note ver = NewOwnerBinding_verifies [OF nb]
  obtain body where bb: "b = \<lparr>ob_Version = Version, ob_Type = OwnerBindingType, ob_Owner = PublicString (Public owner),
        ob_AuthorityKey = PublicString (Public k), ob_PipeID = pipe, ob_RedemptionPeers = peers,
        ob_RedemptionProtocol = proto, ob_Epoch = bepoch, ob_Signature = PublicString (ed_sign C owner body)\<rparr>"
    "VerifyPipeOwner C pipe (Public owner)" "length (Public owner) = PublicKeySize" "validString pipe" "length pipe \<le> MaxPipeIDLen"
    using nb by (rule NewOwnerBinding_Inr)
  have ob: "ob_PipeID b = pipe" "ob_Owner b = PublicString (Public owner)" "ob_AuthorityKey b = PublicString (Public k)"
    using bb(1) by simp_all
  have own: "VerifyOwnerBinding C b = Inr (Public owner)" using ver(1) s by blast
  have "length k = PrivateKeySize" using s by (simp add: keypair_def bounds)
  then obtain auth where auth: "Loader_Load C fs \<lparr>ld_KeyPath = path, ld_Binding = b\<rparr> = Inr auth" "au_Private auth = k"
    using path ver(2) s by (auto simp: Loader_Load_def fromBinding_def)
  obtain jti where d: "db_fault db = None" "epoch_of db (pipe, ''pipe-access'', pipe) = ep"
    "relationship db pipe (PublicString (Public ck)) = Some (jti, ep)" "get (revocations db) (pipe, ''exact.invite'', jti) = None"
    using db by (auto simp: renewable_def)
  have ne: "pipe \<noteq> []" using bb(4) by (auto simp: validString_def)
  have "list_all graphic (PublicString (Public ck))" "PublicString (Public ck) \<noteq> []"
    using keypair_facts(1) [OF c] by (auto simp: PublicString_def b64_encode_graphic bounds)
  then have bl: "\<not> blank pipe" "\<not> blank (PublicString (Public ck))"
    using graphic_not_blank PipeID_graphic ne f(1) p by metis+
  have q: "AcceptedRelationship db pipe (PublicString (Public ck)) = Inr (Some (jti, ep))"
    "IsRevoked db pipe ''exact.invite'' jti = Inr False" "RevocationEpoch db pipe ''pipe-access'' pipe = Inr ep"
    using d bl by (simp_all add: AcceptedRelationship_Inr IsRevoked_Inr RevocationEpoch_Inr)
  obtain l where l: "NewAccessLease C (Inr jv) k (PublicString (Public ck)) pipe now ttl ep = Inr l"
    using NewAccessLease_complete [OF keypair_facts(1) [OF c] bb(4,5) t] by blast
  have "RenewAcceptedAccess C (Inr jv) fs now pipe (PublicString (Public ck)) benc chal (SignProof C ck RenewProofPurpose [pipe, chal])
       \<lparr>ld_KeyPath = path, ld_Binding = b\<rparr> (Some (RevocationAdapter pipe)) (Some AcceptedAdapter) ttl db = Inr l"
    using ne bb(2,3,5) ob own auth q l v t(1,2) f(6) benc keypair_facts(1) [OF c] VerifyProof_SignProof [OF c]
    by (simp add: RenewAcceptedAccess_def NewAccessLeaseForReissuance_def or_ea_def)
  then show thesis using that l by blast
qed

lemma renewal_handle_complete:
  assumes sh: "shared C fs home owner k b invite t0 lifetime" and p: "eh_pipeID h = ei_AudiencePipeID invite"
    and t: "0 < eh_leaseTTL h" "eh_leaseTTL h \<le> MaxTTL" "writable now" "writable (now + eh_leaseTTL h)"
    and c: "keypair C ck" and db: "renewable db (eh_pipeID h) (PublicString (Public ck)) ep"
    and v: "length cv = 24" "length jv = 16"
  defines "rq \<equiv> \<lparr>nq_PipeID = eh_pipeID h, nq_RecipientPublic = PublicString (Public ck), nq_OwnerBinding = ei_Binding invite\<rparr>"
  obtains l lenc loader where
    "renewal_admit home h (Inr rq) = Inr (rq, loader)"
    "renewal_handle C now (Inr cv) (Inr jv) fs home h (Inr rq) (\<lambda>_. None)
       (\<lambda>_. Inr (SignProof C ck RenewProofPurpose [eh_pipeID h, b32_encode cv])) db = Some (grant lenc l)"
    "NewAccessLease C (Inr jv) k (PublicString (Public ck)) (eh_pipeID h) now (eh_leaseTTL h) ep = Inr l"
    "lease_Decode lenc = Inr l" "lenc \<noteq> []"
proof -
  note f = shared_fields [OF sh]
  obtain path where path: "KeyPath (SecretPath home []) (eh_pipeID h) = Inr path" "Load C fs path = Inr k" "keypair C k"
    using sh f(1) p by (auto simp: shared_def)
  have ch: "b32_encode cv \<noteq> []"
    using v(1) by (auto simp: b32_encode_def length_b32_groups length_concat_bits8 simp flip: length_0_conv)
  obtain l where r: "RenewAcceptedAccess C (Inr jv) fs now (eh_pipeID h) (PublicString (Public ck)) (ei_Binding invite) (b32_encode cv)
       (SignProof C ck RenewProofPurpose [eh_pipeID h, b32_encode cv])
       \<lparr>ld_KeyPath = path, ld_Binding = b\<rparr> (Some (RevocationAdapter (eh_pipeID h))) (Some AcceptedAdapter) (eh_leaseTTL h) db = Inr l"
    and l: "NewAccessLease C (Inr jv) k (PublicString (Public ck)) (eh_pipeID h) now (eh_leaseTTL h) ep = Inr l"
    by (rule renew_complete [OF sh p path(2) refl t c db ch])
  have asc: "ascii (eh_pipeID h)" using PipeID_graphic graphic_ascii by (simp add: f(1) p)
  have ep: "ep < 2 ^ 64" using db by (simp add: renewable_def)
  obtain lenc where w: "lease_Encode l = Inr lenc" "lease_Decode lenc = Inr l" "lenc \<noteq> []"
    using l by (rule minted_lease_wire [OF _ path(3) v(2) asc t(3,4) ep])
  have be: "ei_Binding invite \<noteq> []" "\<not> 49152 < length (ei_Binding invite)"
    using f(5) EncodeOwnerBinding_bounds by (fastforce simp: bounds)+
  have len: "length (PublicString (Public ck)) = 43" "\<And>ps. length (SignProof C ck RenewProofPurpose ps) = 86"
    using keypair_facts(1,2) [OF c] by (simp_all add: PublicString_def SignProof_def length_b64_encode bounds)
  have pl: "eh_pipeID h \<noteq> []" "length (eh_pipeID h) = 36"
    using f(1) p sh PipeIDFromOwner_length [of C "Public owner"] by (auto simp: shared_def PipeIDFromOwner_def)
  have "PublicString (Public ck) \<noteq> []" "\<And>ps. SignProof C ck RenewProofPurpose ps \<noteq> []"
    using len by (auto simp flip: length_0_conv)
  then have adm: "renewal_admit home h (Inr rq) = Inr (rq, \<lparr>ld_KeyPath = path, ld_Binding = b\<rparr>)"
    using be len pl path(1) f(6) by (simp add: renewal_admit_def rq_def or_wire_def)
  have "renewal_finish C now (Inr jv) fs h (b32_encode cv) rq \<lparr>ld_KeyPath = path, ld_Binding = b\<rparr>
      (Inr (SignProof C ck RenewProofPurpose [eh_pipeID h, b32_encode cv])) db = grant lenc l"
    using \<open>\<And>ps. SignProof C ck RenewProofPurpose ps \<noteq> []\<close> len(2) r w(1)
    by (simp add: renewal_finish_def rq_def or_wire_def respond_def)
  then show thesis
    using that [OF adm _ l w(2,3)] adm by (simp add: renewal_handle_def or_wire_def RandomChallenge_def)
qed

text \<open>The client's redemption over a carrier that ends in the handler.\<close>

lemma Redeem_complete:
  assumes sh: "shared C fs home owner k b invite t0 lifetime" and enc: "EncodeInvite invite = Inr enc" "length enc \<le> 8192"
    and t: "t0 \<le> now + MaxClockSkew" "now < t0 + lifetime" "writable now" "writable (now + redeem_lifetime invite now (eh_leaseTTL h))"
    and h: "eh_pipeID h = ei_AudiencePipeID invite"
    and c: "keypair C ck" "Load C cfs (connectKeyPath dir (ei_AudiencePipeID invite)) = Inr ck"
    and db: "redeemable db invite (PublicString (Public ck))" and v: "length cv = 24" "length jv = 16"
  obtains l lenc db' where
    "Redeem C seed suffix dir (redemption_carrier C now (Inr cv) (Inr sv) (Inr jv) fs home h db) invite (PublicString (Public ck)) cfs = (Inr l, cfs)"
    "redemption_handle C now (Inr cv) (Inr sv) (Inr jv) fs home h (Inr \<lparr>rq_Invite = enc\<rparr>) (\<lambda>_. None)
        (\<lambda>chal. Inr (redeem_proof C ck invite (PublicString (Public ck)) chal)) db = (Some (grant lenc l), db')"
    "redeemed_by db' (ei_JTI invite) (ei_AudiencePipeID invite) = Some (PublicString (Public ck))"
    "NewAccessLease C (Inr jv) k (PublicString (Public ck)) (ei_AudiencePipeID invite) now
       (redeem_lifetime invite now (eh_leaseTTL h)) (ei_AccessEpoch invite) = Inr l"
    "lease_Decode lenc = Inr l" "revocations db' = revocations db" "db_fault db' = None"
proof -
  let ?p = "ei_AudiencePipeID invite" and ?pub = "PublicString (Public ck)" and ?ch = "b32_encode cv"
  obtain l lenc db' where g: "redemption_admit h (Inr \<lparr>rq_Invite = enc\<rparr>) = Inr invite"
    "redemption_handle C now (Inr cv) (Inr sv) (Inr jv) fs home h (Inr \<lparr>rq_Invite = enc\<rparr>) (\<lambda>_. None)
       (\<lambda>_. Inr (redeem_proof C ck invite ?pub ?ch)) db = (Some (grant lenc l), db')"
    "NewAccessLease C (Inr jv) k ?pub ?p now (redeem_lifetime invite now (eh_leaseTTL h)) (ei_AccessEpoch invite) = Inr l"
    "lease_Decode lenc = Inr l" "lenc \<noteq> []" "revocations db' = revocations db" "db_fault db' = None"
    by (rule redemption_handle_complete [OF sh enc t h c(1) db v])
  have rc: "RandomChallenge (Inr cv) = Inr ?ch" by (simp add: RandomChallenge_def)
  have ch: "?ch \<noteq> []"
    using v(1) by (auto simp: b32_encode_def length_b32_groups length_concat_bits8 simp flip: length_0_conv)
  have R: "Redeem C seed suffix dir (redemption_carrier C now (Inr cv) (Inr sv) (Inr jv) fs home h db) invite ?pub cfs = (Inr l, cfs)"
    using c(2) enc(1) g(1,2,4,5) rc ch
    by (simp add: Redeem_def redeem_over_def redemption_carrier_def wrap_opt_def lease_of_response_def grant_def)
  have H: "redemption_handle C now (Inr cv) (Inr sv) (Inr jv) fs home h (Inr \<lparr>rq_Invite = enc\<rparr>) (\<lambda>_. None)
        (\<lambda>chal. Inr (redeem_proof C ck invite ?pub chal)) db = (Some (grant lenc l), db')"
    using redemption_handle_cong [OF rc, of "\<lambda>chal. Inr (redeem_proof C ck invite ?pub chal)"
        "\<lambda>_. Inr (redeem_proof C ck invite ?pub ?ch)"] g(2) by simp
  have z: "now \<noteq> zero_time" using t(3) by (simp add: writable_def)
  have dec: "DecodeInvite enc = Inr invite" using DecodeInvite_Encode enc(1) sh by (simp add: shared_def)
  have red: "redeemed_by db' (ei_JTI invite) ?p = Some ?pub"
    using H by (rule redemption_handle_OK) (auto simp: grant_def redeem_proof_def dec rc dest!: redeemed_lease(8) [OF _ dec z])
  show thesis by (rule that [OF R H red g(3,4,6,7)])
qed

section \<open>A concrete setting\<close>

text \<open>A file system of private directories with one key file, at any admissible path.\<close>

definition key_fs :: "string \<Rightarrow> string \<Rightarrow> FS" where
  "key_fs path k = \<lparr>nodes = (\<lambda>p. Some (if p = path then \<lparr>n_kind = Regular (b64_encode k), n_perm = 384, n_special = False\<rparr>
     else \<lparr>n_kind = Directory, n_perm = 448, n_special = False\<rparr>)), faults = (\<lambda>_. None)\<rparr>"

lemma Load_key_fs:
  assumes "validateFinalPath path = None" "length k = PrivateKeySize" "NewKeyFromSeed C (take 32 k) = k"
  shows "Load C (key_fs path k) path = Inr k"
proof -
  have d: "Dir path \<noteq> path"
  proof
    assume "Dir path = path"
    from Dir_fixed [OF this] assms(1) show False
      by (auto simp: validateFinalPath_def Base_def strip_slashes_def split: if_splits)
  qed
  show ?thesis
  proof (rule Load_complete [OF assms(1)])
    show "secureDir (key_fs path k) (Dir path) = None"
      using d by (simp add: secureDir_def lstat_def key_fs_def checkDir_def unsafeMode_def)
    show "nodes (key_fs path k) path = Some \<lparr>n_kind = Regular (b64_encode k), n_perm = 384, n_special = False\<rparr>"
      by (simp add: key_fs_def)
  qed (use assms in \<open>simp_all add: readable_def key_fs_def key_node_def key_text_def unsafeMode_def\<close>)
qed

text \<open>Provisioning over an existing key file returns it and leaves everything as it was.\<close>

lemma Provision_existing:
  assumes v: "validateFinalPath path = None" and f: "faults fs = (\<lambda>_. None)"
    and d: "nodes fs (Dir path) = Some dn" "nodes fs (Clean (Dir path)) = Some dn" "dn = \<lparr>n_kind = Directory, n_perm = 448, n_special = False\<rparr>"
    and lock: "nodes fs (Join_path [Dir path, Base path @ lockSuffix]) = None"
    and k: "nodes fs path = Some n" "key_node C k n"
  shows "Provision C seed suffix path fs = (Inr k, fs)"
proof -
  let ?l = "Join_path [Dir path, Base path @ lockSuffix]" and ?ln = "\<lparr>n_kind = Regular [], n_perm = 384, n_special = False\<rparr>"
  have "missing_dirs fs (Clean (Dir path)) = Inr []"
    by (subst missing_dirs.simps) (simp add: lstat_def f d checkDir_def)
  then have req: "requireSecureDir (Dir path) True fs = (None, fs)"
    by (simp add: requireSecureDir_def mkdirAllSecure_def Let_def secureDir_def lstat_def f d checkDir_def unsafeMode_def)
  let ?fs = "fs\<lparr>nodes := (nodes fs)(?l \<mapsto> ?ln)\<rparr>"
  have lk: "acquireLock (Dir path) (Base path @ lockSuffix) fs = (Inr ?l, ?fs)"
    using lock by (simp add: acquireLock_def Let_def f checkLockInfo_def unsafeMode_def)
  have ne: "?l \<noteq> path" "?l \<noteq> Dir path" using lock k(1) d(1) by auto
  have "Load C ?fs path = Inr k"
  proof (rule Load_complete [OF v])
    show "secureDir ?fs (Dir path) = None"
      using ne d by (simp add: secureDir_def lstat_def f checkDir_def unsafeMode_def)
    show "readable ?fs path" by (simp add: readable_def f)
    show "nodes ?fs path = Some n" using ne k(1) by simp
  qed (rule k(2))
  moreover have "(nodes fs)(?l := None) = nodes fs" using lock by (rule fun_upd_idem)
  then have "rm ?l ?fs = fs" by (simp add: rm_def remove_def f)
  ultimately show ?thesis using v req lk by (simp add: Provision_def)
qed

lemma key_path_valid:
  assumes "a \<noteq> []" "b \<noteq> []" "n = m @ ''.key''" "m \<noteq> []" "slash \<notin> set m"
  shows "validateFinalPath (Join_path [a, b, n]) = None"
proof -
  have "Join_path [a, b, n] = Join_path [a @ slash # b, n]"
    using assms by (simp add: Join_path_def)
  moreover have "Base (Join_path [a @ slash # b, n]) = n"
    using assms by (intro Base_Join_path) auto
  moreover have "Join_path [a, b, n] \<noteq> []" using assms Clean_nonempty by (simp add: Join_path_def)
  ultimately show ?thesis using assms by (auto simp: validateFinalPath_def)
qed

definition example_owner :: string where "example_owner = replicate 64 (CHR ''o'')"
definition example_pipe :: string where "example_pipe = PipeIDFromOwner example_crypto (Public example_owner)"
definition example_auth_fs :: FS where
  "example_auth_fs = key_fs (Join_path [SecretPath ''h'' [], ''exact-authorities'', example_pipe @ ''.key'']) example_key"
definition example_client :: string where "example_client = replicate 64 (CHR ''c'')"
definition example_client_fs :: FS where
  "example_client_fs = key_fs (connectKeyPath ''s'' example_pipe) example_client"

lemma example_keys:
  "keypair example_crypto example_owner" "keypair example_crypto example_key" "keypair example_crypto example_client"
  "Public example_key \<noteq> Public example_owner"
  by (auto intro!: example_keypair simp: example_owner_def example_key_def example_client_def Public_def)

lemma example_key_files:
  "KeyPath (SecretPath ''h'' []) example_pipe = Inr (Join_path [SecretPath ''h'' [], ''exact-authorities'', example_pipe @ ''.key''])"
  "Load example_crypto example_auth_fs (Join_path [SecretPath ''h'' [], ''exact-authorities'', example_pipe @ ''.key'']) = Inr example_key"
  "Load example_crypto example_client_fs (connectKeyPath ''s'' example_pipe) = Inr example_client"
proof -
  have c: "validPipeIDComponent example_pipe" "slash \<notin> set example_pipe"
    using PipeID_component [OF example_lengths(4)] by (simp_all add: example_pipe_def)
  have n: "example_pipe \<noteq> []" by (simp add: example_pipe_def PipeIDFromOwner_def)
  have s: "SecretPath ''h'' [] \<noteq> []" using Clean_nonempty by (simp add: SecretPath_def Join_path_def)
  show "KeyPath (SecretPath ''h'' []) example_pipe = Inr (Join_path [SecretPath ''h'' [], ''exact-authorities'', example_pipe @ ''.key''])"
    using c s by (simp add: KeyPath_def)
  show "Load example_crypto example_auth_fs (Join_path [SecretPath ''h'' [], ''exact-authorities'', example_pipe @ ''.key'']) = Inr example_key"
    unfolding example_auth_fs_def using s n c
    by (intro Load_key_fs key_path_valid) (simp_all add: example_key_def bounds flip: replicate_add)
  have "validateFinalPath (connectKeyPath ''s'' example_pipe) = None"
    unfolding connectKeyPath_def using c(2)
    by (intro key_path_valid [where m = "''connect-'' @ example_pipe"]) simp_all
  then show "Load example_crypto example_client_fs (connectKeyPath ''s'' example_pipe) = Inr example_client"
    unfolding example_client_fs_def
    by (rule Load_key_fs) (simp_all add: example_client_def bounds flip: replicate_add)
qed

lemma example_shared:
  obtains b invite enc where
    "shared example_crypto example_auth_fs ''h'' example_owner example_key b invite example_now minute"
    "EncodeInvite invite = Inr enc" "length enc \<le> 8192" "ei_AccessEpoch invite = 3" "ei_AudiencePipeID invite = example_pipe"
proof -
  have p: "length ''/ip4/10.0.0.1'' \<le> MaxRedemptionAddrLen"
    "length (Split ''/ip4/10.0.0.1'' (CHR '','')) \<le> MaxRedemptionAddresses"
    "length ''/tubo/redeem'' \<le> MaxRedemptionProtocolLen" "unescaped ''/ip4/10.0.0.1''" "unescaped ''/tubo/redeem''"
    "(7::nat) < 2 ^ 64" "(3::nat) < 2 ^ 64"
    by (simp_all add: bounds unescaped_def escape_plain byte_def)
  obtain b invite enc where s:
    "NewOwnerBinding example_crypto example_owner (Public example_key) (PipeIDFromOwner example_crypto (Public example_owner)) 7
       ''/ip4/10.0.0.1'' ''/tubo/redeem'' = Inr b" "binding_wf b"
    "NewExactInvite example_crypto (Inr example_rnd) example_key b (PipeIDFromOwner example_crypto (Public example_owner))
       example_now minute 3 = Inr invite" "invite_wf invite"
    "EncodeInvite invite = Inr enc" "length enc \<le> 8192" "ei_AccessEpoch invite = 3"
    by (rule share_complete [OF example_keys(1,2) example_lengths(4) p example_window(1,2) example_times example_lengths(3)])
  have sh: "shared example_crypto example_auth_fs ''h'' example_owner example_key b invite example_now minute"
    unfolding shared_def
    using s(1-4) example_keys example_lengths(3,4) example_key_files example_times
    by (auto simp del: example_crypto_simps simp flip: example_pipe_def)
  from that [OF sh s(5-7)] shared_fields(1) [OF sh] show thesis by (simp add: example_pipe_def)
qed

section \<open>Properties\<close>

text \<open>C13. The honest exchange completes: the owner shared an invite and the authority key is in place, the invite is
  current and not redeemed by anyone else, and the recipient holds their connect key. Then the client's \<^verbatim>\<open>Redeem\<close>
  over a carrier that ends in the Pipe's redemption handler returns a lease; the handler's store records the
  redemption, and with that lease and a proof over any challenge the Pipe's open authorizer, loading the key
  on first use, lets the recipient in at every instant until the lease expires.\<close>

theorem redemption_exchange_opens:
  assumes sh: "shared C fs home owner k b invite t0 lifetime" and enc: "EncodeInvite invite = Inr enc" "length enc \<le> 8192"
    and t: "t0 \<le> now + MaxClockSkew" "now < t0 + lifetime" "writable now" "writable (now + redeem_lifetime invite now (eh_leaseTTL h))"
    and h: "eh_pipeID h = ei_AudiencePipeID invite"
    and c: "keypair C ck" "Load C cfs (connectKeyPath dir (ei_AudiencePipeID invite)) = Inr ck"
    and db: "redeemable db invite (PublicString (Public ck))" "get (revocations db) (ei_AudiencePipeID invite, ''access-lease'', ''jti_'' @ b32_encode jv) = None"
    and v: "length cv = 24" "length jv = 16"
  shows "\<exists>l lenc db'.
    Redeem C seed suffix dir (redemption_carrier C now (Inr cv) (Inr sv) (Inr jv) fs home h db) invite (PublicString (Public ck)) cfs = (Inr l, cfs)
    \<and> redemption_handle C now (Inr cv) (Inr sv) (Inr jv) fs home h (Inr \<lparr>rq_Invite = enc\<rparr>) (\<lambda>_. None)
        (\<lambda>chal. Inr (redeem_proof C ck invite (PublicString (Public ck)) chal)) db = (Some (grant lenc l), db')
    \<and> redeemed_by db' (ei_JTI invite) (ei_AudiencePipeID invite) = Some (PublicString (Public ck))
    \<and> (\<forall>at clock chal. at \<noteq> zero_time \<and> now \<le> at + MaxClockSkew \<and> at < instant (al_ExpiresAt l) \<longrightarrow>
         is_ok (fst (LazyAuthorizeOpen C clock fs home db'
           \<lparr>or_PipeID = ei_AudiencePipeID invite, or_ClientPublic = PublicString (Public ck), or_Challenge = chal,
            or_ChallengeProof = SignProof C ck OpenProofPurpose [chal, ei_AudiencePipeID invite], or_AccessLease = lenc, or_Now = at\<rparr>
           \<lparr>lz_pipeID = ei_AudiencePipeID invite, lz_auth = None\<rparr>)))"
proof -
  let ?p = "ei_AudiencePipeID invite" and ?pub = "PublicString (Public ck)"
  obtain l lenc db' where g:
    "Redeem C seed suffix dir (redemption_carrier C now (Inr cv) (Inr sv) (Inr jv) fs home h db) invite ?pub cfs = (Inr l, cfs)"
    "redemption_handle C now (Inr cv) (Inr sv) (Inr jv) fs home h (Inr \<lparr>rq_Invite = enc\<rparr>) (\<lambda>_. None)
        (\<lambda>chal. Inr (redeem_proof C ck invite ?pub chal)) db = (Some (grant lenc l), db')"
    "redeemed_by db' (ei_JTI invite) ?p = Some ?pub"
    "NewAccessLease C (Inr jv) k ?pub ?p now (redeem_lifetime invite now (eh_leaseTTL h)) (ei_AccessEpoch invite) = Inr l"
    "lease_Decode lenc = Inr l" "revocations db' = revocations db" "db_fault db' = None"
    by (rule Redeem_complete [OF sh enc t h c db(1) v])
  have z: "now \<noteq> zero_time" using t(3) by (simp add: writable_def)
  obtain path where path: "KeyPath (SecretPath home []) ?p = Inr path" "Load C fs path = Inr k" "keypair C k"
    using sh shared_fields(1) [OF sh] by (auto simp: shared_def)
  have lf: "al_JTI l = ''jti_'' @ b32_encode jv" "al_AccessEpoch l = ei_AccessEpoch invite"
    "instant (al_ExpiresAt l) = now + redeem_lifetime invite now (eh_leaseTTL h)"
    using g(4) by (auto elim!: NewAccessLease_Inr simp: UTC_def)
  have "is_ok (fst (LazyAuthorizeOpen C clock fs home db'
      \<lparr>or_PipeID = ?p, or_ClientPublic = ?pub, or_Challenge = chal, or_ChallengeProof = SignProof C ck OpenProofPurpose [chal, ?p],
       or_AccessLease = lenc, or_Now = at\<rparr> \<lparr>lz_pipeID = ?p, lz_auth = None\<rparr>))"
    if "at \<noteq> zero_time" "now \<le> at + MaxClockSkew" "at < instant (al_ExpiresAt l)" for at clock chal
    using NewAccessLease_verifies [OF g(4) path(3) _ z that(1,2)] that(3) lf g(6,7) v(2) db(2) db(1)
    by (intro LazyAuthorizeOpen_complete [OF path(1,2) g(5) _ c(1)])
      (simp_all add: redeemable_def Let_def epoch_of_def)
  with g(1-3) show ?thesis by blast
qed

text \<open>The concrete store: the Pipe's access epoch was raised to 3 once.\<close>

definition example_db :: Store where
  "example_db = empty_store\<lparr>revocations := [((example_pipe, ''pipe-access'', example_pipe), \<lparr>rv_revoked_at = ''t'', rv_epoch = 3\<rparr>)]\<rparr>"

lemma example_redeemable:
  assumes "ei_AccessEpoch invite = 3" "ei_AudiencePipeID invite = example_pipe"
  shows "redeemable example_db invite rcpt" "get (revocations example_db) (example_pipe, ''access-lease'', j) = None"
  using assms by (simp_all add: redeemable_def example_db_def empty_store_def epoch_of_def redeemed_by_def)

theorem redemption_exchange_opens_witness:
  "\<exists>invite l. fst (Redeem example_crypto (Inr []) (Inr []) ''s''
      (redemption_carrier example_crypto example_now (Inr (replicate 24 (CHR ''x''))) (Inr example_rnd) (Inr example_rnd)
        example_auth_fs ''h'' (newExactHandler example_pipe MaxTTL) example_db)
      invite (PublicString (Public example_client)) example_client_fs) = Inr l"
proof -
  obtain b invite enc where s: "shared example_crypto example_auth_fs ''h'' example_owner example_key b invite example_now minute"
    "EncodeInvite invite = Inr enc" "length enc \<le> 8192" "ei_AccessEpoch invite = 3" "ei_AudiencePipeID invite = example_pipe"
    by (rule example_shared)
  let ?h = "newExactHandler example_pipe MaxTTL"
  have "redeem_lifetime invite example_now (eh_leaseTTL ?h) = minute"
    using shared_fields(4) [OF s(1)] by (simp add: redeem_lifetime_def newExactHandler_def Let_def bounds minute_def second_def)
  then have t: "writable (example_now + redeem_lifetime invite example_now (eh_leaseTTL ?h))" using example_times(2) by simp
  have h: "eh_pipeID ?h = ei_AudiencePipeID invite" by (simp add: newExactHandler_def s(5))
  have v: "length (replicate 24 (CHR ''x'')) = 24" by simp
  note d = example_redeemable [OF s(4,5)]
  show ?thesis
    using redemption_exchange_opens [OF s(1-3) example_window(4,5) example_times(1) t h example_keys(3)
        example_key_files(3) [folded s(5)] d(1) d(2) [folded s(5)] v example_lengths(3)]
    by (metis fst_conv)
qed

text \<open>C5. A granted redemption is justified: the request carried an invite that verifies for this Pipe, the recipient
  answered this exchange's challenge with a proof of their key, the invite was neither revoked nor stale nor
  redeemed by anyone else, it is now redeemed by the recipient, and the returned lease is issued by the Pipe's
  authority key to that recipient, for this Pipe and epoch, within the invite's and the lease bound's lifetime.\<close>

theorem redemption_grant_sound:
  assumes "redemption_handle C now crnd srnd jrnd fs home h req wr ans db = (Some r, db')" "rs_OK r" "now \<noteq> zero_time"
  shows "\<exists>rq invite chal pf key k path l. req = Inr rq \<and> DecodeInvite (rq_Invite rq) = Inr invite
    \<and> invite_Verify C now now (eh_pipeID h) invite = None
    \<and> RandomChallenge crnd = Inr chal \<and> ans chal = Inr pf \<and> PublicFromString (rp_RecipientPublic pf) = Inr key
    \<and> VerifyProof C key (rp_ChallengeProof pf) RedeemProofPurpose [ei_JTI invite, eh_pipeID h, chal]
    \<and> get (revocations db) (eh_pipeID h, ''exact.invite'', ei_JTI invite) = None
    \<and> epoch_of db (eh_pipeID h, ''pipe-access'', eh_pipeID h) = ei_AccessEpoch invite
    \<and> redeemed_by db (ei_JTI invite) (eh_pipeID h) \<in> {None, Some (rp_RecipientPublic pf)}
    \<and> redeemed_by db' (ei_JTI invite) (eh_pipeID h) = Some (rp_RecipientPublic pf)
    \<and> lease_Encode l = Inr (rs_AccessLease r) \<and> al_Subject l = rp_RecipientPublic pf \<and> al_AudiencePipeID l = eh_pipeID h
    \<and> al_AccessEpoch l = ei_AccessEpoch invite \<and> instant (al_ExpiresAt l) \<le> instant (ei_ExpiresAt invite)
    \<and> instant (al_ExpiresAt l) \<le> now + MaxTTL
    \<and> KeyPath (SecretPath home []) (eh_pipeID h) = Inr path \<and> Load C fs path = Inr k \<and> al_Issuer l = PublicString (Public k)"
proof -
  obtain rq invite chal pf path k b l where h: "req = Inr rq" "DecodeInvite (rq_Invite rq) = Inr invite"
    "ei_AudiencePipeID invite = eh_pipeID h" "RandomChallenge crnd = Inr chal" "ans chal = Inr pf"
    "KeyPath (SecretPath home []) (eh_pipeID h) = Inr path" "Load C fs path = Inr k"
    "RedeemExactInvite C now srnd jrnd fs now (rq_Invite rq) (rp_RecipientPublic pf) chal (rp_ChallengeProof pf)
       \<lparr>ld_KeyPath = path, ld_Binding = b\<rparr> (Some (RevocationAdapter (eh_pipeID h))) (Some RedemptionAdapter)
       (eh_leaseTTL h) db = (Inr l, db')" "lease_Encode l = Inr (rs_AccessLease r)"
    using assms(1,2) by (rule redemption_handle_OK)
  note f = redeemed_lease [OF h(8,2) assms(3), unfolded h(3)]
  obtain key where "PublicFromString (rp_RecipientPublic pf) = Inr key"
    "VerifyProof C key (rp_ChallengeProof pf) RedeemProofPurpose [ei_JTI invite, eh_pipeID h, chal]"
    using f(11) by blast
  moreover have "al_Issuer l = PublicString (Public k)" using f(12) h(7) by simp
  ultimately show ?thesis
    using h(1,2,4-7,9) f(1-10)
    by (intro exI [of _ rq] exI [of _ invite] exI [of _ chal] exI [of _ pf] exI [of _ key] exI [of _ k] exI [of _ path]
        exI [of _ l]) simp
qed

lemma example_granted:
  obtains invite enc l lenc db' where
    "redemption_handle example_crypto example_now (Inr (replicate 24 (CHR ''x''))) (Inr example_rnd) (Inr example_rnd)
       example_auth_fs ''h'' (newExactHandler example_pipe MaxTTL) (Inr \<lparr>rq_Invite = enc\<rparr>) (\<lambda>_. None)
       (\<lambda>_. Inr (redeem_proof example_crypto example_client invite (PublicString (Public example_client))
          (b32_encode (replicate 24 (CHR ''x''))))) example_db = (Some (grant lenc l), db')"
    "ei_AudiencePipeID invite = example_pipe"
proof -
  obtain b invite enc where s: "shared example_crypto example_auth_fs ''h'' example_owner example_key b invite example_now minute"
    "EncodeInvite invite = Inr enc" "length enc \<le> 8192" "ei_AccessEpoch invite = 3" "ei_AudiencePipeID invite = example_pipe"
    by (rule example_shared)
  let ?h = "newExactHandler example_pipe MaxTTL"
  have "redeem_lifetime invite example_now (eh_leaseTTL ?h) = minute"
    using shared_fields(4) [OF s(1)] by (simp add: redeem_lifetime_def newExactHandler_def Let_def bounds minute_def second_def)
  then have t: "writable (example_now + redeem_lifetime invite example_now (eh_leaseTTL ?h))" using example_times(2) by simp
  have h: "eh_pipeID ?h = ei_AudiencePipeID invite" by (simp add: newExactHandler_def s(5))
  have v: "length (replicate 24 (CHR ''x'')) = 24" by simp
  show thesis
    by (rule redemption_handle_complete [OF s(1-3) example_window(4,5) example_times(1) t h example_keys(3)
        example_redeemable(1) [OF s(4,5)] v example_lengths(3)]) (use that s(5) in blast)
qed

theorem redemption_grant_sound_witness:
  "\<exists>req ans r db' rq invite. redemption_handle example_crypto example_now (Inr (replicate 24 (CHR ''x''))) (Inr example_rnd)
       (Inr example_rnd) example_auth_fs ''h'' (newExactHandler example_pipe MaxTTL) req (\<lambda>_. None) ans example_db = (Some r, db')
   \<and> req = Inr rq \<and> DecodeInvite (rq_Invite rq) = Inr invite
   \<and> invite_Verify example_crypto example_now example_now example_pipe invite = None"
proof -
  obtain invite enc l lenc db' where g:
    "redemption_handle example_crypto example_now (Inr (replicate 24 (CHR ''x''))) (Inr example_rnd) (Inr example_rnd)
       example_auth_fs ''h'' (newExactHandler example_pipe MaxTTL) (Inr \<lparr>rq_Invite = enc\<rparr>) (\<lambda>_. None)
       (\<lambda>_. Inr (redeem_proof example_crypto example_client invite (PublicString (Public example_client))
          (b32_encode (replicate 24 (CHR ''x''))))) example_db = (Some (grant lenc l), db')"
    by (rule example_granted)
  have "eh_pipeID (newExactHandler example_pipe MaxTTL) = example_pipe" "rs_OK (grant lenc l)"
    by (simp_all add: newExactHandler_def grant_def)
  then show ?thesis using redemption_grant_sound [OF g _ example_window(3)] g by (smt (verit))
qed

text \<open>C34. A refused redemption consumes nothing, with one exception. Either the store is untouched, or the invite was
  neither revoked nor of another epoch nor redeemed by anyone before the call, the recipient's credentials and proof had
  passed, it is now redeemed by exactly this recipient with their accepted relationship, and it was minting or encoding the
  lease that failed. So an invite that is revoked, stale or redeemed, or a recipient without the proof, never changes the
  store.\<close>

theorem redemption_refusal_frame:
  assumes "redemption_handle C now crnd srnd jrnd fs home h req wr ans db = (r, db')" "\<forall>x. r = Some x \<longrightarrow> \<not> rs_OK x"
  shows "db' = db \<or> (\<exists>rq invite chal pf path b auth. req = Inr rq \<and> RandomChallenge crnd = Inr chal \<and> ans chal = Inr pf
    \<and> redeem_credentials C now fs now (rq_Invite rq) (rp_RecipientPublic pf) chal (rp_ChallengeProof pf)
        \<lparr>ld_KeyPath = path, ld_Binding = b\<rparr> = Inr (invite, auth)
    \<and> ei_AudiencePipeID invite = eh_pipeID h
    \<and> get (revocations db) (eh_pipeID h, ''exact.invite'', ei_JTI invite) = None
    \<and> epoch_of db (eh_pipeID h, ''pipe-access'', ei_AudiencePipeID invite) = ei_AccessEpoch invite
    \<and> redeemed_by db (ei_JTI invite) (ei_AudiencePipeID invite) = None
    \<and> redeemed_by db' (ei_JTI invite) (ei_AudiencePipeID invite) = Some (rp_RecipientPublic pf)
    \<and> relationship db' (ei_AudiencePipeID invite) (rp_RecipientPublic pf) = Some (ei_JTI invite, ei_AccessEpoch invite)
    \<and> (\<nexists>l enc. NewAccessLease C jrnd (au_Private auth) (rp_RecipientPublic pf) (ei_AudiencePipeID invite) now
          (redeem_lifetime invite now (eh_leaseTTL h)) (ei_AccessEpoch invite) = Inr l \<and> lease_Encode l = Inr enc))"
proof (cases "db' = db")
  case False
  obtain rq i0 chal where a: "redemption_admit h req = Inr i0" "req = Inr rq" "RandomChallenge crnd = Inr chal"
    and f: "apfst Some (redemption_finish C now srnd jrnd fs home h (rq_Invite rq) chal i0 (ans chal) db) = (r, db')"
    using assms(1) False
    by (auto simp: redemption_handle_def redemption_admit_def result_simps split: sum.splits option.splits)
  obtain pf loader where l: "redemption_loader C fs home h i0 (ans chal) = Inr (pf, loader)"
    using f False by (auto simp: redemption_finish_def apfst_def map_prod_def split: sum.splits)
  obtain lease where g: "RedeemExactInvite C now srnd jrnd fs now (rq_Invite rq) (rp_RecipientPublic pf) chal
      (rp_ChallengeProof pf) loader (Some (RevocationAdapter (eh_pipeID h))) (Some RedemptionAdapter)
      (eh_leaseTTL h) db = (lease, db')" and r: "r = Some (respond ''redemption_failed'' lease)"
    using f l by (auto simp: redemption_finish_def apfst_def map_prod_def split: prod.splits)
  have enc: "lease_Encode l \<noteq> Inr e" if "lease = Inr l" for l e
    using assms(2) r that by (auto simp: respond_def or_wire_def grant_def)
  have pf: "ans chal = Inr pf" using l by (auto simp: redemption_loader_def result_simps split: if_splits)
  obtain invite auth where x: "redeem_credentials C now fs now (rq_Invite rq) (rp_RecipientPublic pf) chal (rp_ChallengeProof pf) loader = Inr (invite, auth)"
      "\<not> revoked_in (eh_pipeID h) db ''exact.invite'' (ei_JTI invite)"
      "epoch_in (eh_pipeID h) db ''pipe-access'' (ei_AudiencePipeID invite) = ei_AccessEpoch invite"
      "redeemed_by db (ei_JTI invite) (ei_AudiencePipeID invite) = None"
      "redeemed_by db' (ei_JTI invite) (ei_AudiencePipeID invite) = Some (rp_RecipientPublic pf)"
      "relationship db' (ei_AudiencePipeID invite) (rp_RecipientPublic pf) = Some (ei_JTI invite, ei_AccessEpoch invite)"
      "NewAccessLease C jrnd (au_Private auth) (rp_RecipientPublic pf) (ei_AudiencePipeID invite) now
         (redeem_lifetime invite now (eh_leaseTTL h)) (ei_AccessEpoch invite) = lease"
  proof (cases lease)
    case (Inl e)
    show thesis using g [unfolded Inl] by (rule store_redeem.redeem_refusal) (use False that Inl in blast)+
  next
    case (Inr l)
    show thesis using g [unfolded Inr] by (rule store_redeem.redeem_success) (use False that Inr in blast)
  qed
  have "\<nexists>l enc. NewAccessLease C jrnd (au_Private auth) (rp_RecipientPublic pf) (ei_AudiencePipeID invite) now
         (redeem_lifetime invite now (eh_leaseTTL h)) (ei_AccessEpoch invite) = Inr l \<and> lease_Encode l = Inr enc"
    using x(7) enc by blast
  moreover have "ei_AudiencePipeID invite = eh_pipeID h"
    using a(1,2) redeem_credentials_Inr(1) [OF x(1)] by (auto simp: redemption_admit_def result_simps split: if_splits)
  ultimately show ?thesis using a(2,3) pf x(1-6) by (cases loader) (force simp: revoked_in_def epoch_in_def)
qed simp

text \<open>The store a redemption leaves does not depend on the randomness the lease is minted with.\<close>

lemma redeem_store_jrnd:
  "snd (RedeemExactInvite C clock srnd jrnd fs now enc rcpt chal prf loader st rd lt s)
   = snd (RedeemExactInvite C clock srnd jrnd' fs now enc rcpt chal prf loader st rd lt s)"
  by (auto simp: RedeemExactInvite_def split: sum.splits option.splits prod.splits)

lemma handle_store_jrnd:
  "snd (redemption_handle C now crnd srnd jrnd fs home h req wr ans db)
   = snd (redemption_handle C now crnd srnd jrnd' fs home h req wr ans db)"
proof -
  have "snd (redemption_finish C now srnd jrnd fs home h enc chal i fr db)
      = snd (redemption_finish C now srnd jrnd' fs home h enc chal i fr db)" for enc chal i fr
    by (auto simp: redemption_finish_def case_prod_beta split: sum.splits intro: redeem_store_jrnd)
  then show ?thesis by (auto simp: redemption_handle_def split: sum.splits option.splits)
qed

lemma handle_no_entropy:
  assumes "redemption_handle C now crnd srnd (Inl e) fs home h req wr ans db = (Some x, db')"
  shows "\<not> rs_OK x"
proof -
  have n: "NewAccessLease C (Inl e) k r p n l ep \<noteq> Inr y" for k r p n l ep y
    by (auto simp: NewAccessLease_def NewJTI_def randomID_def result_simps split: sum.splits if_splits)
  have "fst (RedeemExactInvite C now srnd (Inl e) fs now enc rcpt chal pf loader st rd lt db) \<noteq> Inr y"
    for enc rcpt chal pf loader y and st :: "Store RevocationState option" and rd lt
    using n by (auto simp: RedeemExactInvite_def split: sum.splits option.splits prod.splits)
  then have "\<not> rs_OK (respond f (fst (RedeemExactInvite C now srnd (Inl e) fs now enc rcpt chal pf loader st rd lt db)))"
    for f enc rcpt chal pf loader and st :: "Store RevocationState option" and rd lt
    by (cases "fst (RedeemExactInvite C now srnd (Inl e) fs now enc rcpt chal pf loader st rd lt db)")
      (auto simp: respond_def or_wire_def refuse_def)
  then have f: "\<not> rs_OK (fst (redemption_finish C now srnd (Inl e) fs home h enc chal i fr db))" for enc chal i fr
    by (auto simp: redemption_finish_def case_prod_beta refuse_def split: sum.splits)
  show ?thesis using assms f
    by (auto simp: redemption_handle_def refuse_def apfst_def map_prod_def case_prod_beta split: sum.splits option.splits)
qed


lemma handle_entropy_refused:
  assumes "redemption_handle C now crnd srnd jrnd fs home h req (\<lambda>_. None) ans db = (r, db')"
  obtains x where "redemption_handle C now crnd srnd (Inl e) fs home h req (\<lambda>_. None) ans db = (Some x, db')" "\<not> rs_OK x"
proof -
  obtain y db1 where y: "redemption_handle C now crnd srnd (Inl e) fs home h req (\<lambda>_. None) ans db = (y, db1)" by fastforce
  have "y \<noteq> None" using y by (auto simp: redemption_handle_def apfst_def map_prod_def split: sum.splits prod.splits)
  then obtain x where x: "y = Some x" by blast
  have "db1 = db'" using handle_store_jrnd [of C now crnd srnd "Inl e" fs home h req "\<lambda>_. None" ans db jrnd] y assms by simp
  with y x show thesis using that [of x] handle_no_entropy by blast
qed

lemma granted_redeems:
  assumes "redemption_handle C now crnd srnd jrnd fs home h req wr ans db = (Some r, db')" "rs_OK r" "now \<noteq> zero_time"
  obtains jti c where "redeemed_by db' jti (eh_pipeID h) = Some c"
proof -
  obtain rq invite chal pf path k b l where h: "req = Inr rq" "DecodeInvite (rq_Invite rq) = Inr invite"
    "ei_AudiencePipeID invite = eh_pipeID h" "RandomChallenge crnd = Inr chal" "ans chal = Inr pf"
    "KeyPath (SecretPath home []) (eh_pipeID h) = Inr path" "Load C fs path = Inr k"
    "RedeemExactInvite C now srnd jrnd fs now (rq_Invite rq) (rp_RecipientPublic pf) chal (rp_ChallengeProof pf)
       \<lparr>ld_KeyPath = path, ld_Binding = b\<rparr> (Some (RevocationAdapter (eh_pipeID h))) (Some RedemptionAdapter)
       (eh_leaseTTL h) db = (Inr l, db')"
    using assms(1,2) by (rule redemption_handle_OK)
  from redeemed_lease(8) [OF h(8,2) assms(3), unfolded h(3)] show thesis by (rule that)
qed

theorem redemption_refusal_frame_witness:
  "\<exists>req ans r db'. redemption_handle example_crypto example_now (Inr (replicate 24 (CHR ''x''))) (Inr example_rnd)
       (Inl (Error ''entropy'' [])) example_auth_fs ''h'' (newExactHandler example_pipe MaxTTL) req (\<lambda>_. None) ans example_db
     = (Some r, db') \<and> \<not> rs_OK r \<and> db' \<noteq> example_db
   \<and> (\<exists>jti c. redeemed_by example_db jti example_pipe = None \<and> redeemed_by db' jti example_pipe = Some c
        \<and> relationship db' example_pipe c = Some (jti, 3))"
proof -
  let ?h = "newExactHandler example_pipe MaxTTL"
  let ?run = "\<lambda>rnd req ans. redemption_handle example_crypto example_now (Inr (replicate 24 (CHR ''x''))) (Inr example_rnd)
       rnd example_auth_fs ''h'' ?h req (\<lambda>_. None) ans example_db"
  obtain invite enc l lenc db' where g0:
    "redemption_handle example_crypto example_now (Inr (replicate 24 (CHR ''x''))) (Inr example_rnd) (Inr example_rnd)
       example_auth_fs ''h'' ?h (Inr \<lparr>rq_Invite = enc\<rparr>) (\<lambda>_. None)
       (\<lambda>_. Inr (redeem_proof example_crypto example_client invite (PublicString (Public example_client))
          (b32_encode (replicate 24 (CHR ''x''))))) example_db = (Some (grant lenc l), db')"
    by (rule example_granted)
  then obtain req ans where g: "?run (Inr example_rnd) req ans = (Some (grant lenc l), db')" by (rule that)
  have p: "eh_pipeID ?h = example_pipe" by (simp add: newExactHandler_def)
  have "rs_OK (grant lenc l)" by (simp add: grant_def)
  with g obtain jti c where "redeemed_by db' jti (eh_pipeID ?h) = Some c" by (rule granted_redeems [OF _ _ example_window(3)])
  moreover have "redeemed_by example_db jti (eh_pipeID ?h) = None" by (simp add: example_db_def empty_store_def redeemed_by_def)
  ultimately have ne: "db' \<noteq> example_db" by force
  obtain x where r: "?run (Inl (Error ''entropy'' [])) req ans = (Some x, db')" and ok: "\<not> rs_OK x"
    using g by (rule handle_entropy_refused)
  from ok have ok': "\<forall>y. Some x = Some y \<longrightarrow> \<not> rs_OK y" by simp
  have e: "epoch_of example_db (example_pipe, ''pipe-access'', example_pipe) = 3" by (simp add: example_db_def epoch_of_def)
  from redemption_refusal_frame [OF r ok', unfolded p] show ?thesis
  proof (elim disjE exE conjE)
    assume "db' = example_db" with ne show ?thesis by contradiction
  next
    fix rq :: ExactRedemptionRequest and invite chal pf path b and auth :: Authority
    assume i: "ei_AudiencePipeID invite = example_pipe"
      and f: "epoch_of example_db (example_pipe, ''pipe-access'', ei_AudiencePipeID invite) = ei_AccessEpoch invite"
      "redeemed_by example_db (ei_JTI invite) (ei_AudiencePipeID invite) = None"
      "redeemed_by db' (ei_JTI invite) (ei_AudiencePipeID invite) = Some (rp_RecipientPublic pf)"
      "relationship db' (ei_AudiencePipeID invite) (rp_RecipientPublic pf) = Some (ei_JTI invite, ei_AccessEpoch invite)"
    note f' = f [unfolded i]
    have "relationship db' example_pipe (rp_RecipientPublic pf) = Some (ei_JTI invite, 3)"
      using f'(4) unfolding f'(1) [symmetric] e .
    with r ok ne f'(2,3) show ?thesis by (intro exI conjI)
  qed
qed

text \<open>C6. A granted renewal is justified: the recipient proved their key on this exchange's challenge, they hold the
  accepted relationship of this Pipe, its invite is not revoked and its epoch is the current one, and the fresh
  lease is issued by the Pipe's authority key to that recipient, for this Pipe and epoch, within the lease bound.\<close>

theorem renewal_grant_sound:
  assumes "renewal_handle C now crnd jrnd fs home h req wr ans db = Some r" "rs_OK r"
  shows "\<exists>rq chal pf key jti k path l. req = Inr rq \<and> RandomChallenge crnd = Inr chal \<and> ans chal = Inr pf
    \<and> PublicFromString (nq_RecipientPublic rq) = Inr key \<and> VerifyProof C key pf RenewProofPurpose [eh_pipeID h, chal]
    \<and> relationship db (eh_pipeID h) (nq_RecipientPublic rq) = Some (jti, al_AccessEpoch l)
    \<and> get (revocations db) (eh_pipeID h, ''exact.invite'', jti) = None
    \<and> epoch_of db (eh_pipeID h, ''pipe-access'', eh_pipeID h) = al_AccessEpoch l
    \<and> lease_Encode l = Inr (rs_AccessLease r) \<and> al_Subject l = nq_RecipientPublic rq \<and> al_AudiencePipeID l = eh_pipeID h
    \<and> instant (al_ExpiresAt l) \<le> now + MaxTTL
    \<and> KeyPath (SecretPath home []) (eh_pipeID h) = Inr path \<and> Load C fs path = Inr k \<and> al_Issuer l = PublicString (Public k)"
proof -
  obtain rq chal pf path b l where h: "req = Inr rq" "nq_PipeID rq = eh_pipeID h" "RandomChallenge crnd = Inr chal"
    "ans chal = Inr pf" "KeyPath (SecretPath home []) (eh_pipeID h) = Inr path"
    "RenewAcceptedAccess C jrnd fs now (eh_pipeID h) (nq_RecipientPublic rq) (nq_OwnerBinding rq) chal pf
       \<lparr>ld_KeyPath = path, ld_Binding = b\<rparr> (Some (RevocationAdapter (eh_pipeID h))) (Some AcceptedAdapter)
       (eh_leaseTTL h) db = Inr l" "lease_Encode l = Inr (rs_AccessLease r)"
    using assms by (rule renewal_handle_OK)
  obtain jti k where f: "relationship db (eh_pipeID h) (nq_RecipientPublic rq) = Some (jti, al_AccessEpoch l)"
    "get (revocations db) (eh_pipeID h, ''exact.invite'', jti) = None"
    "al_AccessEpoch l = epoch_of db (eh_pipeID h, ''pipe-access'', eh_pipeID h)"
    "al_Subject l = nq_RecipientPublic rq" "al_AudiencePipeID l = eh_pipeID h" "instant (al_ExpiresAt l) \<le> now + MaxTTL"
    "\<exists>key. PublicFromString (nq_RecipientPublic rq) = Inr key \<and> VerifyProof C key pf RenewProofPurpose [eh_pipeID h, chal]"
    "Load C fs path = Inr k" "al_Issuer l = PublicString (Public k)"
    by (rule renewed_lease [OF h(6), unfolded Loader.simps])
  obtain key where "PublicFromString (nq_RecipientPublic rq) = Inr key" "VerifyProof C key pf RenewProofPurpose [eh_pipeID h, chal]"
    using f(7) by blast
  then show ?thesis
    using h(1,3-5,7) f(1,2,4-6,8,9) f(3) [symmetric]
    by (intro exI [of _ rq] exI [of _ chal] exI [of _ pf] exI [of _ key] exI [of _ jti] exI [of _ k] exI [of _ path]
        exI [of _ l] conjI) assumption+
qed

text \<open>The store after a redemption of some invite by the client.\<close>

definition example_accepted_db :: Store where
  "example_accepted_db = example_db\<lparr>accepted_exact_relationships :=
     [((example_pipe, PublicString (Public example_client)),
       \<lparr>rel_invite_jti = ''jti_1'', rel_access_epoch = 3, rel_accepted_at = ''t'', rel_updated_at = ''t''\<rparr>)]\<rparr>"

lemma example_renewable: "renewable example_accepted_db example_pipe (PublicString (Public example_client)) 3"
  by (simp add: renewable_def example_accepted_db_def example_db_def empty_store_def epoch_of_def relationship_def)

definition example_handler :: exactHandler where "example_handler = newExactHandler example_pipe minute"

lemma example_handler_fields:
  "eh_pipeID example_handler = example_pipe" "eh_leaseTTL example_handler = minute"
  using example_window(1,2) by (simp_all add: example_handler_def newExactHandler_def)

lemma example_renewed:
  obtains rq l lenc where
    "renewal_handle example_crypto example_now (Inr (replicate 24 (CHR ''x''))) (Inr example_rnd) example_auth_fs ''h''
       example_handler (Inr rq) (\<lambda>_. None)
       (\<lambda>_. Inr (SignProof example_crypto example_client RenewProofPurpose [example_pipe, b32_encode (replicate 24 (CHR ''x''))]))
       example_accepted_db = Some (grant lenc l)"
proof -
  obtain b invite enc where s: "shared example_crypto example_auth_fs ''h'' example_owner example_key b invite example_now minute"
    "ei_AudiencePipeID invite = example_pipe"
    by (rule example_shared)
  have "length (replicate 24 (CHR ''x'')) = 24" by simp
  from renewal_handle_complete [where h = example_handler, OF s(1) _ _ _ example_times(1) _ example_keys(3) _ this example_lengths(3),
      unfolded example_handler_fields, OF s(2) [symmetric] example_window(1,2) example_times(2) example_renewable]
  show thesis using that by blast
qed

theorem renewal_grant_sound_witness:
  "\<exists>req ans r rq jti ep. renewal_handle example_crypto example_now (Inr (replicate 24 (CHR ''x''))) (Inr example_rnd)
       example_auth_fs ''h'' example_handler req (\<lambda>_. None) ans example_accepted_db = Some r
   \<and> req = Inr rq \<and> relationship example_accepted_db example_pipe (nq_RecipientPublic rq) = Some (jti, ep)"
proof -
  obtain rq l lenc where g: "renewal_handle example_crypto example_now (Inr (replicate 24 (CHR ''x''))) (Inr example_rnd) example_auth_fs ''h''
       example_handler (Inr rq) (\<lambda>_. None)
       (\<lambda>_. Inr (SignProof example_crypto example_client RenewProofPurpose [example_pipe, b32_encode (replicate 24 (CHR ''x''))]))
       example_accepted_db = Some (grant lenc l)"
    by (rule example_renewed)
  have ok: "rs_OK (grant lenc l)" by (simp add: grant_def)
  show ?thesis using renewal_grant_sound [OF g ok] g unfolding example_handler_fields by blast
qed

text \<open>C14. An authorized open is justified: the lease verifies under the key in the Pipe's authority key file, for this
  client and Pipe and at the request's time, the client proved their key on the receiver's challenge, the lease is
  not revoked and not older than the Pipe's access epoch, and the authorization repeats exactly the lease's claims.
  The lazily loaded authorizer keeps trusting that key.\<close>

theorem open_authorization_sound:
  assumes "LazyAuthorizeOpen C clock fs home db req a = (Inr az, a')" "lazy_trusts C fs home a"
  shows "lazy_trusts C fs home a' \<and> (\<exists>path k lease key.
      KeyPath (SecretPath home []) (lz_pipeID a) = Inr path \<and> Load C fs path = Inr k
    \<and> lease_Decode (or_AccessLease req) = Inr lease
    \<and> lease_Verify C clock (Public k) (or_ClientPublic req) (or_PipeID req) (or_Now req) lease = None
    \<and> PublicFromString (or_ClientPublic req) = Inr key
    \<and> VerifyProof C key (or_ChallengeProof req) OpenProofPurpose [or_Challenge req, or_PipeID req]
    \<and> get (revocations db) (lz_pipeID a, ''access-lease'', al_JTI lease) = None
    \<and> epoch_of db (lz_pipeID a, ''pipe-access'', or_PipeID req) \<le> al_AccessEpoch lease
    \<and> az = \<lparr>az_PipeID = or_PipeID req, az_Subject = or_ClientPublic req, az_Issuer = al_Issuer lease,
         az_LeaseID = al_JTI lease, az_ExpiresAt = al_ExpiresAt lease, az_AccessEpoch = al_AccessEpoch lease\<rparr>)"
proof -
  have a': "a' = lazy_load C fs home a" using assms(1) by (auto simp: LazyAuthorizeOpen_def Let_def split: option.splits)
  have trust: "lazy_trusts C fs home a'" using lazy_load_trusts [OF assms(2)] by (simp add: a')
  obtain auth where auth: "lz_auth a' = Some auth" "AuthorizeOpen C clock auth db req = Inr az"
    using assms(1) by (auto simp: LazyAuthorizeOpen_def Let_def split: option.splits)
  have pipe: "lz_pipeID a' = lz_pipeID a" by (auto simp: a' lazy_load_def split: option.splits sum.splits)
  obtain path k where k: "KeyPath (SecretPath home []) (lz_pipeID a) = Inr path" "Load C fs path = Inr k"
    "auth = \<lparr>eo_leasePublic = Public k, eo_pipeID = lz_pipeID a, eo_state = RevocationAdapter (lz_pipeID a)\<rparr>"
    using trust auth(1) pipe by (auto simp: lazy_trusts_def)
  obtain lease key b n where o: "lease_Decode (or_AccessLease req) = Inr lease"
    "lease_Verify C clock (eo_leasePublic auth) (or_ClientPublic req) (or_PipeID req) (or_Now req) lease = None"
    "PublicFromString (or_ClientPublic req) = Inr key"
    "VerifyProof C key (or_ChallengeProof req) OpenProofPurpose [or_Challenge req, or_PipeID req]"
    "port_IsRevoked (eo_state auth) db (al_JTI lease) ''access-lease'' = Inr False"
    "port_RevocationEpoch (eo_state auth) db (or_PipeID req) ''pipe-access'' = Inr n" "n \<le> al_AccessEpoch lease"
    "az = \<lparr>az_PipeID = or_PipeID req, az_Subject = or_ClientPublic req, az_Issuer = al_Issuer lease,
         az_LeaseID = al_JTI lease, az_ExpiresAt = al_ExpiresAt lease, az_AccessEpoch = al_AccessEpoch lease\<rparr>"
    using auth(2) by (rule AuthorizeOpen_Inr)
  have "get (revocations db) (lz_pipeID a, ''access-lease'', al_JTI lease) = None"
    "epoch_of db (lz_pipeID a, ''pipe-access'', or_PipeID req) \<le> al_AccessEpoch lease"
    using o(5-7) k(3) by (simp_all add: IsRevoked_Inr RevocationEpoch_Inr)
  moreover have "lease_Verify C clock (Public k) (or_ClientPublic req) (or_PipeID req) (or_Now req) lease = None"
    using o(2) k(3) by simp
  ultimately show ?thesis using trust k(1,2) o(1,3,4,8) by blast
qed

lemma example_opened:
  obtains lenc az a' where "LazyAuthorizeOpen example_crypto 0 example_auth_fs ''h'' example_db
    \<lparr>or_PipeID = example_pipe, or_ClientPublic = PublicString (Public example_client), or_Challenge = ''c'',
     or_ChallengeProof = SignProof example_crypto example_client OpenProofPurpose [''c'', example_pipe],
     or_AccessLease = lenc, or_Now = example_now\<rparr> \<lparr>lz_pipeID = example_pipe, lz_auth = None\<rparr> = (Inr az, a')"
proof -
  have g: "list_all graphic example_pipe" using PipeID_graphic by (simp add: example_pipe_def)
  have "length example_pipe = 36" using PipeIDFromOwner_length [OF example_lengths(4)] by (simp add: example_pipe_def)
  then have p: "validString example_pipe" "length example_pipe \<le> MaxPipeIDLen" by (auto simp: validString_def bounds)
  note kp = keypair_facts(1) [OF example_keys(3)]
  obtain l where l: "NewAccessLease example_crypto (Inr example_rnd) example_key (PublicString (Public example_client))
      example_pipe example_now minute 3 = Inr l"
    using NewAccessLease_complete [OF kp p example_window(1,2) example_times] by blast
  obtain lenc where w: "lease_Decode lenc = Inr l"
    using l by (rule minted_lease_wire [OF _ example_keys(2) example_lengths(3) graphic_ascii [OF g] example_times]) simp_all
  have V: "lease_Verify example_crypto 0 (Public example_key) (PublicString (Public example_client)) example_pipe example_now l = None"
    using example_lengths(3) example_window by (intro NewAccessLease_verifies [OF l example_keys(2)]) auto
  have "al_AccessEpoch l = 3" using l by (auto elim!: NewAccessLease_Inr)
  then have "is_ok (fst (LazyAuthorizeOpen example_crypto 0 example_auth_fs ''h'' example_db
    \<lparr>or_PipeID = example_pipe, or_ClientPublic = PublicString (Public example_client), or_Challenge = ''c'',
     or_ChallengeProof = SignProof example_crypto example_client OpenProofPurpose [''c'', example_pipe],
     or_AccessLease = lenc, or_Now = example_now\<rparr> \<lparr>lz_pipeID = example_pipe, lz_auth = None\<rparr>))"
    by (intro LazyAuthorizeOpen_complete [OF example_key_files(1,2) w V example_keys(3)])
      (simp_all add: example_db_def empty_store_def epoch_of_def)
  then show thesis using that by (metis is_ok_iff prod.collapse)
qed

theorem open_authorization_sound_witness:
  "\<exists>req az a'. LazyAuthorizeOpen example_crypto 0 example_auth_fs ''h'' example_db req \<lparr>lz_pipeID = example_pipe, lz_auth = None\<rparr> = (Inr az, a')
    \<and> lazy_trusts example_crypto example_auth_fs ''h'' a'"
proof -
  have "lazy_trusts example_crypto example_auth_fs ''h'' \<lparr>lz_pipeID = example_pipe, lz_auth = None\<rparr>"
    by (simp add: lazy_trusts_def)
  then show ?thesis using open_authorization_sound example_opened by metis
qed

end
