(* ===== verification/Fencing.thy ===== *)
theory Fencing
  imports ExactFlow
begin

text \<open>
  Revocation against everything the authority and the receiving boundary later do: after an access epoch is
  raised, opens, redemptions and renewals of older epochs are refused in every later state of the store.
\<close>

section \<open>Stale credentials\<close>

lemma AuthorizeOpen_stale:
  assumes "lease_Decode (or_AccessLease req) = Inr lease" "al_AccessEpoch lease < epoch_of db (p, ''pipe-access'', or_PipeID req)"
    "eo_state a = RevocationAdapter p"
  shows "AuthorizeOpen C clock a db req = Inl authDenied"
proof (cases "AuthorizeOpen C clock a db req")
  case (Inl e)
  have "e = authDenied" if "map_err (\<lambda>_. authDenied) r = Inl e" for r :: "Authorization result" and e
    using that by (cases r) auto
  then show ?thesis using Inl by (auto simp: AuthorizeOpen_def)
next
  case (Inr az)
  obtain l n where "lease_Decode (or_AccessLease req) = Inr l"
    "port_RevocationEpoch (eo_state a) db (or_PipeID req) ''pipe-access'' = Inr n" "n \<le> al_AccessEpoch l"
    using Inr by (rule AuthorizeOpen_Inr)
  then show ?thesis using assms by (simp add: RevocationEpoch_Inr)
qed

lemma redemption_stale:
  assumes "DecodeInvite (rq_Invite rq) = Inr invite"
    "epoch_of db (eh_pipeID h, ''pipe-access'', eh_pipeID h) \<noteq> ei_AccessEpoch invite"
    "redemption_handle C now crnd srnd jrnd fs home h (Inr rq) wr ans db = (r, db')"
  shows "db' = db" "r = Some x \<Longrightarrow> \<not> rs_OK x"
proof -
  have stale: "redeem_state (RevocationAdapter (eh_pipeID h)) db invite \<noteq> None" if "ei_AudiencePipeID invite = eh_pipeID h"
    using store_revocation.redeem_state_None(2) [of "eh_pipeID h" db invite] assms(2) that by (auto simp: epoch_in_def)
  have red: "RedeemExactInvite C now srnd jrnd fs now (rq_Invite rq) rcpt chal pf loader (Some (RevocationAdapter (eh_pipeID h)))
      (Some RedemptionAdapter) lt db = (lease, db2) \<Longrightarrow> db2 = db \<and> \<not> is_ok lease"
    if "ei_AudiencePipeID invite = eh_pipeID h" for rcpt chal pf loader lt lease db2
  proof -
    assume r: "RedeemExactInvite C now srnd jrnd fs now (rq_Invite rq) rcpt chal pf loader (Some (RevocationAdapter (eh_pipeID h)))
      (Some RedemptionAdapter) lt db = (lease, db2)"
    show "db2 = db \<and> \<not> is_ok lease"
    proof (cases "redeem_credentials C now fs now (rq_Invite rq) rcpt chal pf loader")
      case (Inl e)
      then show ?thesis using r by (auto simp: RedeemExactInvite_def)
    next
      case (Inr ia)
      then have "fst ia = invite" using redeem_credentials_Inr(1) assms(1) by (cases ia) fastforce
      then show ?thesis using r Inr stale that by (auto simp: RedeemExactInvite_def split: prod.splits option.splits)
    qed
  qed
  have fin: "db2 = db \<and> \<not> rs_OK x" if "ei_AudiencePipeID invite = eh_pipeID h"
    "redemption_finish C now srnd jrnd fs home h (rq_Invite rq) chal invite frame db = (x, db2)" for chal frame x db2
  proof (cases "redemption_loader C fs home h invite frame")
    case (Inl e)
    then show ?thesis using that(2) by (auto simp: redemption_finish_def)
  next
    case (Inr pl)
    obtain pf loader where pl: "pl = (pf, loader)" by (cases pl)
    obtain lease db3 where r: "RedeemExactInvite C now srnd jrnd fs now (rq_Invite rq) (rp_RecipientPublic pf) chal
        (rp_ChallengeProof pf) loader (Some (RevocationAdapter (eh_pipeID h))) (Some RedemptionAdapter)
        (eh_leaseTTL h) db = (lease, db3)" by fastforce
    have "x = respond ''redemption_failed'' lease" "db2 = db3"
      using that(2) Inr r pl by (auto simp: redemption_finish_def)
    moreover have "\<not> rs_OK (respond m lease)" if "\<not> is_ok lease" for m
      using that by (cases lease) (auto simp: respond_def or_wire_def)
    ultimately show ?thesis using red [OF that(1) r] by blast
  qed
  have "db' = db \<and> (\<forall>x. r = Some x \<longrightarrow> \<not> rs_OK x)"
  proof (cases "redemption_admit h (Inr rq)")
    case (Inl e)
    then show ?thesis using assms(3) by (auto simp: redemption_handle_def)
  next
    case (Inr i)
    then have "i = invite" "ei_AudiencePipeID invite = eh_pipeID h"
      using assms(1) by (auto simp: redemption_admit_def result_simps split: if_splits)
    then show ?thesis
      using assms(3) Inr fin
      by (auto simp: redemption_handle_def apfst_def map_prod_def split: sum.splits option.splits prod.splits)
  qed
  then show "db' = db" "r = Some x \<Longrightarrow> \<not> rs_OK x" by auto
qed

lemma renewal_stale:
  assumes "relationship db (eh_pipeID h) (nq_RecipientPublic rq) = Some (jti, ep)"
    "epoch_of db (eh_pipeID h, ''pipe-access'', eh_pipeID h) \<noteq> ep"
    "renewal_handle C now crnd jrnd fs home h (Inr rq) wr ans db = Some x"
  shows "\<not> rs_OK x"
proof
  assume ok: "rs_OK x"
  obtain rq' challenge pf loader l where r: "Inr rq = (Inr rq' :: ExactRenewalRequest result)"
    "RenewAcceptedAccess C jrnd fs now (eh_pipeID h) (nq_RecipientPublic rq') (nq_OwnerBinding rq') challenge pf
       loader (Some (RevocationAdapter (eh_pipeID h))) (Some AcceptedAdapter) (eh_leaseTTL h) db = Inr l"
    using assms(3) ok by (rule renewal_handle_OK) blast
  obtain j where "relationship db (eh_pipeID h) (nq_RecipientPublic rq') = Some (j, al_AccessEpoch l)"
    "al_AccessEpoch l = epoch_of db (eh_pipeID h, ''pipe-access'', eh_pipeID h)"
    using r(2) by (rule renewed_lease) blast
  then show False using assms(1,2) r(1) by simp
qed

section \<open>Properties\<close>

text \<open>C2. Revocation fences every door: once the owner raised a Pipe's access epoch to n, then in every later state of
  the store, whatever else happened to it, an open with a lease of an epoch below n is denied, a redemption of
  an invite of an epoch below n is refused and changes nothing, and a renewal of a relationship accepted
  below n is refused.\<close>

theorem revocation_fences_access:
  assumes "Revoke t p ''pipe-access'' p n db = (Inr (), db1)" "exact_step\<^sup>*\<^sup>* db1 db2"
  shows "(\<forall>C clock a req lease. eo_state a = RevocationAdapter p \<and> or_PipeID req = p
        \<and> lease_Decode (or_AccessLease req) = Inr lease \<and> al_AccessEpoch lease < n
        \<longrightarrow> AuthorizeOpen C clock a db2 req = Inl authDenied)
    \<and> (\<forall>C now crnd srnd jrnd fs home h rq wr ans invite r db3. eh_pipeID h = p \<and> DecodeInvite (rq_Invite rq) = Inr invite
        \<and> ei_AccessEpoch invite < n \<and> redemption_handle C now crnd srnd jrnd fs home h (Inr rq) wr ans db2 = (r, db3)
        \<longrightarrow> db3 = db2 \<and> (\<forall>x. r = Some x \<longrightarrow> \<not> rs_OK x))
    \<and> (\<forall>C now crnd jrnd fs home h rq wr ans jti ep x. eh_pipeID h = p
        \<and> relationship db2 p (nq_RecipientPublic rq) = Some (jti, ep) \<and> ep < n
        \<and> renewal_handle C now crnd jrnd fs home h (Inr rq) wr ans db2 = Some x \<longrightarrow> \<not> rs_OK x)"
proof -
  have "epoch_of db1 (p, ''pipe-access'', p) = n" using Revoke_Inr(5) [OF assms(1)] by simp
  then have e: "n \<le> epoch_of db2 (p, ''pipe-access'', p)" using run_epoch [OF assms(2)] by metis
  show ?thesis
  proof (intro conjI allI impI; elim conjE)
    fix C clock and a :: "Store ExactOpenAuthorizer" and req :: OpenRequest and lease
    assume "eo_state a = RevocationAdapter p" "or_PipeID req = p" "lease_Decode (or_AccessLease req) = Inr lease"
      "al_AccessEpoch lease < n"
    then show "AuthorizeOpen C clock a db2 req = Inl authDenied"
      using AuthorizeOpen_stale [of req lease db2 p a C clock] e by simp
  next
    fix C now crnd srnd jrnd fs home and h :: exactHandler and rq :: ExactRedemptionRequest and wr ans invite r db3
    assume a: "eh_pipeID h = p" "DecodeInvite (rq_Invite rq) = Inr invite" "ei_AccessEpoch invite < n"
      "redemption_handle C now crnd srnd jrnd fs home h (Inr rq) wr ans db2 = (r, db3)"
    then have "epoch_of db2 (eh_pipeID h, ''pipe-access'', eh_pipeID h) \<noteq> ei_AccessEpoch invite" using e by simp
    from redemption_stale [OF a(2) this a(4)] show "db3 = db2" "\<And>x. r = Some x \<Longrightarrow> \<not> rs_OK x" by blast+
  next
    fix C now crnd jrnd fs home and h :: exactHandler and rq :: ExactRenewalRequest and wr ans jti ep x
    assume a: "eh_pipeID h = p" "relationship db2 p (nq_RecipientPublic rq) = Some (jti, ep)" "ep < n"
      "renewal_handle C now crnd jrnd fs home h (Inr rq) wr ans db2 = Some x"
    then have "epoch_of db2 (eh_pipeID h, ''pipe-access'', eh_pipeID h) \<noteq> ep" using e by simp
    with a show "\<not> rs_OK x" using renewal_stale by metis
  qed
qed

text \<open>The witness: a lease of epoch 1, after the epoch was raised to 2 and the relationship table was used again.\<close>

theorem revocation_fences_access_witness:
  "\<exists>lenc db1. Revoke 0 ''pip_x'' ''pipe-access'' ''pip_x'' 2 empty_store = (Inr (), db1)
    \<and> AuthorizeOpen example_crypto 0 \<lparr>eo_leasePublic = Public example_key, eo_pipeID = ''pip_x'', eo_state = RevocationAdapter ''pip_x''\<rparr>
        (snd (RedeemInviteAndAccept ''jti_1'' ''pip_x'' ''ses_1'' ''alice'' 0 0 db1))
        \<lparr>or_PipeID = ''pip_x'', or_ClientPublic = ''alice'', or_Challenge = ''c'', or_ChallengeProof = ''p'', or_AccessLease = lenc,
         or_Now = example_now\<rparr> = Inl authDenied"
proof -
  have "\<not> blank ''pip_x''" "\<not> blank ''pipe-access''"
    by (rule graphic_not_blank; simp add: graphic_def byte_def)+
  then have "fst (Revoke 0 ''pip_x'' ''pipe-access'' ''pip_x'' 2 empty_store) = Inr ()"
    by (intro Revoke_complete) (simp_all add: empty_store_def epoch_of_def)
  then obtain db1 where r: "Revoke 0 ''pip_x'' ''pipe-access'' ''pip_x'' 2 empty_store = (Inr (), db1)" by (metis prod.collapse)
  have step: "exact_step\<^sup>*\<^sup>* db1 (snd (RedeemInviteAndAccept ''jti_1'' ''pip_x'' ''ses_1'' ''alice'' 0 0 db1))"
    by (rule r_into_rtranclp, rule step_accept, rule prod.collapse [symmetric])
  have p: "validString ''pip_x''" "length ''pip_x'' \<le> MaxPipeIDLen" by (simp_all add: validString_def bounds)
  obtain l where l: "NewAccessLease example_crypto (Inr example_rnd) example_key (PublicString example_public) ''pip_x'' example_now minute 1 = Inr l"
    using NewAccessLease_complete [OF example_lengths(2) p example_window(1,2) example_times] by blast
  obtain lenc where w: "lease_Decode lenc = Inr l"
    using l by (rule minted_lease_wire [OF _ example_keys(2) example_lengths(3) _ example_times]) (simp_all add: ascii_def byte_def)
  have "al_AccessEpoch l < 2" using l by (auto elim!: NewAccessLease_Inr)
  with revocation_fences_access [OF r step] w show ?thesis
    using r by (intro exI [of _ lenc] exI [of _ db1]) simp
qed

end
