(* ===== verification/StorePipes.thy ===== *)
theory StorePipes
  imports Store Strict
begin

text \<open>
  Services and Pipes in the store (src/internal/store/store.go): the two definition tables, their uniqueness
  constraints and the referential checks of deletion. A \<^verbatim>\<open>spec\<close> document is kept as the value it encodes, so
  that two documents are equal when their values are; values are those whose strings are valid UTF-8.
\<close>

section \<open>Operations\<close>

text \<open>\<^verbatim>\<open>json.Marshal\<close> of a specification fails only on an instant JSON cannot write.\<close>

definition encode_pipe :: "PipeSpec \<Rightarrow> goerror option" where
  "encode_pipe spec =
     (if json_time_ok (UTC (pip_CreatedAt spec)) \<and> json_time_ok (UTC (pip_UpdatedAt spec)) then None
      else Some (Error ''json: error calling MarshalJSON for type time.Time'' []))"

definition conflict :: "Ref \<Rightarrow> goerror" where
  "conflict r = Error ''conflict: %s already exists with different specification'' [Ref_String r]"

definition unique_violation :: "string \<Rightarrow> goerror" where
  "unique_violation column = Error ''constraint failed: UNIQUE constraint failed: %s'' [column]"

definition PutService :: "ServiceSpec \<Rightarrow> Store \<Rightarrow> bool result \<times> Store" where
  "PutService spec db =
     (case ServiceSpec_Validate spec of
        Some e \<Rightarrow> (Inl e, db)
      | None \<Rightarrow>
          (case query db (Inr (get (services db) (Ref_String (svc_Ref spec)))) of
             Inl e \<Rightarrow> (Inl e, db)
           | Inr (Some existing) \<Rightarrow> (if existing = spec then Inr False else Inl (conflict (svc_Ref spec)), db)
           | Inr None \<Rightarrow>
               if Name (svc_Ref spec) \<in> (Name \<circ> svc_Ref) ` snd ` set (services db)
               then (Inl (unique_violation ''services.name''), db)
               else (Inr True, db\<lparr>services := put (Ref_String (svc_Ref spec)) spec (services db)\<rparr>)))"

definition Service_get :: "Store \<Rightarrow> Ref \<Rightarrow> ServiceSpec result" where
  "Service_get db ref =
     query db (case get (services db) (Ref_String ref) of
        None \<Rightarrow> Inl (Wrap ''%w: %s'' [Ref_String ref] ErrNotFound)
      | Some spec \<Rightarrow> Inr spec)"

definition Services_list :: "Store \<Rightarrow> ServiceSpec list result" where
  "Services_list db = query db (Inr (sort_key (Name \<circ> svc_Ref) (map snd (services db))))"

definition PutPipe :: "PipeSpec \<Rightarrow> string \<Rightarrow> string \<Rightarrow> Store \<Rightarrow> bool result \<times> Store" where
  "PutPipe spec ownerKey publishGrant db =
     (let ref = Ref_String (pip_Ref spec) in
      case (case PipeSpec_Validate spec of Some e \<Rightarrow> Some e | None \<Rightarrow> encode_pipe spec) of
        Some e \<Rightarrow> (Inl e, db)
      | None \<Rightarrow>
          (case query db (Inr (get (pipes db) ref)) of
             Inl e \<Rightarrow> (Inl e, db)
           | Inr (Some existing) \<Rightarrow>
               if pr_spec existing = spec
               then (Inr False, if publishGrant \<noteq> []
                     then db\<lparr>pipes := put ref (existing\<lparr>pr_publish_grant := publishGrant\<rparr>) (pipes db)\<rparr> else db)
               else (Inl (conflict (pip_Ref spec)), db)
           | Inr None \<Rightarrow>
               if pip_PipeID spec \<in> (pip_PipeID \<circ> pr_spec) ` snd ` set (pipes db)
               then (Inl (unique_violation ''pipes.pipe_id''), db)
               else (Inr True, db\<lparr>pipes := put ref
                 \<lparr>pr_spec = spec, pr_owner_key_file = ownerKey, pr_publish_grant = publishGrant\<rparr> (pipes db)\<rparr>)))"

definition SetPipePublishGrant :: "string \<Rightarrow> string \<Rightarrow> Store \<Rightarrow> unit result \<times> Store" where
  "SetPipePublishGrant ref grant db =
     (case query db (Inr (get (pipes db) ref)) of
        Inl e \<Rightarrow> (Inl e, db)
      | Inr None \<Rightarrow> (Inl (Wrap ''%w: %s'' [ref] ErrNotFound), db)
      | Inr (Some row) \<Rightarrow> (Inr (), db\<lparr>pipes := put ref (row\<lparr>pr_publish_grant := grant\<rparr>) (pipes db)\<rparr>))"

text \<open>\<^verbatim>\<open>WHERE ref=? OR pipe_id=?\<close>, the first row.\<close>

definition Pipe_get :: "Store \<Rightarrow> string \<Rightarrow> (PipeSpec \<times> string \<times> string) result" where
  "Pipe_get db identifier =
     query db (case find (\<lambda>(ref, row). ref = identifier \<or> pip_PipeID (pr_spec row) = identifier) (pipes db) of
        None \<Rightarrow> Inl (Wrap ''%w: pipe %s'' [identifier] ErrNotFound)
      | Some (_, row) \<Rightarrow> Inr (pr_spec row, pr_owner_key_file row, pr_publish_grant row))"

definition Pipes_list :: "Store \<Rightarrow> PipeSpec list result" where
  "Pipes_list db =
     query db (Inr (sort_key (\<lambda>p. Name (pip_Ref p)) (sort_key pip_PipeID (map (\<lambda>(_, row). pr_spec row) (pipes db)))))"

text \<open>The scan for a Pipe that targets \<open>ref\<close>.\<close>

definition targeted_by :: "string \<Rightarrow> (string, PipeRow) tab \<Rightarrow> string option" where
  "targeted_by ref rows = map_option fst (find (\<lambda>(_, row). Ref_String (pip_Target (pr_spec row)) = ref) rows)"

definition targeted :: "string \<Rightarrow> string \<Rightarrow> goerror" where
  "targeted ref other = Error ''conflict: %s is targeted by %s'' [ref, other]"

definition DeletePipe :: "string \<Rightarrow> Store \<Rightarrow> string result \<times> Store" where
  "DeletePipe ref db =
     write_tx db
       (case get (pipes db) ref of
          None \<Rightarrow> (Inl (Wrap ''%w: %s'' [ref] ErrNotFound), db)
        | Some row \<Rightarrow>
            (case targeted_by ref (filter (\<lambda>(k, _). k \<noteq> ref) (pipes db)) of
               Some other \<Rightarrow> (Inl (targeted ref other), db)
             | None \<Rightarrow> (Inr (pr_owner_key_file row),
                 db\<lparr>sessions := del_where (\<lambda>_ pipe_ref. pipe_ref = ref) (sessions db),
                    pipes := del_where (\<lambda>k _. k = ref) (pipes db)\<rparr>)))"

definition DeleteService :: "string \<Rightarrow> Store \<Rightarrow> unit result \<times> Store" where
  "DeleteService ref db =
     write_tx db
       (case get (services db) ref of
          None \<Rightarrow> (Inl (Wrap ''%w: %s'' [ref] ErrNotFound), db)
        | Some _ \<Rightarrow>
            (case targeted_by ref (pipes db) of
               Some other \<Rightarrow> (Inl (targeted ref other), db)
             | None \<Rightarrow> (Inr (), db\<lparr>services := del_where (\<lambda>k _. k = ref) (services db)\<rparr>)))"

section \<open>The invariant of the tables\<close>

text \<open>Rows are stored under their reference, are valid, and no two Pipes share an identity.\<close>

definition definitions_wf :: "Store \<Rightarrow> bool" where
  "definitions_wf db \<longleftrightarrow>
     keyed (services db) \<and> keyed (pipes db)
     \<and> (\<forall>(ref, spec) \<in> set (services db). ref = Ref_String (svc_Ref spec) \<and> ServiceSpec_Validate spec = None)
     \<and> (\<forall>(ref, row) \<in> set (pipes db). ref = Ref_String (pip_Ref (pr_spec row)) \<and> PipeSpec_Validate (pr_spec row) = None)
     \<and> distinct (map (\<lambda>(_, row). pip_PipeID (pr_spec row)) (pipes db))"

lemma put_new: "get t k = None \<Longrightarrow> put k v t = t @ [(k, v)]"
  by (induction t) auto

lemma put_old_image: "get t k = Some w \<Longrightarrow> f v = f w \<Longrightarrow> map (\<lambda>(k, v). f v) (put k v t) = map (\<lambda>(k, v). f v) t"
  by (induction t) auto

lemma set_put: "keyed t \<Longrightarrow> (k', v') \<in> set (put k v t) \<longleftrightarrow> (if k' = k then v' = v else (k', v') \<in> set t)"
  using get_in_set [of "put k v t" k' v'] get_in_set [of t k' v'] by (auto split: if_splits)

lemma keys_put: "fst ` set (put k v t) = insert k (fst ` set t)"
  by (simp add: dom_update)

lemma keys_del_where: "fst ` set (del_where (\<lambda>k _. k = ref) t) = fst ` set t - {ref}"
  by (force simp: del_where_def)

lemma set_del_where: "(k, v) \<in> set (del_where P t) \<longleftrightarrow> (k, v) \<in> set t \<and> \<not> P k v"
  by (auto simp: del_where_def)

lemma distinct_del_where: "distinct (map f t) \<Longrightarrow> distinct (map f (del_where P t))"
  by (simp add: del_where_def distinct_map_filter)

lemma definitions_wfD:
  assumes "definitions_wf db"
  shows "keyed (services db)" "keyed (pipes db)"
    "(ref, spec) \<in> set (services db) \<Longrightarrow> ref = Ref_String (svc_Ref spec) \<and> ServiceSpec_Validate spec = None"
    "(ref, row) \<in> set (pipes db) \<Longrightarrow> ref = Ref_String (pip_Ref (pr_spec row)) \<and> PipeSpec_Validate (pr_spec row) = None"
    "distinct (map (\<lambda>(_, row). pip_PipeID (pr_spec row)) (pipes db))"
  using assms by (auto simp: definitions_wf_def)

text \<open>What each operation does to the tables.\<close>

lemma PutService_cases:
  assumes "PutService spec db = (r, db')"
  obtains "db' = db" "r \<noteq> Inr True"
    | "r = Inr True" "ServiceSpec_Validate spec = None" "db_fault db = None" "get (services db) (Ref_String (svc_Ref spec)) = None"
      "db' = db\<lparr>services := put (Ref_String (svc_Ref spec)) spec (services db)\<rparr>"
  using assms by (auto simp: PutService_def query_def split: option.splits if_splits)

lemma PutPipe_cases:
  assumes "PutPipe spec key grant db = (r, db')"
  obtains "db' = db" "r \<noteq> Inr True" "\<And>b. r = Inr b \<Longrightarrow> \<exists>row. get (pipes db) (Ref_String (pip_Ref spec)) = Some row \<and> pr_spec row = spec"
    | row where "r = Inr False" "get (pipes db) (Ref_String (pip_Ref spec)) = Some row" "pr_spec row = spec"
      "db' = db\<lparr>pipes := put (Ref_String (pip_Ref spec)) (row\<lparr>pr_publish_grant := grant\<rparr>) (pipes db)\<rparr>"
    | "r = Inr True" "PipeSpec_Validate spec = None" "db_fault db = None" "get (pipes db) (Ref_String (pip_Ref spec)) = None"
      "pip_PipeID spec \<notin> (pip_PipeID \<circ> pr_spec) ` snd ` set (pipes db)"
      "db' = db\<lparr>pipes := put (Ref_String (pip_Ref spec))
         \<lparr>pr_spec = spec, pr_owner_key_file = key, pr_publish_grant = grant\<rparr> (pipes db)\<rparr>"
proof (cases "PipeSpec_Validate spec = None \<and> encode_pipe spec = None \<and> db_fault db = None")
  case False
  then have d: "db' = db" "\<exists>e. r = Inl e"
    using assms by (auto simp: PutPipe_def query_def Let_def split: option.splits)
  show thesis by (rule that(1) [OF d(1)]) (use d(2) in auto)
next
  case True
  note ok = assms [unfolded PutPipe_def Let_def query_def, simplified True]
  show thesis
  proof (cases "get (pipes db) (Ref_String (pip_Ref spec))")
    case None
    show thesis
    proof (cases "pip_PipeID spec \<in> (pip_PipeID \<circ> pr_spec) ` snd ` set (pipes db)")
      case False
      then show thesis using ok None True by (intro that(3)) simp_all
    next
      case dup: True
      then have d: "db' = db" "\<exists>e. r = Inl e" using ok None by auto
      show thesis by (rule that(1) [OF d(1)]) (use d(2) in auto)
    qed
  next
    case (Some row)
    show thesis
    proof (cases "pr_spec row = spec")
      case eq: True
      show thesis
      proof (cases "grant = []")
        case True
        then have "db' = db" "r = Inr False" using ok Some eq by auto
        then show thesis using that(1) Some eq by blast
      next
        case False
        then have "r = Inr False" "db' = db\<lparr>pipes := put (Ref_String (pip_Ref spec)) (row\<lparr>pr_publish_grant := grant\<rparr>) (pipes db)\<rparr>"
          using ok Some eq by auto
        then show thesis by (rule that(2) [OF _ Some eq])
      qed
    next
      case False
      then have d: "db' = db" "\<exists>e. r = Inl e" using ok Some by auto
      show thesis by (rule that(1) [OF d(1)]) (use d(2) in auto)
    qed
  qed
qed

lemma SetPipePublishGrant_cases:
  assumes "SetPipePublishGrant ref grant db = (r, db')"
  obtains "db' = db" | row where "get (pipes db) ref = Some row"
      "db' = db\<lparr>pipes := put ref (row\<lparr>pr_publish_grant := grant\<rparr>) (pipes db)\<rparr>"
proof (cases "db_fault db = None \<and> get (pipes db) ref \<noteq> None")
  case True
  then obtain row where row: "db_fault db = None" "get (pipes db) ref = Some row" by blast
  have "db' = db\<lparr>pipes := put ref (row\<lparr>pr_publish_grant := grant\<rparr>) (pipes db)\<rparr>"
    using assms row by (simp add: SetPipePublishGrant_def query_def)
  then show thesis by (rule that(2) [OF row(2)])
next
  case False
  then have "db' = db"
    using assms by (cases "db_fault db"; cases "get (pipes db) ref") (simp_all add: SetPipePublishGrant_def query_def)
  then show thesis by (rule that(1))
qed

lemma targeted_by_None:
  "targeted_by ref rows = None \<Longrightarrow> (k, row) \<in> set rows \<Longrightarrow> Ref_String (pip_Target (pr_spec row)) \<noteq> ref"
  by (auto simp: targeted_by_def find_None_iff)

lemma DeletePipe_cases:
  assumes "DeletePipe ref db = (r, db')"
  obtains "db' = db" "\<not> is_ok r" | row where "r = Inr (pr_owner_key_file row)" "get (pipes db) ref = Some row" "db_fault db = None"
      "\<And>k row. (k, row) \<in> set (pipes db) \<Longrightarrow> k \<noteq> ref \<Longrightarrow> Ref_String (pip_Target (pr_spec row)) \<noteq> ref"
      "db' = db\<lparr>sessions := del_where (\<lambda>_ pipe_ref. pipe_ref = ref) (sessions db), pipes := del_where (\<lambda>k _. k = ref) (pipes db)\<rparr>"
proof (cases r)
  case (Inl e)
  then have "db' = db" using assms unfolding DeletePipe_def by (blast intro: write_tx_Inl)
  then show ?thesis using that(1) Inl by simp
next
  case (Inr key)
  then obtain row where row: "get (pipes db) ref = Some row" "key = pr_owner_key_file row" "db_fault db = None"
    "targeted_by ref (filter (\<lambda>(k, _). k \<noteq> ref) (pipes db)) = None"
    "db' = db\<lparr>sessions := del_where (\<lambda>_ pipe_ref. pipe_ref = ref) (sessions db), pipes := del_where (\<lambda>k _. k = ref) (pipes db)\<rparr>"
    using assms by (auto simp: DeletePipe_def write_tx_Inr split: option.splits)
  have "Ref_String (pip_Target (pr_spec w)) \<noteq> ref" if "(k, w) \<in> set (pipes db)" "k \<noteq> ref" for k w
    using targeted_by_None [OF row(4)] that by auto
  then show ?thesis using that(2) row Inr by blast
qed

lemma DeleteService_cases:
  assumes "DeleteService ref db = (r, db')"
  obtains "db' = db" "\<not> is_ok r" | "r = Inr ()" "get (services db) ref \<noteq> None" "db_fault db = None"
      "\<And>k row. (k, row) \<in> set (pipes db) \<Longrightarrow> Ref_String (pip_Target (pr_spec row)) \<noteq> ref"
      "db' = db\<lparr>services := del_where (\<lambda>k _. k = ref) (services db)\<rparr>"
proof (cases r)
  case (Inl e)
  then have "db' = db" using assms unfolding DeleteService_def by (blast intro: write_tx_Inl)
  then show ?thesis using that(1) Inl by simp
next
  case (Inr u)
  then have row: "get (services db) ref \<noteq> None" "db_fault db = None" "targeted_by ref (pipes db) = None"
    "db' = db\<lparr>services := del_where (\<lambda>k _. k = ref) (services db)\<rparr>"
    using assms by (auto simp: DeleteService_def write_tx_Inr split: option.splits)
  then show ?thesis using that(2) targeted_by_None [OF row(3)] Inr by simp
qed

section \<open>Histories\<close>

inductive definition_step :: "Store \<Rightarrow> Store \<Rightarrow> bool" where
  step_put_service: "PutService spec db = (r, db') \<Longrightarrow> definition_step db db'"
| step_put_pipe: "PutPipe spec key grant db = (r, db') \<Longrightarrow> definition_step db db'"
| step_set_grant: "SetPipePublishGrant ref grant db = (r, db') \<Longrightarrow> definition_step db db'"
| step_delete_pipe: "DeletePipe ref db = (r, db') \<Longrightarrow> definition_step db db'"
| step_delete_service: "DeleteService ref db = (r, db') \<Longrightarrow> definition_step db db'"
| step_db_fault: "definition_step db (db\<lparr>db_fault := f\<rparr>)"

text \<open>The invariant, table by table.\<close>

definition services_wf :: "(string, ServiceSpec) tab \<Rightarrow> bool" where
  "services_wf t \<longleftrightarrow> keyed t \<and> (\<forall>(ref, spec) \<in> set t. ref = Ref_String (svc_Ref spec) \<and> ServiceSpec_Validate spec = None)"

definition pipes_wf :: "(string, PipeRow) tab \<Rightarrow> bool" where
  "pipes_wf t \<longleftrightarrow> keyed t
     \<and> (\<forall>(ref, row) \<in> set t. ref = Ref_String (pip_Ref (pr_spec row)) \<and> PipeSpec_Validate (pr_spec row) = None)
     \<and> distinct (map (\<lambda>(_, row). pip_PipeID (pr_spec row)) t)"

lemma definitions_wf_tables: "definitions_wf db \<longleftrightarrow> services_wf (services db) \<and> pipes_wf (pipes db)"
  unfolding definitions_wf_def services_wf_def pipes_wf_def by blast

lemma services_wf_put:
  assumes "services_wf t" "ServiceSpec_Validate spec = None"
  shows "services_wf (put (Ref_String (svc_Ref spec)) spec t)"
proof -
  have k: "keyed t" using assms(1) by (simp add: services_wf_def)
  have "ref = Ref_String (svc_Ref s) \<and> ServiceSpec_Validate s = None"
    if "(ref, s) \<in> set (put (Ref_String (svc_Ref spec)) spec t)" for ref s
    using that assms unfolding set_put [OF k] services_wf_def by (cases "ref = Ref_String (svc_Ref spec)") auto
  then show ?thesis using k by (auto simp: services_wf_def)
qed

lemma pipes_rows_put:
  assumes "keyed t" "\<forall>(ref, row) \<in> set t. ref = Ref_String (pip_Ref (pr_spec row)) \<and> PipeSpec_Validate (pr_spec row) = None"
    "ref = Ref_String (pip_Ref (pr_spec row))" "PipeSpec_Validate (pr_spec row) = None"
  shows "\<forall>(r, w) \<in> set (put ref row t). r = Ref_String (pip_Ref (pr_spec w)) \<and> PipeSpec_Validate (pr_spec w) = None"
proof -
  have "r = Ref_String (pip_Ref (pr_spec w)) \<and> PipeSpec_Validate (pr_spec w) = None"
    if "(r, w) \<in> set (put ref row t)" for r w
    using that assms(2-4) unfolding set_put [OF assms(1)] by (cases "r = ref") auto
  then show ?thesis by blast
qed

lemma pipes_wf_new:
  assumes "pipes_wf t" "PipeSpec_Validate (pr_spec row) = None" "get t (Ref_String (pip_Ref (pr_spec row))) = None"
    "pip_PipeID (pr_spec row) \<notin> (pip_PipeID \<circ> pr_spec) ` snd ` set t"
  shows "pipes_wf (put (Ref_String (pip_Ref (pr_spec row))) row t)"
proof -
  have "pip_PipeID (pr_spec row) \<notin> set (map (\<lambda>(_, row). pip_PipeID (pr_spec row)) t)"
    using assms(4) by (force simp: image_iff)
  then have "distinct (map (\<lambda>(_, row). pip_PipeID (pr_spec row)) (put (Ref_String (pip_Ref (pr_spec row))) row t))"
    using assms(1) by (simp add: put_new [OF assms(3)] pipes_wf_def)
  then show ?thesis using assms(1,2) pipes_rows_put [OF _ _ refl, of t row] by (simp add: pipes_wf_def)
qed

lemma pipes_wf_regrant:
  assumes "pipes_wf t" "get t ref = Some row" "pr_spec row' = pr_spec row"
  shows "pipes_wf (put ref row' t)"
proof -
  have "map (\<lambda>(_, row). pip_PipeID (pr_spec row)) (put ref row' t) = map (\<lambda>(_, row). pip_PipeID (pr_spec row)) t"
    using put_old_image [of t ref row "\<lambda>row. pip_PipeID (pr_spec row)" row'] assms(2,3) by simp
  then have d: "distinct (map (\<lambda>(_, row). pip_PipeID (pr_spec row)) (put ref row' t))"
    using assms(1) by (simp add: pipes_wf_def)
  have "(ref, row) \<in> set t" using assms(2) by (rule map_of_SomeD)
  then have "ref = Ref_String (pip_Ref (pr_spec row'))" "PipeSpec_Validate (pr_spec row') = None"
    using assms(1,3) by (auto simp: pipes_wf_def)
  then show ?thesis using d assms(1) pipes_rows_put [of t ref row'] by (simp add: pipes_wf_def)
qed

lemma wf_del_where:
  "services_wf s \<Longrightarrow> services_wf (del_where P s)" "pipes_wf t \<Longrightarrow> pipes_wf (del_where Q t)"
  unfolding services_wf_def pipes_wf_def
  by (auto simp: set_del_where intro: distinct_del_where)

lemma definition_step_wf: "definition_step db db' \<Longrightarrow> definitions_wf db \<Longrightarrow> definitions_wf db'"
  unfolding definitions_wf_tables
proof (induction rule: definition_step.induct)
  case (step_put_service spec db r db')
  show ?case
    using step_put_service.hyps
    by (cases rule: PutService_cases) (use step_put_service.prems services_wf_put in simp_all)
next
  case (step_put_pipe spec key grant db r db')
  show ?case
    using step_put_pipe.hyps
  proof (cases rule: PutPipe_cases)
    case (2 row)
    then show ?thesis using step_put_pipe.prems pipes_wf_regrant [OF _ 2(2)] by simp
  next
    case 3
    then show ?thesis using step_put_pipe.prems pipes_wf_new [of "pipes db"
        "\<lparr>pr_spec = spec, pr_owner_key_file = key, pr_publish_grant = grant\<rparr>"] by simp
  qed (use step_put_pipe.prems in simp)
next
  case (step_set_grant ref grant db r db')
  show ?case
    using step_set_grant.hyps
  proof (cases rule: SetPipePublishGrant_cases)
    case (2 row)
    then show ?thesis using step_set_grant.prems pipes_wf_regrant [OF _ 2(1)] by simp
  qed (use step_set_grant.prems in simp)
next
  case (step_delete_pipe ref db r db')
  show ?case
    using step_delete_pipe.hyps
    by (cases rule: DeletePipe_cases) (use step_delete_pipe.prems wf_del_where in simp_all)
next
  case (step_delete_service ref db r db')
  show ?case
    using step_delete_service.hyps
    by (cases rule: DeleteService_cases) (use step_delete_service.prems wf_del_where in simp_all)
qed simp

lemma definition_run_wf: "definition_step\<^sup>*\<^sup>* db db' \<Longrightarrow> definitions_wf db \<Longrightarrow> definitions_wf db'"
  by (induction rule: rtranclp_induct) (auto intro: definition_step_wf)

lemma definitions_wf_empty: "definitions_wf empty_store"
  by (simp add: definitions_wf_def empty_store_def)

section \<open>Lookups\<close>

text \<open>Identities of the form every owner key derives cannot be taken for references.\<close>

definition ids_apart :: "Store \<Rightarrow> bool" where
  "ids_apart db \<longleftrightarrow> (\<forall>(ref, row) \<in> set (pipes db). HasPrefix (pip_PipeID (pr_spec row)) ''pip_'')"

lemma find_unique:
  assumes "x \<in> set xs" "P x" "\<forall>y \<in> set xs. P y \<longrightarrow> y = x"
  shows "find P xs = Some x"
proof (cases "find P xs")
  case None
  then show ?thesis using assms(1,2) by (simp add: find_None_iff)
next
  case (Some z)
  then obtain i where "i < length xs" "P (xs ! i)" "z = xs ! i" by (auto simp: find_Some_iff)
  then show ?thesis using assms(3) Some by (metis nth_mem)
qed

lemma Ref_String_pipe: "PipeSpec_Validate p = None \<Longrightarrow> Ref_String (pip_Ref p) = ''pipe/'' @ Name (pip_Ref p)"
  by (auto simp: PipeSpec_Validate_def RequireKind_def Ref_String_def KindPipe_def Let_def split: option.splits if_splits)

lemma Pipe_get_stored:
  assumes "definitions_wf db" "ids_apart db" "(ref, row) \<in> set (pipes db)" "db_fault db = None"
  shows "Pipe_get db ref = Inr (pr_spec row, pr_owner_key_file row, pr_publish_grant row)"
    "Pipe_get db (pip_PipeID (pr_spec row)) = Inr (pr_spec row, pr_owner_key_file row, pr_publish_grant row)"
proof -
  note wf = definitions_wfD [OF assms(1)]
  have shape: "\<exists>n. r = ''pipe/'' @ n" "HasPrefix (pip_PipeID (pr_spec w)) ''pip_''" if "(r, w) \<in> set (pipes db)" for r w
    using wf(4) [OF that] Ref_String_pipe assms(2) that by (auto simp: ids_apart_def)
  then have apart: "pip_PipeID (pr_spec w) \<noteq> r'" if "(r, w) \<in> set (pipes db)" "(r', w') \<in> set (pipes db)" for r w r' w'
    using that by (fastforce simp: HasPrefix_def)
  have one: "w = row" if "(ref, w) \<in> set (pipes db)" for w
    using that assms(3) wf(2) by (meson eq_key_imp_eq_value keyed_def)
  have id: "r = ref \<and> w = row" if "(r, w) \<in> set (pipes db)" "pip_PipeID (pr_spec w) = pip_PipeID (pr_spec row)" for r w
  proof -
    have "inj_on (\<lambda>(_, row). pip_PipeID (pr_spec row)) (set (pipes db))" using wf(5) by (simp add: distinct_map)
    from inj_onD [OF this, of "(r, w)" "(ref, row)"] show ?thesis using that assms(3) by simp
  qed
  have "\<forall>y \<in> set (pipes db). (case y of (r, w) \<Rightarrow> r = ref \<or> pip_PipeID (pr_spec w) = ref) \<longrightarrow> y = (ref, row)"
    using one apart assms(3) by fast
  then have "find (\<lambda>(r, w). r = ref \<or> pip_PipeID (pr_spec w) = ref) (pipes db) = Some (ref, row)"
    by (intro find_unique [OF assms(3)]) simp_all
  then show "Pipe_get db ref = Inr (pr_spec row, pr_owner_key_file row, pr_publish_grant row)"
    using assms(4) by (simp add: Pipe_get_def query_def)
  have "\<forall>y \<in> set (pipes db). (case y of (r, w) \<Rightarrow> r = pip_PipeID (pr_spec row)
      \<or> pip_PipeID (pr_spec w) = pip_PipeID (pr_spec row)) \<longrightarrow> y = (ref, row)"
    using id apart assms(3) by fast
  then have "find (\<lambda>(r, w). r = pip_PipeID (pr_spec row) \<or> pip_PipeID (pr_spec w) = pip_PipeID (pr_spec row)) (pipes db) = Some (ref, row)"
    by (intro find_unique [OF assms(3)]) simp_all
  then show "Pipe_get db (pip_PipeID (pr_spec row)) = Inr (pr_spec row, pr_owner_key_file row, pr_publish_grant row)"
    using assms(4) by (simp add: Pipe_get_def query_def)
qed

section \<open>Properties\<close>

text \<open>C35. The definition tables are well formed in every reachable state: rows are stored under their own reference
  and are valid, keys are unique, and no two Pipes share an identity.\<close>

theorem definitions_always_wf:
  assumes "definition_step\<^sup>*\<^sup>* empty_store db"
  shows "definitions_wf db"
  using definition_run_wf [OF assms definitions_wf_empty] .

definition example_service :: ServiceSpec where
  "example_service = \<lparr>svc_Ref = \<lparr>Kind = ''service'', Name = ''web''\<rparr>, svc_Kind = ''unix'', svc_Target = ''unix:///s'',
     svc_Description = [], svc_Metadata = Map.empty\<rparr>"

definition example_pipe_spec :: PipeSpec where
  "example_pipe_spec = \<lparr>pip_Ref = \<lparr>Kind = ''pipe'', Name = ''web''\<rparr>, pip_PipeID = ''pip_1'', pip_Scope = None,
     pip_Ingress = \<lparr>ing_Kind = ''tubo'', ing_Listen = [], ing_Host = [], ing_Path = [], ing_Protocol = ''raw''\<rparr>,
     pip_Target = \<lparr>Kind = ''service'', Name = ''web''\<rparr>, pip_Visibility = ''unlisted'', pip_Access = AccessInviteOnly,
     pip_AllowReexport = False, pip_CreatedAt = 0, pip_UpdatedAt = 0\<rparr>"

lemma example_service_valid: "ServiceSpec_Validate example_service = None"
proof -
  have "TrimSpace ''unix:///s'' = ''unix:///s''" by (rule TrimSpace_graphic) (simp_all add: graphic_def byte_def)
  then show ?thesis
    by (simp add: ServiceSpec_Validate_def example_service_def RequireKind_def Ref_Validate_def resource_kinds_def
        KindService_def KindPipe_def resourceNamePattern_def name_start_def name_byte_def is_lower_def byte_def)
qed

lemma example_pipe_valid: "PipeSpec_Validate example_pipe_spec = None"
  by (simp add: PipeSpec_Validate_def example_pipe_spec_def RequireKind_def Ref_Validate_def resource_kinds_def
      KindService_def KindPipe_def resourceNamePattern_def name_start_def name_byte_def is_lower_def byte_def
      Ingress_check_def IngressLocal_def IngressTubo_def VisibilityPrivate_def VisibilityUnlisted_def
      VisibilityDiscoverable_def AccessInviteOnly_def AccessMembers_def AccessPublic_def Let_def)

definition example_defs :: Store where
  "example_defs = empty_store\<lparr>services := [(''service/web'', example_service)],
     pipes := [(''pipe/web'', \<lparr>pr_spec = example_pipe_spec, pr_owner_key_file = ''k'', pr_publish_grant = []\<rparr>)]\<rparr>"

lemma example_encode: "encode_pipe example_pipe_spec = None"
proof -
  have "year (date_of 0) = 1970" by code_simp
  then show ?thesis by (simp add: encode_pipe_def example_pipe_spec_def json_time_ok_def UTC_def)
qed

lemma example_defs_run: "definition_step\<^sup>*\<^sup>* empty_store example_defs"
proof -
  have 1: "PutService example_service empty_store = (Inr True, empty_store\<lparr>services := [(''service/web'', example_service)]\<rparr>)"
    using example_service_valid by (simp add: PutService_def query_def empty_store_def example_service_def Ref_String_def)
  have 2: "PutPipe example_pipe_spec ''k'' [] (empty_store\<lparr>services := [(''service/web'', example_service)]\<rparr>) = (Inr True, example_defs)"
    using example_pipe_valid example_encode
    by (simp add: PutPipe_def query_def empty_store_def example_pipe_spec_def example_defs_def Ref_String_def)
  show ?thesis
    using step_put_service [OF 1] step_put_pipe [OF 2] by (meson r_into_rtranclp rtranclp.rtrancl_into_rtrancl)
qed

theorem definitions_always_wf_witness: "definitions_wf example_defs"
  using definitions_always_wf [OF example_defs_run] .

text \<open>No dangling targets: an operation that leaves a Pipe in place leaves its specification as it is, and when the
  Pipe's target was defined, as a Service or as a Pipe, it still is. Deletion of a targeted definition is refused.\<close>

theorem deletion_keeps_targets:
  assumes "definition_step db db'" "definitions_wf db" "(ref, row) \<in> set (pipes db)" "(ref, row') \<in> set (pipes db')"
    "Ref_String (pip_Target (pr_spec row)) \<in> fst ` set (services db) \<union> fst ` set (pipes db)"
  shows "pr_spec row' = pr_spec row
    \<and> Ref_String (pip_Target (pr_spec row')) \<in> fst ` set (services db') \<union> fst ` set (pipes db')"
proof -
  note wf = definitions_wfD [OF assms(2)]
  have one: "w = row" if "(ref, w) \<in> set (pipes db)" for w
    using that assms(3) wf(2) by (meson eq_key_imp_eq_value keyed_def)
  show ?thesis
    using assms(1)
  proof cases
    case (step_put_service spec r)
    show ?thesis
      using step_put_service
    proof (cases rule: PutService_cases)
      case 2
      then show ?thesis using assms(4,5) one by (auto simp: keys_put)
    qed (use assms(4,5) one in simp)
  next
    case (step_put_pipe spec key grant r)
    show ?thesis
      using step_put_pipe
    proof (cases rule: PutPipe_cases)
      case (2 w)
      then have "pr_spec row' = pr_spec row"
        using assms(4) one set_put [OF wf(2)] map_of_SomeD [OF 2(2)] by (auto split: if_splits)
      then show ?thesis using 2(4) assms(5) by (auto simp: keys_put)
    next
      case 3
      then have "ref \<noteq> Ref_String (pip_Ref spec)" using assms(3) by (auto simp: map_of_eq_None_iff image_iff)
      then have "row' = row" using 3(6) assms(4) one set_put [OF wf(2)] by simp
      then show ?thesis using 3(6) assms(5) by (auto simp: keys_put)
    qed (use assms(4,5) one in simp)
  next
    case (step_set_grant ref0 grant r)
    show ?thesis
      using step_set_grant
    proof (cases rule: SetPipePublishGrant_cases)
      case (2 w)
      then have "pr_spec row' = pr_spec row"
        using assms(4) one set_put [OF wf(2)] map_of_SomeD [OF 2(1)] by (auto split: if_splits)
      then show ?thesis using 2(2) assms(5) by (auto simp: keys_put)
    qed (use assms(4,5) one in simp)
  next
    case (step_delete_pipe ref0 r)
    show ?thesis
      using step_delete_pipe
    proof (cases rule: DeletePipe_cases)
      case (2 w)
      then have "(ref, row') \<in> set (pipes db)" "ref \<noteq> ref0" using assms(4) by (simp_all add: set_del_where)
      then have "row' = row" "Ref_String (pip_Target (pr_spec row)) \<noteq> ref0" using one 2(4) assms(3) by auto
      then show ?thesis using 2(5) assms(5) by (simp add: keys_del_where)
    qed (use assms(4,5) one in simp)
  next
    case (step_delete_service ref0 r)
    show ?thesis
      using step_delete_service
    proof (cases rule: DeleteService_cases)
      case 2
      then have "row' = row" "Ref_String (pip_Target (pr_spec row)) \<noteq> ref0" using one 2(4) assms(3,4) by auto
      then show ?thesis using 2(5) assms(5) by (simp add: keys_del_where)
    qed (use assms(4,5) one in simp)
  next
    case (step_db_fault f)
    then show ?thesis using assms(4,5) one by simp
  qed
qed

theorem deletion_keeps_targets_witness:
  "''service/web'' \<in> fst ` set (services (snd (DeleteService ''service/web'' example_defs)))
     \<union> fst ` set (pipes (snd (DeleteService ''service/web'' example_defs)))"
proof -
  have d: "snd (DeleteService ''service/web'' example_defs) = example_defs"
    by (simp add: DeleteService_def example_defs_def empty_store_def write_tx_def targeted_by_def example_pipe_spec_def Ref_String_def)
  have "definition_step example_defs (snd (DeleteService ''service/web'' example_defs))"
    by (rule step_delete_service, rule prod.collapse [symmetric])
  moreover have "definitions_wf example_defs" using definition_run_wf [OF example_defs_run definitions_wf_empty] .
  moreover have "(''pipe/web'', \<lparr>pr_spec = example_pipe_spec, pr_owner_key_file = ''k'', pr_publish_grant = []\<rparr>) \<in> set (pipes example_defs)"
    by (simp add: example_defs_def)
  moreover have "Ref_String (pip_Target example_pipe_spec) = ''service/web''" "fst ` set (services example_defs) = {''service/web''}"
    by (simp_all add: example_pipe_spec_def example_defs_def Ref_String_def)
  ultimately show ?thesis using deletion_keeps_targets [of example_defs example_defs "''pipe/web''"] d by fastforce
qed

end
