(* ===== verification/UseCases.thy ===== *)
theory UseCases
  imports ExactHandlers StorePipes
begin

text \<open>
  The use cases (src/internal/usecase): attach, share, accept, acquire and connect, over injected
  capabilities. The repositories are records of functions over an abstract store \<open>'s\<close>; the network with everything
  behind it (the owner's process included) is an abstract state \<open>'n\<close>, and a carrier a value of type \<open>'c\<close>. A capability
  that is not wired is \<open>None\<close>. A use case is an action on the world: it fails or yields a value, and
  in both cases leaves a world behind.
\<close>

section \<open>Actions\<close>

record ('s, 'n) World =
  w_fs :: FS
  w_db :: 's
  w_net :: 'n

type_synonym ('a, 'w) act = "'w \<Rightarrow> 'a result \<times> 'w"

definition act_bind :: "('a, 'w) act \<Rightarrow> ('a \<Rightarrow> ('b, 'w) act) \<Rightarrow> ('b, 'w) act" where
  "act_bind m f w = (case m w of (Inl e, w') \<Rightarrow> (Inl e, w') | (Inr x, w') \<Rightarrow> f x w')"

definition act_lift :: "'a result \<Rightarrow> ('a, 'w) act" where "act_lift r w = (r, w)"

definition act_err :: "(goerror \<Rightarrow> goerror) \<Rightarrow> ('a, 'w) act \<Rightarrow> ('a, 'w) act" where
  "act_err f m w = (case m w of (r, w') \<Rightarrow> (map_err f r, w'))"

text \<open>Actions on one component of the world.\<close>

definition on_fs :: "('a, FS) act \<Rightarrow> ('a, ('s, 'n) World) act" where
  "on_fs m w = (case m (w_fs w) of (r, fs) \<Rightarrow> (r, w\<lparr>w_fs := fs\<rparr>))"

definition on_db :: "('a, 's) act \<Rightarrow> ('a, ('s, 'n) World) act" where
  "on_db m w = (case m (w_db w) of (r, db) \<Rightarrow> (r, w\<lparr>w_db := db\<rparr>))"

definition on_net :: "('a, 'n) act \<Rightarrow> ('a, ('s, 'n) World) act" where
  "on_net m w = (case m (w_net w) of (r, net) \<Rightarrow> (r, w\<lparr>w_net := net\<rparr>))"

definition on_fs_net :: "('a, FS \<times> 'n) act \<Rightarrow> ('a, ('s, 'n) World) act" where
  "on_fs_net m w = (case m (w_fs w, w_net w) of (r, fs, net) \<Rightarrow> (r, w\<lparr>w_fs := fs, w_net := net\<rparr>))"

definition ask :: "('w \<Rightarrow> 'a result) \<Rightarrow> ('a, 'w) act" where "ask f w = (f w, w)"

text \<open>\<^verbatim>\<open>if capability == nil { return zero, errors.New(message) }\<close>.\<close>

definition need :: "string \<Rightarrow> 'a option \<Rightarrow> ('a, 'w) act" where
  "need message c = act_lift (case c of None \<Rightarrow> Inl (Error message []) | Some x \<Rightarrow> Inr x)"

definition require :: "bool \<Rightarrow> goerror \<Rightarrow> ('a, 'w) act \<Rightarrow> ('a, 'w) act" where
  "require b e m = (if b then m else act_lift (Inl e))"

lemma world_same [simp]:
  "w\<lparr>w_fs := w_fs w\<rparr> = w" "w\<lparr>w_db := w_db w\<rparr> = w" "w\<lparr>w_net := w_net w\<rparr> = w"
  for w :: "('s, 'n) World"
  by simp_all

named_theorems act_simps \<open>outcomes of actions\<close>

lemma act_bind_Inr [act_simps]:
  "act_bind m f w = (Inr y, w') \<longleftrightarrow> (\<exists>x w1. m w = (Inr x, w1) \<and> f x w1 = (Inr y, w'))"
  by (auto simp: act_bind_def split: prod.splits sum.splits)

lemma act_bind_Inl [act_simps]:
  "act_bind m f w = (Inl e, w') \<longleftrightarrow> m w = (Inl e, w') \<or> (\<exists>x w1. m w = (Inr x, w1) \<and> f x w1 = (Inl e, w'))"
  by (auto simp: act_bind_def split: prod.splits sum.splits)

lemma act_lift_eq [act_simps]: "act_lift r w = (r', w') \<longleftrightarrow> r = r' \<and> w' = w"
  by (auto simp: act_lift_def)

lemma ask_eq [act_simps]: "ask f w = (r, w') \<longleftrightarrow> f w = r \<and> w' = w"
  by (auto simp: ask_def)

lemma act_err_Inr [act_simps]: "act_err f m w = (Inr x, w') \<longleftrightarrow> m w = (Inr x, w')"
  by (auto simp: act_err_def map_err_Inr_iff split: prod.splits)

lemma act_err_Inl [act_simps]: "act_err f m w = (Inl e, w') \<longleftrightarrow> (\<exists>e0. m w = (Inl e0, w') \<and> e = f e0)"
proof -
  obtain r w1 where "m w = (r, w1)" by fastforce
  then show ?thesis by (cases r) (auto simp: act_err_def)
qed

lemma require_eq [act_simps]: "require b e m w = (r, w') \<longleftrightarrow> (if b then m w = (r, w') else r = Inl e \<and> w' = w)"
  by (auto simp: require_def act_lift_def)

lemma need_eq [act_simps]:
  "need m c w = (r, w') \<longleftrightarrow> (case c of None \<Rightarrow> Inl (Error m []) | Some x \<Rightarrow> Inr x) = r \<and> w' = w"
  by (auto simp: need_def act_lift_def)

lemma on_eq [act_simps]:
  "on_fs mf w = (r, w') \<longleftrightarrow> (\<exists>fs. mf (w_fs w) = (r, fs) \<and> w' = w\<lparr>w_fs := fs\<rparr>)"
  "on_db md w = (s, w') \<longleftrightarrow> (\<exists>db. md (w_db w) = (s, db) \<and> w' = w\<lparr>w_db := db\<rparr>)"
  "on_net mn w = (t, w') \<longleftrightarrow> (\<exists>net. mn (w_net w) = (t, net) \<and> w' = w\<lparr>w_net := net\<rparr>)"
  "on_fs_net mb w = (u, w') \<longleftrightarrow> (\<exists>fs net. mb (w_fs w, w_net w) = (u, fs, net) \<and> w' = w\<lparr>w_fs := fs, w_net := net\<rparr>)"
  by (auto simp: on_fs_def on_db_def on_net_def on_fs_net_def split: prod.splits)

section \<open>Capabilities (usecase.go, capabilities.go, repository.go)\<close>

record 's PipeRepository =
  pp_Upsert :: "PipeSpec \<Rightarrow> string \<Rightarrow> (bool, 's) act"
  pp_Get :: "'s \<Rightarrow> string \<Rightarrow> (PipeSpec \<times> string) result"

record 's RemotePipeBindingRepo =
  rb_Get :: "'s \<Rightarrow> string \<Rightarrow> RemotePipeBinding result"
  rb_Put :: "RemotePipeBinding \<Rightarrow> (unit, 's) act"

record 's AccessLeaseCacheRepo =
  cr_Get :: "string \<Rightarrow> (AccessLeaseCache, 's) act"
  cr_Put :: "AccessLeaseCache \<Rightarrow> (unit, 's) act"

record ('s, 'n, 'c) UseCases =
  uc_ServiceUpsert :: "ServiceSpec \<Rightarrow> (bool, 's) act"
  uc_Pipes :: "'s PipeRepository"
  uc_Secrets :: string
  uc_OwnerLocator :: "(Ref \<Rightarrow> string \<Rightarrow> (string, 'n) act) option"
  uc_ExactEpoch :: "('s \<Rightarrow> string \<Rightarrow> nat result) option"
  uc_RedemptionProtocol :: string
  uc_Redemption :: "('c \<Rightarrow> ExactInvite \<Rightarrow> string \<Rightarrow> (AccessLease, FS \<times> 'n) act) option"
  uc_Renewal :: "('c \<Rightarrow> RenewalRequest \<Rightarrow> (AccessLease, FS \<times> 'n) act) option"
  uc_Reach :: "(string \<Rightarrow> ('c, 'n) act) option"
  uc_Bindings :: "'s RemotePipeBindingRepo option"
  uc_LeaseCache :: "'s AccessLeaseCacheRepo option"

definition DefaultInviteTTL :: int where "DefaultInviteTTL = 10 * minute"

definition persistenceError :: "string \<Rightarrow> goerror \<Rightarrow> goerror" where
  "persistenceError what e = Wrap ''persistence_failed: %s: %w'' [what] e"

definition authorizationDenied :: "goerror \<Rightarrow> goerror" where
  "authorizationDenied e = Wrap ''authorization_denied: %w'' [] e"

definition ownerKeyPath :: "string \<Rightarrow> Ref \<Rightarrow> string" where
  "ownerKeyPath secrets ref = Join_path [secrets, ''pipes'', Name ref @ ''.key'']"

definition ownerKey ::
  "crypto \<Rightarrow> string result \<Rightarrow> string result \<Rightarrow> ('s, 'n, 'c) UseCases \<Rightarrow> Ref \<Rightarrow> (string \<times> string, ('s, 'n) World) act" where
  "ownerKey C seed suffix u ref =
     require (\<not> blank (uc_Secrets u)) (Error ''invalid_input: secrets directory is not configured'' [])
       (act_bind (on_fs (Provision C seed suffix (ownerKeyPath (uc_Secrets u) ref))) (\<lambda>private.
        act_lift (Inr (private, ownerKeyPath (uc_Secrets u) ref))))"

definition redemptionAddress :: "ExactInvite \<Rightarrow> string result" where
  "redemptionAddress invite =
     (if ei_Binding invite = [] then Inl (Error ''invalid_input: invite carries no owner binding'' [])
      else
        res_bind (map_err (\<lambda>_. Error ''invalid_input: invite owner binding invalid'' []) (DecodeOwnerBinding (ei_Binding invite))) (\<lambda>binding.
        if ob_RedemptionPeers binding = [] then Inl (Error ''invalid_input: invite carries no redemption peer address'' [])
        else
          let first = fst (Cut (ob_RedemptionPeers binding) (CHR '',''))
          in if TrimSpace first = [] then Inl (Error ''invalid_input: invite carries no redemption peer address'' [])
             else Inr (TrimSpace first)))"

definition recipientRefFor :: "string \<Rightarrow> string \<Rightarrow> Ref result" where
  "recipientRefFor pipeID name =
     (if name \<noteq> [] then NewRef KindPipe name else NewRef KindPipe (take 63 (''connect-'' @ pipeID)))"

section \<open>Attach (attach.go)\<close>

definition serviceSpecFromTarget :: "string \<Rightarrow> string \<Rightarrow> ServiceSpec result" where
  "serviceSpecFromTarget name target =
     res_bind (NewRef KindService name) (\<lambda>ref.
       let scheme = map to_lower (fst (Cut target (CHR '':'')));
           spec = \<lparr>svc_Ref = ref, svc_Kind = (if scheme = ''https'' then ''http'' else scheme), svc_Target = target,
                   svc_Description = [], svc_Metadata = Map.empty\<rparr>
       in check (ServiceSpec_Validate spec) (Inr spec))"

record AttachResult =
  at_ServiceRef :: Ref
  at_PipeRef :: Ref
  at_PipeID :: string
  at_Created :: bool
  at_PipeCreated :: bool

text \<open>A definition that already exists for the reference keeps its identity.\<close>

definition keep_identity ::
  "(PipeSpec \<times> string) result \<Rightarrow> PipeSpec \<Rightarrow> string \<Rightarrow> (PipeSpec \<times> string) result" where
  "keep_identity existing spec keyFile =
     (case existing of
        Inr (old, oldKey) \<Rightarrow> Inr (spec\<lparr>pip_PipeID := pip_PipeID old, pip_CreatedAt := pip_CreatedAt old,
            pip_UpdatedAt := pip_UpdatedAt old\<rparr>, oldKey)
      | Inl e \<Rightarrow> if errors_is e ErrNotFound then Inr (spec, keyFile) else Inl (persistenceError ''pipe'' e))"

definition attach_spec :: "crypto \<Rightarrow> gotime \<Rightarrow> Ref \<Rightarrow> Ref \<Rightarrow> string \<Rightarrow> PipeSpec" where
  "attach_spec C now pipeRef serviceRef owner =
     \<lparr>pip_Ref = pipeRef, pip_PipeID = PipeIDFromOwner C (Public owner), pip_Scope = None,
      pip_Ingress = \<lparr>ing_Kind = IngressTubo, ing_Listen = [], ing_Host = [], ing_Path = [], ing_Protocol = ''raw''\<rparr>,
      pip_Target = serviceRef, pip_Visibility = VisibilityUnlisted, pip_Access = AccessInviteOnly,
      pip_AllowReexport = False, pip_CreatedAt = now, pip_UpdatedAt = now\<rparr>"

definition Attach ::
  "crypto \<Rightarrow> string result \<Rightarrow> string result \<Rightarrow> gotime \<Rightarrow> ('s, 'n, 'c) UseCases \<Rightarrow> string \<Rightarrow> string
   \<Rightarrow> (AttachResult, ('s, 'n) World) act" where
  "Attach C seed suffix now u name target =
     require (\<not> blank name \<and> \<not> blank target) (Error ''invalid_input: attach requires name and target'' [])
       (act_bind (act_lift (map_err (Wrap ''invalid_input: %w'' []) (serviceSpecFromTarget name target))) (\<lambda>service.
        act_bind (act_err (persistenceError ''service'') (on_db (uc_ServiceUpsert u service))) (\<lambda>created.
        act_bind (act_lift (map_err (Wrap ''invalid_input: %w'' []) (NewRef KindPipe name))) (\<lambda>pipeRef.
        act_bind (act_err (persistenceError ''pipe owner key'') (ownerKey C seed suffix u pipeRef)) (\<lambda>(owner, ownerKeyFile).
        act_bind (ask (\<lambda>w. keep_identity (pp_Get (uc_Pipes u) (w_db w) (Ref_String pipeRef))
            (attach_spec C now pipeRef (svc_Ref service) owner) ownerKeyFile)) (\<lambda>(spec, keyFile).
        act_bind (act_err (persistenceError ''pipe'') (on_db (pp_Upsert (uc_Pipes u) spec keyFile))) (\<lambda>pipeCreated.
        act_lift (Inr \<lparr>at_ServiceRef = svc_Ref service, at_PipeRef = pipeRef, at_PipeID = pip_PipeID spec,
          at_Created = created, at_PipeCreated = pipeCreated\<rparr>))))))))"

section \<open>Sharing (share.go)\<close>

record ShareExactResult =
  sx_PipeRef :: Ref
  sx_PipeID :: string
  sx_Invite :: string
  sx_ExpiresAt :: ztime

definition not_found_or :: "string \<Rightarrow> goerror \<Rightarrow> goerror" where
  "not_found_or what e = (if errors_is e ErrNotFound then Wrap ''not_found: %w'' [] e else persistenceError what e)"

text \<open>The live locator, trimmed.\<close>

definition locate_owner :: "('s, 'n, 'c) UseCases \<Rightarrow> Ref \<Rightarrow> string \<Rightarrow> (string, ('s, 'n) World) act" where
  "locate_owner u ref pipeID =
     act_bind (need ''runtime_unavailable: owner exact-redemption locator is unavailable'' (uc_OwnerLocator u)) (\<lambda>locate.
     act_bind (on_net (locate ref pipeID)) (\<lambda>address.
     require (TrimSpace address \<noteq> []) (Error ''runtime_unavailable: owner exact-redemption locator is unavailable'' [])
       (act_lift (Inr (TrimSpace address)))))"

definition ShareExact ::
  "crypto \<Rightarrow> string result \<Rightarrow> string result \<Rightarrow> string result \<Rightarrow> gotime \<Rightarrow> ('s, 'n, 'c) UseCases \<Rightarrow> string
   \<Rightarrow> (ShareExactResult, ('s, 'n) World) act" where
  "ShareExact C seed suffix jtiRnd now u pipeRef =
     act_bind (act_err (not_found_or ''pipe'') (ask (\<lambda>w. pp_Get (uc_Pipes u) (w_db w) pipeRef))) (\<lambda>(spec, ownerKeyFile).
     act_bind (act_err (persistenceError ''owner key'') (ask (\<lambda>w. Load C (w_fs w) ownerKeyFile))) (\<lambda>owner.
     require (PipeIDFromOwner C (Public owner) = pip_PipeID spec)
       (Error ''authorization_denied: pipe is not owned by this identity'' [])
       (act_bind (locate_owner u (pip_Ref spec) (pip_PipeID spec)) (\<lambda>address.
        require (\<not> blank (uc_RedemptionProtocol u))
          (Error ''runtime_unavailable: owner exact-redemption protocol is unavailable'' [])
          (act_bind (need ''runtime_unavailable: exact authorization epoch is unavailable'' (uc_ExactEpoch u)) (\<lambda>epochOf.
           act_bind (act_err (persistenceError ''exact authorization epoch'') (ask (\<lambda>w. epochOf (w_db w) (pip_PipeID spec)))) (\<lambda>epoch.
           act_bind (act_lift (map_err (persistenceError ''exact authority path'') (KeyPath (uc_Secrets u) (pip_PipeID spec)))) (\<lambda>keyPath.
           act_bind (act_err (persistenceError ''exact authority'') (on_fs (ProvisionAuthority C seed suffix
             \<lparr>wf_KeyPath = keyPath, wf_PipeID = pip_PipeID spec, wf_Epoch = epoch, wf_RedemptionPeers = address,
              wf_RedemptionProtocol = uc_RedemptionProtocol u\<rparr> owner))) (\<lambda>auth.
           act_bind (act_lift (map_err authorizationDenied
             (NewExactInvite C jtiRnd (au_Private auth) (au_Binding auth) (pip_PipeID spec) now DefaultInviteTTL epoch))) (\<lambda>invite.
           act_bind (act_lift (map_err authorizationDenied (EncodeInvite invite))) (\<lambda>encoded.
           act_lift (Inr \<lparr>sx_PipeRef = pip_Ref spec, sx_PipeID = pip_PipeID spec, sx_Invite = encoded,
             sx_ExpiresAt = ei_ExpiresAt invite\<rparr>))))))))))))"

section \<open>Accepting and acquiring (accept.go)\<close>

record acceptedInviteResult =
  ar_binding :: RemotePipeBinding
  ar_lease :: AccessLease
  ar_recipientPublic :: string

definition accepted_binding :: "ExactInvite \<Rightarrow> string \<Rightarrow> string \<Rightarrow> gotime \<Rightarrow> RemotePipeBinding" where
  "accepted_binding invite address recipientPublic now =
     \<lparr>rpb_RemotePipeID = ei_AudiencePipeID invite, rpb_AuthorityPublic = ei_Issuer invite, rpb_OwnerBinding = ei_Binding invite,
      rpb_Locator = address, rpb_RecipientPublic = recipientPublic, rpb_Source = ''invite'',
      rpb_CreatedAt = now, rpb_UpdatedAt = now\<rparr>"

text \<open>The lease goes to the cache when there is one; the error of the write is ignored here.\<close>

definition cache_entry :: "string \<Rightarrow> string \<Rightarrow> AccessLease \<Rightarrow> AccessLeaseCache" where
  "cache_entry pipeID encoded lease =
     \<lparr>alc_RemotePipeID = pipeID, alc_AccessLease = encoded, alc_ExpiresAt = instant (al_ExpiresAt lease)\<rparr>"

definition cache_quietly :: "('s, 'n, 'c) UseCases \<Rightarrow> string \<Rightarrow> AccessLease \<Rightarrow> (unit, ('s, 'n) World) act" where
  "cache_quietly u pipeID lease w =
     (case (uc_LeaseCache u, lease_Encode lease) of
        (Some cache, Inr encoded) \<Rightarrow> (Inr (), snd (on_db (cr_Put cache (cache_entry pipeID encoded lease)) w))
      | _ \<Rightarrow> (Inr (), w))"

text \<open>The network part: a carrier to the redemption address, and the redemption over it.\<close>

definition redeem_remote ::
  "('s, 'n, 'c) UseCases \<Rightarrow> ExactInvite \<Rightarrow> string \<Rightarrow> (string \<times> AccessLease, ('s, 'n) World) act" where
  "redeem_remote u invite recipientPublic =
     act_bind (need ''reachability_unavailable: reachability capability is not wired'' (uc_Reach u)) (\<lambda>acquire.
     act_bind (act_lift (redemptionAddress invite)) (\<lambda>address.
     act_bind (act_err (Wrap ''pipe_unreachable: %w'' []) (on_net (acquire address))) (\<lambda>carrier.
     act_bind (need ''redemption_unavailable: redemption capability is not wired'' (uc_Redemption u)) (\<lambda>redeem.
     act_bind (act_err (authorizationDenied \<circ> Wrap ''redemption failed: %w'' []) (on_fs_net (redeem carrier invite recipientPublic))) (\<lambda>lease.
     act_lift (Inr (address, lease)))))))"

definition acceptExactInvite ::
  "crypto \<Rightarrow> gotime \<Rightarrow> string result \<Rightarrow> string result \<Rightarrow> gotime \<Rightarrow> ('s, 'n, 'c) UseCases \<Rightarrow> ExactInvite
   \<Rightarrow> (acceptedInviteResult, ('s, 'n) World) act" where
  "acceptExactInvite C clock seed suffix now u invite =
     require (\<not> blank (uc_Secrets u)) (Error ''invalid_input: secrets directory is not configured'' [])
       (act_bind (act_err (persistenceError ''recipient identity key'')
          (on_fs (Provision C seed suffix (connectKeyPath (uc_Secrets u) (ei_AudiencePipeID invite))))) (\<lambda>recipient.
        let recipientPublic = PublicString (Public recipient) in
        act_bind (redeem_remote u invite recipientPublic) (\<lambda>(address, lease).
        act_bind (act_lift (map_err authorizationDenied (PublicFromString (ei_Issuer invite)))) (\<lambda>issuer.
        act_bind (act_lift (check (map_option authorizationDenied
          (lease_Verify C clock issuer recipientPublic (ei_AudiencePipeID invite) now lease)) (Inr ()))) (\<lambda>_.
        let binding = accepted_binding invite address recipientPublic now in
        act_bind (act_lift (check (map_option authorizationDenied (RemotePipeBinding_Validate binding)) (Inr ()))) (\<lambda>_.
        act_bind (need ''persistence_unavailable: durable binding repository is not wired'' (uc_Bindings u)) (\<lambda>bindings.
        act_bind (act_err (persistenceError ''accepted remote pipe binding'') (on_db (rb_Put bindings binding))) (\<lambda>_.
        act_bind (cache_quietly u (ei_AudiencePipeID invite) lease) (\<lambda>_.
        act_lift (Inr \<lparr>ar_binding = binding, ar_lease = lease, ar_recipientPublic = recipientPublic\<rparr>))))))))))"

record AcceptExactInviteResult =
  ax_RemotePipeID :: string
  ax_RecipientPublic :: string
  ax_LeaseExpiresAt :: gotime

definition decode_verified :: "crypto \<Rightarrow> gotime \<Rightarrow> gotime \<Rightarrow> string \<Rightarrow> ExactInvite result" where
  "decode_verified C clock now encoded =
     res_bind (map_err (authorizationDenied \<circ> Wrap ''invalid exact invite: %w'' []) (DecodeInvite encoded)) (\<lambda>invite.
     check (map_option authorizationDenied (invite_Verify C clock now (ei_AudiencePipeID invite) invite)) (Inr invite))"

text \<open>\<open>now1\<close> and \<open>now2\<close> are the readings of the wall clock that matter, in order.\<close>

definition AcceptExactInvite ::
  "crypto \<Rightarrow> gotime \<Rightarrow> string result \<Rightarrow> string result \<Rightarrow> gotime \<Rightarrow> gotime \<Rightarrow> ('s, 'n, 'c) UseCases \<Rightarrow> string
   \<Rightarrow> (AcceptExactInviteResult, ('s, 'n) World) act" where
  "AcceptExactInvite C clock seed suffix now1 now2 u encoded =
     require (\<not> blank encoded) (Error ''invalid_input: accept requires an invite'' [])
       (act_bind (act_lift (decode_verified C clock now1 encoded)) (\<lambda>invite.
        act_bind (acceptExactInvite C clock seed suffix now2 u invite) (\<lambda>accepted.
        act_lift (Inr \<lparr>ax_RemotePipeID = rpb_RemotePipeID (ar_binding accepted), ax_RecipientPublic = ar_recipientPublic accepted,
          ax_LeaseExpiresAt = instant (al_ExpiresAt (ar_lease accepted))\<rparr>))))"

record AcceptedPipeAccess =
  ap_RemotePipeID :: string
  ap_Locator :: string
  ap_AuthorityPublic :: string
  ap_AccessLease :: AccessLease

text \<open>A cached lease that still verifies; every failure on the way is a miss, but reading the cache may evict.\<close>

definition cached_lease ::
  "crypto \<Rightarrow> gotime \<Rightarrow> gotime \<Rightarrow> ('s, 'n, 'c) UseCases \<Rightarrow> string \<Rightarrow> RemotePipeBinding \<Rightarrow> string
   \<Rightarrow> (AccessLease option, ('s, 'n) World) act" where
  "cached_lease C clock now u remotePipeID binding authorityPub w =
     (case uc_LeaseCache u of
        None \<Rightarrow> (Inr None, w)
      | Some cache \<Rightarrow>
          (case on_db (cr_Get cache remotePipeID) w of
             (r, w') \<Rightarrow>
               (Inr (case res_bind r (\<lambda>cached. lease_Decode (alc_AccessLease cached)) of
                       Inl _ \<Rightarrow> None
                     | Inr lease \<Rightarrow>
                         if lease_Verify C clock authorityPub (rpb_RecipientPublic binding) remotePipeID now lease = None
                         then Some lease else None), w')))"

definition renew_remote ::
  "('s, 'n, 'c) UseCases \<Rightarrow> string \<Rightarrow> RemotePipeBinding \<Rightarrow> (AccessLease, ('s, 'n) World) act" where
  "renew_remote u remotePipeID binding =
     act_bind (need ''reachability_unavailable: reachability capability is not wired'' (uc_Reach u)) (\<lambda>acquire.
     act_bind (act_err (Wrap ''pipe_unreachable: %w'' []) (on_net (acquire (rpb_Locator binding)))) (\<lambda>carrier.
     act_bind (need ''renewal_unavailable: renewal capability is not wired'' (uc_Renewal u)) (\<lambda>renew.
     act_err (authorizationDenied \<circ> Wrap ''renewal failed: %w'' []) (on_fs_net (renew carrier
       \<lparr>rn_PipeID = remotePipeID, rn_RecipientPublic = rpb_RecipientPublic binding, rn_OwnerBinding = rpb_OwnerBinding binding\<rparr>)))))"

definition store_renewed :: "('s, 'n, 'c) UseCases \<Rightarrow> string \<Rightarrow> AccessLease \<Rightarrow> (unit, ('s, 'n) World) act" where
  "store_renewed u remotePipeID lease =
     (case uc_LeaseCache u of
        None \<Rightarrow> act_lift (Inr ())
      | Some cache \<Rightarrow>
          act_bind (act_lift (map_err (persistenceError ''encode renewed lease'') (lease_Encode lease))) (\<lambda>encoded.
          act_err (persistenceError ''access lease cache'') (on_db (cr_Put cache (cache_entry remotePipeID encoded lease)))))"

definition accepted_binding_of ::
  "('s, 'n, 'c) UseCases \<Rightarrow> string \<Rightarrow> (RemotePipeBinding \<times> string, ('s, 'n) World) act" where
  "accepted_binding_of u remotePipeID =
     act_bind (need ''persistence_unavailable: durable binding repository is not wired'' (uc_Bindings u)) (\<lambda>bindings.
     act_bind (act_err (\<lambda>e. if errors_is e ErrNotFound
           then authorizationDenied (Error ''no accepted binding for %s'' [remotePipeID])
           else persistenceError ''accepted remote pipe binding'' e)
        (ask (\<lambda>w. rb_Get bindings (w_db w) remotePipeID))) (\<lambda>binding.
     act_bind (act_lift (check (map_option (authorizationDenied \<circ> Wrap ''corrupt accepted binding for %s: %w'' [remotePipeID])
           (RemotePipeBinding_Validate binding)) (Inr ()))) (\<lambda>_.
     act_bind (act_lift (map_err (authorizationDenied \<circ> Wrap ''invalid bound authority identity: %w'' [])
           (PublicFromString (rpb_AuthorityPublic binding)))) (\<lambda>authorityPub.
     act_lift (Inr (binding, authorityPub))))))"

definition AcquireAcceptedPipeAccess ::
  "crypto \<Rightarrow> gotime \<Rightarrow> gotime \<Rightarrow> gotime \<Rightarrow> ('s, 'n, 'c) UseCases \<Rightarrow> string \<Rightarrow> (AcceptedPipeAccess, ('s, 'n) World) act" where
  "AcquireAcceptedPipeAccess C clock now1 now2 u remotePipeID =
     require (\<not> blank remotePipeID) (Error ''invalid_input: acquire requires a remote pipe id'' [])
       (act_bind (accepted_binding_of u remotePipeID) (\<lambda>(binding, authorityPub).
        let access = (\<lambda>lease. \<lparr>ap_RemotePipeID = remotePipeID, ap_Locator = rpb_Locator binding,
              ap_AuthorityPublic = rpb_AuthorityPublic binding, ap_AccessLease = lease\<rparr>) in
        act_bind (cached_lease C clock now1 u remotePipeID binding authorityPub) (\<lambda>cached.
        case cached of
          Some lease \<Rightarrow> act_lift (Inr (access lease))
        | None \<Rightarrow>
            act_bind (renew_remote u remotePipeID binding) (\<lambda>lease.
            act_bind (act_lift (check (map_option (authorizationDenied \<circ> Wrap ''renewed lease mismatch: %w'' [])
              (lease_Verify C clock authorityPub (rpb_RecipientPublic binding) remotePipeID now2 lease)) (Inr ()))) (\<lambda>_.
            act_bind (store_renewed u remotePipeID lease) (\<lambda>_.
            act_lift (Inr (access lease))))))))"

section \<open>Connecting (connect.go)\<close>

definition exactConnectConflict :: "PipeSpec \<Rightarrow> string \<Rightarrow> string \<Rightarrow> string \<Rightarrow> goerror option" where
  "exactConnectConflict existing canonicalPipeID audiencePipeID requestedListen =
     (let refName = Ref_String (pip_Ref existing) in
      if Kind (pip_Target existing) \<noteq> KindPipe \<or> Name (pip_Target existing) \<noteq> audiencePipeID
      then Some (Error ''conflict: %s already exists with a different target; remove it first or choose another --name'' [refName])
      else if pip_PipeID existing \<noteq> canonicalPipeID
      then Some (Error ''conflict: %s already exists with a different identity; remove it first'' [refName])
      else if ing_Kind (pip_Ingress existing) \<noteq> IngressLocal
      then Some (Error ''conflict: %s is not a local-ingress connection; remove it first'' [refName])
      else if ing_Listen (pip_Ingress existing) \<noteq> requestedListen
      then Some (Error ''conflict: %s already connects this remote pipe on %s; reuse that listener or remove the pipe before reconnecting on %s''
             [refName, ing_Listen (pip_Ingress existing), requestedListen])
      else None)"

record ConnectExactInput =
  ci_Invite :: string
  ci_RemotePipeID :: string
  ci_LocalListen :: string
  ci_Name :: string

record ConnectExactResult =
  cx_PipeRef :: Ref
  cx_PipeID :: string
  cx_TargetPipeID :: string
  cx_LocalListen :: string

text \<open>The local preconditions of a connect, before anything is touched.\<close>

definition connect_input :: "('s, 'n, 'c) UseCases \<Rightarrow> ConnectExactInput \<Rightarrow> goerror option" where
  "connect_input u i =
     (if blank (ci_LocalListen i) then Some (Error ''invalid_input: connect requires a local listen address'' [])
      else if blank (uc_Secrets u) then Some (Error ''invalid_input: secrets directory is not configured'' [])
      else if ci_Invite i \<noteq> [] \<and> ci_RemotePipeID i \<noteq> []
      then Some (Error ''invalid_input: connect accepts exactly one of --token or --remote'' [])
      else if ci_Invite i = [] \<and> ci_RemotePipeID i = []
      then Some (Error ''invalid_input: connect requires --token <invite> or --remote <pipe-id>; see tubo connect --help'' [])
      else if Option.is_none (uc_Bindings u)
      then Some (Error ''persistence_unavailable: durable binding repository is not wired'' [])
      else None)"

text \<open>The target Pipe and the recipient identity, resolved locally.\<close>

definition connect_identity ::
  "crypto \<Rightarrow> gotime \<Rightarrow> string result \<Rightarrow> string result \<Rightarrow> gotime \<Rightarrow> ('s, 'n, 'c) UseCases \<Rightarrow> ConnectExactInput
   \<Rightarrow> (string \<times> string \<times> ExactInvite option, ('s, 'n) World) act" where
  "connect_identity C clock seed suffix now u i =
     (if ci_Invite i \<noteq> [] then
        act_bind (act_lift (decode_verified C clock now (ci_Invite i))) (\<lambda>invite.
        act_bind (act_err (persistenceError ''recipient identity key'')
          (on_fs (Provision C seed suffix (connectKeyPath (uc_Secrets u) (ei_AudiencePipeID invite))))) (\<lambda>recipient.
        act_lift (Inr (ei_AudiencePipeID invite, PublicString (Public recipient), Some invite))))
      else
        act_bind (act_err (\<lambda>_. authorizationDenied (Error ''no accepted recipient identity for %s'' [ci_RemotePipeID i]))
          (ask (\<lambda>w. Load C (w_fs w) (connectKeyPath (uc_Secrets u) (ci_RemotePipeID i))))) (\<lambda>recipient.
        act_lift (Inr (ci_RemotePipeID i, PublicString (Public recipient), None))))"

definition recipientPublicBytes :: "string \<Rightarrow> string" where
  "recipientPublicBytes public = (case PublicFromString public of Inr key \<Rightarrow> key | Inl _ \<Rightarrow> [])"

definition connect_spec :: "crypto \<Rightarrow> gotime \<Rightarrow> Ref \<Rightarrow> string \<Rightarrow> string \<Rightarrow> string \<Rightarrow> PipeSpec" where
  "connect_spec C now ref recipientPublic targetPipeID listen =
     \<lparr>pip_Ref = ref, pip_PipeID = PipeIDFromOwner C (recipientPublicBytes recipientPublic), pip_Scope = None,
      pip_Ingress = \<lparr>ing_Kind = IngressLocal, ing_Listen = listen, ing_Host = [], ing_Path = [], ing_Protocol = []\<rparr>,
      pip_Target = \<lparr>Kind = KindPipe, Name = targetPipeID\<rparr>, pip_Visibility = VisibilityPrivate, pip_Access = AccessInviteOnly,
      pip_AllowReexport = False, pip_CreatedAt = now, pip_UpdatedAt = now\<rparr>"

text \<open>The local Pipe to use and whether it has to be written: an existing definition is reused only when it is
  compatible in every respect.\<close>

definition connect_reuse ::
  "('s, 'n, 'c) UseCases \<Rightarrow> ConnectExactInput \<Rightarrow> PipeSpec \<Rightarrow> string \<Rightarrow> 's \<Rightarrow> (PipeSpec \<times> bool) result" where
  "connect_reuse u i spec targetPipeID db =
     (case pp_Get (uc_Pipes u) db (Ref_String (pip_Ref spec)) of
        Inr (existing, _) \<Rightarrow>
          check (exactConnectConflict existing (pip_PipeID spec) targetPipeID (ci_LocalListen i)) (Inr (existing, True))
      | Inl e \<Rightarrow>
          if errors_is e ErrNotFound then
            (case pp_Get (uc_Pipes u) db (pip_PipeID spec) of
               Inr (existing, _) \<Rightarrow>
                 check (exactConnectConflict existing (pip_PipeID spec) targetPipeID (ci_LocalListen i))
                   (if ci_Name i \<noteq> []
                    then Inl (Error ''conflict: %s already connects this remote pipe; reuse it (tubo start %s) or remove it before choosing a different name''
                        [Ref_String (pip_Ref existing), Ref_String (pip_Ref existing)])
                    else Inr (existing, True))
             | Inl e2 \<Rightarrow> if errors_is e2 ErrNotFound then Inr (spec, False) else Inl (persistenceError ''pipe'' e2))
          else Inl (persistenceError ''pipe'' e))"

text \<open>Verified access, only after every local check.\<close>

definition connect_access ::
  "crypto \<Rightarrow> gotime \<Rightarrow> string result \<Rightarrow> string result \<Rightarrow> gotime \<Rightarrow> gotime \<Rightarrow> ('s, 'n, 'c) UseCases \<Rightarrow> string \<Rightarrow> string
   \<Rightarrow> ExactInvite option \<Rightarrow> (unit, ('s, 'n) World) act" where
  "connect_access C clock seed suffix now1 now2 u targetPipeID recipientPublic invite =
     (case invite of
        Some i \<Rightarrow> act_bind (acceptExactInvite C clock seed suffix now2 u i) (\<lambda>_. act_lift (Inr ()))
      | None \<Rightarrow>
          act_bind (need ''persistence_unavailable: durable binding repository is not wired'' (uc_Bindings u)) (\<lambda>bindings.
          act_bind (act_err (\<lambda>e. if errors_is e ErrNotFound
               then authorizationDenied (Error ''no accepted binding for %s; redeem the invite first with tubo accept --token <invite>'' [targetPipeID])
               else persistenceError ''accepted remote pipe binding'' e)
             (ask (\<lambda>w. rb_Get bindings (w_db w) targetPipeID))) (\<lambda>binding.
          require (rpb_RecipientPublic binding = recipientPublic)
            (authorizationDenied (Error ''recipient identity does not match accepted binding for %s'' [targetPipeID]))
            (act_bind (AcquireAcceptedPipeAccess C clock now1 now2 u targetPipeID) (\<lambda>_. act_lift (Inr ()))))))"

definition ConnectExact ::
  "crypto \<Rightarrow> gotime \<Rightarrow> string result \<Rightarrow> string result \<Rightarrow> (nat \<Rightarrow> gotime) \<Rightarrow> ('s, 'n, 'c) UseCases \<Rightarrow> ConnectExactInput
   \<Rightarrow> (ConnectExactResult, ('s, 'n) World) act" where
  "ConnectExact C clock seed suffix now u i =
     act_bind (act_lift (check (connect_input u i) (Inr ()))) (\<lambda>_.
     act_bind (connect_identity C clock seed suffix (now 0) u i) (\<lambda>(targetPipeID, recipientPublic, invite).
     act_bind (act_lift (map_err (Wrap ''invalid_input: %w'' []) (recipientRefFor targetPipeID (ci_Name i)))) (\<lambda>ref.
     act_bind (ask (\<lambda>w. connect_reuse u i (connect_spec C (now 1) ref recipientPublic targetPipeID (ci_LocalListen i)) targetPipeID (w_db w)))
       (\<lambda>(spec, noUpsert).
     act_bind (connect_access C clock seed suffix (now 2) (now 3) u targetPipeID recipientPublic invite) (\<lambda>_.
     act_bind (if noUpsert then act_lift (Inr False)
               else act_err (persistenceError ''local pipe'')
                 (on_db (pp_Upsert (uc_Pipes u) spec (connectKeyPath (uc_Secrets u) targetPipeID)))) (\<lambda>_.
     act_lift (Inr \<lparr>cx_PipeRef = pip_Ref spec, cx_PipeID = pip_PipeID spec, cx_TargetPipeID = targetPipeID,
       cx_LocalListen = ing_Listen (pip_Ingress spec)\<rparr>)))))))"

section \<open>Starting (start.go)\<close>

text \<open>The starter is the runtime, injected; starting reads the definition and never writes it.\<close>

definition StartPipe ::
  "(PipeSpec \<Rightarrow> ('r, ('s, 'n) World) act) option \<Rightarrow> ('s, 'n, 'c) UseCases \<Rightarrow> string \<Rightarrow> ('r, ('s, 'n) World) act" where
  "StartPipe starter u pipeRef =
     act_bind (act_err (not_found_or ''pipe'') (ask (\<lambda>w. pp_Get (uc_Pipes u) (w_db w) pipeRef))) (\<lambda>(spec, _).
     act_bind (need ''runtime_unavailable: pipe runtime is not wired'' starter) (\<lambda>start. start spec))"

end
