(* ===== verification/Accepting.thy ===== *)
theory Accepting
  imports UseCases ExactFlow
begin

text \<open>
  The use cases over the store (src/internal/store/usecaseports.go): the repository adapters, the contracts the use
  cases rely on, and what accepting, acquiring and connecting guarantee.
\<close>

section \<open>Adapters (store/usecaseports.go)\<close>

definition PipeRepoAdapter :: "Store PipeRepository" where
  "PipeRepoAdapter =
     \<lparr>pp_Upsert = (\<lambda>spec ownerKeyFile. PutPipe spec ownerKeyFile []),
      pp_Get = (\<lambda>db identifier. map_err (Wrap ''pipe %s: %w'' [identifier])
        (res_bind (Pipe_get db identifier) (\<lambda>(spec, key, _). Inr (spec, key))))\<rparr>"

definition RemotePipeBindingAdapter :: "gotime \<Rightarrow> Store RemotePipeBindingRepo" where
  "RemotePipeBindingAdapter clock = \<lparr>rb_Get = GetRemotePipeBinding, rb_Put = PutRemotePipeBinding clock\<rparr>"

definition AccessLeaseCacheAdapter :: "gotime \<Rightarrow> Store AccessLeaseCacheRepo" where
  "AccessLeaseCacheAdapter clock = \<lparr>cr_Get = GetAccessLeaseCache clock, cr_Put = PutAccessLeaseCache\<rparr>"

lemma repo_simps [simp]:
  "pp_Upsert PipeRepoAdapter spec key = PutPipe spec key []"
  "rb_Get (RemotePipeBindingAdapter clock) = GetRemotePipeBinding"
  "rb_Put (RemotePipeBindingAdapter clock) = PutRemotePipeBinding clock"
  "cr_Get (AccessLeaseCacheAdapter clock) = GetAccessLeaseCache clock"
  "cr_Put (AccessLeaseCacheAdapter clock) = PutAccessLeaseCache"
  by (simp_all add: PipeRepoAdapter_def RemotePipeBindingAdapter_def AccessLeaseCacheAdapter_def)

section \<open>The contract of the binding and cache repositories\<close>

type_synonym relation = "string \<times> string \<times> string \<times> string"

definition rel_of :: "RemotePipeBinding \<Rightarrow> relation" where
  "rel_of b = (rpb_AuthorityPublic b, rpb_OwnerBinding b, rpb_Locator b, rpb_RecipientPublic b)"

locale binding_port =
  fixes bindings :: "'s RemotePipeBindingRepo" and bound :: "'s \<Rightarrow> string \<Rightarrow> relation option"
  assumes put_fails: "rb_Put bindings b s = (Inl e, s') \<Longrightarrow> s' = s"
    and put_binds: "rb_Put bindings b s = (Inr u, s') \<Longrightarrow> bound s' p = (if p = rpb_RemotePipeID b then Some (rel_of b) else bound s p)"
    and get_bound: "rb_Get bindings s p = Inr b \<Longrightarrow> bound s p = Some (rel_of b) \<and> RemotePipeBinding_Validate b = None"
begin

text \<open>The network part leaves the store alone, and so does a cache that keeps to its own rows.\<close>

lemma cache_quietly_keeps:
  assumes "\<And>cache c s. uc_LeaseCache u = Some cache \<Longrightarrow> bound (snd (cr_Put cache c s)) = bound s"
    "cache_quietly u p l w = (r, w')"
  shows "bound (w_db w') = bound (w_db w)"
proof (cases "uc_LeaseCache u")
  case (Some cache)
  then show ?thesis using assms(1) [of cache] assms(2)
    by (auto simp: cache_quietly_def on_db_def case_prod_beta split: sum.splits)
qed (use assms(2) in \<open>auto simp: cache_quietly_def\<close>)

lemma redeem_remote_db: "redeem_remote u i p w = (r, w') \<Longrightarrow> w_db w' = w_db w"
  by (cases r) (auto simp: redeem_remote_def act_simps split: option.splits)

lemma accept_binds:
  assumes "acceptExactInvite C clock seed suffix now u invite w = (Inr a, w')" "uc_Bindings u = Some bindings"
    "\<And>cache c s. uc_LeaseCache u = Some cache \<Longrightarrow> bound (snd (cr_Put cache c s)) = bound s"
  obtains issuer address where "PublicFromString (ei_Issuer invite) = Inr issuer"
    "lease_Verify C clock issuer (ar_recipientPublic a) (ei_AudiencePipeID invite) now (ar_lease a) = None"
    "redemptionAddress invite = Inr address" "ar_binding a = accepted_binding invite address (ar_recipientPublic a) now"
    "bound (w_db w') (ei_AudiencePipeID invite) = Some (ei_Issuer invite, ei_Binding invite, address, ar_recipientPublic a)"
proof -
  obtain recipient w1 address lease w2 issuer w3 w4 where s:
    "redeem_remote u invite (PublicString (Public recipient)) w1 = (Inr (address, lease), w2)"
    "PublicFromString (ei_Issuer invite) = Inr issuer"
    "lease_Verify C clock issuer (PublicString (Public recipient)) (ei_AudiencePipeID invite) now lease = None"
    "on_db (rb_Put bindings (accepted_binding invite address (PublicString (Public recipient)) now)) w2 = (Inr (), w3)"
    "cache_quietly u (ei_AudiencePipeID invite) lease w3 = (Inr w4, w')"
    "a = \<lparr>ar_binding = accepted_binding invite address (PublicString (Public recipient)) now, ar_lease = lease,
        ar_recipientPublic = PublicString (Public recipient)\<rparr>"
    using assms(1,2)
    by (auto simp: acceptExactInvite_def Let_def act_err_Inr act_bind_Inr act_lift_eq require_eq need_eq result_simps
        split: if_splits prod.splits)
  have addr: "redemptionAddress invite = Inr address"
    using s(1) by (auto simp: redeem_remote_def act_simps split: option.splits)
  obtain db where db: "rb_Put bindings (accepted_binding invite address (PublicString (Public recipient)) now) (w_db w2) = (Inr (), db)"
    "w_db w3 = db" using s(4) by (auto simp: on_eq)
  have "bound (w_db w') (ei_AudiencePipeID invite) = Some (ei_Issuer invite, ei_Binding invite, address, PublicString (Public recipient))"
    using put_binds [OF db(1)] cache_quietly_keeps [OF assms(3) s(5)] db(2)
    by (simp add: accepted_binding_def rel_of_def)
  then show thesis using that [OF s(2) _ addr] s(3,6) by simp
qed

lemma accept_refuses:
  assumes "acceptExactInvite C clock seed suffix now u invite w = (Inl e, w')" "uc_Bindings u = Some bindings"
  shows "w_db w' = w_db w"
proof -
  have p: "w_db w1 = w_db w0" if "on_db (rb_Put bindings b) w0 = (Inl e0, w1)" for b w0 e0 w1
    using that put_fails by (auto simp: on_eq)
  have c: "False" if "cache_quietly u q l w0 = (Inl e0, w1)" for q l w0 e0 w1
    using that by (auto simp: cache_quietly_def split: option.splits sum.splits)
  show ?thesis
    using assms
    by (auto simp: acceptExactInvite_def Let_def act_err_Inr act_err_Inl act_bind_Inr act_bind_Inl act_lift_eq require_eq need_eq on_eq(1)
        dest!: redeem_remote_db p c split: if_splits prod.splits)
qed

end

locale accepting_port = binding_port bindings bound
  for bindings :: "'s RemotePipeBindingRepo" and bound +
  fixes cache :: "'s AccessLeaseCacheRepo"
  assumes cache_put: "cr_Put cache c s = (r, s') \<Longrightarrow> bound s' = bound s"
    and cache_get: "cr_Get cache p s = (r', s') \<Longrightarrow> bound s' = bound s"
begin

lemma cache_keeps: "bound (snd (cr_Put cache c s)) = bound s"
  using cache_put by (cases "cr_Put cache c s") auto

lemma renew_remote_db: "renew_remote u p b w = (r, w') \<Longrightarrow> w_db w' = w_db w"
  by (cases r) (auto simp: renew_remote_def act_simps split: option.splits)

lemma accepted_binding_of_Inr:
  assumes "accepted_binding_of u p w = (Inr (b, pub), w')" "uc_Bindings u = Some bindings"
  shows "w' = w" "bound (w_db w) p = Some (rel_of b)" "PublicFromString (rpb_AuthorityPublic b) = Inr pub"
  using assms get_bound by (auto simp: accepted_binding_of_def act_simps result_simps)

lemma cached_lease_Inr:
  assumes "cached_lease C clock now u p b pub w = (Inr c, w')" "uc_LeaseCache u = Some cache"
  shows "bound (w_db w') = bound (w_db w)"
    "c = Some l \<Longrightarrow> lease_Verify C clock pub (rpb_RecipientPublic b) p now l = None" "w_net w' = w_net w"
proof -
  obtain r db where q: "cr_Get cache p (w_db w) = (r, db)" by fastforce
  then have w': "w' = w\<lparr>w_db := db\<rparr>" using assms by (auto simp: cached_lease_def on_db_def)
  show "bound (w_db w') = bound (w_db w)" "w_net w' = w_net w" using w' cache_get [OF q] by simp_all
  show "c = Some l \<Longrightarrow> lease_Verify C clock pub (rpb_RecipientPublic b) p now l = None"
    using assms q by (auto simp: cached_lease_def on_db_def split: sum.splits if_splits)
qed

lemma store_renewed_bound:
  assumes "store_renewed u p l w = (r, w')" "uc_LeaseCache u = Some cache"
  shows "bound (w_db w') = bound (w_db w)"
  using assms cache_put
  by (cases r) (auto simp: store_renewed_def act_bind_Inr act_bind_Inl act_err_Inr act_err_Inl act_lift_eq on_eq)

lemma acquire_success:
  assumes "AcquireAcceptedPipeAccess C clock now1 now2 u p w = (Inr a, w')"
    "uc_Bindings u = Some bindings" "uc_LeaseCache u = Some cache"
  obtains b pub now where "bound (w_db w) p = Some (rel_of b)" "PublicFromString (rpb_AuthorityPublic b) = Inr pub"
    "now \<in> {now1, now2}" "lease_Verify C clock pub (rpb_RecipientPublic b) p now (ap_AccessLease a) = None"
    "ap_RemotePipeID a = p" "ap_Locator a = rpb_Locator b" "ap_AuthorityPublic a = rpb_AuthorityPublic b"
    "bound (w_db w') = bound (w_db w)"
proof -
  obtain b pub w1 c w2 where s: "accepted_binding_of u p w = (Inr (b, pub), w1)"
    "cached_lease C clock now1 u p b pub w1 = (Inr c, w2)"
    and rest: "(case c of
          Some lease \<Rightarrow> act_lift (Inr \<lparr>ap_RemotePipeID = p, ap_Locator = rpb_Locator b, ap_AuthorityPublic = rpb_AuthorityPublic b, ap_AccessLease = lease\<rparr>)
        | None \<Rightarrow>
            act_bind (renew_remote u p b) (\<lambda>lease.
            act_bind (act_lift (check (map_option (authorizationDenied \<circ> Wrap ''renewed lease mismatch: %w'' [])
              (lease_Verify C clock pub (rpb_RecipientPublic b) p now2 lease)) (Inr ()))) (\<lambda>_.
            act_bind (store_renewed u p lease) (\<lambda>_.
            act_lift (Inr \<lparr>ap_RemotePipeID = p, ap_Locator = rpb_Locator b, ap_AuthorityPublic = rpb_AuthorityPublic b, ap_AccessLease = lease\<rparr>))))) w2
      = (Inr a, w')"
    using assms(1) by (auto simp: AcquireAcceptedPipeAccess_def Let_def act_bind_Inr require_eq split: if_splits)
  note b = accepted_binding_of_Inr [OF s(1) assms(2)]
  note c = cached_lease_Inr [OF s(2) assms(3)]
  show thesis
  proof (cases c)
    case (Some l)
    then show thesis
      using rest c(2) [of l] b c(1) by (intro that [of b pub now1]) (auto simp: act_lift_eq)
  next
    case None
    then obtain l w3 w4 x where r: "renew_remote u p b w2 = (Inr l, w3)"
      "lease_Verify C clock pub (rpb_RecipientPublic b) p now2 l = None" "store_renewed u p l w3 = (Inr x, w4)" "w' = w4"
      "a = \<lparr>ap_RemotePipeID = p, ap_Locator = rpb_Locator b, ap_AuthorityPublic = rpb_AuthorityPublic b, ap_AccessLease = l\<rparr>"
      using rest by (auto simp: act_bind_Inr act_lift_eq result_simps)
    have "bound (w_db w') = bound (w_db w)"
      using store_renewed_bound [OF r(3) assms(3)] renew_remote_db [OF r(1)] c(1) b(1) r(4) by simp
    then show thesis using r b(2,3) by (intro that [of b pub now2]) simp_all
  qed
qed

end

section \<open>The store provides them\<close>

definition store_bound :: "Store \<Rightarrow> string \<Rightarrow> relation option" where
  "store_bound db p = map_option (\<lambda>row. (br_authority_public row, br_owner_binding row, br_locator row, br_recipient_public row))
     (get (remote_pipe_bindings db) p)"

interpretation store_bindings: binding_port "RemotePipeBindingAdapter clock" store_bound for clock
proof
  fix b :: RemotePipeBinding and s e s'
  assume "rb_Put (RemotePipeBindingAdapter clock) b s = (Inl e, s')"
  then show "s' = s" by (auto simp: PutRemotePipeBinding_def Let_def split: option.splits)
next
  fix b :: RemotePipeBinding and s u s' p
  assume "rb_Put (RemotePipeBindingAdapter clock) b s = (Inr u, s')"
  then show "store_bound s' p = (if p = rpb_RemotePipeID b then Some (rel_of b) else store_bound s p)"
    by (auto simp: PutRemotePipeBinding_def Let_def store_bound_def rel_of_def split: option.splits)
next
  fix s p and b :: RemotePipeBinding
  assume "rb_Get (RemotePipeBindingAdapter clock) s p = Inr b"
  then show "store_bound s p = Some (rel_of b) \<and> RemotePipeBinding_Validate b = None"
    by (auto simp: GetRemotePipeBinding_def query_Inr Let_def store_bound_def rel_of_def result_simps split: option.splits)
qed

interpretation store_accepting: accepting_port "RemotePipeBindingAdapter clock" store_bound "AccessLeaseCacheAdapter clock" for clock
proof
  fix c :: AccessLeaseCache and s r s'
  assume "cr_Put (AccessLeaseCacheAdapter clock) c s = (r, s')"
  then show "store_bound s' = store_bound s"
    by (auto simp: PutAccessLeaseCache_def store_bound_def fun_eq_iff split: option.splits if_splits)
next
  fix p s r s'
  assume "cr_Get (AccessLeaseCacheAdapter clock) p s = (r, s')"
  then show "store_bound s' = store_bound s"
    by (auto simp: GetAccessLeaseCache_def store_bound_def fun_eq_iff split: option.splits sum.splits if_splits)
qed

definition on_store :: "gotime \<Rightarrow> (Store, 'n, 'c) UseCases \<Rightarrow> bool" where
  "on_store clock u \<longleftrightarrow> uc_Bindings u = Some (RemotePipeBindingAdapter clock) \<and> uc_LeaseCache u = Some (AccessLeaseCacheAdapter clock)"

text \<open>The lease cache has no part in the answer.\<close>

lemma cache_quietly_result: "fst (cache_quietly u p l w) = Inr ()"
  by (auto simp: cache_quietly_def split: option.splits sum.splits)

lemma accept_without_cache:
  "fst (acceptExactInvite C clock seed suffix now (u\<lparr>uc_LeaseCache := c\<rparr>) invite w) = fst (acceptExactInvite C clock seed suffix now u invite w)"
proof -
  have r: "redeem_remote (u\<lparr>uc_LeaseCache := c\<rparr>) invite p = redeem_remote u invite p" for p
    by (simp add: redeem_remote_def)
  have q: "fst (act_bind (cache_quietly u' p l) (\<lambda>_. act_lift x) w) = x" for u' :: "('a, 'b, 'c) UseCases" and p l x w
    using cache_quietly_result [of u' p l w] by (cases "cache_quietly u' p l w") (simp add: act_bind_def act_lift_def)
  have b: "fst (act_bind f g w) = fst (act_bind f h w)" if "\<And>x w. fst (g x w) = fst (h x w)"
    for f :: "('x, ('a, 'b) World) act" and g h :: "'x \<Rightarrow> ('y, ('a, 'b) World) act" and w
    using that by (auto simp: act_bind_def split: prod.splits sum.splits)
  show ?thesis
    by (auto simp: acceptExactInvite_def r Let_def require_def intro!: b simp: q split: prod.splits)
qed


lemma accept_cache_irrelevant:
  "fst (AcceptExactInvite C clock seed suffix now1 now2 (u\<lparr>uc_LeaseCache := c\<rparr>) encoded w) = fst (AcceptExactInvite C clock seed suffix now1 now2 u encoded w)"
proof (cases "decode_verified C clock now1 encoded")
  case (Inr invite)
  then show ?thesis using accept_without_cache [of C clock seed suffix now2 c u invite w]
    by (auto simp: AcceptExactInvite_def act_bind_def act_lift_def require_def split: prod.splits sum.splits)
qed (simp add: AcceptExactInvite_def act_bind_def act_lift_def require_def)

section \<open>Local checks come first\<close>

lemma connect_identity_frame:
  assumes "connect_identity C clock seed suffix now u i w = (r, w')"
  shows "w_db w' = w_db w" "w_net w' = w_net w"
proof -
  have "w_db w' = w_db w \<and> w_net w' = w_net w"
  proof (cases r)
    case (Inl e)
    then show ?thesis
      using assms by (auto simp: connect_identity_def act_simps split: if_splits)
  next
    case (Inr x)
    then show ?thesis
      using assms by (auto simp: connect_identity_def act_simps split: if_splits)
  qed
  then show "w_db w' = w_db w" "w_net w' = w_net w" by blast+
qed

lemma connect_reuse_compatible:
  assumes "connect_reuse u i spec target db = Inr (used, noUpsert)"
  shows "pp_Get (uc_Pipes u) db (Ref_String (pip_Ref spec)) = Inr (ex, k) \<Longrightarrow>
      exactConnectConflict ex (pip_PipeID spec) target (ci_LocalListen i) = None \<and> used = ex \<and> noUpsert"
    "noUpsert \<Longrightarrow> exactConnectConflict used (pip_PipeID spec) target (ci_LocalListen i) = None"
    "\<not> noUpsert \<Longrightarrow> used = spec"
  using assms by (auto simp: connect_reuse_def result_simps split: sum.splits if_splits)

end
