(* ===== verification/ShareAccept.thy ===== *)
theory ShareAccept
  imports Accepting
begin

text \<open>
  Journey A end to end: an owner shares an exact Pipe, a recipient accepts the invite over the network, and
  the recipient is in. The network of the recipient's process is the owner's machine: its file
  system is fixed during the exchange, its store is the network state.
\<close>

section \<open>The wired capabilities\<close>

text \<open>\<^verbatim>\<open>ExactRedemptionClient\<close> over a stream that ends in the Pipe's redemption handler, with the store the handler leaves:
  the owner's store changes when the client holds a key and could encode the invite, so that its frames arrive.\<close>

definition remote_redemption ::
  "crypto \<Rightarrow> gotime \<Rightarrow> string \<Rightarrow> string \<Rightarrow> string \<Rightarrow> FS \<Rightarrow> string \<Rightarrow> exactHandler \<Rightarrow> string result \<Rightarrow> string result \<Rightarrow> string
   \<Rightarrow> unit \<Rightarrow> ExactInvite \<Rightarrow> string \<Rightarrow> (AccessLease, FS \<times> Store) act" where
  "remote_redemption C now cv sv jv ofs home h seed suffix dir carrier invite rcpt w =
     (case w of (fs, odb) \<Rightarrow>
       (case Redeem C seed suffix dir (redemption_carrier C now (Inr cv) (Inr sv) (Inr jv) ofs home h odb) invite rcpt fs of
          (lease, fs') \<Rightarrow>
            (lease, fs',
             (case (Load C fs' (connectKeyPath dir (ei_AudiencePipeID invite)), EncodeInvite invite) of
                (Inr key, Inr enc) \<Rightarrow>
                  snd (redemption_handle C now (Inr cv) (Inr sv) (Inr jv) ofs home h (Inr \<lparr>rq_Invite = enc\<rparr>) (\<lambda>_. None)
                    (\<lambda>chal. Inr (redeem_proof C key invite rcpt chal)) odb)
              | _ \<Rightarrow> odb))))"

section \<open>What a share leaves behind\<close>

lemma Load_keypair: "Load C fs path = Inr k \<Longrightarrow> seed_keys C \<Longrightarrow> keypair C k"
proof -
  assume a: "Load C fs path = Inr k" "seed_keys C"
  obtain n where "key_node C k n" using Load_Inr(1) [OF a(1)] by blast
  then have "length k = PrivateKeySize" "NewKeyFromSeed C (take 32 k) = k" by (auto simp: key_node_def key_text_def)
  moreover from this have "length (take 32 k) = 32" by (simp add: bounds)
  ultimately show "keypair C k" using a(2) unfolding seed_keys_def by metis
qed

lemma ProvisionAuthority_Inr:
  assumes "ProvisionAuthority C seed suffix ow owner fs = (Inr auth, fs')" "seed_keys C" "\<And>s. seed = Inr s \<Longrightarrow> length s = 32"
    "readable fs (wf_KeyPath ow)"
  shows "VerifyPipeOwner C (wf_PipeID ow) (Public owner)" "Load C fs' (wf_KeyPath ow) = Inr (au_Private auth)"
    "NewOwnerBinding C owner (Public (au_Private auth)) (wf_PipeID ow) (wf_Epoch ow) (wf_RedemptionPeers ow) (wf_RedemptionProtocol ow)
       = Inr (au_Binding auth)"
    "fromBinding C (au_Private auth) (au_Binding auth) = Inr auth"
proof -
  show "VerifyPipeOwner C (wf_PipeID ow) (Public owner)"
    using assms(1) by (auto simp: ProvisionAuthority_def split: if_splits)
  obtain k b where p: "Provision C seed suffix (wf_KeyPath ow) fs = (Inr k, fs')"
    "NewOwnerBinding C owner (Public k) (wf_PipeID ow) (wf_Epoch ow) (wf_RedemptionPeers ow) (wf_RedemptionProtocol ow) = Inr b"
    "fromBinding C k b = Inr auth"
    using assms(1) by (auto simp: ProvisionAuthority_def result_simps split: if_splits sum.splits prod.splits)
  note f = fromBinding_Inr(2,3) [OF p(3)]
  have pr: "\<exists>n. nodes fs' (wf_KeyPath ow) = Some n \<and> key_node C k n" "secureDir fs' (Dir (wf_KeyPath ow)) = None"
    "faults fs' = faults fs" "validateFinalPath (wf_KeyPath ow) = None"
    by (rule Provision_Inr [OF p(1) assms(2)], erule assms(3))+
  then obtain n where n: "nodes fs' (wf_KeyPath ow) = Some n" "key_node C k n" by blast
  have "readable fs' (wf_KeyPath ow)" using assms(4) pr(3) by (simp add: readable_def)
  then show "Load C fs' (wf_KeyPath ow) = Inr (au_Private auth)"
    using Load_complete [OF pr(4,2) _ n] f(1) by blast
  show "NewOwnerBinding C owner (Public (au_Private auth)) (wf_PipeID ow) (wf_Epoch ow) (wf_RedemptionPeers ow) (wf_RedemptionProtocol ow)
       = Inr (au_Binding auth)" "fromBinding C (au_Private auth) (au_Binding auth) = Inr auth"
    using p f by simp_all
qed

text \<open>A plain, single redemption address, as the runtime's locator reports it.\<close>

definition plain_address :: "string \<Rightarrow> bool" where
  "plain_address a \<longleftrightarrow> a \<noteq> [] \<and> list_all graphic a \<and> unescaped a \<and> CHR '','' \<notin> set a"

lemma share_shared:
  assumes s: "ShareExact C seed suffix (Inr v) now u ref w = (Inr sx, w')"
    and u: "uc_Secrets u = SecretPath home []" "uc_ExactEpoch u = Some PipeAccessEpoch"
      "uc_OwnerLocator u = Some (\<lambda>_ _ net. (Inr addr, net))" "plain_address addr" "unescaped (uc_RedemptionProtocol u)"
    and c: "seed_keys C" "\<And>s. seed = Inr s \<Longrightarrow> length s = 32" "\<And>x. length (sha256 C x) = 32" "length v = 16"
    and t: "writable now" "writable (now + DefaultInviteTTL)"
    and db: "\<And>p. epoch_of (w_db w) (p, ''pipe-access'', p) < 2 ^ 63" and f: "faults (w_fs w) = (\<lambda>_. None)"
  obtains owner k b invite where "shared C (w_fs w') home owner k b invite now DefaultInviteTTL"
    "EncodeInvite invite = Inr (sx_Invite sx)" "length (sx_Invite sx) \<le> 8192" "sx_PipeID sx = ei_AudiencePipeID invite"
    "ei_AccessEpoch invite = epoch_of (w_db w) (ei_AudiencePipeID invite, ''pipe-access'', ei_AudiencePipeID invite)"
    "w_db w' = w_db w" "w_net w' = w_net w" "redemptionAddress invite = Inr addr" "db_fault (w_db w) = None"
    "ei_JTI invite = ''jti_'' @ b32_encode v" "length addr \<le> 4096"
proof -
  have trim: "TrimSpace addr = addr" using u(4) by (intro TrimSpace_graphic) (auto simp: plain_address_def)
  obtain spec :: PipeSpec and okey owner epoch keyPath auth fs' invite where h:
    "Load C (w_fs w) okey = Inr owner" "PipeIDFromOwner C (Public owner) = pip_PipeID spec"
    "PipeAccessEpoch (w_db w) (pip_PipeID spec) = Inr epoch" "KeyPath (SecretPath home []) (pip_PipeID spec) = Inr keyPath"
    "ProvisionAuthority C seed suffix \<lparr>wf_KeyPath = keyPath, wf_PipeID = pip_PipeID spec, wf_Epoch = epoch,
       wf_RedemptionPeers = addr, wf_RedemptionProtocol = uc_RedemptionProtocol u\<rparr> owner (w_fs w) = (Inr auth, fs')"
    "NewExactInvite C (Inr v) (au_Private auth) (au_Binding auth) (pip_PipeID spec) now DefaultInviteTTL epoch = Inr invite"
    "EncodeInvite invite = Inr (sx_Invite sx)" "w_fs w' = fs' \<and> w_db w' = w_db w \<and> w_net w' = w_net w"
    "sx_PipeID sx = pip_PipeID spec"
    using s u(1-3) trim
    by (clarsimp simp: ShareExact_def locate_owner_def act_bind_Inr act_err_Inr act_lift_eq ask_eq require_eq need_eq on_eq
        map_err_Inr_iff split: if_splits)
  let ?p = "pip_PipeID spec" and ?k = "au_Private auth"
  have e: "epoch = epoch_of (w_db w) (?p, ''pipe-access'', ?p)" "db_fault (w_db w) = None"
    using h(3) by (simp_all add: PipeAccessEpoch_def RevocationEpoch_Inr)
  have rd: "readable (w_fs w) keyPath" by (simp add: readable_def f)
  have pa: "Load C fs' keyPath = Inr ?k" "NewOwnerBinding C owner (Public ?k) ?p epoch addr (uc_RedemptionProtocol u) = Inr (au_Binding auth)"
    "fromBinding C ?k (au_Binding auth) = Inr auth"
    using ProvisionAuthority_Inr(2-4) [OF h(5) c(1)] c(2) rd by simp_all
  have kk: "keypair C ?k" "keypair C owner" using Load_keypair [OF pa(1) c(1)] Load_keypair [OF h(1) c(1)] by simp_all
  obtain body where nb: "length addr \<le> MaxRedemptionAddrLen" "length (Split addr (CHR '','')) \<le> MaxRedemptionAddresses"
    "length (uc_RedemptionProtocol u) \<le> MaxRedemptionProtocolLen" "ob_RedemptionPeers (au_Binding auth) = addr"
    using pa(2) by (auto elim: NewOwnerBinding_Inr)
  have tt: "0 < DefaultInviteTTL" "DefaultInviteTTL \<le> MaxTTL" by (simp_all add: DefaultInviteTTL_def bounds minute_def second_def)
  have ep: "epoch < 2 ^ 64" using db [of ?p] e(1) by simp
  have un: "unescaped addr" using u(4) by (simp add: plain_address_def)
  obtain b' i' enc' where sc: "NewOwnerBinding C owner (Public ?k) ?p epoch addr (uc_RedemptionProtocol u) = Inr b'" "binding_wf b'"
    "NewExactInvite C (Inr v) ?k b' ?p now DefaultInviteTTL epoch = Inr i'" "invite_wf i'"
    "EncodeInvite i' = Inr enc'" "length enc' \<le> 8192" "ei_AccessEpoch i' = epoch"
    by (rule share_complete [OF kk(2,1) c(3) nb(1-3) un u(5) ep ep tt t c(4), unfolded h(2)])
  have eq: "b' = au_Binding auth" "i' = invite" "enc' = sx_Invite sx" using sc pa(2) h(6,7) by simp_all
  have "Public ?k \<noteq> Public owner"
  proof -
    have "oa_AuthorityKey (au_Owner auth) \<noteq> oa_Owner (au_Owner auth)" using fromBinding_Inr(5) [OF pa(3)] .
    moreover have "au_Owner auth = \<lparr>oa_Owner = PublicString (Public owner), oa_AuthorityKey = PublicString (Public ?k),
        oa_PipeID = ?p, oa_Epoch = epoch\<rparr>"
      using fromBinding_Inr(4) [OF pa(3)] NewOwnerBinding_verifies(2) [OF pa(2) kk(2)] by simp
    ultimately show ?thesis by auto
  qed
  then have sh: "shared C (w_fs w') home owner ?k (au_Binding auth) invite now DefaultInviteTTL"
    using kk c(3,4) sc eq pa(1) h(2,4,6,8) t(1) by (auto simp: shared_def)
  have dec: "DecodeOwnerBinding (ei_Binding invite) = Inr (au_Binding auth)" using shared_fields(6) [OF sh] .
  have ne: "ei_Binding invite \<noteq> []" using shared_fields(5) [OF sh] EncodeOwnerBinding_bounds by blast
  have "fst (Cut addr (CHR '','')) = addr" using u(4) by (auto simp: Cut_spec plain_address_def takeWhile_eq_all_conv)
  then have ra: "redemptionAddress invite = Inr addr"
    using dec ne nb(4) trim u(4) by (simp add: redemptionAddress_def Let_def plain_address_def)
  have pipe: "ei_AudiencePipeID invite = ?p" using shared_fields(1) [OF sh] h(2) by simp
  have jti: "ei_JTI invite = ''jti_'' @ b32_encode v" using h(6) by (auto elim: NewExactInvite_Inr)
  show thesis
    using that [OF sh h(7)] sc(6,7) eq h(8,9) pipe e ra jti nb(1) by (simp add: bounds)
qed

section \<open>Accepting a shared invite\<close>

text \<open>The recipient's process wired to the owner's machine: one carrier, to the owner's redemption handler, the local store,
  and the recipient's connect key in place once provisioned.\<close>

definition wired ::
  "crypto \<Rightarrow> gotime \<Rightarrow> gotime \<Rightarrow> string \<Rightarrow> string \<Rightarrow> string \<Rightarrow> FS \<Rightarrow> string \<Rightarrow> exactHandler \<Rightarrow> string result \<Rightarrow> string result
   \<Rightarrow> (Store, Store, unit) UseCases \<Rightarrow> bool" where
  "wired C clock now cv sv jv ofs home h seed suffix u \<longleftrightarrow>
     \<not> blank (uc_Secrets u) \<and> uc_Reach u = Some (\<lambda>_ net. (Inr (), net)) \<and> on_store clock u
     \<and> uc_Redemption u = Some (remote_redemption C now cv sv jv ofs home h seed suffix (uc_Secrets u))"

lemma accepted_binding_valid:
  assumes sh: "shared C fs home owner k b invite t0 lifetime" and a: "redemptionAddress invite = Inr addr" "length addr \<le> 4096"
    and c: "keypair C ck"
  shows "RemotePipeBinding_Validate (accepted_binding invite addr (PublicString (Public ck)) now) = None"
proof -
  note f = shared_fields [OF sh]
  have "length (ei_AudiencePipeID invite) = 36" "HasPrefix (ei_AudiencePipeID invite) ''pip_''"
    using f(1) sh PipeIDFromOwner_length [of C "Public owner"] by (auto simp: shared_def PipeIDFromOwner_def HasPrefix_def)
  moreover have "length (ei_Issuer invite) = 43" "length (PublicString (Public ck)) = 43"
    using f(2) sh keypair_facts(1) [OF c] keypair_facts(1) [of C k]
    by (simp_all add: shared_def PublicString_def length_b64_encode bounds)
  moreover from this have "ei_Issuer invite \<noteq> []" "PublicString (Public ck) \<noteq> []" by (auto simp flip: length_0_conv)
  moreover have "ei_Binding invite \<noteq> []" "length (ei_Binding invite) \<le> 48 * 1024"
    using f(5) EncodeOwnerBinding_bounds by (fastforce simp: bounds)+
  moreover have "addr \<noteq> []" using a(1) by (auto simp: redemptionAddress_def Let_def result_simps split: if_splits)
  ultimately show ?thesis using a(2) by (simp add: RemotePipeBinding_Validate_def accepted_binding_def)
qed

text \<open>The store after the acceptance: the relationship and the cached lease are in place.\<close>

definition accepted_db :: "gotime \<Rightarrow> RemotePipeBinding \<Rightarrow> string \<Rightarrow> AccessLease \<Rightarrow> Store \<Rightarrow> Store" where
  "accepted_db clock b lenc l db =
     snd (PutAccessLeaseCache (cache_entry (rpb_RemotePipeID b) lenc l) (snd (PutRemotePipeBinding clock b db)))"

lemma DecodeInvite_Nil: "\<not> is_ok (DecodeInvite [])"
  by (simp add: DecodeInvite_def decodeStrictJSON_def decodeCanonicalRawBase64URL_def)

lemma accept_complete:
  assumes sh: "shared C ofs home owner k b invite t0 lifetime" and enc: "EncodeInvite invite = Inr enc" "length enc \<le> 8192"
    and t: "t0 \<le> now + MaxClockSkew" "now < t0 + lifetime" "writable now" "writable (now + redeem_lifetime invite now (eh_leaseTTL h))"
    and h: "eh_pipeID h = ei_AudiencePipeID invite" and a: "redemptionAddress invite = Inr addr" "length addr \<le> 4096"
    and u: "wired C clock now cv sv jv ofs home h seed suffix u"
    and c: "Provision C seed suffix (connectKeyPath (uc_Secrets u) (ei_AudiencePipeID invite)) (w_fs w) = (Inr ck, fs1)"
      "Load C fs1 (connectKeyPath (uc_Secrets u) (ei_AudiencePipeID invite)) = Inr ck" "keypair C ck"
    and db: "redeemable (w_net w) invite (PublicString (Public ck))" "db_fault (w_db w) = None"
    and v: "length cv = 24" "length jv = 16"
  obtains l lenc w' where
    "AcceptExactInvite C clock seed suffix now now u enc w =
       (Inr \<lparr>ax_RemotePipeID = ei_AudiencePipeID invite, ax_RecipientPublic = PublicString (Public ck),
             ax_LeaseExpiresAt = instant (al_ExpiresAt l)\<rparr>, w')"
    "w_db w' = accepted_db clock (accepted_binding invite addr (PublicString (Public ck)) now) lenc l (w_db w)"
    "redeemed_by (w_net w') (ei_JTI invite) (ei_AudiencePipeID invite) = Some (PublicString (Public ck))"
    "revocations (w_net w') = revocations (w_net w)" "db_fault (w_net w') = None"
    "NewAccessLease C (Inr jv) k (PublicString (Public ck)) (ei_AudiencePipeID invite) now
       (redeem_lifetime invite now (eh_leaseTTL h)) (ei_AccessEpoch invite) = Inr l"
    "lease_Encode l = Inr lenc" "lease_Decode lenc = Inr l" "lenc \<noteq> []"
proof -
  let ?p = "ei_AudiencePipeID invite" and ?pub = "PublicString (Public ck)"
  note f = shared_fields [OF sh] and u' = u [unfolded wired_def on_store_def]
  let ?b = "accepted_binding invite addr ?pub now"
  obtain l lenc0 odb' where g:
    "Redeem C seed suffix (uc_Secrets u) (redemption_carrier C now (Inr cv) (Inr sv) (Inr jv) ofs home h (w_net w)) invite ?pub fs1 = (Inr l, fs1)"
    "redemption_handle C now (Inr cv) (Inr sv) (Inr jv) ofs home h (Inr \<lparr>rq_Invite = enc\<rparr>) (\<lambda>_. None)
        (\<lambda>chal. Inr (redeem_proof C ck invite ?pub chal)) (w_net w) = (Some (grant lenc0 l), odb')"
    "redeemed_by odb' (ei_JTI invite) ?p = Some ?pub"
    "NewAccessLease C (Inr jv) k ?pub ?p now (redeem_lifetime invite now (eh_leaseTTL h)) (ei_AccessEpoch invite) = Inr l"
    "lease_Decode lenc0 = Inr l" "revocations odb' = revocations (w_net w)" "db_fault odb' = None"
    by (rule Redeem_complete [OF sh enc t h c(3,2) db(1) v])
  have rem: "remote_redemption C now cv sv jv ofs home h seed suffix (uc_Secrets u) () invite ?pub (fs1, w_net w) = (Inr l, fs1, odb')"
    using g(1,2) c(2) enc(1) by (simp add: remote_redemption_def)
  have k: "keypair C k" using sh by (simp add: shared_def)
  have asc: "ascii ?p" using PipeID_graphic graphic_ascii by (simp add: f(1))
  have ep: "ei_AccessEpoch invite < 2 ^ 64" using db(1) by (simp add: redeemable_def Let_def)
  obtain lenc where w: "lease_Encode l = Inr lenc" "lease_Decode lenc = Inr l" "lenc \<noteq> []"
    using g(4) by (rule minted_lease_wire [OF _ k v(2) asc t(3,4) ep])
  have z: "now \<noteq> zero_time" "t0 \<noteq> zero_time" using t(3) sh by (auto simp: writable_def shared_def)
  have lv: "lease_Verify C clock (Public k) ?pub ?p now l = None"
    using NewAccessLease_verifies [OF g(4) k _ z(1) z(1)] v(2) redeem_lifetime_bounds(1) by (simp add: bounds second_def)
  obtain v1 ep' where i: "NewExactInvite C (Inr v1) k b ?p t0 lifetime ep' = Inr invite" "length v1 = 16"
    using sh f(1) by (auto simp: shared_def)
  have iv: "invite_Verify C clock now ?p invite = None"
    using NewExactInvite_verifies [OF i(1) k _ _ z(2,1) t(1,2)] i(2) sh by (simp add: shared_def)
  have wf: "invite_wf invite" using sh by (simp add: shared_def)
  have dec: "DecodeInvite enc = Inr invite" using DecodeInvite_Encode enc(1) wf by simp
  have "enc \<noteq> []" using dec DecodeInvite_Nil by auto
  then have eb: "\<not> blank enc"
    using enc(1) b64_encode_graphic by (intro graphic_not_blank) (auto simp: EncodeInvite_def result_simps Let_def split: if_splits)
  have val: "RemotePipeBinding_Validate ?b = None" by (rule accepted_binding_valid [OF sh a c(3)])
  have iss: "PublicFromString (ei_Issuer invite) = Inr (Public k)" using f(2) keypair_facts(1) [OF k] by simp
  have rr: "redeem_remote u invite ?pub (w\<lparr>w_fs := fs1\<rparr>) = (Inr (addr, l), w\<lparr>w_fs := fs1, w_net := odb'\<rparr>)"
    using u' a(1) rem by (simp add: redeem_remote_def act_simps)
  obtain db1 where put: "PutRemotePipeBinding clock ?b (w_db w) = (Inr (), db1)" "db1 = snd (PutRemotePipeBinding clock ?b (w_db w))"
    using val db(2) by (auto simp: PutRemotePipeBinding_def Let_def)
  let ?w1 = "w\<lparr>w_fs := fs1, w_net := odb', w_db := db1\<rparr>"
  have cq: "cache_quietly u ?p l ?w1 = (Inr (), ?w1\<lparr>w_db := accepted_db clock ?b lenc l (w_db w)\<rparr>)"
    using u' w(1) put by (simp add: cache_quietly_def on_db_def accepted_db_def accepted_binding_def split: prod.splits)
  have "acceptExactInvite C clock seed suffix now u invite w
      = (Inr \<lparr>ar_binding = ?b, ar_lease = l, ar_recipientPublic = ?pub\<rparr>, ?w1\<lparr>w_db := accepted_db clock ?b lenc l (w_db w)\<rparr>)"
    using u' c(1) rr iss lv val put(1) cq by (simp add: acceptExactInvite_def act_simps Let_def)
  then have "AcceptExactInvite C clock seed suffix now now u enc w =
       (Inr \<lparr>ax_RemotePipeID = ?p, ax_RecipientPublic = ?pub, ax_LeaseExpiresAt = instant (al_ExpiresAt l)\<rparr>,
        ?w1\<lparr>w_db := accepted_db clock ?b lenc l (w_db w)\<rparr>)"
    using eb dec iv by (simp add: AcceptExactInvite_def act_simps decode_verified_def) (simp add: accepted_binding_def)
  then show thesis by (rule that) (use g w in simp_all)
qed

text \<open>Afterwards the access is there without the network: the cached lease is found until it expires.\<close>

lemma acquire_cached:
  assumes db: "w_db w = accepted_db clock (accepted_binding invite addr rcpt now) lenc l db0" "db_fault db0 = None"
    and val: "RemotePipeBinding_Validate (accepted_binding invite addr rcpt now) = None" and u: "on_store at u"
    and l: "lease_Decode lenc = Inr l" "lenc \<noteq> []" "PublicFromString (ei_Issuer invite) = Inr pub"
      "lease_Verify C at pub rcpt (ei_AudiencePipeID invite) at l = None"
    and t: "writable clock" "writable now" "writable (instant (al_ExpiresAt l))" "at < instant (al_ExpiresAt l)"
    and p: "\<not> blank (ei_AudiencePipeID invite)" "ei_AudiencePipeID invite \<noteq> []"
  shows "AcquireAcceptedPipeAccess C at at at u (ei_AudiencePipeID invite) w =
    (Inr \<lparr>ap_RemotePipeID = ei_AudiencePipeID invite, ap_Locator = addr, ap_AuthorityPublic = ei_Issuer invite, ap_AccessLease = l\<rparr>, w)"
proof -
  let ?p = "ei_AudiencePipeID invite"
  have pt: "parse_time (FormatUTC x) = Inr x" if "writable x" for x
    using that ParseTime_FormatUTC [of x False] by (simp add: parse_time_def writable_def json_time_ok_def UTC_def)
  have z: "\<not> IsZero (instant (al_ExpiresAt l))" "\<not> IsZero now" using t(2,3) by (simp_all add: writable_def)
  have rows: "get (remote_pipe_bindings (w_db w)) ?p = Some \<lparr>br_authority_public = ei_Issuer invite, br_owner_binding = ei_Binding invite,
      br_locator = addr, br_recipient_public = rcpt, br_source = ''invite'', br_created_at = FormatUTC now, br_updated_at = FormatUTC clock\<rparr>"
    "get (exact_lease_cache (w_db w)) ?p = Some \<lparr>lc_access_lease = lenc, lc_expires_at = FormatUTC (instant (al_ExpiresAt l))\<rparr>"
    "db_fault (w_db w) = None"
    using db val z l(2) p(2)
    by (simp_all add: accepted_db_def PutRemotePipeBinding_def PutAccessLeaseCache_def cache_entry_def accepted_binding_def)
  have val': "RemotePipeBinding_Validate (accepted_binding invite addr rcpt now\<lparr>rpb_UpdatedAt := clock\<rparr>) = None"
    by (rule trans [OF _ val]) (simp add: RemotePipeBinding_Validate_def)
  have g: "GetRemotePipeBinding (w_db w) ?p = Inr (accepted_binding invite addr rcpt now\<lparr>rpb_UpdatedAt := clock\<rparr>)"
    using rows pt [OF t(1)] pt [OF t(2)] val' by (simp add: GetRemotePipeBinding_def query_Inr Let_def accepted_binding_def)
  have ab: "accepted_binding_of u ?p w = (Inr (accepted_binding invite addr rcpt now\<lparr>rpb_UpdatedAt := clock\<rparr>, pub), w)"
    using u g val' l(3) by (simp add: accepted_binding_of_def act_simps on_store_def) (simp add: accepted_binding_def)
  have c: "GetAccessLeaseCache at ?p (w_db w)
      = (Inr \<lparr>alc_RemotePipeID = ?p, alc_AccessLease = lenc, alc_ExpiresAt = instant (al_ExpiresAt l)\<rparr>, w_db w)"
    using rows pt [OF t(3)] z t(4) p(2) l(2) by (simp add: GetAccessLeaseCache_def)
  have "cached_lease C at at u ?p (accepted_binding invite addr rcpt now\<lparr>rpb_UpdatedAt := clock\<rparr>) pub w = (Inr (Some l), w)"
    using u c l(1,4) by (simp add: cached_lease_def on_store_def on_db_def accepted_binding_def)
  then show ?thesis
    using ab p(1) by (simp add: AcquireAcceptedPipeAccess_def act_simps Let_def) (simp add: accepted_binding_def act_lift_def)
qed

end
