(* ===== verification/Journey.thy ===== *)
theory Journey
  imports ShareAccept
begin

text \<open>
  What sharing, accepting, acquiring and connecting guarantee, end to end, and a concrete owner and recipient on which all of
  it happens: an owner with one Pipe and its keys on disk, and a recipient with an empty store and a connect key.
\<close>

section \<open>A concrete owner and recipient\<close>

definition key_file :: "string \<Rightarrow> node" where
  "key_file k = \<lparr>n_kind = Regular (b64_encode k), n_perm = 384, n_special = False\<rparr>"

definition private_dir :: node where "private_dir = \<lparr>n_kind = Directory, n_perm = 448, n_special = False\<rparr>"

definition owner_fs :: FS where
  "owner_fs = \<lparr>nodes = [''h/secrets/exact-authorities/pip_n5xw633pn5xw633pn5xw633pn5xw633p.key'' \<mapsto> key_file example_key,
      ''h/secrets/exact-authorities'' \<mapsto> private_dir, ''h/secrets/pipes/web.key'' \<mapsto> key_file example_owner,
      ''h/secrets/pipes'' \<mapsto> private_dir], faults = (\<lambda>_. None)\<rparr>"

definition recipient_fs :: FS where
  "recipient_fs = \<lparr>nodes = [''s/pipes/connect-pip_n5xw633pn5xw633pn5xw633pn5xw633p.key'' \<mapsto> key_file example_client,
      ''s/pipes'' \<mapsto> private_dir], faults = (\<lambda>_. None)\<rparr>"

lemma example_paths:
  "example_pipe = ''pip_n5xw633pn5xw633pn5xw633pn5xw633p''"
  "Join_path [SecretPath ''h'' [], ''exact-authorities'', ''pip_n5xw633pn5xw633pn5xw633pn5xw633p'' @ ''.key'']
     = ''h/secrets/exact-authorities/pip_n5xw633pn5xw633pn5xw633pn5xw633p.key''"
  "Dir ''h/secrets/exact-authorities/pip_n5xw633pn5xw633pn5xw633pn5xw633p.key'' = ''h/secrets/exact-authorities''"
  "Clean ''h/secrets/exact-authorities'' = ''h/secrets/exact-authorities''"
  "Base ''h/secrets/exact-authorities/pip_n5xw633pn5xw633pn5xw633pn5xw633p.key'' = ''pip_n5xw633pn5xw633pn5xw633pn5xw633p.key''"
  "Join_path [''h/secrets/exact-authorities'', ''pip_n5xw633pn5xw633pn5xw633pn5xw633p.key'' @ lockSuffix]
     = ''h/secrets/exact-authorities/pip_n5xw633pn5xw633pn5xw633pn5xw633p.key.lock''"
  "Dir ''h/secrets/pipes/web.key'' = ''h/secrets/pipes''" "Base ''h/secrets/pipes/web.key'' = ''web.key''"
  by code_simp+

lemma recipient_paths:
  "connectKeyPath ''s'' ''pip_n5xw633pn5xw633pn5xw633pn5xw633p'' = ''s/pipes/connect-pip_n5xw633pn5xw633pn5xw633pn5xw633p.key''"
  "Dir ''s/pipes/connect-pip_n5xw633pn5xw633pn5xw633pn5xw633p.key'' = ''s/pipes''" "Clean ''s/pipes'' = ''s/pipes''"
  "Base ''s/pipes/connect-pip_n5xw633pn5xw633pn5xw633pn5xw633p.key'' = ''connect-pip_n5xw633pn5xw633pn5xw633pn5xw633p.key''"
  "Join_path [''s/pipes'', ''connect-pip_n5xw633pn5xw633pn5xw633pn5xw633p.key'' @ lockSuffix]
     = ''s/pipes/connect-pip_n5xw633pn5xw633pn5xw633pn5xw633p.key.lock''"
  by code_simp+

lemma example_key_nodes:
  "key_node example_crypto example_key (key_file example_key)" "key_node example_crypto example_owner (key_file example_owner)"
  "key_node example_crypto example_client (key_file example_client)"
  by (simp_all add: key_node_def key_file_def key_text_def unsafeMode_def example_key_def example_owner_def example_client_def bounds
      flip: replicate_add)

lemma owner_disk:
  "Provision example_crypto seed suffix ''h/secrets/exact-authorities/pip_n5xw633pn5xw633pn5xw633pn5xw633p.key'' owner_fs
     = (Inr example_key, owner_fs)"
  "Load example_crypto owner_fs ''h/secrets/pipes/web.key'' = Inr example_owner"
proof -
  show "Provision example_crypto seed suffix ''h/secrets/exact-authorities/pip_n5xw633pn5xw633pn5xw633pn5xw633p.key'' owner_fs
     = (Inr example_key, owner_fs)"
    by (rule Provision_existing [where dn = private_dir and n = "key_file example_key"])
      (simp_all add: example_paths validateFinalPath_def owner_fs_def private_dir_def example_key_nodes del: append_Cons)
  show "Load example_crypto owner_fs ''h/secrets/pipes/web.key'' = Inr example_owner"
    by (rule Load_complete [where n = "key_file example_owner"])
      (simp_all add: example_paths validateFinalPath_def secureDir_def lstat_def checkDir_def unsafeMode_def readable_def
        owner_fs_def private_dir_def example_key_nodes)
qed

lemma recipient_disk:
  "Provision example_crypto seed suffix (connectKeyPath ''s'' example_pipe) recipient_fs = (Inr example_client, recipient_fs)"
  unfolding example_paths(1) recipient_paths(1)
  by (rule Provision_existing [where dn = private_dir and n = "key_file example_client"])
    (simp_all add: recipient_paths validateFinalPath_def recipient_fs_def private_dir_def example_key_nodes del: append_Cons)

definition owner_db :: Store where
  "owner_db = empty_store\<lparr>pipes := [(''pipe/web'', \<lparr>pr_spec = example_pipe_spec\<lparr>pip_PipeID := example_pipe\<rparr>,
     pr_owner_key_file = ''h/secrets/pipes/web.key'', pr_publish_grant = []\<rparr>)]\<rparr>"

definition owner_uc :: "(Store, unit, unit) UseCases" where
  "owner_uc = \<lparr>uc_ServiceUpsert = PutService, uc_Pipes = PipeRepoAdapter, uc_Secrets = SecretPath ''h'' [],
     uc_OwnerLocator = Some (\<lambda>_ _ net. (Inr ''/ip4/10.0.0.1'', net)), uc_ExactEpoch = Some PipeAccessEpoch,
     uc_RedemptionProtocol = ''/tubo/redeem'', uc_Redemption = None, uc_Renewal = None, uc_Reach = None, uc_Bindings = None,
     uc_LeaseCache = None\<rparr>"

definition owner_world :: "(Store, unit) World" where "owner_world = \<lparr>w_fs = owner_fs, w_db = owner_db, w_net = ()\<rparr>"

lemma example_invite_times: "writable (example_now + DefaultInviteTTL)"
proof -
  have "year (date_of (example_now + DefaultInviteTTL)) = 2023" by code_simp
  then show ?thesis
    by (simp add: writable_def json_time_ok_def UTC_def zero_time_def example_now_def DefaultInviteTTL_def second_def minute_def)
qed

lemma example_share:
  obtains sx where
    "ShareExact example_crypto seed suffix (Inr example_rnd) example_now owner_uc ''pipe/web'' owner_world = (Inr sx, owner_world)"
    "sx_PipeID sx = example_pipe"
proof -
  have p: "length ''/ip4/10.0.0.1'' \<le> MaxRedemptionAddrLen"
    "length (Split ''/ip4/10.0.0.1'' (CHR '','')) \<le> MaxRedemptionAddresses"
    "length ''/tubo/redeem'' \<le> MaxRedemptionProtocolLen" "unescaped ''/ip4/10.0.0.1''" "unescaped ''/tubo/redeem''"
    "(0::nat) < 2 ^ 64" "(0::nat) < 2 ^ 64" "0 < DefaultInviteTTL" "DefaultInviteTTL \<le> MaxTTL"
    by (simp_all add: bounds unescaped_def escape_plain byte_def DefaultInviteTTL_def minute_def second_def)
  obtain b invite enc where s:
    "NewOwnerBinding example_crypto example_owner (Public example_key) (PipeIDFromOwner example_crypto (Public example_owner)) 0
       ''/ip4/10.0.0.1'' ''/tubo/redeem'' = Inr b" "binding_wf b"
    "NewExactInvite example_crypto (Inr example_rnd) example_key b (PipeIDFromOwner example_crypto (Public example_owner))
       example_now DefaultInviteTTL 0 = Inr invite" "invite_wf invite" "EncodeInvite invite = Inr enc"
    by (rule share_complete [OF example_keys(1,2) example_lengths(4) p example_times(1) example_invite_times example_lengths(3)])
  have own: "PipeIDFromOwner example_crypto (Public example_owner) = example_pipe" by (simp add: example_pipe_def)
  have vp: "VerifyPipeOwner example_crypto example_pipe (Public example_owner)"
    using s(1) own by (auto elim: NewOwnerBinding_Inr)
  note ver = NewOwnerBinding_verifies [OF s(1) example_keys(1)]
  obtain auth where auth: "fromBinding example_crypto example_key b = Inr auth" "au_Private auth = example_key" "au_Binding auth = b"
    using ver(2) example_keys(4) example_lengths(1) by (auto simp: fromBinding_def bounds)
  have "KeyPath (SecretPath ''h'' []) example_pipe = Inr ''h/secrets/exact-authorities/pip_n5xw633pn5xw633pn5xw633pn5xw633p.key''"
    using example_key_files(1) example_paths(1,2) by simp
  moreover have "pp_Get PipeRepoAdapter owner_db ''pipe/web'' = Inr (example_pipe_spec\<lparr>pip_PipeID := example_pipe\<rparr>, ''h/secrets/pipes/web.key'')"
    by (simp add: PipeRepoAdapter_def Pipe_get_def owner_db_def empty_store_def query_def)
  moreover have "PipeAccessEpoch owner_db example_pipe = Inr 0"
    by (simp add: PipeAccessEpoch_def RevocationEpoch_Inr owner_db_def empty_store_def epoch_of_def)
  moreover have "TrimSpace ''/ip4/10.0.0.1'' = ''/ip4/10.0.0.1''" "\<not> blank ''/tubo/redeem''" "\<not> blank ''/ip4/10.0.0.1''"
    by (rule TrimSpace_graphic graphic_not_blank; simp add: graphic_def byte_def)+
  ultimately show thesis
    using that owner_disk own vp auth s(1,3,5)
    by (fastforce simp: ShareExact_def locate_owner_def owner_uc_def owner_world_def act_simps ProvisionAuthority_def)
qed

definition recipient_seed :: string where "recipient_seed = replicate 32 (CHR ''e'')"
definition example_nonce :: string where "example_nonce = replicate 24 (CHR ''x'')"

definition recipient_uc :: "gotime \<Rightarrow> (Store, Store, unit) UseCases" where
  "recipient_uc clock = \<lparr>uc_ServiceUpsert = PutService, uc_Pipes = PipeRepoAdapter, uc_Secrets = ''s'', uc_OwnerLocator = None,
     uc_ExactEpoch = None, uc_RedemptionProtocol = [],
     uc_Redemption = Some (remote_redemption example_crypto example_now example_nonce example_rnd example_rnd owner_fs ''h''
       (newExactHandler example_pipe minute) (Inr recipient_seed) (Inr []) ''s''),
     uc_Renewal = None, uc_Reach = Some (\<lambda>_ net. (Inr (), net)), uc_Bindings = Some (RemotePipeBindingAdapter clock),
     uc_LeaseCache = Some (AccessLeaseCacheAdapter clock)\<rparr>"

definition recipient_world :: "(Store, Store) World" where
  "recipient_world = \<lparr>w_fs = recipient_fs, w_db = empty_store, w_net = owner_db\<rparr>"

lemma recipient_wired:
  "wired example_crypto clock example_now example_nonce example_rnd example_rnd owner_fs ''h'' (newExactHandler example_pipe minute)
     (Inr recipient_seed) (Inr []) (recipient_uc clock)"
proof -
  have "\<not> blank ''s''" by (rule graphic_not_blank; simp add: graphic_def byte_def)
  then show ?thesis by (simp add: wired_def recipient_uc_def on_store_def)
qed

lemma owner_store_fresh:
  "epoch_of owner_db k = 0" "redeemed_by owner_db j q = None" "get (revocations owner_db) x = None" "db_fault owner_db = None"
  by (simp_all add: owner_db_def empty_store_def epoch_of_def redeemed_by_def)

lemma example_address: "plain_address ''/ip4/10.0.0.1''" "unescaped ''/tubo/redeem''"
  by (simp_all add: plain_address_def unescaped_def escape_plain byte_def graphic_def)

text \<open>The share of the concrete owner, as the recipient meets it.\<close>

lemma example_shared_invite:
  obtains sx b k o' invite where
    "ShareExact example_crypto (Inr recipient_seed) (Inr []) (Inr example_rnd) example_now owner_uc ''pipe/web'' owner_world = (Inr sx, owner_world)"
    "shared example_crypto owner_fs ''h'' o' k b invite example_now DefaultInviteTTL" "EncodeInvite invite = Inr (sx_Invite sx)"
    "length (sx_Invite sx) \<le> 8192" "ei_AudiencePipeID invite = example_pipe" "ei_AccessEpoch invite = 0"
    "redemptionAddress invite = Inr ''/ip4/10.0.0.1''"
proof -
  obtain sx where s: "ShareExact example_crypto (Inr recipient_seed) (Inr []) (Inr example_rnd) example_now owner_uc ''pipe/web'' owner_world
      = (Inr sx, owner_world)" "sx_PipeID sx = example_pipe"
    by (rule example_share)
  have seed: "length t = 32" if "Inr recipient_seed = (Inr t :: string result)" for t using that by (auto simp: recipient_seed_def)
  have u: "uc_Secrets owner_uc = SecretPath ''h'' []" "uc_ExactEpoch owner_uc = Some PipeAccessEpoch"
    "uc_OwnerLocator owner_uc = Some (\<lambda>_ _ net. (Inr ''/ip4/10.0.0.1'', net))" "unescaped (uc_RedemptionProtocol owner_uc)"
    using example_address(2) by (simp_all add: owner_uc_def)
  have w: "epoch_of (w_db owner_world) (p, ''pipe-access'', p) < 2 ^ 63" "faults (w_fs owner_world) = (\<lambda>_. None)" for p
    by (simp_all add: owner_world_def owner_store_fresh owner_fs_def)
  obtain o' k b invite where i: "shared example_crypto (w_fs owner_world) ''h'' o' k b invite example_now DefaultInviteTTL"
    "EncodeInvite invite = Inr (sx_Invite sx)" "length (sx_Invite sx) \<le> 8192" "sx_PipeID sx = ei_AudiencePipeID invite"
    "ei_AccessEpoch invite = epoch_of (w_db owner_world) (ei_AudiencePipeID invite, ''pipe-access'', ei_AudiencePipeID invite)"
    "redemptionAddress invite = Inr ''/ip4/10.0.0.1''"
    by (rule share_shared [OF s(1) u(1-3) example_address(1) u(4) example_seed_keys seed example_lengths(4,3) example_times(1)
          example_invite_times w])
  then show thesis using that s by (simp add: owner_world_def owner_store_fresh)
qed

lemma example_lifetime:
  assumes "shared C fs home o' k b invite example_now DefaultInviteTTL"
  shows "redeem_lifetime invite example_now (eh_leaseTTL (newExactHandler q minute)) = minute"
  using shared_fields(4) [OF assms]
  by (simp add: redeem_lifetime_def newExactHandler_def Let_def bounds DefaultInviteTTL_def minute_def second_def)

lemma example_accept:
  obtains sx :: ShareExactResult and w' l authority where
    "AcceptExactInvite example_crypto example_now (Inr recipient_seed) (Inr []) example_now example_now (recipient_uc example_now)
       (sx_Invite sx) recipient_world =
       (Inr \<lparr>ax_RemotePipeID = example_pipe, ax_RecipientPublic = PublicString (Public example_client),
             ax_LeaseExpiresAt = instant (al_ExpiresAt l)\<rparr>, w')"
    "AcquireAcceptedPipeAccess example_crypto example_now example_now example_now (recipient_uc example_now) example_pipe w' =
      (Inr \<lparr>ap_RemotePipeID = example_pipe, ap_Locator = ''/ip4/10.0.0.1'', ap_AuthorityPublic = authority, ap_AccessLease = l\<rparr>, w')"
proof -
  obtain sx :: ShareExactResult and b k o' invite where s: "shared example_crypto owner_fs ''h'' o' k b invite example_now DefaultInviteTTL"
    "EncodeInvite invite = Inr (sx_Invite sx)" "length (sx_Invite sx) \<le> 8192" "ei_AudiencePipeID invite = example_pipe"
    "ei_AccessEpoch invite = 0" "redemptionAddress invite = Inr ''/ip4/10.0.0.1''"
    by (rule example_shared_invite)
  let ?h = "newExactHandler example_pipe minute" and ?pub = "PublicString (Public example_client)"
  have t: "example_now < example_now + DefaultInviteTTL" "writable (example_now + redeem_lifetime invite example_now (eh_leaseTTL ?h))"
    using example_lifetime [OF s(1)] example_times(2) by (simp_all add: DefaultInviteTTL_def minute_def second_def)
  have h: "eh_pipeID ?h = ei_AudiencePipeID invite" "length ''/ip4/10.0.0.1'' \<le> 4096" "length example_nonce = 24"
    using s(4) by (simp_all add: newExactHandler_def example_nonce_def)
  have "Provision example_crypto (Inr recipient_seed) (Inr []) (connectKeyPath (uc_Secrets (recipient_uc example_now)) (ei_AudiencePipeID invite))
      (w_fs recipient_world) = (Inr example_client, recipient_fs)"
    using recipient_disk s(4) by (simp add: recipient_uc_def recipient_world_def)
  note pr = this and sd = recipient_wired [of example_now]
  have ld: "Load example_crypto recipient_fs (connectKeyPath (uc_Secrets (recipient_uc example_now)) (ei_AudiencePipeID invite)) = Inr example_client"
    unfolding s(4) recipient_uc_def UseCases.simps example_paths(1) recipient_paths(1)
    by (rule Load_complete [where n = "key_file example_client"])
      (simp_all add: recipient_paths validateFinalPath_def secureDir_def lstat_def checkDir_def unsafeMode_def readable_def
        recipient_fs_def private_dir_def example_key_nodes)
  have red: "redeemable (w_net recipient_world) invite ?pub" "db_fault (w_db recipient_world) = None"
    using s(5) by (simp_all add: redeemable_def Let_def recipient_world_def owner_store_fresh empty_store_def)
  obtain l lenc w' where g:
    "AcceptExactInvite example_crypto example_now (Inr recipient_seed) (Inr []) example_now example_now (recipient_uc example_now)
       (sx_Invite sx) recipient_world =
       (Inr \<lparr>ax_RemotePipeID = ei_AudiencePipeID invite, ax_RecipientPublic = ?pub, ax_LeaseExpiresAt = instant (al_ExpiresAt l)\<rparr>, w')"
    "w_db w' = accepted_db example_now (accepted_binding invite ''/ip4/10.0.0.1'' ?pub example_now) lenc l (w_db recipient_world)"
    "NewAccessLease example_crypto (Inr example_rnd) k ?pub (ei_AudiencePipeID invite) example_now
       (redeem_lifetime invite example_now (eh_leaseTTL ?h)) (ei_AccessEpoch invite) = Inr l"
    "lease_Encode l = Inr lenc" "lease_Decode lenc = Inr l" "lenc \<noteq> []"
    by (rule accept_complete [OF s(1-3) example_window(4) t(1) example_times(1) t(2) h(1) s(6) h(2) sd pr ld example_keys(3) red
          h(3) example_lengths(3)])
  have k: "keypair example_crypto k" using s(1) by (simp add: shared_def)
  have l: "lease_Verify example_crypto example_now (Public k) ?pub (ei_AudiencePipeID invite) example_now l = None"
    "instant (al_ExpiresAt l) = example_now + minute"
    using NewAccessLease_verifies [OF g(3) k _ example_window(3,3,4)] example_lengths(3) example_lifetime [OF s(1)] g(3)
    by (auto elim!: NewAccessLease_Inr simp: UTC_def minute_def second_def)
  have pid: "\<not> blank (ei_AudiencePipeID invite)" "ei_AudiencePipeID invite \<noteq> []"
    unfolding s(4) example_paths(1) by (rule graphic_not_blank; simp add: graphic_def byte_def) simp
  have "AcquireAcceptedPipeAccess example_crypto example_now example_now example_now (recipient_uc example_now) (ei_AudiencePipeID invite) w' =
      (Inr \<lparr>ap_RemotePipeID = ei_AudiencePipeID invite, ap_Locator = ''/ip4/10.0.0.1'', ap_AuthorityPublic = ei_Issuer invite, ap_AccessLease = l\<rparr>, w')"
    by (rule acquire_cached [OF g(2) red(2) accepted_binding_valid [OF s(1,6) h(2) example_keys(3)] _ g(5,6) _ l(1)])
      (use shared_fields(2) [OF s(1)] keypair_facts(1) [OF k] example_times l(2) pid in
        \<open>simp_all add: on_store_def recipient_uc_def minute_def second_def\<close>)
  then show thesis using that g(1) unfolding s(4) by blast
qed

lemma shared_decodes:
  assumes sh: "shared C fs home owner k b invite t0 lifetime" and enc: "EncodeInvite invite = Inr enc"
    and t: "now \<noteq> zero_time" "t0 \<le> now + MaxClockSkew" "now < t0 + lifetime"
  shows "decode_verified C clock now enc = Inr invite"
proof -
  have k: "keypair C k" and z: "t0 \<noteq> zero_time" using sh by (auto simp: shared_def writable_def)
  obtain v1 ep' where i: "NewExactInvite C (Inr v1) k b (ei_AudiencePipeID invite) t0 lifetime ep' = Inr invite" "length v1 = 16"
    using sh shared_fields(1) [OF sh] by (auto simp: shared_def)
  have "invite_Verify C clock now (ei_AudiencePipeID invite) invite = None"
    using NewExactInvite_verifies [OF i(1) k _ _ z t] i(2) sh by (simp add: shared_def)
  moreover have "DecodeInvite enc = Inr invite" using DecodeInvite_Encode enc sh by (simp add: shared_def)
  ultimately show ?thesis by (simp add: decode_verified_def)
qed

lemma accepted_store_bound:
  assumes "AcceptExactInvite C clock seed suffix now1 now2 u encoded w = (Inr a, w')" "on_store clock u"
  obtains issuer binding locator where
    "store_bound (w_db w') (ax_RemotePipeID a) = Some (issuer, binding, locator, ax_RecipientPublic a)"
proof -
  obtain invite acc where i: "acceptExactInvite C clock seed suffix now2 u invite w = (Inr acc, w')"
    "ax_RecipientPublic a = ar_recipientPublic acc" "ax_RemotePipeID a = rpb_RemotePipeID (ar_binding acc)"
    using assms(1) by (auto simp: AcceptExactInvite_def act_bind_Inr act_lift_eq require_eq split: if_splits)
  show thesis
    by (rule store_bindings.accept_binds [where clock = clock, OF i(1)])
      (use assms(2) i that store_accepting.cache_keeps [of clock] in \<open>auto simp: on_store_def accepted_binding_def\<close>)
qed

section \<open>Properties\<close>

text \<open>C1. Journey A works end to end: an owner's share succeeded, and a recipient whose process reaches the owner's
  machine accepts the encoded invite within its lifetime. Then the accept succeeds, its result names
  the shared Pipe, and until the lease expires the recipient acquires the access from the local store alone, and the owner's
  open authorizer lets them in with that lease and a proof over any challenge.\<close>

theorem share_accept_open:
  assumes share: "ShareExact C seed suffix (Inr v) t0 uo ref wo = (Inr sx, wo')"
    and uo: "uc_Secrets uo = SecretPath home []" "uc_ExactEpoch uo = Some PipeAccessEpoch"
      "uc_OwnerLocator uo = Some (\<lambda>_ _ net. (Inr addr, net))" "plain_address addr" "unescaped (uc_RedemptionProtocol uo)"
    and C: "seed_keys C" "\<And>s. seed = Inr s \<Longrightarrow> length s = 32" "\<And>x. length (sha256 C x) = 32" "length v = 16"
    and ow: "\<And>p. epoch_of (w_db wo) (p, ''pipe-access'', p) < 2 ^ 63" "faults (w_fs wo) = (\<lambda>_. None)"
      "redeemed_by (w_db wo) (''jti_'' @ b32_encode v) (sx_PipeID sx) = None"
      "get (revocations (w_db wo)) (sx_PipeID sx, ''exact.invite'', ''jti_'' @ b32_encode v) = None"
      "get (revocations (w_db wo)) (sx_PipeID sx, ''access-lease'', ''jti_'' @ b32_encode jv) = None"
    and t: "writable t0" "writable (t0 + DefaultInviteTTL)" "t0 \<le> now + MaxClockSkew" "now < t0 + DefaultInviteTTL" "writable now"
      "writable clock" "writable (now + min (eh_leaseTTL (newExactHandler (sx_PipeID sx) ttl)) (t0 + DefaultInviteTTL - now))"
    and u: "wired C clock now cv sv jv (w_fs wo') home (newExactHandler (sx_PipeID sx) ttl) rseed rsuffix u"
    and w: "w_net w = w_db wo" "db_fault (w_db w) = None" "faults (w_fs w) = (\<lambda>_. None)"
    and key: "Provision C rseed rsuffix (connectKeyPath (uc_Secrets u) (sx_PipeID sx)) (w_fs w) = (Inr ck, fs1)"
      "\<And>s. rseed = Inr s \<Longrightarrow> length s = 32"
    and v: "length cv = 24" "length jv = 16"
  shows "\<exists>a w' lease lenc. AcceptExactInvite C clock rseed rsuffix now now u (sx_Invite sx) w = (Inr a, w')
    \<and> ax_RemotePipeID a = sx_PipeID sx \<and> ax_LeaseExpiresAt a = instant (al_ExpiresAt lease) \<and> now < ax_LeaseExpiresAt a
    \<and> lease_Encode lease = Inr lenc
    \<and> (\<forall>at chal. \<forall>u2 :: (Store, Store, unit) UseCases. at \<noteq> zero_time \<and> now \<le> at + MaxClockSkew \<and> at < ax_LeaseExpiresAt a \<and> on_store at u2 \<longrightarrow>
         (\<exists>authority. AcquireAcceptedPipeAccess C at at at u2 (sx_PipeID sx) w'
            = (Inr \<lparr>ap_RemotePipeID = sx_PipeID sx, ap_Locator = addr, ap_AuthorityPublic = authority, ap_AccessLease = lease\<rparr>, w'))
         \<and> is_ok (fst (LazyAuthorizeOpen C at (w_fs wo') home (w_net w')
             \<lparr>or_PipeID = sx_PipeID sx, or_ClientPublic = PublicString (Public ck), or_Challenge = chal,
              or_ChallengeProof = SignProof C ck OpenProofPurpose [chal, sx_PipeID sx], or_AccessLease = lenc, or_Now = at\<rparr>
             \<lparr>lz_pipeID = sx_PipeID sx, lz_auth = None\<rparr>)))"
proof -
  let ?h = "newExactHandler (sx_PipeID sx) ttl" and ?p = "sx_PipeID sx" and ?pub = "PublicString (Public ck)"
  obtain owner k b invite where s: "shared C (w_fs wo') home owner k b invite t0 DefaultInviteTTL"
    "EncodeInvite invite = Inr (sx_Invite sx)" "length (sx_Invite sx) \<le> 8192" "?p = ei_AudiencePipeID invite"
    "ei_AccessEpoch invite = epoch_of (w_db wo) (ei_AudiencePipeID invite, ''pipe-access'', ei_AudiencePipeID invite)"
    "w_db wo' = w_db wo" "w_net wo' = w_net wo" "redemptionAddress invite = Inr addr" "db_fault (w_db wo) = None"
    "ei_JTI invite = ''jti_'' @ b32_encode v" "length addr \<le> 4096"
    by (rule share_shared [OF share uo C t(1,2) ow(1,2)])
  have pr: "\<exists>n. nodes fs1 (connectKeyPath (uc_Secrets u) ?p) = Some n \<and> key_node C ck n"
    "secureDir fs1 (Dir (connectKeyPath (uc_Secrets u) ?p)) = None" "faults fs1 = faults (w_fs w)"
    "validateFinalPath (connectKeyPath (uc_Secrets u) ?p) = None"
    by (rule Provision_Inr [OF key(1) C(1)], erule key(2))+
  then have ld: "Load C fs1 (connectKeyPath (uc_Secrets u) ?p) = Inr ck"
    using Load_complete [OF pr(4,2)] w(3) by (fastforce simp: readable_def)
  have ck: "keypair C ck" by (rule Load_keypair [OF ld C(1)])
  have red: "redeemable (w_net w) invite ?pub"
    using s(4,5,9,10) ow(1,3,4) w(1) by (simp add: redeemable_def Let_def)
  have h: "eh_pipeID ?h = ei_AudiencePipeID invite" using s(4) by (simp add: newExactHandler_def)
  have lt: "writable (now + redeem_lifetime invite now (eh_leaseTTL ?h))" 
    using t(4,7) shared_fields(4) [OF s(1)]
    by (auto simp: redeem_lifetime_def Let_def newExactHandler_def min_def bounds split: if_splits)
  obtain l lenc w' where g:
    "AcceptExactInvite C clock rseed rsuffix now now u (sx_Invite sx) w =
       (Inr \<lparr>ax_RemotePipeID = ?p, ax_RecipientPublic = ?pub, ax_LeaseExpiresAt = instant (al_ExpiresAt l)\<rparr>, w')"
    "w_db w' = accepted_db clock (accepted_binding invite addr ?pub now) lenc l (w_db w)"
    "redeemed_by (w_net w') (ei_JTI invite) ?p = Some ?pub"
    "revocations (w_net w') = revocations (w_net w)" "db_fault (w_net w') = None"
    "NewAccessLease C (Inr jv) k ?pub ?p now (redeem_lifetime invite now (eh_leaseTTL ?h)) (ei_AccessEpoch invite) = Inr l"
    "lease_Encode l = Inr lenc" "lease_Decode lenc = Inr l" "lenc \<noteq> []"
    by (rule accept_complete [OF s(1-3) t(3-5) lt h s(8,11) u key(1) [unfolded s(4)] ld [unfolded s(4)] ck red w(2) v, folded s(4)])
  have k: "keypair C k" "length (Public k) = PublicKeySize" using s(1) keypair_facts(1) by (auto simp: shared_def)
  obtain path where path: "KeyPath (SecretPath home []) ?p = Inr path" "Load C (w_fs wo') path = Inr k"
    using s(1,4) shared_fields(1) [OF s(1)] by (auto simp: shared_def)
  have lf: "al_JTI l = ''jti_'' @ b32_encode jv" "al_AccessEpoch l = ei_AccessEpoch invite"
    "instant (al_ExpiresAt l) = now + redeem_lifetime invite now (eh_leaseTTL ?h)"
    using g(6) by (auto elim!: NewAccessLease_Inr simp: UTC_def)
  have z: "now \<noteq> zero_time" using t(5) by (simp add: writable_def)
  have pid: "\<not> blank ?p" "?p \<noteq> []"
    using s(4) shared_fields(1) [OF s(1)] PipeID_graphic [of C "Public owner"] graphic_not_blank by (auto simp: PipeIDFromOwner_def)
  have ver: "lease_Verify C at (Public k) ?pub ?p at l = None"
    if "at \<noteq> zero_time" "now \<le> at + MaxClockSkew" "at < instant (al_ExpiresAt l)" for at
    using NewAccessLease_verifies [OF g(6) k(1) _ z that(1,2)] that(3) lf(3) v(2) by simp
  have acq: "AcquireAcceptedPipeAccess C at at at u2 ?p w'
      = (Inr \<lparr>ap_RemotePipeID = ?p, ap_Locator = addr, ap_AuthorityPublic = ei_Issuer invite, ap_AccessLease = l\<rparr>, w')"
    if "at \<noteq> zero_time" "now \<le> at + MaxClockSkew" "at < instant (al_ExpiresAt l)" "on_store at u2" for at and u2 :: "(Store, Store, unit) UseCases"
    unfolding s(4)
    by (rule acquire_cached [OF g(2) w(2) accepted_binding_valid [OF s(1,8,11) ck] that(4) g(8,9)])
      (use shared_fields(2) [OF s(1)] k(2) ver [OF that(1-3)] t(5,6) lt lf(3) pid that(3) s(4) in simp_all)
  have opn: "is_ok (fst (LazyAuthorizeOpen C at (w_fs wo') home (w_net w')
      \<lparr>or_PipeID = ?p, or_ClientPublic = ?pub, or_Challenge = chal, or_ChallengeProof = SignProof C ck OpenProofPurpose [chal, ?p],
       or_AccessLease = lenc, or_Now = at\<rparr> \<lparr>lz_pipeID = ?p, lz_auth = None\<rparr>))"
    if "at \<noteq> zero_time" "now \<le> at + MaxClockSkew" "at < instant (al_ExpiresAt l)" for at chal
    using ver [OF that] lf g(4,5) ow(5) s(4,5) w(1)
    by (intro LazyAuthorizeOpen_complete [OF path g(8) _ ck]) (simp_all add: epoch_of_def)
  have "now < instant (al_ExpiresAt l)" using lf(3) redeem_lifetime_bounds(1) [of invite now] by simp
  then show ?thesis
    using acq opn
    by (intro exI [of _ "\<lparr>ax_RemotePipeID = ?p, ax_RecipientPublic = ?pub, ax_LeaseExpiresAt = instant (al_ExpiresAt l)\<rparr>"]
        exI [of _ w'] exI [of _ l] exI [of _ lenc] conjI g(1,7)) auto
qed

theorem share_accept_open_witness:
  "\<exists>sx a w'. fst (ShareExact example_crypto (Inr recipient_seed) (Inr []) (Inr example_rnd) example_now owner_uc ''pipe/web'' owner_world)
      = Inr sx
    \<and> AcceptExactInvite example_crypto example_now (Inr recipient_seed) (Inr []) example_now example_now (recipient_uc example_now)
        (sx_Invite sx) recipient_world = (Inr a, w')
    \<and> ax_RemotePipeID a = example_pipe \<and> example_now < ax_LeaseExpiresAt a"
proof -
  obtain sx where s: "ShareExact example_crypto (Inr recipient_seed) (Inr []) (Inr example_rnd) example_now owner_uc ''pipe/web'' owner_world
      = (Inr sx, owner_world)" "sx_PipeID sx = example_pipe"
    by (rule example_share)
  have seed: "length t = 32" if "Inr recipient_seed = (Inr t :: string result)" for t using that by (auto simp: recipient_seed_def)
  have u: "uc_Secrets owner_uc = SecretPath ''h'' []" "uc_ExactEpoch owner_uc = Some PipeAccessEpoch"
    "uc_OwnerLocator owner_uc = Some (\<lambda>_ _ net. (Inr ''/ip4/10.0.0.1'', net))" "unescaped (uc_RedemptionProtocol owner_uc)"
    using example_address(2) by (simp_all add: owner_uc_def)
  have w: "epoch_of (w_db owner_world) (p, ''pipe-access'', p) < 2 ^ 63" "faults (w_fs owner_world) = (\<lambda>_. None)"
    "redeemed_by (w_db owner_world) j q = None" "get (revocations (w_db owner_world)) x = None" for p j q x
    by (simp_all add: owner_world_def owner_store_fresh owner_fs_def)
  have t: "example_now < example_now + DefaultInviteTTL"
    "writable (example_now + min (eh_leaseTTL (newExactHandler (sx_PipeID sx) minute)) (example_now + DefaultInviteTTL - example_now))"
    using example_times(2) by (simp_all add: newExactHandler_def bounds DefaultInviteTTL_def minute_def second_def)
  have r: "w_net recipient_world = w_db owner_world" "db_fault (w_db recipient_world) = None" "faults (w_fs recipient_world) = (\<lambda>_. None)"
    by (simp_all add: recipient_world_def owner_world_def empty_store_def recipient_fs_def)
  have wd: "wired example_crypto example_now example_now example_nonce example_rnd example_rnd (w_fs owner_world) ''h''
      (newExactHandler (sx_PipeID sx) minute) (Inr recipient_seed) (Inr []) (recipient_uc example_now)"
    using recipient_wired s(2) by (simp add: owner_world_def)
  have pr: "Provision example_crypto (Inr recipient_seed) (Inr []) (connectKeyPath (uc_Secrets (recipient_uc example_now)) (sx_PipeID sx))
      (w_fs recipient_world) = (Inr example_client, recipient_fs)"
    using recipient_disk s(2) by (simp add: recipient_uc_def recipient_world_def)
  have n: "length example_nonce = 24" by (simp add: example_nonce_def)
  show ?thesis
    using share_accept_open [OF s(1) u(1-3) example_address(1) u(4) example_seed_keys seed example_lengths(4,3) w(1-3) w(4) w(4)
        example_times(1) example_invite_times example_window(4) t(1) example_times(1,1) t(2) wd r pr seed n example_lengths(3)]
      s by auto
qed

text \<open>C17. A connect that fails on a local conflict consumes nothing: when \<^verbatim>\<open>ConnectExact\<close> touched the network or the
  store, then its input was well formed, and the local Pipe found under the requested reference or under the
  canonical identity, if any, was compatible with the request in target, identity, ingress and listener. So a
  conflicting connect never dials, never redeems the one-time invite and never writes.\<close>

theorem connect_conflict_consumes_nothing:
  assumes "ConnectExact C clock seed suffix now u i w = (r, w')" "w_net w' \<noteq> w_net w \<or> w_db w' \<noteq> w_db w"
  shows "connect_input u i = None \<and> (\<exists>target rcpt inv w1 ref spec noUpsert.
      connect_identity C clock seed suffix (now 0) u i w = (Inr (target, rcpt, inv), w1)
    \<and> recipientRefFor target (ci_Name i) = Inr ref
    \<and> connect_reuse u i (connect_spec C (now 1) ref rcpt target (ci_LocalListen i)) target (w_db w) = Inr (spec, noUpsert)
    \<and> (\<forall>ex k. pp_Get (uc_Pipes u) (w_db w) (Ref_String ref) = Inr (ex, k) \<longrightarrow>
         exactConnectConflict ex (PipeIDFromOwner C (recipientPublicBytes rcpt)) target (ci_LocalListen i) = None)
    \<and> (noUpsert \<longrightarrow> exactConnectConflict spec (PipeIDFromOwner C (recipientPublicBytes rcpt)) target (ci_LocalListen i) = None))"
proof -
  obtain q w1 where q: "connect_identity C clock seed suffix (now 0) u i w = (q, w1)" by fastforce
  note frame = connect_identity_frame [OF q]
  have input: "connect_input u i = None"
    using assms by (cases "connect_input u i") (auto simp: ConnectExact_def act_bind_def act_lift_def)
  obtain target rcpt inv where ok: "q = Inr (target, rcpt, inv)"
    using assms frame input q
    by (cases q) (auto simp: ConnectExact_def act_bind_def act_lift_def)
  obtain ref where ref: "recipientRefFor target (ci_Name i) = Inr ref"
    using assms frame input q ok
    by (cases "recipientRefFor target (ci_Name i)") (auto simp: ConnectExact_def act_bind_def act_lift_def)
  let ?spec = "connect_spec C (now 1) ref rcpt target (ci_LocalListen i)"
  obtain spec noUpsert where reuse: "connect_reuse u i ?spec target (w_db w) = Inr (spec, noUpsert)"
    using assms frame input q ok ref
    by (cases "connect_reuse u i ?spec target (w_db w)") (auto simp: ConnectExact_def act_bind_def act_lift_def ask_def)
  have fields: "pip_Ref ?spec = ref" "pip_PipeID ?spec = PipeIDFromOwner C (recipientPublicBytes rcpt)"
    by (simp_all add: connect_spec_def)
  have c1: "\<forall>ex k. pp_Get (uc_Pipes u) (w_db w) (Ref_String ref) = Inr (ex, k) \<longrightarrow>
      exactConnectConflict ex (PipeIDFromOwner C (recipientPublicBytes rcpt)) target (ci_LocalListen i) = None"
    using connect_reuse_compatible(1) [OF reuse] unfolding fields by blast
  have c2: "noUpsert \<longrightarrow> exactConnectConflict spec (PipeIDFromOwner C (recipientPublicBytes rcpt)) target (ci_LocalListen i) = None"
    using connect_reuse_compatible(2) [OF reuse] unfolding fields by blast
  show ?thesis using input q ok ref reuse c1 c2 by blast
qed

text \<open>A recipient whose network counts the dials and reaches nobody.\<close>

definition dialing_uc :: "(Store, nat, unit) UseCases" where
  "dialing_uc = \<lparr>uc_ServiceUpsert = PutService, uc_Pipes = PipeRepoAdapter, uc_Secrets = ''s'', uc_OwnerLocator = None,
     uc_ExactEpoch = None, uc_RedemptionProtocol = [], uc_Redemption = None, uc_Renewal = None,
     uc_Reach = Some (\<lambda>_ n. (Inl (Error ''unreachable'' []), Suc n)), uc_Bindings = Some (RemotePipeBindingAdapter example_now),
     uc_LeaseCache = None\<rparr>"

theorem connect_conflict_consumes_nothing_witness:
  "\<exists>encoded. w_net (snd (ConnectExact example_crypto example_now (Inr recipient_seed) (Inr []) (\<lambda>_. example_now) dialing_uc
      \<lparr>ci_Invite = encoded, ci_RemotePipeID = [], ci_LocalListen = ''l'', ci_Name = ''web''\<rparr>
      \<lparr>w_fs = recipient_fs, w_db = empty_store, w_net = 0\<rparr>)) = 1
    \<and> connect_input dialing_uc \<lparr>ci_Invite = encoded, ci_RemotePipeID = [], ci_LocalListen = ''l'', ci_Name = ''web''\<rparr> = None"
proof -
  obtain sx :: ShareExactResult and b k o' invite where s: "shared example_crypto owner_fs ''h'' o' k b invite example_now DefaultInviteTTL"
    "EncodeInvite invite = Inr (sx_Invite sx)" "ei_AudiencePipeID invite = example_pipe" "redemptionAddress invite = Inr ''/ip4/10.0.0.1''"
    by (rule example_shared_invite) blast
  let ?i = "\<lparr>ci_Invite = sx_Invite sx, ci_RemotePipeID = [], ci_LocalListen = ''l'', ci_Name = ''web''\<rparr>"
  let ?w = "\<lparr>w_fs = recipient_fs, w_db = empty_store, w_net = 0\<rparr> :: (Store, nat) World"
  let ?pub = "PublicString (Public example_client)"
  have nb: "\<not> blank ''l''" "\<not> blank ''s''" by (rule graphic_not_blank; simp add: graphic_def byte_def)+
  have dv: "decode_verified example_crypto example_now example_now (sx_Invite sx) = Inr invite"
    by (rule shared_decodes [OF s(1,2) example_window(3,4)]) (simp add: DefaultInviteTTL_def minute_def second_def)
  have "sx_Invite sx \<noteq> []" using dv DecodeInvite_Nil by (auto simp: decode_verified_def result_simps)
  then have inp: "connect_input dialing_uc ?i = None" using nb by (simp add: connect_input_def dialing_uc_def)
  have idn: "connect_identity example_crypto example_now (Inr recipient_seed) (Inr []) example_now dialing_uc ?i ?w
      = (Inr (example_pipe, ?pub, Some invite), ?w)"
    using dv recipient_disk s(3) \<open>sx_Invite sx \<noteq> []\<close> by (simp add: connect_identity_def act_simps dialing_uc_def)
  have ref: "recipientRefFor example_pipe ''web'' = Inr \<lparr>Kind = KindPipe, Name = ''web''\<rparr>"
    using TrimSpace_graphic [of "''web''"]
    by (simp add: graphic_def recipientRefFor_def NewRef_def Let_def Ref_Validate_def resource_kinds_def KindService_def KindPipe_def resourceNamePattern_def
        name_start_def name_byte_def is_lower_def byte_def)
  let ?spec = "connect_spec example_crypto example_now \<lparr>Kind = KindPipe, Name = ''web''\<rparr> ?pub example_pipe ''l''"
  have reuse: "connect_reuse dialing_uc ?i ?spec example_pipe empty_store = Inr (?spec, False)"
    by (simp add: connect_reuse_def dialing_uc_def PipeRepoAdapter_def Pipe_get_def query_def empty_store_def ErrNotFound_def)
  have acc: "acceptExactInvite example_crypto example_now (Inr recipient_seed) (Inr []) example_now dialing_uc invite ?w
      = (Inl (Wrap ''pipe_unreachable: %w'' [] (Error ''unreachable'' [])), ?w\<lparr>w_net := 1\<rparr>)"
    using recipient_disk s(3,4) nb(2) by (simp add: acceptExactInvite_def redeem_remote_def act_simps dialing_uc_def Let_def)
  have run: "ConnectExact example_crypto example_now (Inr recipient_seed) (Inr []) (\<lambda>_. example_now) dialing_uc ?i ?w
      = (Inl (Wrap ''pipe_unreachable: %w'' [] (Error ''unreachable'' [])), ?w\<lparr>w_net := 1\<rparr>)"
    using inp idn ref reuse acc by (simp add: ConnectExact_def act_bind_def act_lift_def ask_def connect_access_def)
  have "connect_input dialing_uc ?i = None" using connect_conflict_consumes_nothing [OF run] by simp
  with run show ?thesis by (intro exI [of _ "sx_Invite sx"]) simp
qed

text \<open>C7. Accepting an invite is all or nothing on the durable relationship: a failed accept leaves the recipient's store as
  it was; a successful one had an invite that verified, a lease that verifies under the invite's issuer for this recipient
  and Pipe, and leaves the durable relationship to exactly that authority, owner binding, locator and recipient. The lease
  cache is best effort: whatever cache is wired, and whether or not its write fails, the answer is the same.\<close>

theorem accept_all_or_nothing:
  assumes "AcceptExactInvite C clock seed suffix now1 now2 u encoded w = (r, w')"
    "uc_Bindings u = Some (RemotePipeBindingAdapter clock)" "uc_LeaseCache u = Some cache"
    "\<And>entry db. store_bound (snd (cr_Put cache entry db)) = store_bound db"
  shows "(case r of
      Inl e \<Rightarrow> w_db w' = w_db w
    | Inr a \<Rightarrow> \<exists>invite issuer address lease. DecodeInvite encoded = Inr invite
        \<and> invite_Verify C clock now1 (ei_AudiencePipeID invite) invite = None
        \<and> PublicFromString (ei_Issuer invite) = Inr issuer \<and> redemptionAddress invite = Inr address
        \<and> lease_Verify C clock issuer (ax_RecipientPublic a) (ei_AudiencePipeID invite) now2 lease = None
        \<and> ax_LeaseExpiresAt a = instant (al_ExpiresAt lease) \<and> ax_RemotePipeID a = ei_AudiencePipeID invite
        \<and> store_bound (w_db w') (ei_AudiencePipeID invite)
            = Some (ei_Issuer invite, ei_Binding invite, address, ax_RecipientPublic a))
    \<and> fst (AcceptExactInvite C clock seed suffix now1 now2 (u\<lparr>uc_LeaseCache := other\<rparr>) encoded w) = r"
proof (rule conjI)
  show "fst (AcceptExactInvite C clock seed suffix now1 now2 (u\<lparr>uc_LeaseCache := other\<rparr>) encoded w) = r"
    using accept_cache_irrelevant [of C clock seed suffix now1 now2 other u encoded w] assms(1) by simp
next
  show "case r of
      Inl e \<Rightarrow> w_db w' = w_db w
    | Inr a \<Rightarrow> \<exists>invite issuer address lease. DecodeInvite encoded = Inr invite
        \<and> invite_Verify C clock now1 (ei_AudiencePipeID invite) invite = None
        \<and> PublicFromString (ei_Issuer invite) = Inr issuer \<and> redemptionAddress invite = Inr address
        \<and> lease_Verify C clock issuer (ax_RecipientPublic a) (ei_AudiencePipeID invite) now2 lease = None
        \<and> ax_LeaseExpiresAt a = instant (al_ExpiresAt lease) \<and> ax_RemotePipeID a = ei_AudiencePipeID invite
        \<and> store_bound (w_db w') (ei_AudiencePipeID invite)
            = Some (ei_Issuer invite, ei_Binding invite, address, ax_RecipientPublic a)"
  proof (cases r)
    case (Inl e)
    then show ?thesis
      using assms(1) store_bindings.accept_refuses [OF _ assms(2), of C clock seed suffix now2]
      by (auto simp: AcceptExactInvite_def act_bind_Inl act_lift_eq require_eq split: if_splits)
  next
    case (Inr a)
    then obtain invite acc where i: "decode_verified C clock now1 encoded = Inr invite"
      "acceptExactInvite C clock seed suffix now2 u invite w = (Inr acc, w')"
      and a: "a = \<lparr>ax_RemotePipeID = rpb_RemotePipeID (ar_binding acc), ax_RecipientPublic = ar_recipientPublic acc,
          ax_LeaseExpiresAt = instant (al_ExpiresAt (ar_lease acc))\<rparr>"
      using assms(1) by (auto simp: AcceptExactInvite_def act_bind_Inr act_lift_eq require_eq split: if_splits)
    have v: "DecodeInvite encoded = Inr invite" "invite_Verify C clock now1 (ei_AudiencePipeID invite) invite = None"
      using i(1) by (auto simp: decode_verified_def result_simps)
    obtain issuer address where x: "PublicFromString (ei_Issuer invite) = Inr issuer"
      "lease_Verify C clock issuer (ar_recipientPublic acc) (ei_AudiencePipeID invite) now2 (ar_lease acc) = None"
      "redemptionAddress invite = Inr address" "ar_binding acc = accepted_binding invite address (ar_recipientPublic acc) now2"
      "store_bound (w_db w') (ei_AudiencePipeID invite) = Some (ei_Issuer invite, ei_Binding invite, address, ar_recipientPublic acc)"
      by (rule store_bindings.accept_binds [OF i(2) assms(2)]) (use assms(3,4) in auto)
    then show ?thesis using Inr a v by (auto simp: accepted_binding_def)
  qed
qed

text \<open>A cache whose disk fails.\<close>

definition failing_cache :: "Store AccessLeaseCacheRepo" where
  "failing_cache = \<lparr>cr_Get = (\<lambda>p db. (Inl (Error ''disk I/O error'' []), db)), cr_Put = (\<lambda>entry db. (Inl (Error ''disk I/O error'' []), db))\<rparr>"

theorem accept_all_or_nothing_witness:
  "\<exists>encoded a w'. AcceptExactInvite example_crypto example_now (Inr recipient_seed) (Inr []) example_now example_now
      ((recipient_uc example_now)\<lparr>uc_LeaseCache := Some failing_cache\<rparr>) encoded recipient_world = (Inr a, w')
    \<and> (\<exists>issuer binding locator. store_bound (w_db w') example_pipe = Some (issuer, binding, locator, PublicString (Public example_client)))"
proof -
  let ?u = "recipient_uc example_now" and ?f = "(recipient_uc example_now)\<lparr>uc_LeaseCache := Some failing_cache\<rparr>"
  let ?accept = "\<lambda>u encoded. AcceptExactInvite example_crypto example_now (Inr recipient_seed) (Inr []) example_now example_now u encoded recipient_world"
  obtain sx :: ShareExactResult and w' and l :: AccessLease where a:
    "?accept ?u (sx_Invite sx) =
       (Inr \<lparr>ax_RemotePipeID = example_pipe, ax_RecipientPublic = PublicString (Public example_client),
             ax_LeaseExpiresAt = instant (al_ExpiresAt l)\<rparr>, w')"
    by (rule example_accept) blast
  obtain r w2 where f: "?accept ?f (sx_Invite sx) = (r, w2)" by fastforce
  have u: "uc_Bindings ?f = Some (RemotePipeBindingAdapter example_now)" "uc_LeaseCache ?f = Some failing_cache"
    by (simp_all add: recipient_uc_def)
  have c: "store_bound (snd (cr_Put failing_cache entry db)) = store_bound db" for entry db by (simp add: failing_cache_def)
  note t = accept_all_or_nothing [OF f u c, of "uc_LeaseCache ?u"]
  have "?f\<lparr>uc_LeaseCache := uc_LeaseCache ?u\<rparr> = ?u" by (simp add: recipient_uc_def)
  then have r: "r = Inr \<lparr>ax_RemotePipeID = example_pipe, ax_RecipientPublic = PublicString (Public example_client),
             ax_LeaseExpiresAt = instant (al_ExpiresAt l)\<rparr>" using t a by simp
  have "\<exists>issuer binding locator. store_bound (w_db w2) example_pipe = Some (issuer, binding, locator, PublicString (Public example_client))"
    using t unfolding r by auto
  with f show ?thesis unfolding r by blast
qed

text \<open>C16. Access acquired for an accepted remote Pipe is always verified: it comes with the accepted relationship's
  locator and authority, its lease verifies under that authority for the accepted recipient and this Pipe at the time
  of the call, whether it was cached or renewed, and the relationships in the store stay as they are.\<close>

theorem acquire_returns_verified:
  assumes "AcquireAcceptedPipeAccess C clock now1 now2 u p w = (Inr a, w')" "on_store clock u"
  shows "\<exists>authority ownerBinding locator recipient pub now.
      store_bound (w_db w) p = Some (authority, ownerBinding, locator, recipient) \<and> PublicFromString authority = Inr pub
    \<and> now \<in> {now1, now2} \<and> lease_Verify C clock pub recipient p now (ap_AccessLease a) = None
    \<and> a = \<lparr>ap_RemotePipeID = p, ap_Locator = locator, ap_AuthorityPublic = authority, ap_AccessLease = ap_AccessLease a\<rparr>
    \<and> store_bound (w_db w') = store_bound (w_db w)"
proof -
  note s = assms(2) [unfolded on_store_def]
  obtain b pub now where x: "store_bound (w_db w) p = Some (rel_of b)" "PublicFromString (rpb_AuthorityPublic b) = Inr pub"
    "now \<in> {now1, now2}" "lease_Verify C clock pub (rpb_RecipientPublic b) p now (ap_AccessLease a) = None"
    "ap_RemotePipeID a = p" "ap_Locator a = rpb_Locator b" "ap_AuthorityPublic a = rpb_AuthorityPublic b"
    "store_bound (w_db w') = store_bound (w_db w)"
    by (rule store_accepting.acquire_success [where clock = clock, OF assms(1) conjunct1 [OF s] conjunct2 [OF s]])
  then show ?thesis
    by (intro exI [of _ "rpb_AuthorityPublic b"] exI [of _ "rpb_OwnerBinding b"] exI [of _ "rpb_Locator b"]
        exI [of _ "rpb_RecipientPublic b"] exI [of _ pub] exI [of _ now]) (simp add: rel_of_def)
qed

theorem acquire_returns_verified_witness:
  "\<exists>w a pub. AcquireAcceptedPipeAccess example_crypto example_now example_now example_now (recipient_uc example_now) example_pipe w = (Inr a, w)
    \<and> lease_Verify example_crypto example_now pub (PublicString (Public example_client)) example_pipe example_now (ap_AccessLease a) = None"
proof -
  have u: "on_store example_now (recipient_uc example_now)" by (simp add: on_store_def recipient_uc_def)
  obtain sx :: ShareExactResult and w' l authority where a:
    "AcceptExactInvite example_crypto example_now (Inr recipient_seed) (Inr []) example_now example_now (recipient_uc example_now)
       (sx_Invite sx) recipient_world =
       (Inr \<lparr>ax_RemotePipeID = example_pipe, ax_RecipientPublic = PublicString (Public example_client),
             ax_LeaseExpiresAt = instant (al_ExpiresAt l)\<rparr>, w')"
    "AcquireAcceptedPipeAccess example_crypto example_now example_now example_now (recipient_uc example_now) example_pipe w' =
      (Inr \<lparr>ap_RemotePipeID = example_pipe, ap_Locator = ''/ip4/10.0.0.1'', ap_AuthorityPublic = authority, ap_AccessLease = l\<rparr>, w')"
    by (rule example_accept)
  obtain issuer binding locator where b: "store_bound (w_db w') example_pipe = Some (issuer, binding, locator, PublicString (Public example_client))"
    by (rule accepted_store_bound [OF a(1) u]) auto
  show ?thesis using acquire_returns_verified [OF a(2) u] a(2) b by fastforce
qed

end
