(* ===== verification/StoreSync.thy ===== *)
theory StoreSync
  imports StoreExact Base64
begin

text \<open>
  Ownership of the periodic discovery sync of a scope (src/internal/store/store.go): an expiring lease with a fencing
  token, taken, renewed and released by single SQL statements that compare instants as texts.
\<close>

section \<open>Operations\<close>

record ScopeSyncLease =
  ssl_Scope :: string
  ssl_HolderRef :: string
  ssl_ProcessIdentity :: string
  ssl_Token :: string
  ssl_AcquiredAt :: gotime
  ssl_RenewedAt :: gotime
  ssl_ExpiresAt :: gotime
  ssl_Active :: bool

definition zero_lease :: ScopeSyncLease where
  "zero_lease = \<lparr>ssl_Scope = [], ssl_HolderRef = [], ssl_ProcessIdentity = [], ssl_Token = [], ssl_AcquiredAt = zero_time,
     ssl_RenewedAt = zero_time, ssl_ExpiresAt = zero_time, ssl_Active = False\<rparr>"

definition maxScopeSyncLeaseTTL :: int where "maxScopeSyncLeaseTTL = 5 * minute"

definition ErrScopeSyncLeaseLost :: goerror where "ErrScopeSyncLeaseLost = Error ''scope sync lease lost'' []"

definition validScopeSyncLeaseInput :: "string \<Rightarrow> string \<Rightarrow> string \<Rightarrow> int \<Rightarrow> goerror option" where
  "validScopeSyncLeaseInput scope holderRef processIdentity ttl =
     (if blank scope \<or> length scope > 255 \<or> blank holderRef \<or> length holderRef > 255
         \<or> blank processIdentity \<or> length processIdentity > 4096
      then Some (Error ''invalid scope sync lease identity'' [])
      else if ttl \<le> 0 \<or> ttl > maxScopeSyncLeaseTTL then Some (Error ''invalid scope sync lease ttl'' [])
      else None)"

definition newScopeSyncLeaseToken :: "string result \<Rightarrow> string result" where
  "newScopeSyncLeaseToken rnd = res_bind rnd (\<lambda>value. Inr (b64_encode value))"

definition new_lease :: "string \<Rightarrow> string \<Rightarrow> string \<Rightarrow> string \<Rightarrow> gotime \<Rightarrow> int \<Rightarrow> ScopeSyncLease" where
  "new_lease scope holderRef processIdentity token now ttl =
     \<lparr>ssl_Scope = scope, ssl_HolderRef = holderRef, ssl_ProcessIdentity = processIdentity, ssl_Token = token,
      ssl_AcquiredAt = now, ssl_RenewedAt = now, ssl_ExpiresAt = now + ttl, ssl_Active = True\<rparr>"

definition lease_row :: "ScopeSyncLease \<Rightarrow> SyncLeaseRow" where
  "lease_row l =
     \<lparr>sl_holder_ref = ssl_HolderRef l, sl_holder_process_identity = ssl_ProcessIdentity l, sl_lease_token = ssl_Token l,
      sl_acquired_at = FormatUTC (ssl_AcquiredAt l), sl_renewed_at = FormatUTC (ssl_RenewedAt l),
      sl_expires_at = FormatUTC (ssl_ExpiresAt l)\<rparr>"

text \<open>The upsert: a row of the scope is replaced only \<^verbatim>\<open>WHERE expires_at<=excluded.acquired_at\<close>; the token column is unique.\<close>

definition AcquireScopeSyncLease ::
  "string result \<Rightarrow> string \<Rightarrow> string \<Rightarrow> string \<Rightarrow> gotime \<Rightarrow> int \<Rightarrow> Store \<Rightarrow> (ScopeSyncLease \<times> bool) result \<times> Store" where
  "AcquireScopeSyncLease rnd scope holderRef processIdentity now ttl db =
     (case validScopeSyncLeaseInput scope holderRef processIdentity ttl of
        Some e \<Rightarrow> (Inl e, db)
      | None \<Rightarrow>
          (case newScopeSyncLeaseToken rnd of
             Inl e \<Rightarrow> (Inl e, db)
           | Inr token \<Rightarrow>
               (let lease = new_lease scope holderRef processIdentity token now ttl in
                case db_fault db of
                  Some e \<Rightarrow> (Inl e, db)
                | None \<Rightarrow>
                    if token \<in> sl_lease_token ` snd ` set (scope_sync_leases db)
                    then (Inl (Error ''constraint failed: UNIQUE constraint failed: scope_sync_leases.lease_token'' []), db)
                    else if case get (scope_sync_leases db) scope of
                              None \<Rightarrow> True | Some row \<Rightarrow> sl_expires_at row \<le> FormatUTC now
                    then (Inr (lease, True), db\<lparr>scope_sync_leases := put scope (lease_row lease) (scope_sync_leases db)\<rparr>)
                    else (Inr (zero_lease, False), db))))"

definition validLeaseFence :: "ScopeSyncLease \<Rightarrow> bool" where
  "validLeaseFence l \<longleftrightarrow> ssl_Scope l \<noteq> [] \<and> ssl_HolderRef l \<noteq> [] \<and> ssl_ProcessIdentity l \<noteq> [] \<and> ssl_Token l \<noteq> []"

text \<open>The row the fencing columns of a lease select.\<close>

definition fenced :: "ScopeSyncLease \<Rightarrow> Store \<Rightarrow> SyncLeaseRow option" where
  "fenced l db =
     (case get (scope_sync_leases db) (ssl_Scope l) of
        None \<Rightarrow> None
      | Some row \<Rightarrow>
          if sl_holder_ref row = ssl_HolderRef l \<and> sl_holder_process_identity row = ssl_ProcessIdentity l
             \<and> sl_lease_token row = ssl_Token l
          then Some row else None)"

definition RenewScopeSyncLease :: "ScopeSyncLease \<Rightarrow> gotime \<Rightarrow> int \<Rightarrow> Store \<Rightarrow> bool result \<times> Store" where
  "RenewScopeSyncLease lease now ttl db =
     (if \<not> validLeaseFence lease
         \<or> validScopeSyncLeaseInput (ssl_Scope lease) (ssl_HolderRef lease) (ssl_ProcessIdentity lease) ttl \<noteq> None
      then (Inl (Error ''invalid scope sync lease'' []), db)
      else
        (case db_fault db of
           Some e \<Rightarrow> (Inl e, db)
         | None \<Rightarrow>
             (case fenced lease db of
                None \<Rightarrow> (Inr False, db)
              | Some row \<Rightarrow>
                  if sl_expires_at row > FormatUTC now
                  then (Inr True, db\<lparr>scope_sync_leases := put (ssl_Scope lease)
                      (row\<lparr>sl_renewed_at := FormatUTC now, sl_expires_at := FormatUTC (now + ttl)\<rparr>) (scope_sync_leases db)\<rparr>)
                  else (Inr False, db))))"

definition ReleaseScopeSyncLease :: "ScopeSyncLease \<Rightarrow> Store \<Rightarrow> bool result \<times> Store" where
  "ReleaseScopeSyncLease lease db =
     (if \<not> validLeaseFence lease then (Inl (Error ''invalid scope sync lease'' []), db)
      else
        (case db_fault db of
           Some e \<Rightarrow> (Inl e, db)
         | None \<Rightarrow>
             (case fenced lease db of
                None \<Rightarrow> (Inr False, db)
              | Some _ \<Rightarrow> (Inr True, db\<lparr>scope_sync_leases :=
                  del_where (\<lambda>k _. k = ssl_Scope lease) (scope_sync_leases db)\<rparr>))))"

text \<open>The status read: the fencing fields stay private, and a holder is named only while the lease is live.\<close>

definition ScopeSyncLease_get :: "gotime \<Rightarrow> Store \<Rightarrow> string \<Rightarrow> ScopeSyncLease result" where
  "ScopeSyncLease_get clock db scope =
     (if blank scope \<or> length scope > 255 then Inl (Error ''invalid scope sync lease scope'' [])
      else
        query db (case get (scope_sync_leases db) scope of
            None \<Rightarrow> Inr (zero_lease\<lparr>ssl_Scope := scope\<rparr>)
          | Some row \<Rightarrow>
              res_bind (parse_time (sl_acquired_at row)) (\<lambda>acquired.
              res_bind (parse_time (sl_renewed_at row)) (\<lambda>renewed.
              res_bind (parse_time (sl_expires_at row)) (\<lambda>expires.
              let active = expires > clock in
              Inr \<lparr>ssl_Scope = scope, ssl_HolderRef = (if active then sl_holder_ref row else []), ssl_ProcessIdentity = [],
                   ssl_Token = [], ssl_AcquiredAt = acquired, ssl_RenewedAt = renewed, ssl_ExpiresAt = expires,
                   ssl_Active = active\<rparr>)))))"

definition leaseCurrentTx :: "ScopeSyncLease \<Rightarrow> gotime \<Rightarrow> Store \<Rightarrow> goerror option" where
  "leaseCurrentTx lease now db =
     (if \<not> validLeaseFence lease then Some ErrScopeSyncLeaseLost
      else case fenced lease db of
        None \<Rightarrow> Some ErrScopeSyncLeaseLost
      | Some row \<Rightarrow>
          (case parse_time (sl_expires_at row) of
             Inl e \<Rightarrow> Some e
           | Inr expires \<Rightarrow> if expires > now then None else Some ErrScopeSyncLeaseLost))"

section \<open>Facts\<close>

definition in_years :: "gotime \<Rightarrow> bool" where
  "in_years t \<longleftrightarrow> 0 \<le> year (date_of t) \<and> year (date_of t) \<le> 9999"

lemma parse_time_FormatUTC: "in_years t \<Longrightarrow> parse_time (FormatUTC t) = Inr t"
  using ParseTime_FormatUTC [of t False] by (simp add: parse_time_def in_years_def UTC_def)

lemma FormatUTC_later: "t div second < u div second \<Longrightarrow> in_years t \<Longrightarrow> in_years u \<Longrightarrow> \<not> FormatUTC u \<le> FormatUTC t"
  using FormatUTC_less [of t u] by (simp add: in_years_def)

lemma Acquire_cases:
  assumes "AcquireScopeSyncLease rnd scope h p now ttl db = (r, db')"
  obtains (unchanged) "db' = db" "\<And>l. r \<noteq> Inr (l, True)"
  | (acquired) token l where "newScopeSyncLeaseToken rnd = Inr token" "l = new_lease scope h p token now ttl" "r = Inr (l, True)"
      "db' = db\<lparr>scope_sync_leases := put scope (lease_row l) (scope_sync_leases db)\<rparr>"
      "validScopeSyncLeaseInput scope h p ttl = None" "db_fault db = None"
      "\<And>row. get (scope_sync_leases db) scope = Some row \<Longrightarrow> sl_expires_at row \<le> FormatUTC now"
      "token \<notin> sl_lease_token ` snd ` set (scope_sync_leases db)"
  using assms by (auto simp: AcquireScopeSyncLease_def Let_def split: option.splits sum.splits if_splits)

lemma Renew_cases:
  assumes "RenewScopeSyncLease l now ttl db = (r, db')"
  obtains (unchanged) "db' = db" "r \<noteq> Inr True"
  | (renewed) row where "fenced l db = Some row" "sl_expires_at row > FormatUTC now" "r = Inr True"
      "db' = db\<lparr>scope_sync_leases := put (ssl_Scope l)
         (row\<lparr>sl_renewed_at := FormatUTC now, sl_expires_at := FormatUTC (now + ttl)\<rparr>) (scope_sync_leases db)\<rparr>"
proof (cases "fenced l db")
  case None
  then show thesis using assms unchanged by (auto simp: RenewScopeSyncLease_def split: option.splits if_splits)
next
  case (Some row)
  show thesis
  proof (cases "is_ok r \<and> sl_expires_at row > FormatUTC now")
    case True
    then have "(r, db') = (Inr True, db\<lparr>scope_sync_leases := put (ssl_Scope l)
         (row\<lparr>sl_renewed_at := FormatUTC now, sl_expires_at := FormatUTC (now + ttl)\<rparr>) (scope_sync_leases db)\<rparr>)"
      using assms Some by (auto simp: RenewScopeSyncLease_def split: option.splits if_splits)
    then show thesis using renewed [OF Some] True by simp
  next
    case False
    then have "db' = db \<and> r \<noteq> Inr True"
      using assms Some by (auto simp: RenewScopeSyncLease_def split: option.splits if_splits)
    then show thesis using unchanged by simp
  qed
qed

lemma Release_cases:
  assumes "ReleaseScopeSyncLease l db = (r, db')"
  obtains (unchanged) "db' = db" "r \<noteq> Inr True"
  | (released) row where "fenced l db = Some row" "r = Inr True"
      "db' = db\<lparr>scope_sync_leases := del_where (\<lambda>k _. k = ssl_Scope l) (scope_sync_leases db)\<rparr>"
proof (cases "is_ok r \<and> fenced l db \<noteq> None")
  case True
  then obtain row where row: "fenced l db = Some row" by blast
  with True have "(r, db') = (Inr True, db\<lparr>scope_sync_leases := del_where (\<lambda>k _. k = ssl_Scope l) (scope_sync_leases db)\<rparr>)"
    using assms by (auto simp: ReleaseScopeSyncLease_def split: option.splits if_splits)
  then show thesis using released [OF row] by simp
next
  case False
  then have "db' = db \<and> r \<noteq> Inr True" using assms by (auto simp: ReleaseScopeSyncLease_def split: option.splits if_splits)
  then show thesis using unchanged by simp
qed

lemma fenced_Some:
  "fenced l db = Some row \<longleftrightarrow> get (scope_sync_leases db) (ssl_Scope l) = Some row \<and> sl_holder_ref row = ssl_HolderRef l
     \<and> sl_holder_process_identity row = ssl_ProcessIdentity l \<and> sl_lease_token row = ssl_Token l"
  by (auto simp: fenced_def split: option.splits)

lemma acquired_valid:
  assumes "validScopeSyncLeaseInput scope h p ttl = None" "newScopeSyncLeaseToken (Inr v) = Inr token" "v \<noteq> []"
  shows "validLeaseFence (new_lease scope h p token now ttl)"
proof -
  have "token = b64_encode v" using assms(2) by (simp add: newScopeSyncLeaseToken_def)
  moreover have "length (b64_encode v) \<noteq> 0" using assms(3) length_b64_encode [of v] by (cases v) auto
  moreover have "\<not> blank scope" "\<not> blank h" "\<not> blank p" using assms(1) by (auto simp: validScopeSyncLeaseInput_def split: if_splits)
  moreover have "blank []" by (simp add: blank_def TrimSpace_graphic)
  ultimately have "scope \<noteq> []" "h \<noteq> []" "p \<noteq> []" "token \<noteq> []" by (metis, metis, metis, metis list.size(3))
  then show ?thesis by (simp add: validLeaseFence_def new_lease_def)
qed

section \<open>What the other processes do\<close>

text \<open>A step of another process before the second in which the lease of \<open>l\<close> expires: it tries to acquire any scope, or renews or
  releases a lease with a token of its own.\<close>

inductive other_step :: "ScopeSyncLease \<Rightarrow> Store \<Rightarrow> Store \<Rightarrow> bool" for l where
  acquire: "AcquireScopeSyncLease rnd scope h p now ttl db = (r, db') \<Longrightarrow> in_years now \<Longrightarrow>
    now div second < ssl_ExpiresAt l div second \<Longrightarrow> other_step l db db'"
| renew: "RenewScopeSyncLease m now ttl db = (r, db') \<Longrightarrow> ssl_Token m \<noteq> ssl_Token l \<Longrightarrow> other_step l db db'"
| release: "ReleaseScopeSyncLease m db = (r, db') \<Longrightarrow> ssl_Token m \<noteq> ssl_Token l \<Longrightarrow> other_step l db db'"

lemma other_step_keeps:
  assumes "other_step l db db'" "keyed (scope_sync_leases db)" "get (scope_sync_leases db) (ssl_Scope l) = Some (lease_row l)"
    "in_years (ssl_ExpiresAt l)"
  shows "get (scope_sync_leases db') (ssl_Scope l) = Some (lease_row l) \<and> keyed (scope_sync_leases db')"
  using assms(1)
proof cases
  case (acquire rnd scope h p now ttl r)
  from acquire(1) show ?thesis
  proof (cases rule: Acquire_cases)
    case (acquired token m)
    have "scope \<noteq> ssl_Scope l"
      using acquired(7) [of "lease_row l"] assms(3,4) FormatUTC_later [OF acquire(3,2) assms(4)] by (auto simp: lease_row_def)
    then show ?thesis using acquired(4) assms(2,3) by simp
  qed (use assms in simp)
next
  case (renew m now ttl r)
  from renew(1) show ?thesis
    by (cases rule: Renew_cases) (use assms renew(2) in \<open>auto simp: fenced_Some lease_row_def\<close>)
next
  case (release m r)
  from release(1) show ?thesis
    by (cases rule: Release_cases) (use assms release(2) in \<open>auto simp: fenced_Some lease_row_def get_del_where\<close>)
qed

lemma other_run_keeps:
  assumes "(other_step l)\<^sup>*\<^sup>* db db'" "keyed (scope_sync_leases db)" "get (scope_sync_leases db) (ssl_Scope l) = Some (lease_row l)"
    "in_years (ssl_ExpiresAt l)"
  shows "get (scope_sync_leases db') (ssl_Scope l) = Some (lease_row l)"
proof -
  from assms(1) have "get (scope_sync_leases db') (ssl_Scope l) = Some (lease_row l) \<and> keyed (scope_sync_leases db')"
    by induction (use assms other_step_keeps in blast)+
  then show ?thesis ..
qed

section \<open>Properties\<close>

text \<open>C36. A live owner always wins, up to the second: after a process acquired the sync lease of a scope, whatever the other
  processes acquire, renew or release before the second of its expiry, the owner's fence stays current at every
  instant before the expiry.\<close>

theorem live_owner_wins:
  assumes "AcquireScopeSyncLease (Inr v) scope h p now ttl db0 = (Inr (l, True), db)" "keyed (scope_sync_leases db0)" "v \<noteq> []"
    "in_years (now + ttl)" "(other_step l)\<^sup>*\<^sup>* db db'" "at < now + ttl"
  shows "leaseCurrentTx l at db' = None"
  using assms(1)
proof (cases rule: Acquire_cases)
  case (acquired token m)
  then have l: "l = new_lease scope h p token now ttl" by simp
  have f: "ssl_Scope l = scope" "ssl_ExpiresAt l = now + ttl" by (simp_all add: l new_lease_def)
  have db: "db = db0\<lparr>scope_sync_leases := put scope (lease_row l) (scope_sync_leases db0)\<rparr>" using acquired(3,4) by simp
  have fence: "validLeaseFence l" using acquired_valid [OF acquired(5,1) assms(3)] l by simp
  have "get (scope_sync_leases db') (ssl_Scope l) = Some (lease_row l)"
    using db f assms(2,4) by (intro other_run_keeps [OF assms(5)]) simp_all
  then have "fenced l db' = Some (lease_row l)" by (simp add: fenced_Some lease_row_def)
  then show ?thesis
    using fence assms(4,6) f(2) by (simp add: leaseCurrentTx_def lease_row_def parse_time_FormatUTC)
qed blast

definition example_lease :: ScopeSyncLease where
  "example_lease = new_lease ''c/n'' ''run/a'' ''p1'' (b64_encode ''abc'') (second div 2) (30 * second)"

definition example_leases :: Store where
  "example_leases = empty_store\<lparr>scope_sync_leases := [(''c/n'', lease_row example_lease)]\<rparr>"

lemma example_acquire:
  "AcquireScopeSyncLease (Inr ''abc'') ''c/n'' ''run/a'' ''p1'' (second div 2) (30 * second) empty_store = (Inr (example_lease, True), example_leases)"
proof -
  have "\<not> blank ''c/n''" "\<not> blank ''run/a''" "\<not> blank ''p1''" by (rule graphic_not_blank; simp add: graphic_def byte_def)+
  then show ?thesis
    by (simp add: AcquireScopeSyncLease_def validScopeSyncLeaseInput_def newScopeSyncLeaseToken_def empty_store_def Let_def
        maxScopeSyncLeaseTTL_def example_lease_def example_leases_def minute_def second_def del: b64_encode.simps)
qed

theorem live_owner_wins_witness:
  "leaseCurrentTx example_lease (29 * second)
     (snd (AcquireScopeSyncLease (Inr ''xyz'') ''c/n'' ''run/b'' ''p2'' (29 * second) (30 * second) example_leases)) = None"
proof -
  have y: "in_years (second div 2 + 30 * second)" "in_years (29 * second)"
    by (simp_all add: in_years_def) code_simp+
  have "other_step example_lease example_leases
      (snd (AcquireScopeSyncLease (Inr ''xyz'') ''c/n'' ''run/b'' ''p2'' (29 * second) (30 * second) example_leases))"
    by (rule other_step.acquire [OF surjective_pairing y(2)]) (simp add: example_lease_def new_lease_def second_def)
  then show ?thesis
    by (intro live_owner_wins [OF example_acquire _ _ y(1) r_into_rtranclp]) (simp_all add: empty_store_def second_def)
qed

text \<open>Within the last second it can lose: a text with a fraction is smaller than the text of its full second.\<close>

lemma append_less: "c < d \<Longrightarrow> xs @ c # ys < xs @ d # zs" for xs :: string
  by (induction xs) simp_all

lemma FormatUTC_fraction:
  assumes "t mod second = 0" "0 < d" "d < second"
  shows "FormatUTC (t + d) < FormatUTC t"
proof -
  obtain k where k: "t = second * k" using assms(1) by (auto simp: mod_eq_0_iff_dvd)
  have q: "(t + d) div second = t div second" "(t + d) mod second = d"
    using assms(2,3) by (simp_all add: k div_pos_pos_trivial mod_pos_pos_trivial)
  have "date_of (t + d) = date_of t\<lparr>nsec := d\<rparr>" "nsec (date_of t) = t mod second"
    unfolding date_of_def Let_def case_prod_beta q by simp_all
  then have st: "stamp (date_of (t + d)) = stamp (date_of t)" "nsec (date_of (t + d)) = d" "nsec (date_of t) = 0"
    using assms(1) by (simp_all add: stamp_def)
  have "CHR ''.'' < CHR ''Z''" by (simp add: less_char_byte byte_def)
  then show ?thesis
    using st assms(2) append_less [of "CHR ''.''" "CHR ''Z''"]
    by (simp add: FormatUTC_def Format_def UTC_def Let_def fraction_def zone_suffix_def)
qed

text \<open>C37. In its last second a live owner can lose: when a lease expires a fraction of a second after a full second, then at that full second
  it is still current, and yet another process that asks for the scope acquires it, and the holder's fence is gone. The text of the full
  second is greater than the text of the expiry.\<close>

theorem live_lease_taken_over:
  assumes "AcquireScopeSyncLease (Inr v) scope h p now ttl db0 = (Inr (l, True), db)" "keyed (scope_sync_leases db0)" "v \<noteq> []"
    and t: "in_years (now + ttl)" "at mod second = 0" "at < now + ttl" "now + ttl < at + second"
    and other: "validScopeSyncLeaseInput scope h2 p2 ttl = None" "b64_encode v2 \<notin> sl_lease_token ` snd ` set (scope_sync_leases db)"
  shows "leaseCurrentTx l at db = None \<and> (\<exists>m db'. AcquireScopeSyncLease (Inr v2) scope h2 p2 at ttl db = (Inr (m, True), db')
      \<and> leaseCurrentTx l at db' = Some ErrScopeSyncLeaseLost)"
  using assms(1)
proof (cases rule: Acquire_cases)
  case (acquired token m)
  then have l: "l = new_lease scope h p token now ttl" by simp
  have f: "ssl_Scope l = scope" "ssl_ExpiresAt l = now + ttl" "ssl_Token l = token" by (simp_all add: l new_lease_def)
  have db: "db = db0\<lparr>scope_sync_leases := put scope (lease_row l) (scope_sync_leases db0)\<rparr>" using acquired(3,4) by simp
  have fence: "validLeaseFence l" using acquired_valid [OF acquired(5,1) assms(3)] l by simp
  have row: "get (scope_sync_leases db) scope = Some (lease_row l)" by (simp add: db)
  then have cur: "leaseCurrentTx l at db = None"
    using fence t(1,3) f by (simp add: leaseCurrentTx_def fenced_def lease_row_def parse_time_FormatUTC)
  have le: "sl_expires_at (lease_row l) \<le> FormatUTC at"
    using FormatUTC_fraction [OF t(2), of "now + ttl - at"] t(3,4) f(2) by (simp add: lease_row_def)
  have tok: "token \<noteq> b64_encode v2"
  proof -
    have "sl_lease_token (lease_row l) \<in> sl_lease_token ` snd ` set (scope_sync_leases db)"
      using map_of_SomeD [OF row] by (metis image_eqI snd_conv)
    then have "token \<in> sl_lease_token ` snd ` set (scope_sync_leases db)" by (simp add: lease_row_def f(3))
    then show ?thesis using other(2) by metis
  qed
  let ?m = "new_lease scope h2 p2 (b64_encode v2) at ttl"
  have "AcquireScopeSyncLease (Inr v2) scope h2 p2 at ttl db
      = (Inr (?m, True), db\<lparr>scope_sync_leases := put scope (lease_row ?m) (scope_sync_leases db)\<rparr>)"
    using other row le acquired(6) by (simp add: AcquireScopeSyncLease_def newScopeSyncLeaseToken_def Let_def db)
  moreover have "leaseCurrentTx l at (db\<lparr>scope_sync_leases := put scope (lease_row ?m) (scope_sync_leases db)\<rparr>) = Some ErrScopeSyncLeaseLost"
    using fence f tok by (simp add: leaseCurrentTx_def fenced_def lease_row_def new_lease_def)
  ultimately show ?thesis using cur by blast
qed blast

theorem live_lease_taken_over_witness:
  "\<exists>m db'. leaseCurrentTx example_lease (30 * second) example_leases = None
     \<and> AcquireScopeSyncLease (Inr ''xyz'') ''c/n'' ''run/b'' ''p2'' (30 * second) (30 * second) example_leases = (Inr (m, True), db')"
proof -
  have y: "in_years (second div 2 + 30 * second)" by (simp add: in_years_def) code_simp
  have t: "30 * second mod second = 0" "30 * second < second div 2 + 30 * second" "second div 2 + 30 * second < 30 * second + second"
    by (simp_all add: second_def)
  have "\<not> blank ''c/n''" "\<not> blank ''run/b''" "\<not> blank ''p2''" by (rule graphic_not_blank; simp add: graphic_def byte_def)+
  then have v: "validScopeSyncLeaseInput ''c/n'' ''run/b'' ''p2'' (30 * second) = None"
    by (simp add: validScopeSyncLeaseInput_def maxScopeSyncLeaseTTL_def minute_def second_def)
  have "b64_encode ''abc'' \<noteq> b64_encode ''xyz''" by code_simp
  then have u: "b64_encode ''xyz'' \<notin> sl_lease_token ` snd ` set (scope_sync_leases example_leases)"
    by (simp add: example_leases_def example_lease_def lease_row_def new_lease_def del: b64_encode.simps)
  have e: "keyed (scope_sync_leases empty_store)" by (simp add: empty_store_def)
  from live_lease_taken_over [OF example_acquire e _ y t v u] show ?thesis by blast
qed

end
