(* ===== verification/StoreRecords.thy ===== *)
theory StoreRecords
  imports StoreSync
begin

text \<open>
  Discovery records (src/internal/store/store.go): the records a process publishes, the records it discovered, the
  authority's snapshots with their generations, and the reconciliation of the local cache with a complete snapshot of the pinned
  authority. Each reading of the wall clock is an argument.
\<close>

section \<open>Records\<close>

record Record =
  rec_Scope :: string
  rec_PipeID :: string
  rec_Name :: string
  rec_Payload :: string
  rec_ExpiresAt :: gotime
  rec_Sequence :: nat
  rec_Discovered :: bool

definition MaxSnapshotRecords :: nat where "MaxSnapshotRecords = 256"

definition SnapshotSourcePinnedAuthority :: string where "SnapshotSourcePinnedAuthority = ''pinned_authority''"

definition validateStoredRecord :: "Record \<Rightarrow> gotime \<Rightarrow> goerror option" where
  "validateStoredRecord v now =
     (if (case Split (rec_Scope v) (CHR ''/'') of
            [c, n] \<Rightarrow> Scope_Validate \<lparr>Cluster = c, Namespace = n\<rparr> \<noteq> None | _ \<Rightarrow> True)
         \<or> blank (rec_PipeID v) \<or> length (rec_PipeID v) > 8192 \<or> length (rec_Name v) > 8192
      then Some (Error ''invalid record index'' [])
      else if rec_Payload v = [] \<or> length (rec_Payload v) > 65536 \<or> rec_Sequence v = 0 \<or> rec_Sequence v > 2 ^ 63 - 1
      then Some (Error ''invalid record bounds'' [])
      else if \<not> rec_ExpiresAt v > now then Some (Error ''record expired'' [])
      else None)"

abbreviation rec_key :: "Record \<Rightarrow> string \<times> string" where "rec_key v \<equiv> (rec_Scope v, rec_PipeID v)"

definition row_of :: "Record \<Rightarrow> RecordRow" where
  "row_of v = \<lparr>rr_name = rec_Name v, rr_payload = rec_Payload v, rr_expires_at = FormatUTC (rec_ExpiresAt v),
     rr_sequence = rec_Sequence v, rr_discovered = rec_Discovered v\<rparr>"

text \<open>The body of a transaction: the tables it leaves, or its error.\<close>

definition putRecordTx :: "Record \<Rightarrow> gotime \<Rightarrow> Store \<Rightarrow> Store result" where
  "putRecordTx v now db =
     check (validateStoredRecord v now)
       (case get (records db) (rec_key v) of
          None \<Rightarrow> Inr (db\<lparr>records := put (rec_key v) (row_of v) (records db)\<rparr>)
        | Some row \<Rightarrow>
            if rec_Sequence v < rr_sequence row then Inl (Error ''replayed record sequence'' [])
            else if rec_Sequence v = rr_sequence row
            then if rr_payload row \<noteq> rec_Payload v then Inl (Error ''conflicting record at same sequence'' []) else Inr db
            else Inr (db\<lparr>records := put (rec_key v) (row_of v) (records db)\<rparr>))"

definition putDiscoveredRecordTx :: "Record \<Rightarrow> gotime \<Rightarrow> Store \<Rightarrow> Store result" where
  "putDiscoveredRecordTx v now db =
     (case get (records db) (rec_key v) of
        Some row \<Rightarrow> if \<not> rr_discovered row then Inr db else putRecordTx (v\<lparr>rec_Discovered := True\<rparr>) now db
      | None \<Rightarrow> putRecordTx (v\<lparr>rec_Discovered := True\<rparr>) now db)"

text \<open>A write transaction whose body yields the new tables.\<close>

definition tables_tx :: "Store \<Rightarrow> Store result \<Rightarrow> unit result \<times> Store" where
  "tables_tx db body = write_tx db (case body of Inl e \<Rightarrow> (Inl e, db) | Inr db' \<Rightarrow> (Inr (), db'))"

definition PutRecord :: "gotime \<Rightarrow> Record \<Rightarrow> Store \<Rightarrow> unit result \<times> Store" where
  "PutRecord clock v db = tables_tx db (putRecordTx v clock db)"

section \<open>Freshness\<close>

record ScopeFreshness =
  sf_Scope :: string
  sf_LastAttempt :: "gotime option"
  sf_LastSuccess :: "gotime option"
  sf_Source :: string
  sf_Complete :: bool
  sf_ErrorClass :: string
  sf_NextRetry :: "gotime option"
  sf_SnapshotGeneration :: nat
  sf_SnapshotHighWater :: nat
  sf_SnapshotDigest :: string

definition optionalTime :: "string \<Rightarrow> gotime option result" where
  "optionalTime value = (if value = [] then Inr None else res_bind (parse_time value) (\<lambda>t. Inr (Some t)))"

definition scanFreshness :: "string \<Rightarrow> FreshnessRow \<Rightarrow> ScopeFreshness result" where
  "scanFreshness scope row =
     res_bind (optionalTime (fr_last_attempt row)) (\<lambda>attempt.
     res_bind (optionalTime (fr_last_success row)) (\<lambda>success.
     res_bind (optionalTime (fr_next_retry row)) (\<lambda>retry.
     Inr \<lparr>sf_Scope = scope, sf_LastAttempt = attempt, sf_LastSuccess = success, sf_Source = fr_source row,
       sf_Complete = fr_complete row, sf_ErrorClass = fr_error_class row, sf_NextRetry = retry,
       sf_SnapshotGeneration = fr_snapshot_generation row, sf_SnapshotHighWater = fr_snapshot_high_water row,
       sf_SnapshotDigest = fr_snapshot_digest row\<rparr>)))"

definition ScopeFreshness_get :: "Store \<Rightarrow> string \<Rightarrow> ScopeFreshness result" where
  "ScopeFreshness_get db scope =
     query db (case get (scope_freshness db) scope of
         None \<Rightarrow> Inl (Wrap ''%w: discovery freshness for %s'' [scope] ErrNotFound)
       | Some row \<Rightarrow> scanFreshness scope row)"

section \<open>The authority's snapshots\<close>

definition EnsureAuthoritySnapshot :: "string \<Rightarrow> Store \<Rightarrow> unit result \<times> Store" where
  "EnsureAuthoritySnapshot scope db =
     (case db_fault db of
        Some e \<Rightarrow> (Inl e, db)
      | None \<Rightarrow> (Inr (), case get (authority_snapshots db) scope of
            Some _ \<Rightarrow> db
          | None \<Rightarrow> db\<lparr>authority_snapshots := put scope (1, 1) (authority_snapshots db)\<rparr>))"

definition advanceAuthoritySnapshotTx :: "string \<Rightarrow> Store \<Rightarrow> Store result" where
  "advanceAuthoritySnapshotTx scope db =
     (case get (authority_snapshots db) scope of
        None \<Rightarrow> Inr (db\<lparr>authority_snapshots := put scope (1, 1) (authority_snapshots db)\<rparr>)
      | Some (generation, highWater) \<Rightarrow>
          if generation = 2 ^ 63 - 1 \<or> highWater = 2 ^ 63 - 1 then Inl (Error ''authority snapshot counter exhausted'' [])
          else Inr (db\<lparr>authority_snapshots := put scope (generation + 1, highWater + 1) (authority_snapshots db)\<rparr>))"

definition record_of :: "(string \<times> string) \<times> RecordRow \<Rightarrow> Record result" where
  "record_of kr =
     (case kr of ((scope, pipeID), row) \<Rightarrow>
        res_bind (parse_time (rr_expires_at row)) (\<lambda>expires.
        Inr \<lparr>rec_Scope = scope, rec_PipeID = pipeID, rec_Name = rr_name row, rec_Payload = rr_payload row,
             rec_ExpiresAt = expires, rec_Sequence = rr_sequence row, rec_Discovered = rr_discovered row\<rparr>))"

fun scan_records :: "((string \<times> string) \<times> RecordRow) list \<Rightarrow> Record list result" where
  "scan_records [] = Inr []"
| "scan_records (r # rs) = res_bind (record_of r) (\<lambda>v. res_bind (scan_records rs) (\<lambda>vs. Inr (v # vs)))"

text \<open>\<^verbatim>\<open>ORDER BY name,pipe_id\<close>.\<close>

definition by_name :: "((string \<times> string) \<times> RecordRow) list \<Rightarrow> ((string \<times> string) \<times> RecordRow) list" where
  "by_name rows = sort_key (\<lambda>(_, row). rr_name row) (sort_key (\<lambda>((_, p), _). p) rows)"

definition authority_row :: "string \<Rightarrow> string \<times> string \<Rightarrow> RecordRow \<Rightarrow> bool" where
  "authority_row scope k row \<longleftrightarrow> fst k = scope \<and> \<not> rr_discovered row"

definition prune_authority :: "string \<Rightarrow> gotime \<Rightarrow> Store \<Rightarrow> Store result" where
  "prune_authority scope now db =
     (let gone = (\<lambda>k row. authority_row scope k row \<and> rr_expires_at row \<le> FormatUTC now);
          db1 = db\<lparr>records := del_where gone (records db)\<rparr>
      in if list_ex (\<lambda>(k, row). gone k row) (records db) then advanceAuthoritySnapshotTx scope db1 else Inr db1)"

record Snapshot =
  sn_Records :: "Record list"
  sn_Generation :: nat
  sn_HighWater :: nat
  sn_Complete :: bool

definition AuthoritySnapshot :: "gotime \<Rightarrow> string \<Rightarrow> int \<Rightarrow> Store \<Rightarrow> Snapshot result \<times> Store" where
  "AuthoritySnapshot clock scope limit db =
     (if limit \<le> 0 \<or> limit > int MaxSnapshotRecords then (Inl (Error ''invalid authority snapshot limit'' []), db)
      else
        write_tx db
          (case prune_authority scope clock db of
             Inl e \<Rightarrow> (Inl e, db)
           | Inr db1 \<Rightarrow>
               (case get (authority_snapshots db1) scope of
                  None \<Rightarrow> (Inl (Error ''authority snapshot not initialized'' []), db)
                | Some (generation, highWater) \<Rightarrow>
                    if generation = 0 \<or> highWater = 0 then (Inl (Error ''invalid authority snapshot metadata'' []), db)
                    else
                      (case scan_records (take (nat limit + 1) (by_name
                              (filter (\<lambda>(k, row). authority_row scope k row \<and> rr_expires_at row > FormatUTC clock) (records db1)))) of
                         Inl e \<Rightarrow> (Inl e, db)
                       | Inr rows \<Rightarrow>
                           (Inr \<lparr>sn_Records = take (nat limit) rows, sn_Generation = generation, sn_HighWater = highWater,
                                 sn_Complete = (length rows \<le> nat limit)\<rparr>, db1)))))"

definition PutAuthoritativeRecord :: "gotime \<Rightarrow> Record \<Rightarrow> Store \<Rightarrow> unit result \<times> Store" where
  "PutAuthoritativeRecord clock v db =
     tables_tx db (res_bind (putRecordTx v clock db) (advanceAuthoritySnapshotTx (rec_Scope v)))"

section \<open>Reconciliation of the cache\<close>

record AuthoritativeSnapshot =
  as_Source :: string
  as_Complete :: bool
  as_Generation :: nat
  as_HighWater :: nat
  as_Digest :: string
  as_Records :: "Record list"

definition errAuthoritativeSnapshotRollback :: goerror where
  "errAuthoritativeSnapshotRollback = Error ''rollback authoritative snapshot generation'' []"

definition errAuthoritativeSnapshotAmbiguous :: goerror where
  "errAuthoritativeSnapshotAmbiguous = Error ''ambiguous authoritative snapshot generation'' []"

definition no_freshness :: FreshnessRow where
  "no_freshness = \<lparr>fr_last_attempt = [], fr_last_success = [], fr_source = [], fr_complete = False, fr_error_class = [],
     fr_next_retry = [], fr_snapshot_generation = 0, fr_snapshot_high_water = 0, fr_snapshot_digest = []\<rparr>"

text \<open>The upsert of a failed attempt keeps the last success and the snapshot columns.\<close>

definition put_failure :: "string \<Rightarrow> string \<Rightarrow> string \<Rightarrow> gotime option \<Rightarrow> gotime \<Rightarrow> Store \<Rightarrow> Store" where
  "put_failure scope source errorClass nextRetry now db =
     (let old = (case get (scope_freshness db) scope of Some row \<Rightarrow> row | None \<Rightarrow> no_freshness);
          retry = (case nextRetry of Some t \<Rightarrow> FormatUTC t | None \<Rightarrow> [])
      in db\<lparr>scope_freshness := put scope (old\<lparr>fr_last_attempt := FormatUTC now, fr_source := source, fr_complete := False,
           fr_error_class := errorClass, fr_next_retry := retry\<rparr>) (scope_freshness db)\<rparr>)"

definition recordSnapshotFailure ::
  "gotime \<Rightarrow> string \<Rightarrow> string \<Rightarrow> string \<Rightarrow> gotime option \<Rightarrow> ScopeSyncLease option \<Rightarrow> Store \<Rightarrow> unit result \<times> Store" where
  "recordSnapshotFailure clock scope source errorClass nextRetry lease db =
     (if source \<noteq> SnapshotSourcePinnedAuthority \<or> errorClass = [] then (Inl (Error ''invalid discovery refresh failure'' []), db)
      else tables_tx db
        (case lease of
           None \<Rightarrow> Inr (put_failure scope source errorClass nextRetry clock db)
         | Some l \<Rightarrow> check (leaseCurrentTx l clock db) (Inr (put_failure scope source errorClass nextRetry clock db))))"

definition RecordSnapshotFailure :: "gotime \<Rightarrow> string \<Rightarrow> string \<Rightarrow> string \<Rightarrow> gotime option \<Rightarrow> Store \<Rightarrow> unit result \<times> Store" where
  "RecordSnapshotFailure clock scope source errorClass nextRetry =
     recordSnapshotFailure clock scope source errorClass nextRetry None"

definition RecordSnapshotFailureWithLease ::
  "gotime \<Rightarrow> ScopeSyncLease \<Rightarrow> string \<Rightarrow> string \<Rightarrow> gotime option \<Rightarrow> Store \<Rightarrow> unit result \<times> Store" where
  "RecordSnapshotFailureWithLease clock lease source errorClass nextRetry =
     recordSnapshotFailure clock (ssl_Scope lease) source errorClass nextRetry (Some lease)"

definition snapshot_meta :: "string \<Rightarrow> AuthoritativeSnapshot \<Rightarrow> goerror option" where
  "snapshot_meta scope s =
     (if as_Source s \<noteq> SnapshotSourcePinnedAuthority \<or> \<not> as_Complete s \<or> as_Generation s = 0 \<or> as_HighWater s = 0
         \<or> length (as_Digest s) \<noteq> 64 \<or> length (as_Records s) > MaxSnapshotRecords
      then Some (Error ''invalid authoritative snapshot metadata'' [])
      else None)"

text \<open>The loop over the records with the set \<open>seen\<close> of identities.\<close>

fun snapshot_distinct :: "string \<Rightarrow> string set \<Rightarrow> Record list \<Rightarrow> goerror option" where
  "snapshot_distinct scope seen [] = None"
| "snapshot_distinct scope seen (v # vs) =
     (if rec_Scope v \<noteq> scope then Some (Error ''invalid authoritative snapshot record'' [])
      else if rec_PipeID v \<in> seen then Some (Error ''duplicate record in authoritative snapshot'' [])
      else snapshot_distinct scope (insert (rec_PipeID v) seen) vs)"

fun validate_all :: "gotime \<Rightarrow> Record list \<Rightarrow> goerror option" where
  "validate_all now [] = None"
| "validate_all now (v # vs) = (case validateStoredRecord v now of Some e \<Rightarrow> Some e | None \<Rightarrow> validate_all now vs)"

fun put_all :: "gotime \<Rightarrow> Record list \<Rightarrow> Store \<Rightarrow> Store result" where
  "put_all now [] db = Inr db"
| "put_all now (v # vs) db = res_bind (putDiscoveredRecordTx v now db) (put_all now vs)"

definition snapshot_order :: "AuthoritativeSnapshot \<Rightarrow> FreshnessRow option \<Rightarrow> goerror option" where
  "snapshot_order s current =
     (case current of
        None \<Rightarrow> None
      | Some row \<Rightarrow>
          if as_Generation s < fr_snapshot_generation row \<or> as_HighWater s < fr_snapshot_high_water row
          then Some errAuthoritativeSnapshotRollback
          else if as_Generation s = fr_snapshot_generation row \<and> fr_snapshot_digest row \<noteq> []
               \<and> (as_Digest s \<noteq> fr_snapshot_digest row \<or> as_HighWater s \<noteq> fr_snapshot_high_water row)
          then Some errAuthoritativeSnapshotAmbiguous
          else None)"

definition stale_row :: "string \<Rightarrow> Record list \<Rightarrow> gotime \<Rightarrow> string \<times> string \<Rightarrow> RecordRow \<Rightarrow> bool" where
  "stale_row scope vs now k row \<longleftrightarrow>
     fst k = scope \<and> rr_discovered row \<and> (snd k \<notin> rec_PipeID ` set vs \<or> rr_expires_at row \<le> FormatUTC now)"

definition put_success :: "string \<Rightarrow> AuthoritativeSnapshot \<Rightarrow> gotime \<Rightarrow> Store \<Rightarrow> Store result" where
  "put_success scope s now db =
     check (uint64_arg (as_Generation s)) (check (uint64_arg (as_HighWater s))
       (Inr (db\<lparr>scope_freshness := put scope
          \<lparr>fr_last_attempt = FormatUTC now, fr_last_success = FormatUTC now, fr_source = as_Source s, fr_complete = True,
           fr_error_class = [], fr_next_retry = [], fr_snapshot_generation = as_Generation s,
           fr_snapshot_high_water = as_HighWater s, fr_snapshot_digest = as_Digest s\<rparr> (scope_freshness db)\<rparr>)))"

text \<open>The two deletions, of the records that are not in the snapshot and of the expired ones, are one filter.\<close>

definition reconcile_body ::
  "gotime \<Rightarrow> string \<Rightarrow> AuthoritativeSnapshot \<Rightarrow> ScopeSyncLease option \<Rightarrow> Store \<Rightarrow> Store result" where
  "reconcile_body now scope s lease db =
     check (validate_all now (as_Records s))
     (check (case lease of None \<Rightarrow> None | Some l \<Rightarrow> leaseCurrentTx l now db)
     (check (snapshot_order s (get (scope_freshness db) scope))
     (res_bind (put_all now (as_Records s) db) (\<lambda>db1.
       put_success scope s now (db1\<lparr>records := del_where (stale_row scope (as_Records s) now) (records db1)\<rparr>)))))"

definition reconcileAuthoritativeSnapshotOnce ::
  "gotime \<Rightarrow> string \<Rightarrow> AuthoritativeSnapshot \<Rightarrow> ScopeSyncLease option \<Rightarrow> Store \<Rightarrow> unit result \<times> Store" where
  "reconcileAuthoritativeSnapshotOnce clock scope s lease db =
     (case snapshot_meta scope s of
        Some e \<Rightarrow> (Inl e, db)
      | None \<Rightarrow>
          (case snapshot_distinct scope {} (as_Records s) of
             Some e \<Rightarrow> (Inl e, db)
           | None \<Rightarrow> tables_tx db (reconcile_body clock scope s lease db)))"

definition ReconcileAuthoritativeSnapshot :: "gotime \<Rightarrow> string \<Rightarrow> AuthoritativeSnapshot \<Rightarrow> Store \<Rightarrow> unit result \<times> Store" where
  "ReconcileAuthoritativeSnapshot clock scope s = reconcileAuthoritativeSnapshotOnce clock scope s None"

definition ReconcileAuthoritativeSnapshotWithLease ::
  "gotime \<Rightarrow> ScopeSyncLease \<Rightarrow> AuthoritativeSnapshot \<Rightarrow> Store \<Rightarrow> unit result \<times> Store" where
  "ReconcileAuthoritativeSnapshotWithLease clock lease s = reconcileAuthoritativeSnapshotOnce clock (ssl_Scope lease) s (Some lease)"

section \<open>Reading records\<close>

definition expired_cache :: "gotime \<Rightarrow> string \<times> string \<Rightarrow> RecordRow \<Rightarrow> bool" where
  "expired_cache now k row \<longleftrightarrow> rr_discovered row \<and> rr_expires_at row \<le> FormatUTC now"

definition PruneExpiredRecords :: "gotime \<Rightarrow> Store \<Rightarrow> nat result \<times> Store" where
  "PruneExpiredRecords now db =
     (case db_fault db of
        Some e \<Rightarrow> (Inl e, db)
      | None \<Rightarrow>
          (Inr (length (filter (\<lambda>(k, row). expired_cache now k row) (records db))),
           db\<lparr>records := del_where (expired_cache now) (records db)\<rparr>))"

text \<open>A read that prunes first; \<open>now1\<close> is the clock of the pruning, \<open>now2\<close> of the selection.\<close>

definition pruned_read :: "gotime \<Rightarrow> (Store \<Rightarrow> 'a result) \<Rightarrow> Store \<Rightarrow> 'a result \<times> Store" where
  "pruned_read now1 f db =
     (case PruneExpiredRecords now1 db of (Inl e, db1) \<Rightarrow> (Inl e, db1) | (Inr _, db1) \<Rightarrow> (f db1, db1))"

definition Records :: "gotime \<Rightarrow> gotime \<Rightarrow> string \<Rightarrow> Store \<Rightarrow> Record list result \<times> Store" where
  "Records now1 now2 scope =
     pruned_read now1 (\<lambda>db. scan_records (by_name
       (filter (\<lambda>(k, row). fst k = scope \<and> rr_expires_at row > FormatUTC now2) (records db))))"

definition Record_get :: "gotime \<Rightarrow> gotime \<Rightarrow> string \<Rightarrow> Store \<Rightarrow> Record result \<times> Store" where
  "Record_get now1 now2 pipeID =
     pruned_read now1 (\<lambda>db.
       res_bind (scan_records (sort_key (fst \<circ> fst) (filter (\<lambda>(k, row). snd k = pipeID \<and> rr_expires_at row > FormatUTC now2) (records db))))
         (\<lambda>found. case found of
            [] \<Rightarrow> Inl (Wrap ''%w: pipe/%s'' [pipeID] ErrNotFound)
          | [v] \<Rightarrow> Inr v
          | _ \<Rightarrow> Inl (Error ''conflict: pipe/%s exists in multiple scopes; specify scope'' [pipeID])))"

definition RecordSequence :: "Store \<Rightarrow> string \<Rightarrow> string \<Rightarrow> nat result" where
  "RecordSequence db scope pipeID =
     query db (Inr (case get (records db) (scope, pipeID) of None \<Rightarrow> 0 | Some row \<Rightarrow> rr_sequence row))"

definition RecordInScope :: "gotime \<Rightarrow> gotime \<Rightarrow> string \<Rightarrow> string \<Rightarrow> Store \<Rightarrow> Record result \<times> Store" where
  "RecordInScope now1 now2 scope pipeID =
     pruned_read now1 (\<lambda>db.
       case get (records db) (scope, pipeID) of
         None \<Rightarrow> Inl (Wrap ''%w: pipe/%s in %s'' [pipeID, scope] ErrNotFound)
       | Some row \<Rightarrow>
           if rr_expires_at row > FormatUTC now2 then record_of ((scope, pipeID), row)
           else Inl (Wrap ''%w: pipe/%s in %s'' [pipeID, scope] ErrNotFound))"

section \<open>One record\<close>

lemma filter_put_other:
  assumes "\<not> P k v" "\<And>w. get t k = Some w \<Longrightarrow> \<not> P k w"
  shows "filter (\<lambda>(k, v). P k v) (put k v t) = filter (\<lambda>(k, v). P k v) t"
  using assms by (induction t) auto

lemma tables_tx_cases:
  assumes "tables_tx db body = (r, db')"
  obtains (failed) "db' = db" "\<not> is_ok r" | (ok) "body = Inr db'" "r = Inr ()" "db_fault db = None"
  using assms by (auto simp: tables_tx_def write_tx_def split: option.splits sum.splits)

lemma putRecordTx_cases:
  assumes "putRecordTx v now db = Inr db'"
  obtains (same) row where "get (records db) (rec_key v) = Some row" "rr_sequence row = rec_Sequence v" "rr_payload row = rec_Payload v"
      "db' = db"
  | (new) "db' = db\<lparr>records := put (rec_key v) (row_of v) (records db)\<rparr>"
      "\<And>row. get (records db) (rec_key v) = Some row \<Longrightarrow> rr_sequence row < rec_Sequence v"
proof (cases "get (records db) (rec_key v)")
  case None
  then show thesis using assms new by (auto simp: putRecordTx_def result_simps)
next
  case (Some row)
  consider "rec_Sequence v = rr_sequence row" | "rr_sequence row < rec_Sequence v"
    using assms Some by (auto simp: putRecordTx_def result_simps split: if_splits)
  then show thesis
  proof cases
    case 1
    then have "rr_payload row = rec_Payload v" "db' = db"
      using assms Some by (auto simp: putRecordTx_def result_simps split: if_splits)
    then show thesis using same [OF Some] 1 by simp
  next
    case 2
    then have "db' = db\<lparr>records := put (rec_key v) (row_of v) (records db)\<rparr>"
      using assms Some by (auto simp: putRecordTx_def result_simps split: if_splits)
    then show thesis using new 2 Some by simp
  qed
qed

text \<open>The row a discovered record leaves at its key: a local row stays, a row of the same sequence stays, else the record's.\<close>

definition put_view :: "RecordRow option \<Rightarrow> Record \<Rightarrow> RecordRow" where
  "put_view old v =
     (case old of
        Some row \<Rightarrow> if \<not> rr_discovered row \<or> rr_sequence row = rec_Sequence v then row else row_of (v\<lparr>rec_Discovered := True\<rparr>)
      | None \<Rightarrow> row_of (v\<lparr>rec_Discovered := True\<rparr>))"

lemma putDiscovered_view:
  assumes "putDiscoveredRecordTx v now db = Inr db'"
  shows "get (records db') k = (if k = rec_key v then Some (put_view (get (records db) k) v) else get (records db) k)"
    "keyed (records db) \<Longrightarrow> keyed (records db')"
    "filter (\<lambda>(k, row). authority_row sc k row) (records db') = filter (\<lambda>(k, row). authority_row sc k row) (records db)"
    "\<exists>rs. db' = db\<lparr>records := rs\<rparr>"
proof -
  let ?v = "v\<lparr>rec_Discovered := True\<rparr>" and ?row = "row_of (v\<lparr>rec_Discovered := True\<rparr>)"
  have key: "rec_key ?v = rec_key v" by simp
  have same': "\<exists>rs. db = db\<lparr>records := rs\<rparr>" by (rule exI [of _ "records db"]) simp
  have dis: "\<not> authority_row sc (rec_key v) ?row" by (simp add: authority_row_def row_of_def)
  consider (local) row where "get (records db) (rec_key v) = Some row" "\<not> rr_discovered row" "db' = db"
    | (disc) "putRecordTx ?v now db = Inr db'" "\<And>row. get (records db) (rec_key v) = Some row \<Longrightarrow> rr_discovered row"
  proof (cases "\<exists>row. get (records db) (rec_key v) = Some row \<and> \<not> rr_discovered row")
    case True
    then obtain row where "get (records db) (rec_key v) = Some row" "\<not> rr_discovered row" by blast
    moreover from this have "db' = db" using assms by (simp add: putDiscoveredRecordTx_def)
    ultimately show thesis by (rule that(1))
  next
    case False
    then have "putRecordTx ?v now db = Inr db'" using assms by (auto simp: putDiscoveredRecordTx_def split: option.splits)
    then show thesis using that(2) False by blast
  qed
  then have "get (records db') k = (if k = rec_key v then Some (put_view (get (records db) k) v) else get (records db) k)
    \<and> (keyed (records db) \<longrightarrow> keyed (records db'))
    \<and> filter (\<lambda>(k, row). authority_row sc k row) (records db') = filter (\<lambda>(k, row). authority_row sc k row) (records db)
    \<and> (\<exists>rs. db' = db\<lparr>records := rs\<rparr>)"
  proof cases
    case local
    then show ?thesis using same' by (simp add: put_view_def)
  next
    case disc
    from disc(1) show ?thesis
    proof (cases rule: putRecordTx_cases)
      case (same row)
      then have "put_view (get (records db) (rec_key v)) v = row" by (simp add: put_view_def key)
      then show ?thesis using same' same key by simp
    next
      case new
      have "rr_sequence row \<noteq> rec_Sequence v" if "get (records db) (rec_key v) = Some row" for row
        using new(2) [of row] that key by fastforce
      then have "put_view (get (records db) (rec_key v)) v = ?row"
        using disc(2) by (auto simp: put_view_def split: option.splits)
      moreover have "filter (\<lambda>(k, row). authority_row sc k row) (put (rec_key v) ?row (records db))
          = filter (\<lambda>(k, row). authority_row sc k row) (records db)"
        by (rule filter_put_other) (use dis disc(2) in \<open>auto simp: authority_row_def\<close>)
      moreover have "records db' = put (rec_key v) ?row (records db)" "\<exists>rs. db' = db\<lparr>records := rs\<rparr>"
        using new(1) key by auto
      ultimately show ?thesis by simp
    qed
  qed
  then show "get (records db') k = (if k = rec_key v then Some (put_view (get (records db) k) v) else get (records db) k)"
    "keyed (records db) \<Longrightarrow> keyed (records db')"
    "filter (\<lambda>(k, row). authority_row sc k row) (records db') = filter (\<lambda>(k, row). authority_row sc k row) (records db)"
    "\<exists>rs. db' = db\<lparr>records := rs\<rparr>" by blast+
qed

section \<open>A whole snapshot\<close>

lemma snapshot_distinct_iff:
  "snapshot_distinct scope seen vs = None \<longleftrightarrow>
     (\<forall>v \<in> set vs. rec_Scope v = scope) \<and> distinct (map rec_PipeID vs) \<and> rec_PipeID ` set vs \<inter> seen = {}"
  by (induction scope seen vs rule: snapshot_distinct.induct) auto

lemma find_id_None: "find (\<lambda>v. rec_PipeID v = p) vs = None \<longleftrightarrow> p \<notin> rec_PipeID ` set vs"
  by (auto simp: find_None_iff)

lemma put_all_view:
  assumes "put_all now vs db = Inr db'" "distinct (map rec_PipeID vs)" "\<forall>v \<in> set vs. rec_Scope v = scope"
  shows "get (records db') (sc, p) =
      (case (if sc = scope then find (\<lambda>v. rec_PipeID v = p) vs else None) of
         Some v \<Rightarrow> Some (put_view (get (records db) (sc, p)) v) | None \<Rightarrow> get (records db) (sc, p))"
    "keyed (records db) \<Longrightarrow> keyed (records db')"
    "filter (\<lambda>(k, row). authority_row a k row) (records db') = filter (\<lambda>(k, row). authority_row a k row) (records db)"
    "\<exists>rs. db' = db\<lparr>records := rs\<rparr>"
proof -
  have "get (records db') (sc, p) =
      (case (if sc = scope then find (\<lambda>v. rec_PipeID v = p) vs else None) of
         Some v \<Rightarrow> Some (put_view (get (records db) (sc, p)) v) | None \<Rightarrow> get (records db) (sc, p))
    \<and> (keyed (records db) \<longrightarrow> keyed (records db'))
    \<and> filter (\<lambda>(k, row). authority_row a k row) (records db') = filter (\<lambda>(k, row). authority_row a k row) (records db)
    \<and> (\<exists>rs. db' = db\<lparr>records := rs\<rparr>)"
    using assms
  proof (induction vs arbitrary: db)
    case Nil
    then show ?case by (simp add: exI [of _ "records db"])
  next
    case (Cons v vs)
    then obtain db1 where s: "putDiscoveredRecordTx v now db = Inr db1" "put_all now vs db1 = Inr db'" by (auto simp: result_simps)
    note one = putDiscovered_view [OF s(1)]
    have ih: "get (records db') (sc, p) =
      (case (if sc = scope then find (\<lambda>v. rec_PipeID v = p) vs else None) of
         Some v \<Rightarrow> Some (put_view (get (records db1) (sc, p)) v) | None \<Rightarrow> get (records db1) (sc, p))"
      "keyed (records db1) \<longrightarrow> keyed (records db')"
      "filter (\<lambda>(k, row). authority_row a k row) (records db') = filter (\<lambda>(k, row). authority_row a k row) (records db1)"
      "\<exists>rs. db' = db1\<lparr>records := rs\<rparr>"
      using Cons.IH [OF s(2)] Cons.prems by simp_all
    have new: "find (\<lambda>w. rec_PipeID w = rec_PipeID v) vs = None" using Cons.prems(2) by (simp add: find_id_None)
    have "get (records db') (sc, p) =
      (case (if sc = scope then find (\<lambda>v. rec_PipeID v = p) (v # vs) else None) of
         Some v \<Rightarrow> Some (put_view (get (records db) (sc, p)) v) | None \<Rightarrow> get (records db) (sc, p))"
      using ih(1) one(1) [of "(sc, p)"] new Cons.prems(3) by (auto split: option.splits)
    moreover have "\<exists>rs. db' = db\<lparr>records := rs\<rparr>" using ih(4) one(4) by (metis Store.update_convs(5) Store.surjective)
    ultimately show ?case using ih(2,3) one(2,3) by simp
  qed
  then show "get (records db') (sc, p) =
      (case (if sc = scope then find (\<lambda>v. rec_PipeID v = p) vs else None) of
         Some v \<Rightarrow> Some (put_view (get (records db) (sc, p)) v) | None \<Rightarrow> get (records db) (sc, p))"
    "keyed (records db) \<Longrightarrow> keyed (records db')"
    "filter (\<lambda>(k, row). authority_row a k row) (records db') = filter (\<lambda>(k, row). authority_row a k row) (records db)"
    "\<exists>rs. db' = db\<lparr>records := rs\<rparr>" by blast+
qed

definition success_row :: "AuthoritativeSnapshot \<Rightarrow> gotime \<Rightarrow> FreshnessRow" where
  "success_row s now =
     \<lparr>fr_last_attempt = FormatUTC now, fr_last_success = FormatUTC now, fr_source = as_Source s, fr_complete = True,
      fr_error_class = [], fr_next_retry = [], fr_snapshot_generation = as_Generation s,
      fr_snapshot_high_water = as_HighWater s, fr_snapshot_digest = as_Digest s\<rparr>"

lemma reconcile_cases:
  assumes "reconcileAuthoritativeSnapshotOnce clock scope s lease db = (r, db')"
  obtains (failed) "db' = db" "\<not> is_ok r"
  | (ok) rs where "r = Inr ()" "put_all clock (as_Records s) db = Inr (db\<lparr>records := rs\<rparr>)" "snapshot_meta scope s = None"
      "\<forall>v \<in> set (as_Records s). rec_Scope v = scope" "distinct (map rec_PipeID (as_Records s))"
      "lease = None \<or> (\<exists>l. lease = Some l \<and> leaseCurrentTx l clock db = None)"
      "snapshot_order s (get (scope_freshness db) scope) = None" "db_fault db = None"
      "db' = db\<lparr>records := del_where (stale_row scope (as_Records s) clock) rs,
         scope_freshness := put scope (success_row s clock) (scope_freshness db)\<rparr>"
proof (cases "is_ok r")
  case False
  have "db' = db"
    using assms False by (auto simp: reconcileAuthoritativeSnapshotOnce_def split: option.splits elim!: tables_tx_cases)
  then show thesis using failed False by simp
next
  case True
  then have m: "snapshot_meta scope s = None" "snapshot_distinct scope {} (as_Records s) = None"
    "tables_tx db (reconcile_body clock scope s lease db) = (r, db')"
    using assms by (auto simp: reconcileAuthoritativeSnapshotOnce_def split: option.splits)
  from m(3) True have b: "reconcile_body clock scope s lease db = Inr db'" "r = Inr ()" "db_fault db = None"
    by (auto elim: tables_tx_cases)
  have d: "\<forall>v \<in> set (as_Records s). rec_Scope v = scope" "distinct (map rec_PipeID (as_Records s))"
    using m(2) by (simp_all add: snapshot_distinct_iff)
  obtain db1 where p: "put_all clock (as_Records s) db = Inr db1"
    "put_success scope s clock (db1\<lparr>records := del_where (stale_row scope (as_Records s) clock) (records db1)\<rparr>) = Inr db'"
    and o: "snapshot_order s (get (scope_freshness db) scope) = None"
    and l: "(case lease of None \<Rightarrow> None | Some l \<Rightarrow> leaseCurrentTx l clock db) = None"
    using b(1) by (auto simp: reconcile_body_def result_simps)
  obtain rs where rs: "db1 = db\<lparr>records := rs\<rparr>" using put_all_view(4) [OF p(1) d(2,1)] by blast
  have db': "db' = db\<lparr>records := del_where (stale_row scope (as_Records s) clock) rs,
         scope_freshness := put scope (success_row s clock) (scope_freshness db)\<rparr>"
    using p(2) by (simp add: put_success_def rs success_row_def result_simps)
  have l': "lease = None \<or> (\<exists>l. lease = Some l \<and> leaseCurrentTx l clock db = None)" using l by (cases lease) simp_all
  show thesis by (rule ok [OF b(2) p(1) [unfolded rs] m(1) d l' o b(3) db'])
qed

text \<open>The cache as a view from keys to rows, and the reconciliation as an operation on it: the scope's local rows stay; the
  others are exactly the records of the snapshot, less the expired ones.\<close>

definition reconciled_view ::
  "gotime \<Rightarrow> string \<Rightarrow> Record list \<Rightarrow> (string \<times> string \<Rightarrow> RecordRow option) \<Rightarrow> string \<times> string \<Rightarrow> RecordRow option" where
  "reconciled_view now scope vs view k =
     (if fst k \<noteq> scope \<or> (\<exists>row. view k = Some row \<and> \<not> rr_discovered row) then view k
      else case find (\<lambda>v. rec_PipeID v = snd k) vs of
        None \<Rightarrow> None
      | Some v \<Rightarrow> (let row = put_view (view k) v in if rr_expires_at row \<le> FormatUTC now then None else Some row))"

lemma reconcile_view:
  assumes "put_all now vs db = Inr (db\<lparr>records := rs\<rparr>)" "distinct (map rec_PipeID vs)" "\<forall>v \<in> set vs. rec_Scope v = scope"
    "keyed (records db)"
  shows "get (del_where (stale_row scope vs now) rs) k = reconciled_view now scope vs (get (records db)) k"
proof -
  obtain sc p where k: "k = (sc, p)" by fastforce
  have rs: "keyed rs" using put_all_view(2) [OF assms(1-3,4)] by simp
  have g: "get rs (sc, p) = (case (if sc = scope then find (\<lambda>v. rec_PipeID v = p) vs else None) of
         Some v \<Rightarrow> Some (put_view (get (records db) (sc, p)) v) | None \<Rightarrow> get (records db) (sc, p))"
    using put_all_view(1) [OF assms(1-3)] by simp
  have f: "find (\<lambda>v. rec_PipeID v = p) vs = None \<longleftrightarrow> p \<notin> rec_PipeID ` set vs" by (rule find_id_None)
  have pv: "put_view (Some row) v = row" if "\<not> rr_discovered row" for row v using that by (simp add: put_view_def)
  have pd: "rr_discovered (put_view old v)" if "\<And>row. old = Some row \<Longrightarrow> rr_discovered row" for old v
    using that by (auto simp: put_view_def row_of_def split: option.splits)
  show ?thesis
  proof (cases "sc = scope")
    case False
    then show ?thesis
      using g by (simp add: k get_del_where [OF rs] reconciled_view_def stale_row_def split: option.splits)
  next
    case True
    show ?thesis
    proof (cases "\<exists>row. get (records db) (sc, p) = Some row \<and> \<not> rr_discovered row")
      case loc: True
      then obtain row where "get (records db) (sc, p) = Some row" "\<not> rr_discovered row" by blast
      then show ?thesis
        using g True pv by (auto simp: k get_del_where [OF rs] reconciled_view_def stale_row_def split: option.splits)
    next
      case dis: False
      then show ?thesis
      proof (cases "find (\<lambda>v. rec_PipeID v = p) vs")
        case None
        then show ?thesis
          using g True dis f by (auto simp: k get_del_where [OF rs] reconciled_view_def stale_row_def split: option.splits)
      next
        case (Some v)
        moreover have "rr_discovered (put_view (get (records db) (sc, p)) v)" using dis by (intro pd) blast
        moreover have "p \<in> rec_PipeID ` set vs" using Some f by (metis option.distinct(1))
        ultimately show ?thesis
          using g True dis by (auto simp: k get_del_where [OF rs] reconciled_view_def stale_row_def Let_def)
      qed
    qed
  qed
qed

section \<open>Histories\<close>

text \<open>Everything that writes records, snapshot counters or freshness. The second parameter says which of them belong to the process
  of an authority: it publishes through \<^verbatim>\<open>PutAuthoritativeRecord\<close> only (src/internal/runtime/pipe.go, authority.go).\<close>

inductive authority_step :: "Store \<Rightarrow> Store \<Rightarrow> bool" where
  authoritative: "PutAuthoritativeRecord clock v db = (r, db') \<Longrightarrow> authority_step db db'"
| ensure: "EnsureAuthoritySnapshot scope db = (r, db') \<Longrightarrow> authority_step db db'"
| snapshot: "AuthoritySnapshot clock scope limit db = (r', db') \<Longrightarrow> authority_step db db'"
| reconcile: "reconcileAuthoritativeSnapshotOnce clock scope s lease db = (r, db') \<Longrightarrow> authority_step db db'"
| failure: "recordSnapshotFailure clock scope source e retry lease db = (r, db') \<Longrightarrow> authority_step db db'"
| prune: "PruneExpiredRecords now db = (n, db') \<Longrightarrow> authority_step db db'"

inductive record_step :: "Store \<Rightarrow> Store \<Rightarrow> bool" where
  publish: "PutRecord clock v db = (r, db') \<Longrightarrow> record_step db db'"
| authority: "authority_step db db' \<Longrightarrow> record_step db db'"

text \<open>Effects, one lemma per operation: the tables that change.\<close>

lemma advance_effect:
  assumes "advanceAuthoritySnapshotTx scope db = Inr db'"
  shows "records db' = records db" "scope_freshness db' = scope_freshness db"
    "\<exists>g h. get (authority_snapshots db') scope = Some (g, h) \<and> 0 < g \<and> (\<forall>g0 h0. get (authority_snapshots db) scope = Some (g0, h0) \<longrightarrow> g0 < g)"
    "sc \<noteq> scope \<Longrightarrow> get (authority_snapshots db') sc = get (authority_snapshots db) sc"
proof -
  consider "get (authority_snapshots db) scope = None" "db' = db\<lparr>authority_snapshots := put scope (1, 1) (authority_snapshots db)\<rparr>"
    | g h where "get (authority_snapshots db) scope = Some (g, h)"
        "db' = db\<lparr>authority_snapshots := put scope (g + 1, h + 1) (authority_snapshots db)\<rparr>"
    using assms by (cases "get (authority_snapshots db) scope") (auto simp: advanceAuthoritySnapshotTx_def split: if_splits)
  then have "records db' = records db \<and> scope_freshness db' = scope_freshness db
    \<and> (\<exists>g h. get (authority_snapshots db') scope = Some (g, h) \<and> 0 < g \<and> (\<forall>g0 h0. get (authority_snapshots db) scope = Some (g0, h0) \<longrightarrow> g0 < g))
    \<and> (sc \<noteq> scope \<longrightarrow> get (authority_snapshots db') sc = get (authority_snapshots db) sc)"
    by cases simp_all
  then show "records db' = records db" "scope_freshness db' = scope_freshness db"
    "\<exists>g h. get (authority_snapshots db') scope = Some (g, h) \<and> 0 < g \<and> (\<forall>g0 h0. get (authority_snapshots db) scope = Some (g0, h0) \<longrightarrow> g0 < g)"
    "sc \<noteq> scope \<Longrightarrow> get (authority_snapshots db') sc = get (authority_snapshots db) sc" by blast+
qed

lemma putRecordTx_effect:
  assumes "putRecordTx v now db = Inr db'"
  shows "get (records db) k = Some r \<Longrightarrow> get (records db') k = Some r' \<Longrightarrow> rr_sequence r < rr_sequence r' \<or> r' = r"
    "keyed (records db) \<Longrightarrow> keyed (records db')" "scope_freshness db' = scope_freshness db"
    "authority_snapshots db' = authority_snapshots db"
    "sc \<noteq> rec_Scope v \<Longrightarrow> filter (\<lambda>(k, row). authority_row sc k row) (records db') = filter (\<lambda>(k, row). authority_row sc k row) (records db)"
proof -
  have "(get (records db) k = Some r \<longrightarrow> get (records db') k = Some r' \<longrightarrow> rr_sequence r < rr_sequence r' \<or> r' = r)
    \<and> (keyed (records db) \<longrightarrow> keyed (records db')) \<and> scope_freshness db' = scope_freshness db
    \<and> authority_snapshots db' = authority_snapshots db
    \<and> (sc \<noteq> rec_Scope v \<longrightarrow> filter (\<lambda>(k, row). authority_row sc k row) (records db') = filter (\<lambda>(k, row). authority_row sc k row) (records db))"
    using assms
  proof (cases rule: putRecordTx_cases)
    case new
    have "filter (\<lambda>(k, row). authority_row sc k row) (put (rec_key v) (row_of v) (records db))
        = filter (\<lambda>(k, row). authority_row sc k row) (records db)" if "sc \<noteq> rec_Scope v"
      by (rule filter_put_other) (use that in \<open>auto simp: authority_row_def\<close>)
    moreover have "rr_sequence (row_of v) = rec_Sequence v" by (simp add: row_of_def)
    ultimately show ?thesis using new(1) new(2) [of r] by auto
  qed simp
  then show "get (records db) k = Some r \<Longrightarrow> get (records db') k = Some r' \<Longrightarrow> rr_sequence r < rr_sequence r' \<or> r' = r"
    "keyed (records db) \<Longrightarrow> keyed (records db')" "scope_freshness db' = scope_freshness db"
    "authority_snapshots db' = authority_snapshots db"
    "sc \<noteq> rec_Scope v \<Longrightarrow> filter (\<lambda>(k, row). authority_row sc k row) (records db') = filter (\<lambda>(k, row). authority_row sc k row) (records db)"
    by blast+
qed

lemma prune_effect:
  assumes "prune_authority scope now db = Inr db'"
  shows "records db' = del_where (\<lambda>k row. authority_row scope k row \<and> rr_expires_at row \<le> FormatUTC now) (records db)"
    "scope_freshness db' = scope_freshness db"
    "sc \<noteq> scope \<Longrightarrow> get (authority_snapshots db') sc = get (authority_snapshots db) sc"
    "records db' = records db \<and> authority_snapshots db' = authority_snapshots db
      \<or> (\<exists>g h. get (authority_snapshots db') scope = Some (g, h) \<and> 0 < g \<and> (\<forall>g0 h0. get (authority_snapshots db) scope = Some (g0, h0) \<longrightarrow> g0 < g))"
proof -
  let ?P = "\<lambda>k row. authority_row scope k row \<and> rr_expires_at row \<le> FormatUTC now"
  have "records db' = del_where ?P (records db) \<and> scope_freshness db' = scope_freshness db
    \<and> (sc \<noteq> scope \<longrightarrow> get (authority_snapshots db') sc = get (authority_snapshots db) sc)
    \<and> (records db' = records db \<and> authority_snapshots db' = authority_snapshots db
      \<or> (\<exists>g h. get (authority_snapshots db') scope = Some (g, h) \<and> 0 < g \<and> (\<forall>g0 h0. get (authority_snapshots db) scope = Some (g0, h0) \<longrightarrow> g0 < g)))"
  proof (cases "list_ex (\<lambda>(k, row). ?P k row) (records db)")
    case True
    then have "advanceAuthoritySnapshotTx scope (db\<lparr>records := del_where ?P (records db)\<rparr>) = Inr db'"
      using assms by (simp add: prune_authority_def Let_def)
    from advance_effect [OF this] show ?thesis by simp
  next
    case False
    then have "db' = db\<lparr>records := del_where ?P (records db)\<rparr>" using assms by (simp add: prune_authority_def Let_def)
    moreover have "del_where ?P (records db) = records db"
      using False by (auto simp: del_where_def list_ex_iff intro!: filter_True)
    ultimately show ?thesis by simp
  qed
  then show "records db' = del_where ?P (records db)" "scope_freshness db' = scope_freshness db"
    "sc \<noteq> scope \<Longrightarrow> get (authority_snapshots db') sc = get (authority_snapshots db) sc"
    "records db' = records db \<and> authority_snapshots db' = authority_snapshots db
      \<or> (\<exists>g h. get (authority_snapshots db') scope = Some (g, h) \<and> 0 < g \<and> (\<forall>g0 h0. get (authority_snapshots db) scope = Some (g0, h0) \<longrightarrow> g0 < g))"
    by blast+
qed

section \<open>Every step\<close>

lemma AuthoritySnapshot_cases:
  assumes "AuthoritySnapshot clock scope limit db = (r, db')"
  obtains (failed) "db' = db" "\<not> is_ok r"
  | (ok) generation highWater rows where "prune_authority scope clock db = Inr db'"
      "get (authority_snapshots db') scope = Some (generation, highWater)"
      "scan_records (take (nat limit + 1) (by_name
         (filter (\<lambda>(k, row). authority_row scope k row \<and> rr_expires_at row > FormatUTC clock) (records db')))) = Inr rows"
      "r = Inr \<lparr>sn_Records = take (nat limit) rows, sn_Generation = generation, sn_HighWater = highWater,
         sn_Complete = (length rows \<le> nat limit)\<rparr>"
proof (cases "is_ok r")
  case False
  then have "db' = db"
    using assms by (cases r) (auto simp: AuthoritySnapshot_def dest: write_tx_Inl split: if_splits)
  then show thesis using failed False by simp
next
  case True
  then obtain x where x: "r = Inr x" by (cases r) auto
  then have "write_tx db
          (case prune_authority scope clock db of
             Inl e \<Rightarrow> (Inl e, db)
           | Inr db1 \<Rightarrow>
               (case get (authority_snapshots db1) scope of
                  None \<Rightarrow> (Inl (Error ''authority snapshot not initialized'' []), db)
                | Some (generation, highWater) \<Rightarrow>
                    if generation = 0 \<or> highWater = 0 then (Inl (Error ''invalid authority snapshot metadata'' []), db)
                    else
                      (case scan_records (take (nat limit + 1) (by_name
                              (filter (\<lambda>(k, row). authority_row scope k row \<and> rr_expires_at row > FormatUTC clock) (records db1)))) of
                         Inl e \<Rightarrow> (Inl e, db)
                       | Inr rows \<Rightarrow>
                           (Inr \<lparr>sn_Records = take (nat limit) rows, sn_Generation = generation, sn_HighWater = highWater,
                                 sn_Complete = (length rows \<le> nat limit)\<rparr>, db1)))) = (Inr x, db')"
    using assms by (simp add: AuthoritySnapshot_def split: if_splits)
  then show thesis
    unfolding write_tx_Inr using ok x by (auto split: sum.splits option.splits prod.splits if_splits)
qed

lemma del_where_effect:
  assumes "keyed t" "get (del_where P t) k = Some r'" "get t k = Some r"
  shows "r' = r"
  using assms by (auto simp: get_del_where split: if_splits)

text \<open>A record never goes back: a row that stays at its key either stays as it is or moves to a greater sequence.\<close>

definition moves_forward :: "Store \<Rightarrow> Store \<Rightarrow> bool" where
  "moves_forward db db' \<longleftrightarrow> keyed (records db') \<and>
     (\<forall>k r r'. get (records db) k = Some r \<longrightarrow> get (records db') k = Some r' \<longrightarrow> rr_sequence r < rr_sequence r' \<or> r' = r)"

lemma moves_forwardD:
  "moves_forward db db' \<Longrightarrow> get (records db) k = Some r \<Longrightarrow> get (records db') k = Some r' \<Longrightarrow> rr_sequence r < rr_sequence r' \<or> r' = r"
  unfolding moves_forward_def by blast

lemma moves_forward_cong: "moves_forward db db1 \<Longrightarrow> records db2 = records db1 \<Longrightarrow> moves_forward db db2"
  by (simp add: moves_forward_def)

lemma moves_forward_refl: "keyed (records db) \<Longrightarrow> moves_forward db db"
  by (simp add: moves_forward_def)

lemma moves_forward_del: "keyed (records db) \<Longrightarrow> records db' = del_where P (records db) \<Longrightarrow> moves_forward db db'"
  by (auto simp: moves_forward_def get_del_where split: option.splits if_splits)

lemma putRecordTx_forward: "putRecordTx v now db = Inr db' \<Longrightarrow> keyed (records db) \<Longrightarrow> moves_forward db db'"
  using putRecordTx_effect(1,2) by (fastforce simp: moves_forward_def)

lemma putDiscovered_forward:
  assumes "putDiscoveredRecordTx v now db = Inr db'" "keyed (records db)"
  shows "moves_forward db db'"
  using assms moves_forward_refl putRecordTx_forward
  by (auto simp: putDiscoveredRecordTx_def split: option.splits if_splits)

text \<open>Nothing is lost, and every row moves forward.\<close>

definition carries :: "(string \<times> string, RecordRow) tab \<Rightarrow> (string \<times> string, RecordRow) tab \<Rightarrow> bool" where
  "carries t t' \<longleftrightarrow> (\<forall>k r. get t k = Some r \<longrightarrow> (\<exists>r'. get t' k = Some r' \<and> (rr_sequence r < rr_sequence r' \<or> r' = r)))"

lemma carriesE:
  assumes "carries t t'" "get t k = Some r"
  obtains r' where "get t' k = Some r'" "rr_sequence r < rr_sequence r' \<or> r' = r"
  using assms unfolding carries_def by blast

lemma carries_refl: "carries t t"
  by (simp add: carries_def)

lemma carries_trans:
  assumes "carries t t'" "carries t' t''"
  shows "carries t t''"
  unfolding carries_def
proof (intro allI impI)
  fix k r
  assume "get t k = Some r"
  then obtain r1 where r1: "get t' k = Some r1" "rr_sequence r < rr_sequence r1 \<or> r1 = r" by (rule carriesE [OF assms(1)])
  from assms(2) r1(1) obtain r2 where "get t'' k = Some r2" "rr_sequence r1 < rr_sequence r2 \<or> r2 = r1" by (rule carriesE)
  with r1 show "\<exists>r'. get t'' k = Some r' \<and> (rr_sequence r < rr_sequence r' \<or> r' = r)" by auto
qed

lemma putDiscovered_carries:
  assumes "putDiscoveredRecordTx v now db = Inr db'" "keyed (records db)"
  shows "carries (records db) (records db')"
  unfolding carries_def
proof (intro allI impI)
  fix k r
  assume k: "get (records db) k = Some r"
  obtain r' where r': "get (records db') k = Some r'"
    using putDiscovered_view(1) [OF assms(1), of k] k by (cases "k = rec_key v") simp_all
  then show "\<exists>r'. get (records db') k = Some r' \<and> (rr_sequence r < rr_sequence r' \<or> r' = r)"
    using moves_forwardD [OF putDiscovered_forward [OF assms] k] by blast
qed

lemma put_all_forward:
  assumes "put_all now vs db = Inr db'" "keyed (records db)"
  shows "keyed (records db')" "carries (records db) (records db')"
proof -
  have "keyed (records db') \<and> carries (records db) (records db')"
    using assms
  proof (induction vs arbitrary: db)
    case Nil
    then show ?case by (simp add: carries_refl)
  next
    case (Cons v vs)
    then obtain db1 where s: "putDiscoveredRecordTx v now db = Inr db1" "put_all now vs db1 = Inr db'" by (auto simp: result_simps)
    have "keyed (records db1)" by (rule putDiscovered_view(2) [OF s(1) Cons.prems(2)])
    from Cons.IH [OF s(2) this] show ?case
      using carries_trans [OF putDiscovered_carries [OF s(1) Cons.prems(2)]] by blast
  qed
  then show "keyed (records db')" "carries (records db) (records db')" by blast+
qed

lemma reconcile_forward:
  assumes "reconcileAuthoritativeSnapshotOnce clock scope s lease db = (r, db')" "keyed (records db)"
  shows "moves_forward db db'"
  using assms(1)
proof (cases rule: reconcile_cases)
  case failed
  then show ?thesis using assms(2) moves_forward_refl by simp
next
  case (ok rs)
  have f: "keyed rs" "carries (records db) rs" using put_all_forward [OF ok(2) assms(2)] by simp_all
  have recs: "records db' = del_where (stale_row scope (as_Records s) clock) rs" by (simp add: ok(9))
  show ?thesis
    unfolding moves_forward_def recs
  proof (intro conjI allI impI)
    fix k r r'
    assume k: "get (records db) k = Some r" and k': "get (del_where (stale_row scope (as_Records s) clock) rs) k = Some r'"
    obtain r1 where "get rs k = Some r1" "rr_sequence r < rr_sequence r1 \<or> r1 = r" by (rule carriesE [OF f(2) k])
    then show "rr_sequence r < rr_sequence r' \<or> r' = r" using del_where_effect [OF f(1) k'] by auto
  qed (simp add: f(1))
qed

lemma publish_forward:
  assumes "PutRecord clock v db = (r, db')" "keyed (records db)"
  shows "moves_forward db db'"
  using assms(1) unfolding PutRecord_def
proof (cases rule: tables_tx_cases)
  case failed
  then show ?thesis using moves_forward_refl [OF assms(2)] by simp
next
  case ok
  then show ?thesis by (intro putRecordTx_forward [OF _ assms(2)])
qed

lemma authoritative_forward:
  assumes "PutAuthoritativeRecord clock v db = (r, db')" "keyed (records db)"
  shows "moves_forward db db'"
  using assms(1) unfolding PutAuthoritativeRecord_def
proof (cases rule: tables_tx_cases)
  case failed
  then show ?thesis using moves_forward_refl [OF assms(2)] by simp
next
  case ok
  then obtain db1 where s: "putRecordTx v clock db = Inr db1" "advanceAuthoritySnapshotTx (rec_Scope v) db1 = Inr db'"
    by (auto simp: result_simps)
  show ?thesis by (rule moves_forward_cong [OF putRecordTx_forward [OF s(1) assms(2)] advance_effect(1) [OF s(2)]])
qed

lemma snapshot_forward:
  assumes "AuthoritySnapshot clock scope limit db = (r, db')" "keyed (records db)"
  shows "moves_forward db db'"
  using assms(1)
proof (cases rule: AuthoritySnapshot_cases)
  case failed
  then show ?thesis using moves_forward_refl [OF assms(2)] by simp
next
  case (ok generation highWater rows)
  show ?thesis by (rule moves_forward_del [OF assms(2) prune_effect(1) [OF ok(1)]])
qed

text \<open>Recording a failed refresh touches the freshness of its scope only.\<close>

lemma failure_cases:
  assumes "recordSnapshotFailure clock scope source e retry lease db = (r, db')"
  obtains (failed) "db' = db" "\<not> is_ok r"
  | (ok) "db' = put_failure scope source e retry clock db" "r = Inr ()" "lease = None \<or> (\<exists>l. lease = Some l \<and> leaseCurrentTx l clock db = None)"
proof (cases "source \<noteq> SnapshotSourcePinnedAuthority \<or> e = []")
  case True
  then show thesis using assms failed by (auto simp: recordSnapshotFailure_def)
next
  case False
  then have "tables_tx db (case lease of None \<Rightarrow> Inr (put_failure scope source e retry clock db)
         | Some l \<Rightarrow> check (leaseCurrentTx l clock db) (Inr (put_failure scope source e retry clock db))) = (r, db')"
    using assms unfolding recordSnapshotFailure_def by (simp only: if_not_P [OF False] if_False)
  then show thesis
  proof (cases rule: tables_tx_cases)
    case f: failed
    then show thesis by (rule failed)
  next
    case o: ok
    then show thesis using ok by (cases lease) (simp_all add: result_simps)
  qed
qed

lemma failure_frame: "records (put_failure scope source e retry now db) = records db"
  "authority_snapshots (put_failure scope source e retry now db) = authority_snapshots db"
  by (simp_all add: put_failure_def Let_def)

lemma prune_records:
  assumes "PruneExpiredRecords now db = (n, db')"
  shows "records db' = del_where (expired_cache now) (records db) \<or> db' = db" "scope_freshness db' = scope_freshness db"
    "authority_snapshots db' = authority_snapshots db"
  using assms by (auto simp: PruneExpiredRecords_def split: option.splits)

lemma step_forward:
  assumes "record_step db db'" "keyed (records db)"
  shows "moves_forward db db'"
  using assms(1)
proof cases
  case (publish clock v r)
  then show ?thesis by (rule publish_forward [OF _ assms(2)])
next
  case authority
  then show ?thesis
  proof cases
    case (authoritative clock v r)
    then show ?thesis by (rule authoritative_forward [OF _ assms(2)])
  next
    case (ensure scope r)
    then have "records db' = records db" by (auto simp: EnsureAuthoritySnapshot_def split: option.splits)
    then show ?thesis by (rule moves_forward_cong [OF moves_forward_refl [OF assms(2)]])
  next
    case (snapshot clock scope limit r')
    then show ?thesis by (rule snapshot_forward [OF _ assms(2)])
  next
    case (reconcile clock scope s lease r)
    then show ?thesis by (rule reconcile_forward [OF _ assms(2)])
  next
    case (failure clock scope source e retry lease r)
    then have "records db' = records db" by (cases rule: failure_cases) (simp_all add: failure_frame)
    then show ?thesis by (rule moves_forward_cong [OF moves_forward_refl [OF assms(2)]])
  next
    case (prune now n)
    from prune_records(1) [OF prune] show ?thesis
      using moves_forward_refl [OF assms(2)] moves_forward_del [OF assms(2)] by blast
  qed
qed

lemma record_run_keyed: "record_step\<^sup>*\<^sup>* db db' \<Longrightarrow> keyed (records db) \<Longrightarrow> keyed (records db')"
  by (induction rule: rtranclp_induct) (use step_forward in \<open>auto simp: moves_forward_def\<close>)

section \<open>Freshness only moves forward\<close>

definition fresher :: "Store \<Rightarrow> Store \<Rightarrow> bool" where
  "fresher db db' \<longleftrightarrow> (\<forall>scope row. get (scope_freshness db) scope = Some row \<longrightarrow>
     (\<exists>row'. get (scope_freshness db') scope = Some row'
        \<and> fr_snapshot_generation row \<le> fr_snapshot_generation row' \<and> fr_snapshot_high_water row \<le> fr_snapshot_high_water row'
        \<and> (fr_snapshot_generation row' = fr_snapshot_generation row \<and> fr_snapshot_digest row \<noteq> [] \<longrightarrow>
             fr_snapshot_digest row' = fr_snapshot_digest row \<and> fr_snapshot_high_water row' = fr_snapshot_high_water row)))"

lemma fresher_same: "scope_freshness db' = scope_freshness db \<Longrightarrow> fresher db db'"
  by (simp add: fresher_def)

lemma fresher_put:
  assumes "scope_freshness db' = put scope row' (scope_freshness db)"
    "\<And>row. get (scope_freshness db) scope = Some row \<Longrightarrow>
       fr_snapshot_generation row \<le> fr_snapshot_generation row' \<and> fr_snapshot_high_water row \<le> fr_snapshot_high_water row'
        \<and> (fr_snapshot_generation row' = fr_snapshot_generation row \<and> fr_snapshot_digest row \<noteq> [] \<longrightarrow>
             fr_snapshot_digest row' = fr_snapshot_digest row \<and> fr_snapshot_high_water row' = fr_snapshot_high_water row)"
  shows "fresher db db'"
  using assms by (simp add: fresher_def)

lemma step_fresher:
  assumes "record_step db db'"
  shows "fresher db db'"
  using assms
proof cases
  case (publish clock v r)
  then have "scope_freshness db' = scope_freshness db"
    unfolding PutRecord_def by (cases rule: tables_tx_cases) (simp_all add: putRecordTx_effect(3))
  then show ?thesis by (rule fresher_same)
next
  case authority
  then show ?thesis
  proof cases
    case (authoritative clock v r)
    then have "scope_freshness db' = scope_freshness db"
      unfolding PutAuthoritativeRecord_def
      by (cases rule: tables_tx_cases) (auto simp: result_simps putRecordTx_effect(3) dest!: advance_effect(2))
    then show ?thesis by (rule fresher_same)
  next
    case (ensure scope r)
    then have "scope_freshness db' = scope_freshness db" by (auto simp: EnsureAuthoritySnapshot_def split: option.splits)
    then show ?thesis by (rule fresher_same)
  next
    case (snapshot clock scope limit r')
    then have "scope_freshness db' = scope_freshness db"
      by (cases rule: AuthoritySnapshot_cases) (simp_all add: prune_effect(2))
    then show ?thesis by (rule fresher_same)
  next
    case (reconcile clock scope s lease r)
    then show ?thesis
    proof (cases rule: reconcile_cases)
      case failed
      then show ?thesis by (simp add: fresher_same)
    next
      case (ok rs)
      then have "scope_freshness db' = put scope (success_row s clock) (scope_freshness db)" by simp
      then show ?thesis
        by (rule fresher_put) (use ok(7) in \<open>auto simp: snapshot_order_def success_row_def split: if_splits\<close>)
    qed
  next
    case (failure clock scope source e retry lease r)
    then show ?thesis
    proof (cases rule: failure_cases)
      case failed
      then show ?thesis by (simp add: fresher_same)
    next
      case ok
      then show ?thesis by (intro fresher_put) (auto simp: put_failure_def Let_def)
    qed
  next
    case (prune now n)
    then show ?thesis by (intro fresher_same prune_records(2))
  qed
qed

section \<open>Generations tell contents apart\<close>

text \<open>The authority's own records of a scope.\<close>

abbreviation authority_rows :: "string \<Rightarrow> Store \<Rightarrow> ((string \<times> string) \<times> RecordRow) list" where
  "authority_rows scope db \<equiv> filter (\<lambda>(k, row). authority_row scope k row) (records db)"

definition generation_of :: "string \<Rightarrow> Store \<Rightarrow> nat" where
  "generation_of scope db = (case get (authority_snapshots db) scope of None \<Rightarrow> 0 | Some (g, _) \<Rightarrow> g)"

definition tells_apart :: "string \<Rightarrow> Store \<Rightarrow> Store \<Rightarrow> bool" where
  "tells_apart scope db db' \<longleftrightarrow> generation_of scope db < generation_of scope db'
     \<or> generation_of scope db = generation_of scope db' \<and> authority_rows scope db' = authority_rows scope db"

lemma tells_apart_trans: "tells_apart scope db db' \<Longrightarrow> tells_apart scope db' db'' \<Longrightarrow> tells_apart scope db db''"
  by (auto simp: tells_apart_def)

lemma tells_apart_same:
  "get (authority_snapshots db') scope = get (authority_snapshots db) scope \<Longrightarrow> authority_rows scope db' = authority_rows scope db
   \<Longrightarrow> tells_apart scope db db'"
  by (simp add: tells_apart_def generation_of_def)

lemma tells_apart_advanced:
  assumes "\<exists>g h. get (authority_snapshots db') scope = Some (g, h) \<and> 0 < g \<and> (\<forall>g0 h0. get (authority_snapshots db) scope = Some (g0, h0) \<longrightarrow> g0 < g)"
  shows "tells_apart scope db db'"
  using assms by (cases "get (authority_snapshots db) scope") (auto simp: tells_apart_def generation_of_def)

lemma del_where_rows:
  "(\<And>k row. authority_row scope k row \<Longrightarrow> \<not> P k row) \<Longrightarrow>
   filter (\<lambda>(k, row). authority_row scope k row) (del_where P t) = filter (\<lambda>(k, row). authority_row scope k row) t"
  by (auto simp: del_where_def intro!: filter_cong)

lemma step_tells_apart:
  assumes "authority_step db db'"
  shows "tells_apart scope db db'"
  using assms
proof cases
  case (authoritative clock v r)
  then show ?thesis
    unfolding PutAuthoritativeRecord_def
  proof (cases rule: tables_tx_cases)
    case failed
    then show ?thesis by (intro tells_apart_same) simp_all
  next
    case ok
    then obtain db1 where s: "putRecordTx v clock db = Inr db1" "advanceAuthoritySnapshotTx (rec_Scope v) db1 = Inr db'"
      by (auto simp: result_simps)
    note p = putRecordTx_effect [OF s(1)] and a = advance_effect [OF s(2)]
    show ?thesis
    proof (cases "scope = rec_Scope v")
      case True
      then show ?thesis using a(3) p(4) by (intro tells_apart_advanced) simp
    next
      case False
      then show ?thesis using a(1,4) p(4,5) by (intro tells_apart_same) simp_all
    qed
  qed
next
  case (ensure sc r)
  show ?thesis
  proof (cases "db' = db")
    case False
    then have "db' = db\<lparr>authority_snapshots := put sc (1, 1) (authority_snapshots db)\<rparr>" "get (authority_snapshots db) sc = None"
      using ensure by (auto simp: EnsureAuthoritySnapshot_def split: option.splits)
    then show ?thesis by (auto simp: tells_apart_def generation_of_def)
  qed (simp add: tells_apart_same)
next
  case (snapshot clock sc limit r')
  then show ?thesis
  proof (cases rule: AuthoritySnapshot_cases)
    case failed
    then show ?thesis by (simp add: tells_apart_same)
  next
    case (ok generation highWater rows)
    note p = prune_effect [OF ok(1)]
    show ?thesis
    proof (cases "scope = sc")
      case True
      then show ?thesis using p(4) by (auto intro: tells_apart_same tells_apart_advanced)
    next
      case False
      then have "authority_rows scope db' = authority_rows scope db"
        unfolding p(1) by (intro del_where_rows) (auto simp: authority_row_def)
      then show ?thesis using p(3) False by (intro tells_apart_same) simp_all
    qed
  qed
next
  case (reconcile clock sc s lease r)
  then show ?thesis
  proof (cases rule: reconcile_cases)
    case failed
    then show ?thesis by (simp add: tells_apart_same)
  next
    case (ok rs)
    have "filter (\<lambda>(k, row). authority_row scope k row) (del_where (stale_row sc (as_Records s) clock) rs)
        = filter (\<lambda>(k, row). authority_row scope k row) rs"
      by (rule del_where_rows) (auto simp: authority_row_def stale_row_def)
    then show ?thesis
      using put_all_view(3) [OF ok(2,5,4), of scope] ok(9) by (intro tells_apart_same) simp_all
  qed
next
  case (failure clock sc source e retry lease r)
  then show ?thesis by (cases rule: failure_cases) (simp_all add: tells_apart_same failure_frame)
next
  case (prune now n)
  have "filter (\<lambda>(k, row). authority_row scope k row) (del_where (expired_cache now) (records db)) = authority_rows scope db"
    by (rule del_where_rows) (simp add: authority_row_def expired_cache_def)
  then show ?thesis using prune_records [OF prune] by (intro tells_apart_same) auto
qed

lemma run_tells_apart: "authority_step\<^sup>*\<^sup>* db db' \<Longrightarrow> tells_apart scope db db'"
  by (induction rule: rtranclp_induct) (auto intro: tells_apart_same tells_apart_trans step_tells_apart)

text \<open>A snapshot is a function of the authority's records.\<close>

lemma AuthoritySnapshot_rows:
  assumes "AuthoritySnapshot clock scope limit db = (Inr s, db')"
  obtains rows where "scan_records (take (nat limit + 1) (by_name (authority_rows scope db'))) = Inr rows"
    "sn_Records s = take (nat limit) rows" "sn_Complete s \<longleftrightarrow> length rows \<le> nat limit" "sn_Generation s = generation_of scope db'"
  using assms
proof (cases rule: AuthoritySnapshot_cases)
  case (ok generation highWater rows)
  have "filter (\<lambda>(k, row). authority_row scope k row \<and> rr_expires_at row > FormatUTC clock) (records db') = authority_rows scope db'"
    unfolding prune_effect(1) [OF ok(1)] by (auto simp: del_where_def intro!: filter_cong)
  then have "scan_records (take (nat limit + 1) (by_name (authority_rows scope db'))) = Inr rows" using ok(3) by simp
  then show thesis using that ok(2,4) by (simp add: generation_of_def)
qed simp

section \<open>Fencing\<close>

lemma fence_lost: "fenced l db = None \<Longrightarrow> leaseCurrentTx l now db = Some ErrScopeSyncLeaseLost"
  by (simp add: leaseCurrentTx_def)

section \<open>Properties\<close>

text \<open>C8. Reconciling with a snapshot refines an operation on the cache view: when the transaction succeeds, the rows by key are
  exactly the reconciled view of the rows before. The scope's locally owned records and all other scopes are as before;
  the remaining records of the scope are those of the snapshot, kept where the sequence was the same, without the expired ones.
  When it fails, nothing changed.\<close>

theorem reconcile_refines_view:
  assumes "reconcileAuthoritativeSnapshotOnce clock scope s lease db = (r, db')" "keyed (records db)"
  shows "get (records db') = (if is_ok r then reconciled_view clock scope (as_Records s) (get (records db)) else get (records db))"
  using assms(1)
proof (cases rule: reconcile_cases)
  case (ok rs)
  then have "records db' = del_where (stale_row scope (as_Records s) clock) rs" by simp
  then show ?thesis using reconcile_view [OF ok(2,5,4) assms(2)] ok(1) by auto
qed simp

definition example_record :: Record where
  "example_record = \<lparr>rec_Scope = ''c/n'', rec_PipeID = ''pip_1'', rec_Name = ''web'', rec_Payload = ''x'', rec_ExpiresAt = 60 * second,
     rec_Sequence = 4, rec_Discovered = False\<rparr>"

definition example_snapshot :: AuthoritativeSnapshot where
  "example_snapshot = \<lparr>as_Source = SnapshotSourcePinnedAuthority, as_Complete = True, as_Generation = 2, as_HighWater = 3,
     as_Digest = replicate 64 (CHR ''0''), as_Records = [example_record]\<rparr>"

lemma example_record_valid: "validateStoredRecord example_record 0 = None"
proof -
  have "\<not> blank ''pip_1''" by (rule graphic_not_blank; simp add: graphic_def byte_def)
  moreover have "Scope_Validate \<lparr>Cluster = ''c'', Namespace = ''n''\<rparr> = None"
    by (simp add: Scope_Validate_def resourceNamePattern_def name_start_def is_lower_def byte_def)
  ultimately show ?thesis by (simp add: validateStoredRecord_def example_record_def second_def)
qed

lemma validate_discovered [simp]: "validateStoredRecord (v\<lparr>rec_Discovered := b\<rparr>) now = validateStoredRecord v now"
  by (simp add: validateStoredRecord_def)

lemma example_reconcile:
  obtains db' where "reconcileAuthoritativeSnapshotOnce 0 ''c/n'' example_snapshot None empty_store = (Inr (), db')"
proof -
  have k: "rec_Scope example_record = ''c/n''" "rec_PipeID example_record = ''pip_1''" by (simp_all add: example_record_def)
  have "putDiscoveredRecordTx example_record 0 empty_store
      = Inr (empty_store\<lparr>records := put (''c/n'', ''pip_1'') (row_of (example_record\<lparr>rec_Discovered := True\<rparr>)) []\<rparr>)"
    using example_record_valid k by (simp add: putDiscoveredRecordTx_def putRecordTx_def empty_store_def)
  then have "put_all 0 [example_record] empty_store
      = Inr (empty_store\<lparr>records := put (''c/n'', ''pip_1'') (row_of (example_record\<lparr>rec_Discovered := True\<rparr>)) []\<rparr>)" by simp
  moreover have "snapshot_meta ''c/n'' example_snapshot = None" "snapshot_order example_snapshot (get (scope_freshness empty_store) ''c/n'') = None"
    "as_Records example_snapshot = [example_record]" "uint64_arg (as_Generation example_snapshot) = None"
    "uint64_arg (as_HighWater example_snapshot) = None" "db_fault empty_store = None"
    by (simp_all add: snapshot_meta_def example_snapshot_def MaxSnapshotRecords_def snapshot_order_def empty_store_def uint64_arg_def)
  ultimately show thesis
    using that example_record_valid k
    by (simp add: reconcileAuthoritativeSnapshotOnce_def tables_tx_def write_tx_def reconcile_body_def put_success_def)
qed

theorem reconcile_refines_view_witness:
  "\<exists>db'. reconcileAuthoritativeSnapshotOnce 0 ''c/n'' example_snapshot None empty_store = (Inr (), db')
     \<and> get (records db') = reconciled_view 0 ''c/n'' [example_record] (get [])"
proof -
  obtain db' where a: "reconcileAuthoritativeSnapshotOnce 0 ''c/n'' example_snapshot None empty_store = (Inr (), db')"
    by (rule example_reconcile)
  have "keyed (records empty_store)" by (simp add: empty_store_def)
  from reconcile_refines_view [OF a this] a show ?thesis
    by (intro exI [of _ db']) (simp add: example_snapshot_def empty_store_def)
qed

text \<open>C9. Records and snapshots never roll back: in a store reached by any sequence of publications, snapshots, reconciliations,
  failures and prunings, the next operation leaves every record that stays under its key unchanged or with a greater sequence, and
  the known generation and watermark of every scope do not decrease; a generation known with a digest
  keeps its digest and watermark.\<close>

theorem records_never_roll_back:
  assumes "record_step\<^sup>*\<^sup>* empty_store db" "record_step db db'"
  shows "moves_forward db db' \<and> fresher db db'"
proof -
  have "keyed (records db)" using record_run_keyed [OF assms(1)] by (simp add: empty_store_def)
  then show ?thesis using step_forward [OF assms(2)] step_fresher [OF assms(2)] by blast
qed

theorem records_never_roll_back_witness:
  "\<exists>db. record_step\<^sup>*\<^sup>* empty_store db \<and> get (scope_freshness db) ''c/n'' \<noteq> None
     \<and> moves_forward db (snd (PutRecord 0 example_record db)) \<and> fresher db (snd (PutRecord 0 example_record db))"
proof -
  obtain db where a: "reconcileAuthoritativeSnapshotOnce 0 ''c/n'' example_snapshot None empty_store = (Inr (), db)"
    by (rule example_reconcile)
  then have r: "record_step\<^sup>*\<^sup>* empty_store db" by (intro r_into_rtranclp record_step.authority authority_step.reconcile)
  have "get (scope_freshness db) ''c/n'' \<noteq> None" using a by (cases rule: reconcile_cases) auto
  moreover have "record_step db (snd (PutRecord 0 example_record db))"
    by (rule record_step.publish [OF surjective_pairing])
  ultimately show ?thesis using records_never_roll_back [OF r] r by blast
qed

text \<open>C10. A snapshot generation identifies its content: between two snapshots that an authority serves for a scope with the same limit,
  whatever it publishes, prunes or reconciles, the generation does not decrease, and if it is the same then the two
  snapshots carry the same records and the same completeness.\<close>

theorem snapshot_generation_identifies:
  assumes "AuthoritySnapshot clock1 scope limit db0 = (Inr s1, db1)" "authority_step\<^sup>*\<^sup>* db1 db2"
    "AuthoritySnapshot clock2 scope limit db2 = (Inr s2, db3)"
  shows "sn_Generation s1 < sn_Generation s2
    \<or> sn_Generation s1 = sn_Generation s2 \<and> sn_Records s1 = sn_Records s2 \<and> sn_Complete s1 = sn_Complete s2"
proof -
  have "tells_apart scope db1 db3"
    by (rule tells_apart_trans [OF run_tells_apart [OF assms(2)] step_tells_apart [OF authority_step.snapshot [OF assms(3)]]])
  moreover obtain rows1 where
    "scan_records (take (nat limit + 1) (by_name (authority_rows scope db1))) = Inr rows1"
    "sn_Records s1 = take (nat limit) rows1" "sn_Complete s1 \<longleftrightarrow> length rows1 \<le> nat limit" "sn_Generation s1 = generation_of scope db1"
    by (rule AuthoritySnapshot_rows [OF assms(1)])
  moreover obtain rows2 where
    "scan_records (take (nat limit + 1) (by_name (authority_rows scope db3))) = Inr rows2"
    "sn_Records s2 = take (nat limit) rows2" "sn_Complete s2 \<longleftrightarrow> length rows2 \<le> nat limit" "sn_Generation s2 = generation_of scope db3"
    by (rule AuthoritySnapshot_rows [OF assms(3)])
  ultimately show ?thesis by (auto simp: tells_apart_def)
qed

lemma example_authority:
  obtains db where "EnsureAuthoritySnapshot ''c/n'' empty_store = (Inr (), db)"
    "AuthoritySnapshot 0 ''c/n'' 8 db = (Inr \<lparr>sn_Records = [], sn_Generation = 1, sn_HighWater = 1, sn_Complete = True\<rparr>, db)"
proof -
  let ?db = "empty_store\<lparr>authority_snapshots := [(''c/n'', (1, 1))]\<rparr>"
  have "EnsureAuthoritySnapshot ''c/n'' empty_store = (Inr (), ?db)" by (simp add: EnsureAuthoritySnapshot_def empty_store_def)
  moreover have "AuthoritySnapshot 0 ''c/n'' 8 ?db = (Inr \<lparr>sn_Records = [], sn_Generation = 1, sn_HighWater = 1, sn_Complete = True\<rparr>, ?db)"
    by (simp add: AuthoritySnapshot_def MaxSnapshotRecords_def write_tx_def prune_authority_def Let_def empty_store_def by_name_def
        del_where_def)
  ultimately show thesis by (rule that)
qed

theorem snapshot_generation_identifies_witness:
  "\<exists>db db2 s. fst (AuthoritySnapshot 0 ''c/n'' 8 db) = Inr s \<and> PutAuthoritativeRecord 0 example_record db = (Inr (), db2)
     \<and> (\<forall>s2. fst (AuthoritySnapshot 1 ''c/n'' 8 db2) = Inr s2 \<longrightarrow> sn_Generation s \<le> sn_Generation s2)"
proof -
  obtain db where d: "EnsureAuthoritySnapshot ''c/n'' empty_store = (Inr (), db)"
    "AuthoritySnapshot 0 ''c/n'' 8 db = (Inr \<lparr>sn_Records = [], sn_Generation = 1, sn_HighWater = 1, sn_Complete = True\<rparr>, db)"
    by (rule example_authority)
  from d(1) have db: "db = empty_store\<lparr>authority_snapshots := [(''c/n'', (1, 1))]\<rparr>" by (simp add: EnsureAuthoritySnapshot_def empty_store_def)
  obtain db2 where p: "PutAuthoritativeRecord 0 example_record db = (Inr (), db2)"
  proof -
    have "rec_Scope example_record = ''c/n''" by (simp add: example_record_def)
    then show thesis
      using that example_record_valid
      by (simp add: PutAuthoritativeRecord_def putRecordTx_def db empty_store_def tables_tx_def write_tx_def advanceAuthoritySnapshotTx_def)
  qed
  have run: "authority_step\<^sup>*\<^sup>* db db2" by (rule r_into_rtranclp, rule authority_step.authoritative [OF p])
  have "sn_Generation \<lparr>sn_Records = [], sn_Generation = 1, sn_HighWater = 1, sn_Complete = True\<rparr> \<le> sn_Generation s2"
    if "fst (AuthoritySnapshot 1 ''c/n'' 8 db2) = Inr s2" for s2
  proof -
    have "AuthoritySnapshot 1 ''c/n'' 8 db2 = (Inr s2, snd (AuthoritySnapshot 1 ''c/n'' 8 db2))" using that by (simp add: prod_eq_iff)
    from snapshot_generation_identifies [OF d(2) run this] show ?thesis by auto
  qed
  then show ?thesis
    using d(2) p by (intro exI [of _ db] exI [of _ db2] exI [of _ "\<lparr>sn_Records = [], sn_Generation = 1, sn_HighWater = 1, sn_Complete = True\<rparr>"]) simp
qed

text \<open>C15. A displaced sync owner is fenced off: once another process acquired the scope with its own token, the former owner can neither
  renew nor release the lease, and neither the reconciliation nor the failure record it attempts with its lease changes the store.\<close>

theorem displaced_owner_fenced:
  assumes "AcquireScopeSyncLease rnd (ssl_Scope l) h p now ttl db0 = (Inr (m, True), db)" "ssl_Token m \<noteq> ssl_Token l"
  shows "fst (RenewScopeSyncLease l at d db) \<noteq> Inr True \<and> snd (RenewScopeSyncLease l at d db) = db
    \<and> fst (ReleaseScopeSyncLease l db) \<noteq> Inr True \<and> snd (ReleaseScopeSyncLease l db) = db
    \<and> \<not> is_ok (fst (ReconcileAuthoritativeSnapshotWithLease at l s db)) \<and> snd (ReconcileAuthoritativeSnapshotWithLease at l s db) = db
    \<and> \<not> is_ok (fst (RecordSnapshotFailureWithLease at l source e retry db)) \<and> snd (RecordSnapshotFailureWithLease at l source e retry db) = db"
proof -
  have f: "fenced l db = None"
    using assms(1)
  proof (cases rule: Acquire_cases)
    case (acquired token m')
    then have "get (scope_sync_leases db) (ssl_Scope l) = Some (lease_row m)" by simp
    then show ?thesis using assms(2) by (simp add: fenced_def lease_row_def)
  qed blast
  have c: "leaseCurrentTx l at db \<noteq> None" using fence_lost [OF f] by simp
  obtain r1 db1 where 1: "RenewScopeSyncLease l at d db = (r1, db1)" by fastforce
  obtain r2 db2 where 2: "ReleaseScopeSyncLease l db = (r2, db2)" by fastforce
  obtain r3 db3 where 3: "reconcileAuthoritativeSnapshotOnce at (ssl_Scope l) s (Some l) db = (r3, db3)" by fastforce
  obtain r4 db4 where 4: "recordSnapshotFailure at (ssl_Scope l) source e retry (Some l) db = (r4, db4)" by fastforce
  have "r1 \<noteq> Inr True \<and> db1 = db" using 1 by (cases rule: Renew_cases) (simp_all add: f)
  moreover have "r2 \<noteq> Inr True \<and> db2 = db" using 2 by (cases rule: Release_cases) (simp_all add: f)
  moreover have "\<not> is_ok r3 \<and> db3 = db" using 3 by (cases rule: reconcile_cases) (use c in simp_all)
  moreover have "\<not> is_ok r4 \<and> db4 = db" using 4 by (cases rule: failure_cases) (use c in simp_all)
  ultimately show ?thesis
    using 1 2 3 4 by (simp add: ReconcileAuthoritativeSnapshotWithLease_def RecordSnapshotFailureWithLease_def)
qed

theorem displaced_owner_fenced_witness:
  "snd (ReconcileAuthoritativeSnapshotWithLease second (example_lease\<lparr>ssl_Token := ''old''\<rparr>) example_snapshot example_leases) = example_leases"
proof -
  let ?l = "example_lease\<lparr>ssl_Token := ''old''\<rparr>"
  have a: "AcquireScopeSyncLease (Inr ''abc'') (ssl_Scope ?l) ''run/a'' ''p1'' (second div 2) (30 * second) empty_store
      = (Inr (example_lease, True), example_leases)"
    using example_acquire by (simp add: example_lease_def new_lease_def)
  have "length (b64_encode ''abc'') = 4" by (simp add: length_b64_encode)
  then have "ssl_Token example_lease \<noteq> ssl_Token ?l" by (auto simp: example_lease_def new_lease_def)
  from displaced_owner_fenced [OF a this] show ?thesis by blast
qed

end
