(* ===== verification/Session.thy ===== *)
theory Session
  imports Prelude "HOL-Library.Word" "HOL-Library.AList"
begin

text \<open>
  Sessions and their owners (src/internal/runtime/session.go, ownership.go). Every method the code runs under a mutex is
  one function on the state of its object. Pointers are indices: of a session among the sessions ever made, of a Pipe
  runtime among those of its node. A context is the flag that says whether its \<^verbatim>\<open>cancel\<close> was called; \<^verbatim>\<open>ctx.Err()\<close> asks
  it and those of its parents. A channel that is only closed is the flag that says whether it is.
\<close>

section \<open>Sessions\<close>

datatype SessionState = StateActive | StateClosing | StateClosed

fun SessionState_String :: "SessionState \<Rightarrow> string" where
  "SessionState_String StateActive = ''active''"
| "SessionState_String StateClosing = ''closing''"
| "SessionState_String StateClosed = ''closed''"

record sessionPump =
  sp_SessionID :: string
  sp_PipeID :: string
  sp_Scope :: string
  sp_epoch :: "64 word"
  sp_state :: SessionState
  sp_activeCarrier :: "nat option"
  sp_targetConn :: "nat option"
  sp_parent :: nat
  sp_cancelled :: bool
  sp_carrierCancelled :: bool
  sp_stopDone :: bool
  sp_stopping :: bool
  sp_workCount :: int
  sp_workClosed :: bool
  sp_isClient :: bool
  sp_bytesIn :: "64 word"
  sp_bytesOut :: "64 word"
  sp_completedCleanly :: bool

record sessionConfig =
  sc_SessionID :: string
  sc_PipeID :: string
  sc_Scope :: string
  sc_TargetConn :: "nat option"
  sc_InitialEpoch :: "64 word"
  sc_IsClient :: bool

text \<open>\<open>owned\<close> is the admission fence the code repeats: neither stopping nor cancelled.\<close>

definition owned :: "bool \<Rightarrow> sessionPump \<Rightarrow> bool" where
  "owned ctxErr sp \<longleftrightarrow> \<not> (sp_stopping sp \<or> ctxErr)"

definition SetActiveCarrier :: "bool \<Rightarrow> nat \<Rightarrow> sessionPump \<Rightarrow> bool \<times> sessionPump" where
  "SetActiveCarrier ctxErr carrier sp =
     (if owned ctxErr sp then (True, sp\<lparr>sp_activeCarrier := Some carrier\<rparr>) else (False, sp))"

definition acceptDispatch :: "bool \<Rightarrow> sessionPump \<Rightarrow> bool" where
  "acceptDispatch ctxErr sp \<longleftrightarrow> owned ctxErr sp"

definition admitWork :: "bool \<Rightarrow> sessionPump \<Rightarrow> bool \<times> sessionPump" where
  "admitWork ctxErr sp =
     (if owned ctxErr sp then (True, sp\<lparr>sp_workCount := sp_workCount sp + 1\<rparr>) else (False, sp))"

definition closeWorkDoneLocked :: "sessionPump \<Rightarrow> sessionPump" where
  "closeWorkDoneLocked sp =
     (if sp_stopping sp \<and> sp_workCount sp = 0 \<and> \<not> sp_workClosed sp then sp\<lparr>sp_workClosed := True\<rparr> else sp)"

text \<open>\<open>None\<close> is the panic on an underflow of the work count.\<close>

definition finishWork :: "sessionPump \<Rightarrow> sessionPump option" where
  "finishWork sp =
     (let sp1 = sp\<lparr>sp_workCount := sp_workCount sp - 1\<rparr>
      in if sp_workCount sp1 < 0 then None else Some (closeWorkDoneLocked sp1))"

record sessionStopResources =
  sr_active :: "nat option"
  sr_target :: "nat option"

definition beginStop :: "sessionPump \<Rightarrow> sessionStopResources option \<times> sessionPump" where
  "beginStop sp =
     (if sp_stopping sp then (None, sp)
      else
        let sp1 = sp\<lparr>sp_stopping := True, sp_state := StateClosed\<rparr>;
            resources = \<lparr>sr_active = sp_activeCarrier sp1, sr_target = sp_targetConn sp1\<rparr>
        in (Some resources, closeWorkDoneLocked (sp1\<lparr>sp_activeCarrier := None\<rparr>)))"

definition ByteCounts :: "sessionPump \<Rightarrow> 64 word \<times> 64 word" where
  "ByteCounts sp = (sp_bytesIn sp, sp_bytesOut sp)"

section \<open>The registry and the runtimes\<close>

record sessionRegistry =
  rg_closed :: bool
  rg_sessions :: "(string \<times> nat) list"

definition errRuntimeClosed :: goerror where "errRuntimeClosed = Error ''runtime closed'' []"
definition errDuplicateSessionID :: goerror where "errDuplicateSessionID = Error ''duplicate session ID'' []"
definition errInvalidSessionID :: goerror where "errInvalidSessionID = Error ''invalid session ID'' []"

definition newSessionRegistry :: sessionRegistry where
  "newSessionRegistry = \<lparr>rg_closed = False, rg_sessions = []\<rparr>"

definition registry_get :: "sessionRegistry \<Rightarrow> string \<Rightarrow> nat option" where
  "registry_get r i = (if rg_closed r then None else map_of (rg_sessions r) i)"

definition registry_register :: "string \<Rightarrow> nat \<Rightarrow> sessionRegistry \<Rightarrow> sessionRegistry result" where
  "registry_register i p r =
     (if i = [] then Inl errInvalidSessionID
      else if rg_closed r then Inl errRuntimeClosed
      else if map_of (rg_sessions r) i \<noteq> None then Inl errDuplicateSessionID
      else Inr (r\<lparr>rg_sessions := AList.update i p (rg_sessions r)\<rparr>))"

definition registry_remove :: "string \<Rightarrow> nat \<Rightarrow> sessionRegistry \<Rightarrow> sessionRegistry" where
  "registry_remove i p r =
     (if map_of (rg_sessions r) i = Some p then r\<lparr>rg_sessions := AList.delete i (rg_sessions r)\<rparr> else r)"

text \<open>The order in which the map is ranged over is the one of the list.\<close>

definition registry_close :: "sessionRegistry \<Rightarrow> nat list \<times> sessionRegistry" where
  "registry_close r =
     (if rg_closed r then ([], r) else (map snd (rg_sessions r), \<lparr>rg_closed = True, rg_sessions = []\<rparr>))"

record PipeRuntime =
  pr_cancelled :: bool
  pr_closed :: bool
  pr_registry :: sessionRegistry
  pr_done :: bool

record NodeRuntime =
  nr_cancelled :: bool
  nr_closed :: bool
  nr_pipes :: "nat list"
  nr_done :: bool

text \<open>One process: its node, the Pipe runtimes and sessions it ever made, and what happened to the streams and local
  connections, numbered in the order of their arrival.\<close>

datatype action =
    SessionClosed nat
  | SessionReset nat
  | HandlerClosed nat
  | HandlerReset nat
  | TargetClosed nat

record Runtime =
  rt_node :: NodeRuntime
  rt_pipes :: "PipeRuntime list"
  rt_pumps :: "sessionPump list"
  rt_streams :: nat
  rt_actions :: "action list"
  rt_panicked :: bool

definition NewNodeRuntime :: Runtime where
  "NewNodeRuntime =
     \<lparr>rt_node = \<lparr>nr_cancelled = False, nr_closed = False, nr_pipes = [], nr_done = False\<rparr>, rt_pipes = [], rt_pumps = [],
      rt_streams = 0, rt_actions = [], rt_panicked = False\<rparr>"

definition NewPipeRuntime :: "Runtime \<Rightarrow> nat result \<times> Runtime" where
  "NewPipeRuntime s =
     (if nr_closed (rt_node s) \<or> nr_cancelled (rt_node s) then (Inl errRuntimeClosed, s)
      else
        let p = length (rt_pipes s)
        in (Inr p, s\<lparr>rt_pipes := rt_pipes s @
              [\<lparr>pr_cancelled = False, pr_closed = False, pr_registry = newSessionRegistry, pr_done = False\<rparr>],
            rt_node := (rt_node s)\<lparr>nr_pipes := List.insert p (nr_pipes (rt_node s))\<rparr>\<rparr>))"

definition removePipe :: "nat \<Rightarrow> NodeRuntime \<Rightarrow> NodeRuntime" where
  "removePipe p n = n\<lparr>nr_pipes := removeAll p (nr_pipes n)\<rparr>"

abbreviation pump :: "Runtime \<Rightarrow> nat \<Rightarrow> sessionPump" where "pump s a \<equiv> rt_pumps s ! a"
abbreviation pipe :: "Runtime \<Rightarrow> nat \<Rightarrow> PipeRuntime" where "pipe s p \<equiv> rt_pipes s ! p"

definition upd_pump :: "nat \<Rightarrow> (sessionPump \<Rightarrow> sessionPump) \<Rightarrow> Runtime \<Rightarrow> Runtime" where
  "upd_pump a f s = s\<lparr>rt_pumps := (rt_pumps s)[a := f (pump s a)]\<rparr>"

definition upd_pipe :: "nat \<Rightarrow> (PipeRuntime \<Rightarrow> PipeRuntime) \<Rightarrow> Runtime \<Rightarrow> Runtime" where
  "upd_pipe p f s = s\<lparr>rt_pipes := (rt_pipes s)[p := f (pipe s p)]\<rparr>"

definition act :: "action \<Rightarrow> Runtime \<Rightarrow> Runtime" where
  "act x s = s\<lparr>rt_actions := x # rt_actions s\<rparr>"

definition pipeErr :: "Runtime \<Rightarrow> nat \<Rightarrow> bool" where
  "pipeErr s p \<longleftrightarrow> pr_cancelled (pipe s p) \<or> nr_cancelled (rt_node s)"

definition ctxErr :: "Runtime \<Rightarrow> nat \<Rightarrow> bool" where
  "ctxErr s a \<longleftrightarrow> sp_cancelled (pump s a) \<or> pipeErr s (sp_parent (pump s a))"

definition newSessionPump :: "nat \<Rightarrow> sessionConfig \<Rightarrow> Runtime \<Rightarrow> nat result \<times> Runtime" where
  "newSessionPump p cfg s =
     (let a = length (rt_pumps s);
          epoch = (if sc_InitialEpoch cfg = 0 then 1 else sc_InitialEpoch cfg);
          sp = \<lparr>sp_SessionID = sc_SessionID cfg, sp_PipeID = sc_PipeID cfg, sp_Scope = sc_Scope cfg, sp_epoch = epoch,
                sp_state = StateActive, sp_activeCarrier = None, sp_targetConn = sc_TargetConn cfg, sp_parent = p,
                sp_cancelled = False, sp_carrierCancelled = False, sp_stopDone = False, sp_stopping = False,
                sp_workCount = 0, sp_workClosed = False, sp_isClient = sc_IsClient cfg, sp_bytesIn = 0, sp_bytesOut = 0,
                sp_completedCleanly = False\<rparr>
      in case registry_register (sc_SessionID cfg) a (pr_registry (pipe s p)) of
           Inl e \<Rightarrow> (Inl e, s)
         | Inr r \<Rightarrow> (Inr a, upd_pipe p (\<lambda>q. q\<lparr>pr_registry := r\<rparr>) (s\<lparr>rt_pumps := rt_pumps s @ [sp]\<rparr>)))"

definition NewSession :: "nat \<Rightarrow> sessionConfig \<Rightarrow> Runtime \<Rightarrow> nat result \<times> Runtime" where
  "NewSession p cfg s =
     (if pr_closed (pipe s p) \<or> pipeErr s p then (Inl errRuntimeClosed, s) else newSessionPump p cfg s)"

text \<open>The critical section of \<^verbatim>\<open>Close\<close> of a Pipe runtime: \<open>None\<close> when it is closed already.\<close>

definition beginClosePipe :: "nat \<Rightarrow> Runtime \<Rightarrow> nat list option \<times> Runtime" where
  "beginClosePipe p s =
     (if pr_closed (pipe s p) then (None, s)
      else case registry_close (pr_registry (pipe s p)) of
        (sessions, r) \<Rightarrow>
          (Some sessions, upd_pipe p (\<lambda>q. q\<lparr>pr_closed := True, pr_cancelled := True, pr_registry := r\<rparr>) s))"

definition beginCloseNode :: "Runtime \<Rightarrow> nat list option \<times> Runtime" where
  "beginCloseNode s =
     (let n = rt_node s
      in if nr_closed n then (None, s)
         else (Some (nr_pipes n), s\<lparr>rt_node := n\<lparr>nr_closed := True, nr_cancelled := True\<rparr>\<rparr>))"

end
