(* ===== verification/Lifecycle.thy ===== *)
theory Lifecycle
  imports Session "HOL-Library.Multiset"
begin

text \<open>
  The goroutines of a process around its sessions (src/internal/runtime/session.go, ownership.go, and the ends of serve.go
  and pipe.go that hand a stream to a session). A goroutine is the stack of what it still has to do; one step runs the top
  of one of the stacks, up to the next point where another goroutine can be observed: the end of a critical section, a
  wait, an operation on a stream. Waiting is having no step.
\<close>

section \<open>Goroutines\<close>

datatype stage = Cancel | CancelCarrier | EndCarrier | EndTarget | AwaitWork | Unregister | Announce

text \<open>The three places that hand a stream to a session: \<^verbatim>\<open>tunnelServer.serve\<close>, \<^verbatim>\<open>openLocalConnection\<close> and the
  connection handler of \<^verbatim>\<open>runLocalPipeExact\<close>.\<close>

datatype handler = Tunnel | LocalPipe | ExactLocal

datatype frame =
    Watch
  | CloseNode | WaitNode | ClosePipes "nat list" | NodeDone
  | ClosePipe nat | WaitPipe nat | StopSessions nat "nat list" | Detach nat | PipeDone nat
  | Stop nat | WaitStop nat | Complete nat stage sessionStopResources
  | Serve handler nat sessionConfig nat | Install handler nat nat | RunSession nat | Act action
  | StartPump nat | Outbound nat
  | PumpLoad nat | Pumping nat nat "bool option" "bool option" | Finish nat

text \<open>One turn of a copy loop, as seen from its session: bytes went through and the loop goes on, the source ended
  after them and the other side was half-closed, or an operation failed after them.\<close>

datatype turn = Moved nat | Ended nat | Broke nat

datatype choice = Go | CopyIn turn | CopyOut turn

definition carrier_over :: "Runtime \<Rightarrow> nat \<Rightarrow> bool" where
  "carrier_over s c \<longleftrightarrow>
     list_ex (\<lambda>x. x \<in> {SessionClosed c, SessionReset c, HandlerClosed c, HandlerReset c}) (rt_actions s)"

definition target_over :: "Runtime \<Rightarrow> nat option \<Rightarrow> bool" where
  "target_over s t = (case t of None \<Rightarrow> False | Some i \<Rightarrow> TargetClosed i \<in> set (rt_actions s))"

text \<open>\<^verbatim>\<open>Stop\<close> up to its first wait, and \<^verbatim>\<open>requestStop\<close>, which leaves the rest to another goroutine.\<close>

definition stop_frames :: "nat \<Rightarrow> Runtime \<Rightarrow> Runtime \<times> frame list" where
  "stop_frames a s =
     (case beginStop (pump s a) of
        (None, _) \<Rightarrow> (s, [WaitStop a])
      | (Some resources, sp) \<Rightarrow> (upd_pump a (\<lambda>_. sp) s, [Complete a Cancel resources]))"

definition requestStop :: "nat \<Rightarrow> Runtime \<Rightarrow> Runtime \<times> frame list list" where
  "requestStop a s =
     (case beginStop (pump s a) of
        (None, _) \<Rightarrow> (s, [])
      | (Some resources, sp) \<Rightarrow> (upd_pump a (\<lambda>_. sp) s, [[Complete a Cancel resources]]))"

text \<open>\<^verbatim>\<open>completeStop\<close>; a stage that waits has no step until the channel is closed.\<close>

fun completeStop :: "nat \<Rightarrow> stage \<Rightarrow> sessionStopResources \<Rightarrow> Runtime \<Rightarrow> (Runtime \<times> frame list) option" where
  "completeStop a Cancel r s = Some (upd_pump a (sp_cancelled_update (\<lambda>_. True)) s, [Complete a CancelCarrier r])"
| "completeStop a CancelCarrier r s =
     Some (upd_pump a (sp_carrierCancelled_update (\<lambda>_. True)) s, [Complete a EndCarrier r])"
| "completeStop a EndCarrier r s =
     Some (case sr_active r of
             None \<Rightarrow> s
           | Some c \<Rightarrow> act (if sp_completedCleanly (pump s a) then SessionClosed c else SessionReset c) s,
           [Complete a EndTarget r])"
| "completeStop a EndTarget r s =
     Some (case sr_target r of None \<Rightarrow> s | Some t \<Rightarrow> act (TargetClosed t) s, [Complete a AwaitWork r])"
| "completeStop a AwaitWork r s = (if sp_workClosed (pump s a) then Some (s, [Complete a Unregister r]) else None)"
| "completeStop a Unregister r s =
     Some (upd_pipe (sp_parent (pump s a)) (pr_registry_update (registry_remove (sp_SessionID (pump s a)) a)) s,
           [Complete a Announce r])"
| "completeStop a Announce r s = Some (upd_pump a (sp_stopDone_update (\<lambda>_. True)) s, [])"

text \<open>What each handler still does, innermost deferred call first, when there is no session, when the session refused the
  stream, and when the session has run. The tunnel handler closes its target connection unless the session has it, and its
  caller resets the stream unless it was given away; the local handlers defer the close of the local connection, and that
  of the stream: \<^verbatim>\<open>openLocalConnection\<close> until the session has it, \<^verbatim>\<open>runLocalPipeExact\<close> always.\<close>

datatype ending = NoSession | Refused | HasRun

definition tunnel_end :: "ending \<Rightarrow> nat \<Rightarrow> frame list" where
  "tunnel_end e c =
     (case e of NoSession \<Rightarrow> [Act (TargetClosed c), Act (HandlerReset c)]
      | Refused \<Rightarrow> [Act (TargetClosed c)]
      | HasRun \<Rightarrow> [])"

definition local_end :: "ending \<Rightarrow> nat \<Rightarrow> frame list" where
  "local_end e c =
     (let streamOwned = (e = HasRun)
      in (if streamOwned then [] else [Act (HandlerClosed c)]) @ [Act (TargetClosed c)])"

definition exact_end :: "ending \<Rightarrow> nat \<Rightarrow> frame list" where
  "exact_end e c = [Act (HandlerClosed c), Act (TargetClosed c)]"

definition handler_end :: "handler \<Rightarrow> ending \<Rightarrow> nat \<Rightarrow> frame list" where
  "handler_end h = (case h of Tunnel \<Rightarrow> tunnel_end | LocalPipe \<Rightarrow> local_end | ExactLocal \<Rightarrow> exact_end)"

definition no_session :: "handler \<Rightarrow> nat \<Rightarrow> frame list" where
  no_session_end: "no_session h c = handler_end h NoSession c"

definition refused :: "handler \<Rightarrow> nat \<Rightarrow> frame list" where
  refused_end: "refused h c = handler_end h Refused c"

definition has_run :: "handler \<Rightarrow> nat \<Rightarrow> frame list" where
  has_run_end: "has_run h c = handler_end h HasRun c"

lemma no_session_def:
  "no_session h c =
     (case h of Tunnel \<Rightarrow> [Act (TargetClosed c), Act (HandlerReset c)]
      | LocalPipe \<Rightarrow> [Act (HandlerClosed c), Act (TargetClosed c)]
      | ExactLocal \<Rightarrow> [Act (HandlerClosed c), Act (TargetClosed c)])"
  by (cases h) (simp_all add: no_session_end handler_end_def tunnel_end_def local_end_def exact_end_def)

lemma refused_def:
  "refused h c =
     (case h of Tunnel \<Rightarrow> [Act (TargetClosed c)]
      | LocalPipe \<Rightarrow> [Act (HandlerClosed c), Act (TargetClosed c)]
      | ExactLocal \<Rightarrow> [Act (HandlerClosed c), Act (TargetClosed c)])"
  by (cases h) (simp_all add: refused_end handler_end_def tunnel_end_def local_end_def exact_end_def)

lemma has_run_def:
  "has_run h c =
     (case h of Tunnel \<Rightarrow> []
      | LocalPipe \<Rightarrow> [Act (TargetClosed c)]
      | ExactLocal \<Rightarrow> [Act (HandlerClosed c), Act (TargetClosed c)])"
  by (cases h) (simp_all add: has_run_end handler_end_def tunnel_end_def local_end_def exact_end_def)

text \<open>A turn of one of the two loops of \<^verbatim>\<open>pumpCarrier\<close>. Once a stream or connection was closed or reset on this side
  its next operation fails, so no loop that reads from it goes on.\<close>

definition copy_turn ::
  "nat \<Rightarrow> bool \<Rightarrow> (nat \<Rightarrow> sessionPump \<Rightarrow> sessionPump) \<Rightarrow> (bool option \<Rightarrow> frame) \<Rightarrow> turn \<Rightarrow> Runtime
   \<Rightarrow> (Runtime \<times> frame list \<times> frame list list) option" where
  "copy_turn a over tally k t s =
     (case t of
        Moved n \<Rightarrow> if over then None else Some (upd_pump a (tally n) s, [k None], [])
      | Ended n \<Rightarrow> Some (upd_pump a (tally n) s, [k (Some True)], [])
      | Broke n \<Rightarrow> (case requestStop a (upd_pump a (tally n) s) of (s', spawned) \<Rightarrow> Some (s', [k (Some False)], spawned)))"

definition count_in :: "nat \<Rightarrow> sessionPump \<Rightarrow> sessionPump" where
  "count_in n sp = sp\<lparr>sp_bytesIn := sp_bytesIn sp + of_nat n\<rparr>"

definition count_out :: "nat \<Rightarrow> sessionPump \<Rightarrow> sessionPump" where
  "count_out n sp = sp\<lparr>sp_bytesOut := sp_bytesOut sp + of_nat n\<rparr>"

text \<open>One step of the top of a stack: the state after it, what the goroutine goes on with, the goroutines it starts.\<close>

fun go :: "frame \<Rightarrow> Runtime \<Rightarrow> (Runtime \<times> frame list \<times> frame list list) option" where
  "go Watch s = (if nr_cancelled (rt_node s) then Some (s, [CloseNode], []) else None)"
| "go CloseNode s =
     (case beginCloseNode s of (None, _) \<Rightarrow> Some (s, [WaitNode], []) | (Some ps, s') \<Rightarrow> Some (s', [ClosePipes ps], []))"
| "go WaitNode s = (if nr_done (rt_node s) then Some (s, [], []) else None)"
| "go (ClosePipes []) s = Some (s, [NodeDone], [])"
| "go (ClosePipes (p # ps)) s = Some (s, [ClosePipe p, ClosePipes ps], [])"
| "go NodeDone s = Some (s\<lparr>rt_node := (rt_node s)\<lparr>nr_done := True\<rparr>\<rparr>, [], [])"
| "go (ClosePipe p) s =
     (case beginClosePipe p s of
        (None, _) \<Rightarrow> Some (s, [WaitPipe p], []) | (Some as, s') \<Rightarrow> Some (s', [StopSessions p as], []))"
| "go (WaitPipe p) s = (if pr_done (pipe s p) then Some (s, [], []) else None)"
| "go (StopSessions p []) s = Some (s, [Detach p], [])"
| "go (StopSessions p (a # as)) s =
     (case stop_frames a s of (s', fs) \<Rightarrow> Some (s', fs @ [StopSessions p as], []))"
| "go (Detach p) s = Some (s\<lparr>rt_node := removePipe p (rt_node s)\<rparr>, [PipeDone p], [])"
| "go (PipeDone p) s = Some (upd_pipe p (pr_done_update (\<lambda>_. True)) s, [], [])"
| "go (Stop a) s = (case stop_frames a s of (s', fs) \<Rightarrow> Some (s', fs, []))"
| "go (WaitStop a) s = (if sp_stopDone (pump s a) then Some (s, [], []) else None)"
| "go (Complete a st r) s = map_option (\<lambda>(s', fs). (s', fs, [])) (completeStop a st r s)"
| "go (Serve h p cfg c) s =
     (case NewSession p cfg s of
        (Inl _, _) \<Rightarrow> Some (s, no_session h c, []) | (Inr a, s') \<Rightarrow> Some (s', [Install h a c], []))"
| "go (Install h a c) s =
     (case SetActiveCarrier (ctxErr s a) c (pump s a) of
        (False, _) \<Rightarrow> Some (s, refused h c, [])
      | (True, sp) \<Rightarrow> Some (upd_pump a (\<lambda>_. sp) s, RunSession a # has_run h c, []))"
| "go (RunSession a) s =
     (case admitWork (ctxErr s a) (pump s a) of
        (False, _) \<Rightarrow> Some (s, [], [])
      | (True, sp) \<Rightarrow> Some (upd_pump a (\<lambda>_. sp) s, [PumpLoad a, Finish a, Stop a], []))"
| "go (Act x) s = Some (act x s, [], [])"
| "go (StartPump a) s =
     (case admitWork (ctxErr s a) (pump s a) of
        (False, _) \<Rightarrow> Some (s, [], [])
      | (True, sp) \<Rightarrow> Some (upd_pump a (\<lambda>_. sp) s, [], [[PumpLoad a, Finish a]]))"
| "go (Outbound a) s =
     (case admitWork (ctxErr s a) (pump s a) of
        (False, _) \<Rightarrow> Some (s, [], [])
      | (True, sp) \<Rightarrow> Some (upd_pump a (\<lambda>_. sp) s, [Finish a], []))"
| "go (PumpLoad a) s =
     (case sp_activeCarrier (pump s a) of
        None \<Rightarrow> (case requestStop a s of (s', spawned) \<Rightarrow> Some (s', [], spawned))
      | Some c \<Rightarrow> Some (s, [Pumping a c None None], []))"
| "go (Pumping a c x y) s =
     (case (x, y) of
        (Some cleanA, Some cleanB) \<Rightarrow>
          Some (upd_pump a (sp_completedCleanly_update (\<lambda>_. cleanA \<and> cleanB)) s, [], [])
      | _ \<Rightarrow> None)"
| "go (Finish a) s =
     (case finishWork (pump s a) of
        None \<Rightarrow> Some (s\<lparr>rt_panicked := True\<rparr>, [], []) | Some sp \<Rightarrow> Some (upd_pump a (\<lambda>_. sp) s, [], []))"

fun run :: "choice \<Rightarrow> frame \<Rightarrow> Runtime \<Rightarrow> (Runtime \<times> frame list \<times> frame list list) option" where
  "run Go f s = go f s"
| "run (CopyIn t) f s =
     (case f of
        Pumping a c None y \<Rightarrow> copy_turn a (carrier_over s c) count_in (\<lambda>x. Pumping a c x y) t s
      | _ \<Rightarrow> None)"
| "run (CopyOut t) f s =
     (case f of
        Pumping a c x None \<Rightarrow>
          copy_turn a (target_over s (sp_targetConn (pump s a))) count_out (\<lambda>y. Pumping a c x y) t s
      | _ \<Rightarrow> None)"

section \<open>The process\<close>

type_synonym process = "Runtime \<times> frame list multiset"

text \<open>What happens from outside: the parent context is cancelled, Pipe runtimes are made, streams arrive, leases expire
  (\<^verbatim>\<open>time.AfterFunc(..., session.Stop)\<close>), owners close.\<close>

inductive outside :: "process \<Rightarrow> process \<Rightarrow> bool" where
  cancelled: "outside (s, T) (s\<lparr>rt_node := (rt_node s)\<lparr>nr_cancelled := True\<rparr>\<rparr>, T)"
| new_pipe: "NewPipeRuntime s = (Inr p, s') \<Longrightarrow> outside (s, T) (s', T)"
| close_node: "outside (s, T) (s, add_mset [CloseNode] T)"
| close_pipe: "p < length (rt_pipes s) \<Longrightarrow> outside (s, T) (s, add_mset [ClosePipe p] T)"
| expired: "a < length (rt_pumps s) \<Longrightarrow> outside (s, T) (s, add_mset [Stop a] T)"
| stream: "p < length (rt_pipes s) \<Longrightarrow> sc_TargetConn cfg = Some (rt_streams s) \<Longrightarrow>
    outside (s, T) (s\<lparr>rt_streams := Suc (rt_streams s)\<rparr>, add_mset [Serve h p cfg (rt_streams s)] T)"
| more_work: "a < length (rt_pumps s) \<Longrightarrow> f \<in> {StartPump a, Outbound a} \<Longrightarrow> outside (s, T) (s, add_mset [f] T)"

inductive inside :: "choice \<Rightarrow> process \<Rightarrow> process \<Rightarrow> bool" where
  "run x f s = Some (s', fs, spawned) \<Longrightarrow>
     inside x (s, add_mset (f # k) T) (s', add_mset (fs @ k) (mset spawned + T))"

definition start :: process where "start = (NewNodeRuntime, {#[Watch]#})"

inductive reachable :: "process \<Rightarrow> bool" where
  start: "reachable start"
| outside: "reachable P \<Longrightarrow> outside P Q \<Longrightarrow> reachable Q"
| inside: "reachable P \<Longrightarrow> inside x P Q \<Longrightarrow> reachable Q"

end
