(* ===== verification/LifecycleInv.thy ===== *)
theory LifecycleInv
  imports Lifecycle
begin

text \<open>Invariants of the goroutines of a process.\<close>

section \<open>Frames\<close>

definition frames :: "frame list multiset \<Rightarrow> frame multiset" where
  "frames T = \<Sum>\<^sub># (image_mset mset T)"

lemma frames_simps [simp]:
  "frames {#} = {#}" "frames (add_mset k T) = mset k + frames T" "frames (A + B) = frames A + frames B"
  by (simp_all add: frames_def)

lemma in_frames: "f \<in># frames T \<longleftrightarrow> (\<exists>k \<in># T. f \<in> set k)"
  by (auto simp: frames_def)

text \<open>An invariant of the state and its frames that every step of a frame keeps holds of the process.\<close>

definition keeps :: "(Runtime \<Rightarrow> frame multiset \<Rightarrow> bool) \<Rightarrow> bool" where
  "keeps I \<longleftrightarrow>
     (\<forall>x f s R s' fs spawned. I s (add_mset f R) \<longrightarrow> run x f s = Some (s', fs, spawned) \<longrightarrow>
        I s' (mset fs + R + frames (mset spawned)))"

lemma pump_simps [simp]:
  "rt_pumps (upd_pump a f s) = (rt_pumps s)[a := f (pump s a)]"
  "rt_pipes (upd_pump a f s) = rt_pipes s" "rt_node (upd_pump a f s) = rt_node s"
  "rt_actions (upd_pump a f s) = rt_actions s" "rt_streams (upd_pump a f s) = rt_streams s"
  "rt_panicked (upd_pump a f s) = rt_panicked s"
  "rt_pipes (upd_pipe p g s) = (rt_pipes s)[p := g (pipe s p)]"
  "rt_pumps (upd_pipe p g s) = rt_pumps s" "rt_node (upd_pipe p g s) = rt_node s"
  "rt_actions (upd_pipe p g s) = rt_actions s" "rt_streams (upd_pipe p g s) = rt_streams s"
  "rt_panicked (upd_pipe p g s) = rt_panicked s"
  "rt_pumps (act y s) = rt_pumps s" "rt_pipes (act y s) = rt_pipes s" "rt_node (act y s) = rt_node s"
  "rt_actions (act y s) = y # rt_actions s" "rt_streams (act y s) = rt_streams s" "rt_panicked (act y s) = rt_panicked s"
  by (simp_all add: upd_pump_def upd_pipe_def act_def)

lemma nth_upd: "j < length xs \<Longrightarrow> xs[i := y] ! j = (if i = j then y else xs ! j)"
  by (simp add: nth_list_update)

lemma removePipe_simps [simp]:
  "nr_closed (removePipe p n) = nr_closed n" "nr_cancelled (removePipe p n) = nr_cancelled n"
  "nr_done (removePipe p n) = nr_done n" "nr_pipes (removePipe p n) = removeAll p (nr_pipes n)"
  by (simp_all add: removePipe_def)

text \<open>The session after the critical section of \<^verbatim>\<open>beginStop\<close>.\<close>

definition stopped :: "sessionPump \<Rightarrow> sessionPump" where "stopped sp = snd (beginStop sp)"

definition resources :: "sessionPump \<Rightarrow> sessionStopResources" where
  "resources sp = \<lparr>sr_active = sp_activeCarrier sp, sr_target = sp_targetConn sp\<rparr>"

lemma resources_simps [simp]: "sr_active (resources sp) = sp_activeCarrier sp" "sr_target (resources sp) = sp_targetConn sp"
  by (simp_all add: resources_def)

lemma beginStop_eq: "beginStop sp = (if sp_stopping sp then (None, sp) else (Some (resources sp), stopped sp))"
  by (simp add: stopped_def beginStop_def resources_def Let_def)

lemma stopped_simps [simp]:
  assumes "\<not> sp_stopping sp"
  shows "sp_stopping (stopped sp)" "sp_activeCarrier (stopped sp) = None" "sp_targetConn (stopped sp) = sp_targetConn sp"
    "sp_parent (stopped sp) = sp_parent sp" "sp_SessionID (stopped sp) = sp_SessionID sp"
    "sp_stopDone (stopped sp) = sp_stopDone sp" "sp_workCount (stopped sp) = sp_workCount sp"
    "sp_workClosed (stopped sp) \<longleftrightarrow> sp_workClosed sp \<or> sp_workCount sp = 0"
  using assms by (auto simp: stopped_def beginStop_def closeWorkDoneLocked_def Let_def)

definition finished :: "sessionPump \<Rightarrow> sessionPump" where
  "finished sp = closeWorkDoneLocked (sp\<lparr>sp_workCount := sp_workCount sp - 1\<rparr>)"

lemma finishWork_eq: "finishWork sp = (if sp_workCount sp < 1 then None else Some (finished sp))"
  by (simp add: finishWork_def finished_def Let_def)

lemma finished_simps [simp]:
  "sp_stopping (finished sp) = sp_stopping sp" "sp_activeCarrier (finished sp) = sp_activeCarrier sp"
  "sp_targetConn (finished sp) = sp_targetConn sp" "sp_parent (finished sp) = sp_parent sp"
  "sp_SessionID (finished sp) = sp_SessionID sp" "sp_stopDone (finished sp) = sp_stopDone sp"
  "sp_workCount (finished sp) = sp_workCount sp - 1"
  "sp_workClosed (finished sp) \<longleftrightarrow> sp_workClosed sp \<or> sp_stopping sp \<and> sp_workCount sp = 1"
  by (auto simp: finished_def closeWorkDoneLocked_def)

lemma stop_frames_eq:
  "stop_frames a s =
     (if sp_stopping (pump s a) then (s, [WaitStop a])
      else (upd_pump a stopped s, [Complete a Cancel (resources (pump s a))]))"
  by (simp add: stop_frames_def beginStop_eq upd_pump_def)

lemma requestStop_eq:
  "requestStop a s =
     (if sp_stopping (pump s a) then (s, [])
      else (upd_pump a stopped s, [[Complete a Cancel (resources (pump s a))]]))"
  by (simp add: requestStop_def beginStop_eq upd_pump_def)


text \<open>The steps of a frame, one case per way to go on.\<close>

definition closing :: "PipeRuntime \<Rightarrow> PipeRuntime" where
  "closing q = q\<lparr>pr_closed := True, pr_cancelled := True, pr_registry := snd (registry_close (pr_registry q))\<rparr>"

definition fresh :: "nat \<Rightarrow> sessionConfig \<Rightarrow> sessionPump" where
  "fresh p cfg =
     \<lparr>sp_SessionID = sc_SessionID cfg, sp_PipeID = sc_PipeID cfg, sp_Scope = sc_Scope cfg,
      sp_epoch = (if sc_InitialEpoch cfg = 0 then 1 else sc_InitialEpoch cfg),
      sp_state = StateActive, sp_activeCarrier = None, sp_targetConn = sc_TargetConn cfg, sp_parent = p,
      sp_cancelled = False, sp_carrierCancelled = False, sp_stopDone = False, sp_stopping = False,
      sp_workCount = 0, sp_workClosed = False, sp_isClient = sc_IsClient cfg, sp_bytesIn = 0, sp_bytesOut = 0,
      sp_completedCleanly = False\<rparr>"

lemma fresh_simps [simp]:
  "sp_SessionID (fresh p cfg) = sc_SessionID cfg" "sp_activeCarrier (fresh p cfg) = None"
  "sp_targetConn (fresh p cfg) = sc_TargetConn cfg" "sp_parent (fresh p cfg) = p" "\<not> sp_stopDone (fresh p cfg)"
  "\<not> sp_stopping (fresh p cfg)" "sp_workCount (fresh p cfg) = 0" "\<not> sp_workClosed (fresh p cfg)"
  by (simp_all add: fresh_def)

definition admitted :: "sessionPump \<Rightarrow> sessionPump" where
  "admitted sp = sp\<lparr>sp_workCount := sp_workCount sp + 1\<rparr>"

lemma admitted_simps [simp]:
  "sp_stopping (admitted sp) = sp_stopping sp" "sp_activeCarrier (admitted sp) = sp_activeCarrier sp"
  "sp_targetConn (admitted sp) = sp_targetConn sp" "sp_parent (admitted sp) = sp_parent sp"
  "sp_SessionID (admitted sp) = sp_SessionID sp" "sp_stopDone (admitted sp) = sp_stopDone sp"
  "sp_workCount (admitted sp) = sp_workCount sp + 1" "sp_workClosed (admitted sp) = sp_workClosed sp"
  by (simp_all add: admitted_def)

lemma NewSession_eq:
  "NewSession p cfg s =
     (if pr_closed (pipe s p) \<or> pipeErr s p then (Inl errRuntimeClosed, s)
      else case registry_register (sc_SessionID cfg) (length (rt_pumps s)) (pr_registry (pipe s p)) of
        Inl e \<Rightarrow> (Inl e, s)
      | Inr r \<Rightarrow> (Inr (length (rt_pumps s)),
          upd_pipe p (\<lambda>q. q\<lparr>pr_registry := r\<rparr>) (s\<lparr>rt_pumps := rt_pumps s @ [fresh p cfg]\<rparr>)))"
  unfolding NewSession_def newSessionPump_def fresh_def Let_def by (rule refl)

lemma count_simps [simp]:
  "sp_stopping (count_in n sp) = sp_stopping sp" "sp_activeCarrier (count_in n sp) = sp_activeCarrier sp"
  "sp_targetConn (count_in n sp) = sp_targetConn sp" "sp_parent (count_in n sp) = sp_parent sp"
  "sp_SessionID (count_in n sp) = sp_SessionID sp" "sp_stopDone (count_in n sp) = sp_stopDone sp"
  "sp_workCount (count_in n sp) = sp_workCount sp" "sp_workClosed (count_in n sp) = sp_workClosed sp"
  "sp_stopping (count_out n sp) = sp_stopping sp" "sp_activeCarrier (count_out n sp) = sp_activeCarrier sp"
  "sp_targetConn (count_out n sp) = sp_targetConn sp" "sp_parent (count_out n sp) = sp_parent sp"
  "sp_SessionID (count_out n sp) = sp_SessionID sp" "sp_stopDone (count_out n sp) = sp_stopDone sp"
  "sp_workCount (count_out n sp) = sp_workCount sp" "sp_workClosed (count_out n sp) = sp_workClosed sp"
  by (simp_all add: count_in_def count_out_def)

lemma begin_eqs:
  "beginClosePipe p s =
     (if pr_closed (pipe s p) then (None, s)
      else (Some (fst (registry_close (pr_registry (pipe s p)))), upd_pipe p closing s))"
  "SetActiveCarrier b c sp = (if owned b sp then (True, sp\<lparr>sp_activeCarrier := Some c\<rparr>) else (False, sp))"
  "admitWork b sp = (if owned b sp then (True, admitted sp) else (False, sp))"
  "upd_pump a (\<lambda>_. g (pump s a)) s = upd_pump a g s"
  by (simp_all add: beginClosePipe_def SetActiveCarrier_def admitWork_def admitted_def closing_def upd_pipe_def upd_pump_def case_prod_beta)

text \<open>One of the two copy loops came to its end.\<close>

definition one_done :: "bool option \<Rightarrow> bool option \<Rightarrow> bool option \<Rightarrow> bool option \<Rightarrow> bool" where
  "one_done u v u' v' \<longleftrightarrow> u = None \<and> u' \<noteq> None \<and> v' = v \<or> v = None \<and> v' \<noteq> None \<and> u' = u"

inductive moves :: "frame \<Rightarrow> Runtime \<Rightarrow> Runtime \<Rightarrow> frame list \<Rightarrow> frame list list \<Rightarrow> bool" where
  watch: "moves Watch s s [CloseNode] []"
| node_wait: "nr_closed (rt_node s) \<Longrightarrow> moves CloseNode s s [WaitNode] []"
| node_begin: "\<not> nr_closed (rt_node s) \<Longrightarrow>
    moves CloseNode s (s\<lparr>rt_node := (rt_node s)\<lparr>nr_closed := True, nr_cancelled := True\<rparr>\<rparr>) [ClosePipes (nr_pipes (rt_node s))] []"
| node_waited: "nr_done (rt_node s) \<Longrightarrow> moves WaitNode s s [] []"
| node_last: "moves (ClosePipes []) s s [NodeDone] []"
| node_next: "moves (ClosePipes (p # ps)) s s [ClosePipe p, ClosePipes ps] []"
| node_done: "moves NodeDone s (s\<lparr>rt_node := (rt_node s)\<lparr>nr_done := True\<rparr>\<rparr>) [] []"
| pipe_wait: "pr_closed (pipe s p) \<Longrightarrow> moves (ClosePipe p) s s [WaitPipe p] []"
| pipe_begin: "\<not> pr_closed (pipe s p) \<Longrightarrow>
    moves (ClosePipe p) s (upd_pipe p closing s) [StopSessions p (fst (registry_close (pr_registry (pipe s p))))] []"
| pipe_waited: "pr_done (pipe s p) \<Longrightarrow> moves (WaitPipe p) s s [] []"
| pipe_last: "moves (StopSessions p []) s s [Detach p] []"
| pipe_next_wait: "sp_stopping (pump s a) \<Longrightarrow> moves (StopSessions p (a # as)) s s [WaitStop a, StopSessions p as] []"
| pipe_next_stop: "\<not> sp_stopping (pump s a) \<Longrightarrow>
    moves (StopSessions p (a # as)) s (upd_pump a stopped s) [Complete a Cancel (resources (pump s a)), StopSessions p as] []"
| detach: "moves (Detach p) s (s\<lparr>rt_node := removePipe p (rt_node s)\<rparr>) [PipeDone p] []"
| pipe_done: "moves (PipeDone p) s (upd_pipe p (pr_done_update (\<lambda>_. True)) s) [] []"
| stop_wait: "sp_stopping (pump s a) \<Longrightarrow> moves (Stop a) s s [WaitStop a] []"
| stop_stop: "\<not> sp_stopping (pump s a) \<Longrightarrow>
    moves (Stop a) s (upd_pump a stopped s) [Complete a Cancel (resources (pump s a))] []"
| waited: "sp_stopDone (pump s a) \<Longrightarrow> moves (WaitStop a) s s [] []"
| complete: "completeStop a st r s = Some (s', fs) \<Longrightarrow> moves (Complete a st r) s s' fs []"
| no_session: "moves (Serve h p cfg c) s s (no_session h c) []"
| session: "\<not> pr_closed (pipe s p) \<Longrightarrow>
    registry_register (sc_SessionID cfg) (length (rt_pumps s)) (pr_registry (pipe s p)) = Inr r \<Longrightarrow>
    moves (Serve h p cfg c) s (upd_pipe p (\<lambda>q. q\<lparr>pr_registry := r\<rparr>) (s\<lparr>rt_pumps := rt_pumps s @ [fresh p cfg]\<rparr>))
      [Install h (length (rt_pumps s)) c] []"
| refused: "moves (Install h a c) s s (refused h c) []"
| installed: "\<not> sp_stopping (pump s a) \<Longrightarrow>
    moves (Install h a c) s (upd_pump a (\<lambda>sp. sp\<lparr>sp_activeCarrier := Some c\<rparr>) s) (RunSession a # has_run h c) []"
| not_admitted: "f \<in> {RunSession a, StartPump a, Outbound a} \<Longrightarrow> moves f s s [] []"
| run_session: "\<not> sp_stopping (pump s a) \<Longrightarrow> moves (RunSession a) s (upd_pump a admitted s) [PumpLoad a, Finish a, Stop a] []"
| start_pump: "\<not> sp_stopping (pump s a) \<Longrightarrow> moves (StartPump a) s (upd_pump a admitted s) [] [[PumpLoad a, Finish a]]"
| outbound_work: "\<not> sp_stopping (pump s a) \<Longrightarrow> moves (Outbound a) s (upd_pump a admitted s) [Finish a] []"
| action: "moves (Act y) s (act y s) [] []"
| load_wait: "sp_stopping (pump s a) \<Longrightarrow> moves (PumpLoad a) s s [] []"
| load_stop: "\<not> sp_stopping (pump s a) \<Longrightarrow> sp_activeCarrier (pump s a) = None \<Longrightarrow>
    moves (PumpLoad a) s (upd_pump a stopped s) [] [[Complete a Cancel (resources (pump s a))]]"
| load: "sp_activeCarrier (pump s a) = Some c \<Longrightarrow> moves (PumpLoad a) s s [Pumping a c None None] []"
| joined: "moves (Pumping a c (Some u) (Some v)) s (upd_pump a (sp_completedCleanly_update (\<lambda>_. u \<and> v)) s) [] []"
| copied: "g \<in> {count_in n, count_out n} \<Longrightarrow> u' = u \<and> v' = v \<or> one_done u v u' v' \<Longrightarrow>
    moves (Pumping a c u v) s (upd_pump a g s) [Pumping a c u' v'] []"
| broke: "g \<in> {count_in n, count_out n} \<Longrightarrow> \<not> sp_stopping (pump s a) \<Longrightarrow> one_done u v u' v' \<Longrightarrow>
    moves (Pumping a c u v) s (upd_pump a stopped (upd_pump a g s)) [Pumping a c u' v'] [[Complete a Cancel (resources (pump s a))]]"
| panic: "sp_workCount (pump s a) < 1 \<Longrightarrow> moves (Finish a) s (s\<lparr>rt_panicked := True\<rparr>) [] []"
| finish: "1 \<le> sp_workCount (pump s a) \<Longrightarrow> moves (Finish a) s (upd_pump a finished s) [] []"

lemma copy_moves:
  assumes "copy_turn a over g k t s = Some (s', fs, spawned)" "g \<in> {count_in, count_out}" "k None = Pumping a c u v"
    "\<And>b. \<exists>u' v'. k (Some b) = Pumping a c u' v' \<and> one_done u v u' v'"
  shows "moves (Pumping a c u v) s s' fs spawned"
proof -
  obtain n where t: "t \<in> {Moved n, Ended n, Broke n}" by (cases t) auto
  have g: "g n \<in> {count_in n, count_out n}" using assms(2) by auto
  let ?s1 = "upd_pump a (g n) s"
  have same: "sp_stopping (pump ?s1 a) = sp_stopping (pump s a) \<and> resources (pump ?s1 a) = resources (pump s a)"
    using g by (cases "a < length (rt_pumps s)") (auto simp: resources_def list_update_beyond)
  define w where "w = (case t of Moved _ \<Rightarrow> None | Ended _ \<Rightarrow> Some True | Broke _ \<Rightarrow> Some False)"
  have w: "fs = [k w]" "t = Broke n \<Longrightarrow> w \<noteq> None"
    using assms(1) t by (auto simp: w_def copy_turn_def requestStop_eq split: if_splits)
  obtain u' v' where fin: "k w = Pumping a c u' v'" "u' = u \<and> v' = v \<or> one_done u v u' v'" "w \<noteq> None \<Longrightarrow> one_done u v u' v'"
  proof (cases w)
    case None
    show thesis by (rule that [of u v]) (use assms(3) None in simp_all)
  next
    case (Some b)
    from assms(4) [of b] obtain u' v' where "k (Some b) = Pumping a c u' v'" "one_done u v u' v'" by auto
    then show thesis by (intro that [of u' v']) (simp_all add: Some)
  qed
  show ?thesis
  proof (cases "spawned = []")
    case True
    then have "s' = ?s1" using assms(1) t by (auto simp: copy_turn_def requestStop_eq split: if_splits)
    then show ?thesis unfolding \<open>spawned = []\<close> w(1) fin(1) by (simp add: copied [OF g fin(2)])
  next
    case False
    with assms(1) t have b: "t = Broke n" by (auto simp: copy_turn_def split: if_splits)
    with assms(1) False same have st: "\<not> sp_stopping (pump s a)" by (simp add: copy_turn_def requestStop_eq split: if_splits)
    with assms(1) b same have e: "s' = upd_pump a stopped ?s1" "spawned = [[Complete a Cancel (resources (pump s a))]]"
      by (simp_all add: copy_turn_def requestStop_eq)
    show ?thesis unfolding e w(1) fin(1) by (rule broke [OF g st fin(3) [OF w(2) [OF b]]])
  qed
qed

lemma go_moves: "go f s = Some (s', fs, spawned) \<Longrightarrow> moves f s s' fs spawned"
  by (cases "(f, s)" rule: go.cases)
    (auto simp: begin_eqs beginCloseNode_def Let_def stop_frames_eq requestStop_eq finishWork_eq NewSession_eq owned_def
      intro: moves.intros split: if_splits option.splits sum.splits)

lemma run_moves: "run x f s = Some (s', fs, spawned) \<Longrightarrow> moves f s s' fs spawned"
  by (cases x) (auto simp: go_moves one_done_def split: frame.splits option.splits intro!: copy_moves)

fun completes :: "nat \<Rightarrow> frame \<Rightarrow> bool" where
  "completes a (Complete b _ _) \<longleftrightarrow> a = b"
| "completes a _ \<longleftrightarrow> False"

definition good :: "sessionPump \<Rightarrow> nat \<Rightarrow> nat \<Rightarrow> nat \<Rightarrow> bool" where
  "good sp work closers pipes \<longleftrightarrow>
     sp_workCount sp = int work \<and> closers = (if sp_stopping sp \<and> \<not> sp_stopDone sp then 1 else 0)
     \<and> (sp_stopDone sp \<longrightarrow> sp_workClosed sp) \<and> (sp_workClosed sp \<longleftrightarrow> sp_stopping sp \<and> sp_workCount sp = 0)
     \<and> (sp_stopping sp \<longrightarrow> sp_activeCarrier sp = None)
     \<and> (\<forall>c. sp_activeCarrier sp = Some c \<longrightarrow> sp_targetConn sp = Some c) \<and> sp_parent sp < pipes"

definition closers :: "nat \<Rightarrow> frame multiset \<Rightarrow> nat" where "closers a F = size (filter_mset (completes a) F)"

lemma closers_simps [simp]:
  "closers a {#} = 0" "closers a (add_mset f F) = (if completes a f then Suc (closers a F) else closers a F)"
  "closers a (F + G) = closers a F + closers a G"
  by (simp_all add: closers_def)

definition session_ok :: "Runtime \<Rightarrow> frame multiset \<Rightarrow> nat \<Rightarrow> bool" where
  "session_ok s F a \<longleftrightarrow> good (pump s a) (count F (Finish a)) (closers a F) (length (rt_pipes s))"

lemma good_steps:
  "good sp n m p \<Longrightarrow> \<not> sp_stopping sp \<Longrightarrow> good (stopped sp) n (Suc m) p"
  "good sp n m p \<Longrightarrow> \<not> sp_stopping sp \<Longrightarrow> good (admitted sp) (Suc n) m p"
  "good sp (Suc n) m p \<Longrightarrow> good (finished sp) n m p"
  "good sp n m p \<Longrightarrow> \<not> sp_stopping sp \<Longrightarrow> sp_targetConn sp = Some c \<Longrightarrow> good (sp\<lparr>sp_activeCarrier := Some c\<rparr>) n m p"
  "good sp n (Suc m) p \<Longrightarrow> sp_workClosed sp \<Longrightarrow> good (sp\<lparr>sp_stopDone := True\<rparr>) n m p"
  by (auto simp: good_def split: if_splits)

lemma good_quiet [simp]:
  "good (sp\<lparr>sp_cancelled := b\<rparr>) n m p = good sp n m p" "good (sp\<lparr>sp_carrierCancelled := b\<rparr>) n m p = good sp n m p"
  "good (sp\<lparr>sp_completedCleanly := b\<rparr>) n m p = good sp n m p" "good (count_in i sp) n m p = good sp n m p"
  "good (count_out i sp) n m p = good sp n m p"
  by (simp_all add: good_def count_in_def count_out_def)

lemma good_fresh: "q < p \<Longrightarrow> good (fresh q cfg) 0 0 p"
  by (simp add: good_def)

lemma good_noclosers: "good sp n m p \<Longrightarrow> \<not> sp_stopping sp \<Longrightarrow> m = 0"
  by (simp add: good_def)

fun frame_ok :: "Runtime \<Rightarrow> frame \<Rightarrow> bool" where
  "frame_ok s (Stop a) \<longleftrightarrow> a < length (rt_pumps s)"
| "frame_ok s (WaitStop a) \<longleftrightarrow> a < length (rt_pumps s) \<and> sp_stopping (pump s a)"
| "frame_ok s (Complete a st r) \<longleftrightarrow>
     a < length (rt_pumps s) \<and> sp_stopping (pump s a) \<and> sr_target r = sp_targetConn (pump s a)
     \<and> sr_active r \<in> {None, sr_target r}
     \<and> (st \<in> {AwaitWork, Unregister, Announce} \<longrightarrow> (\<forall>t. sr_target r = Some t \<longrightarrow> target_over s (Some t)))
     \<and> (st \<in> {Unregister, Announce} \<longrightarrow> sp_workClosed (pump s a))
     \<and> (st \<in> {EndTarget, AwaitWork, Unregister, Announce} \<longrightarrow> (\<forall>c. sr_active r = Some c \<longrightarrow> carrier_over s c))"
| "frame_ok s (Serve h p cfg c) \<longleftrightarrow> p < length (rt_pipes s) \<and> sc_TargetConn cfg = Some c \<and> c < rt_streams s"
| "frame_ok s (Install h a c) \<longleftrightarrow> a < length (rt_pumps s) \<and> sp_targetConn (pump s a) = Some c"
| "frame_ok s (RunSession a) \<longleftrightarrow> a < length (rt_pumps s)"
| "frame_ok s (StartPump a) \<longleftrightarrow> a < length (rt_pumps s)"
| "frame_ok s (Outbound a) \<longleftrightarrow> a < length (rt_pumps s)"
| "frame_ok s (PumpLoad a) \<longleftrightarrow> a < length (rt_pumps s)"
| "frame_ok s (Pumping a c x y) \<longleftrightarrow> a < length (rt_pumps s) \<and> sp_targetConn (pump s a) = Some c
     \<and> (\<not> sp_stopping (pump s a) \<longrightarrow> sp_activeCarrier (pump s a) = Some c)"
| "frame_ok s (Finish a) \<longleftrightarrow> a < length (rt_pumps s)"
| "frame_ok s (ClosePipe p) \<longleftrightarrow> p < length (rt_pipes s)"
| "frame_ok s (WaitPipe p) \<longleftrightarrow> p < length (rt_pipes s) \<and> pr_closed (pipe s p)"
| "frame_ok s (StopSessions p as) \<longleftrightarrow> p < length (rt_pipes s) \<and> pr_closed (pipe s p) \<and> (\<forall>a \<in> set as. a < length (rt_pumps s))"
| "frame_ok s (Detach p) \<longleftrightarrow> p < length (rt_pipes s) \<and> pr_closed (pipe s p)"
| "frame_ok s (PipeDone p) \<longleftrightarrow> p < length (rt_pipes s) \<and> pr_closed (pipe s p)"
| "frame_ok s (ClosePipes ps) \<longleftrightarrow> nr_closed (rt_node s) \<and> (\<forall>p \<in> set ps. p < length (rt_pipes s))"
| "frame_ok s NodeDone \<longleftrightarrow> nr_closed (rt_node s)"
| "frame_ok s WaitNode \<longleftrightarrow> nr_closed (rt_node s)"
| "frame_ok s Watch \<longleftrightarrow> True"
| "frame_ok s CloseNode \<longleftrightarrow> True"
| "frame_ok s (Act y) \<longleftrightarrow> True"

text \<open>A pump works on the stream its session had when it began to stop.\<close>

fun pumps_on :: "nat \<Rightarrow> nat \<Rightarrow> frame \<Rightarrow> bool" where
  "pumps_on a c (Pumping b d _ _) \<longleftrightarrow> a = b \<and> c = d"
| "pumps_on a c _ \<longleftrightarrow> False"

fun ends_with :: "nat \<Rightarrow> sessionStopResources \<Rightarrow> frame \<Rightarrow> bool" where
  "ends_with a r (Complete b _ q) \<longleftrightarrow> a = b \<and> r = q"
| "ends_with a r _ \<longleftrightarrow> False"

definition pumps_ok :: "frame multiset \<Rightarrow> bool" where
  "pumps_ok F \<longleftrightarrow> (\<forall>a c r. (\<exists>f \<in># F. pumps_on a c f) \<longrightarrow> (\<exists>f \<in># F. ends_with a r f) \<longrightarrow> sr_active r = Some c)"

lemma pumps_on_iff: "pumps_on a c f \<longleftrightarrow> (\<exists>x y. f = Pumping a c x y)"
  by (cases f) auto

lemma ends_with_iff: "ends_with a r f \<longleftrightarrow> (\<exists>st. f = Complete a st r)"
  by (cases f) auto

definition node_ok :: "Runtime \<Rightarrow> bool" where
  "node_ok s \<longleftrightarrow> (\<forall>p \<in> set (nr_pipes (rt_node s)). p < length (rt_pipes s))"

definition pipe_ok :: "Runtime \<Rightarrow> nat \<Rightarrow> bool" where
  "pipe_ok s p \<longleftrightarrow>
     (let q = pipe s p; r = pr_registry q in
      rg_closed r = pr_closed q
      \<and> distinct (map fst (rg_sessions r))
      \<and> (\<forall>(i, a) \<in> set (rg_sessions r). a < length (rt_pumps s) \<and> sp_parent (pump s a) = p \<and> sp_SessionID (pump s a) = i))"


definition ok :: "Runtime \<Rightarrow> frame multiset \<Rightarrow> bool" where
  "ok s F \<longleftrightarrow>
     (\<forall>a < length (rt_pumps s). session_ok s F a) \<and> (\<forall>f \<in># F. frame_ok s f) \<and> pumps_ok F \<and> node_ok s
     \<and> (\<forall>p < length (rt_pipes s). pipe_ok s p) \<and> \<not> rt_panicked s"

lemma handler_frames [simp]:
  "closers a (mset (no_session h c)) = 0" "closers a (mset (refused h c)) = 0"
  "closers a (mset (has_run h c)) = 0" "count (mset (no_session h c)) (Finish a) = 0"
  "count (mset (refused h c)) (Finish a) = 0" "count (mset (has_run h c)) (Finish a) = 0"
  by (cases h; simp add: no_session_def refused_def has_run_def)+

lemma session_ok_same:
  "rt_pumps s' = rt_pumps s \<Longrightarrow> length (rt_pipes s') = length (rt_pipes s) \<Longrightarrow> count F' (Finish b) = count F (Finish b) \<Longrightarrow>
   closers b F' = closers b F \<Longrightarrow> session_ok s F b \<Longrightarrow> session_ok s' F' b"
  by (simp add: session_ok_def)

lemma closers_zero: "(\<And>f. f \<in># R \<Longrightarrow> \<not> completes a f) \<Longrightarrow> closers a R = 0"
  by (induction R) auto

lemma none_new:
  assumes "\<forall>f \<in># R. frame_ok s f"
  shows "count R (Finish (length (rt_pumps s))) = 0" "closers (length (rt_pumps s)) R = 0"
proof -
  show "count R (Finish (length (rt_pumps s))) = 0" using assms by (auto simp: count_eq_zero_iff)
  have "\<not> completes (length (rt_pumps s)) f" if "f \<in># R" for f
    using assms that by (cases f) auto
  then show "closers (length (rt_pumps s)) R = 0" by (rule closers_zero)
qed

lemma no_panic: "ok s (add_mset (Finish a) R) \<Longrightarrow> 1 \<le> sp_workCount (pump s a)"
  by (auto simp: ok_def session_ok_def good_def)

lemma session_ok_step:
  assumes "moves f s s' fs spawned" "ok s (add_mset f R)" "b < length (rt_pumps s')"
  shows "session_ok s' (mset fs + R + frames (mset spawned)) b"
proof -
  have sess: "b < length (rt_pumps s) \<Longrightarrow>
      good (pump s b) (count (add_mset f R) (Finish b)) (closers b (add_mset f R)) (length (rt_pipes s))"
    using assms(2) by (simp add: ok_def session_ok_def)
  have fr: "frame_ok s f" and all: "\<forall>f \<in># R. frame_ok s f" using assms(2) by (simp_all add: ok_def)
  note simps = session_ok_def nth_list_update
  from assms(1) sess fr assms(3) show ?thesis
  proof cases
    case (complete a st r) with sess fr assms(3) show ?thesis
      by (cases st) (auto simp: simps intro: good_steps split: option.splits if_splits)
  next
    case session with sess fr assms(3) none_new [OF all] show ?thesis
      by (auto simp: session_ok_def nth_append good_fresh less_Suc_eq)
  next
    case panic with no_panic [of s] assms(2) show ?thesis by fastforce
  qed (auto simp: simps intro: good_steps)
qed

text \<open>What never goes back in a step.\<close>

definition grows :: "Runtime \<Rightarrow> Runtime \<Rightarrow> bool" where
  "grows s s' \<longleftrightarrow>
     length (rt_pumps s) \<le> length (rt_pumps s') \<and> length (rt_pipes s) \<le> length (rt_pipes s')
     \<and> rt_streams s \<le> rt_streams s' \<and> set (rt_actions s) \<subseteq> set (rt_actions s')
     \<and> (nr_closed (rt_node s) \<longrightarrow> nr_closed (rt_node s'))
     \<and> (\<forall>p < length (rt_pipes s). pr_closed (pipe s p) \<longrightarrow> pr_closed (pipe s' p))
     \<and> (\<forall>a < length (rt_pumps s). sp_targetConn (pump s' a) = sp_targetConn (pump s a)
          \<and> sp_parent (pump s' a) = sp_parent (pump s a) \<and> sp_SessionID (pump s' a) = sp_SessionID (pump s a)
          \<and> (sp_stopping (pump s a) \<longrightarrow> sp_stopping (pump s' a)) \<and> (sp_workClosed (pump s a) \<longrightarrow> sp_workClosed (pump s' a))
          \<and> (sp_stopDone (pump s a) \<longrightarrow> sp_stopDone (pump s' a))
          \<and> (\<not> sp_stopping (pump s' a) \<longrightarrow> sp_activeCarrier (pump s' a) \<in> {sp_activeCarrier (pump s a), sp_targetConn (pump s a)}))"

lemma over_mono:
  "set (rt_actions s) \<subseteq> set (rt_actions s') \<Longrightarrow> carrier_over s c \<Longrightarrow> carrier_over s' c"
  "set (rt_actions s) \<subseteq> set (rt_actions s') \<Longrightarrow> target_over s t \<Longrightarrow> target_over s' t"
  by (auto simp: carrier_over_def list_ex_iff target_over_def split: option.splits)

lemma grows_step:
  assumes "moves f s s' fs spawned" "frame_ok s f"
  shows "grows s s'"
  using assms
proof cases
  case (complete a st r) with assms(2) show ?thesis
    by (cases st) (auto simp: grows_def nth_upd split: option.splits if_splits)
qed (auto simp: grows_def nth_upd nth_append closing_def)

lemma grows_session:
  assumes "grows s s'" "a < length (rt_pumps s)"
  shows "a < length (rt_pumps s')" "sp_targetConn (pump s' a) = sp_targetConn (pump s a)"
    "sp_parent (pump s' a) = sp_parent (pump s a)" "sp_SessionID (pump s' a) = sp_SessionID (pump s a)"
    "sp_stopping (pump s a) \<Longrightarrow> sp_stopping (pump s' a)" "sp_workClosed (pump s a) \<Longrightarrow> sp_workClosed (pump s' a)"
    "sp_stopDone (pump s a) \<Longrightarrow> sp_stopDone (pump s' a)"
    "\<not> sp_stopping (pump s' a) \<Longrightarrow> sp_targetConn (pump s a) = Some c \<Longrightarrow> sp_activeCarrier (pump s a) = Some c \<Longrightarrow>
     sp_activeCarrier (pump s' a) = Some c"
  using assms by (auto simp: grows_def)

lemma grows_rest:
  assumes "grows s s'"
  shows "p < length (rt_pipes s) \<Longrightarrow> p < length (rt_pipes s')"
    "p < length (rt_pipes s) \<Longrightarrow> pr_closed (pipe s p) \<Longrightarrow> pr_closed (pipe s' p)"
    "nr_closed (rt_node s) \<Longrightarrow> nr_closed (rt_node s')" "c < rt_streams s \<Longrightarrow> c < rt_streams s'"
    "carrier_over s c \<Longrightarrow> carrier_over s' c" "target_over s t \<Longrightarrow> target_over s' t"
  using assms over_mono by (auto simp: grows_def)

lemma frame_ok_mono:
  assumes "frame_ok s f" "grows s s'"
  shows "frame_ok s' f"
proof (cases f)
  case (Complete a st r)
  with assms(1) have "a < length (rt_pumps s)" by simp
  note g = grows_session [OF assms(2) this] grows_rest [OF assms(2)]
  show ?thesis using assms(1) unfolding Complete frame_ok.simps g(2) by (blast intro: g)
next
  case (Pumping a c x y)
  with assms(1) have "a < length (rt_pumps s)" by simp
  note g = grows_session [OF assms(2) this]
  show ?thesis using assms(1) unfolding Pumping frame_ok.simps g(2) by (blast intro: g)
qed (use assms(1) grows_session [OF assms(2)] grows_rest [OF assms(2)] in auto)

lemma registered:
  assumes "pipe_ok s p" "a \<in> set (fst (registry_close (pr_registry (pipe s p))))"
  shows "a < length (rt_pumps s)" "sp_parent (pump s a) = p"
proof -
  obtain i where "(i, a) \<in> set (rg_sessions (pr_registry (pipe s p)))"
    using assms(2) by (auto simp: registry_close_def split: if_splits)
  with assms(1) show "a < length (rt_pumps s)" "sp_parent (pump s a) = p"
    by (auto simp: pipe_ok_def Let_def)
qed

lemma active_target:
  assumes "ok s F" "a < length (rt_pumps s)"
  shows "sp_activeCarrier (pump s a) = None \<or> sp_activeCarrier (pump s a) = sp_targetConn (pump s a)"
  using assms by (cases "sp_activeCarrier (pump s a)") (auto simp: ok_def session_ok_def good_def)

lemma frame_ok_new:
  assumes "moves f s s' fs spawned" "ok s (add_mset f R)" "g \<in># mset fs + frames (mset spawned)"
  shows "frame_ok s' g"
proof -
  have fr: "frame_ok s f" and node: "node_ok s" and pipe: "\<And>p. p < length (rt_pipes s) \<Longrightarrow> pipe_ok s p"
    using assms(2) by (simp_all add: ok_def)
  note active = active_target [OF assms(2)]
  from assms(1) fr assms(3) show ?thesis
  proof cases
    case (complete a st r) with fr assms(3) show ?thesis
      by (cases st) (auto simp: nth_upd carrier_over_def target_over_def split: option.splits if_splits)
  next
    case (pipe_begin p) with registered(1) [OF pipe, of p] fr assms(3) show ?thesis
      by (auto simp: closing_def)
  next
    case (no_session h p cfg c) with assms(3) show ?thesis by (cases h) (auto simp: no_session_def)
  next
    case (refused h a c) with assms(3) show ?thesis by (cases h) (auto simp: refused_def)
  next
    case (installed a h c) with fr assms(3) show ?thesis by (cases h) (auto simp: has_run_def)
  next
    case (node_begin) with node assms(3) show ?thesis by (auto simp: node_ok_def)
  next
    case (load a c) with fr active [of a] assms(3) show ?thesis by auto
  next
    case (pipe_next_stop a p as) with fr active [of a] assms(3) show ?thesis by auto
  next
    case (stop_stop a) with fr active [of a] assms(3) show ?thesis by auto
  next
    case (load_stop a) with fr active [of a] assms(3) show ?thesis by auto
  next
    case (broke h n a c u v u' v') with fr active [of a] assms(3) show ?thesis by auto
  qed (auto simp: nth_upd nth_append)
qed

lemma no_closer:
  assumes "ok s F" "a < length (rt_pumps s)" "\<not> sp_stopping (pump s a)"
  shows "Complete a st r \<notin># F"
proof
  assume "Complete a st r \<in># F"
  then obtain G where "F = add_mset (Complete a st r) G" by (metis mset_add)
  with assms show False by (auto simp: ok_def session_ok_def good_def)
qed

lemma pumping_active:
  assumes "ok s F" "Pumping a c x y \<in># F"
  shows "a < length (rt_pumps s)" "sp_targetConn (pump s a) = Some c"
    "\<not> sp_stopping (pump s a) \<Longrightarrow> sp_activeCarrier (pump s a) = Some c"
  using assms by (auto simp: ok_def)

lemma stopping_no_active:
  "ok s F \<Longrightarrow> a < length (rt_pumps s) \<Longrightarrow> sp_activeCarrier (pump s a) = Some c \<Longrightarrow> \<not> sp_stopping (pump s a)"
  by (auto simp: ok_def session_ok_def good_def)

lemma pumps_ok_mono:
  assumes "pumps_ok F" "\<And>a c. \<exists>f \<in># F'. pumps_on a c f \<Longrightarrow> \<exists>f \<in># F. pumps_on a c f"
    "\<And>a r. \<exists>f \<in># F'. ends_with a r f \<Longrightarrow> \<exists>f \<in># F. ends_with a r f"
  shows "pumps_ok F'"
  using assms unfolding pumps_ok_def by meson

text \<open>A session that begins to stop hands over the stream its pump works on.\<close>

lemma pumps_ok_stop:
  assumes "ok s F" "a < length (rt_pumps s)" "\<not> sp_stopping (pump s a)"
    "\<And>b c. \<exists>f \<in># F'. pumps_on b c f \<Longrightarrow> \<exists>f \<in># F. pumps_on b c f"
    "\<And>b r. \<exists>f \<in># F'. ends_with b r f \<Longrightarrow> (\<exists>f \<in># F. ends_with b r f) \<or> b = a \<and> r = resources (pump s a)"
  shows "pumps_ok F'"
  unfolding pumps_ok_def
proof (intro allI impI)
  fix b c r
  assume "\<exists>f \<in># F'. pumps_on b c f" "\<exists>f \<in># F'. ends_with b r f"
  then have p: "\<exists>f \<in># F. pumps_on b c f" and c: "(\<exists>f \<in># F. ends_with b r f) \<or> b = a \<and> r = resources (pump s a)"
    using assms(4,5) by auto
  from c show "sr_active r = Some c"
  proof
    assume "\<exists>f \<in># F. ends_with b r f"
    then show ?thesis using assms(1) p by (auto simp: ok_def pumps_ok_def)
  next
    assume "b = a \<and> r = resources (pump s a)"
    then show ?thesis using p pumping_active(3) [OF assms(1)] assms(3) by (auto simp: pumps_on_iff)
  qed
qed

lemma handler_no_sessions [simp]:
  "\<not> (\<exists>f \<in> set (no_session h d). pumps_on a c f)" "\<not> (\<exists>f \<in> set (refused h d). pumps_on a c f)"
  "\<not> (\<exists>f \<in> set (has_run h d). pumps_on a c f)" "\<not> (\<exists>f \<in> set (no_session h d). ends_with a r f)"
  "\<not> (\<exists>f \<in> set (refused h d). ends_with a r f)" "\<not> (\<exists>f \<in> set (has_run h d). ends_with a r f)"
  by (cases h; simp add: no_session_def refused_def has_run_def)+

lemma pumps_ok_step:
  assumes "moves f s s' fs spawned" "ok s (add_mset f R)"
  shows "pumps_ok (mset fs + R + frames (mset spawned))"
proof -
  have old: "pumps_ok (add_mset f R)" and fr: "frame_ok s f" using assms(2) by (simp_all add: ok_def)
  note simps = bex_Un
  from assms(1) show ?thesis
  proof cases
    case (load a c)
    with fr no_closer [OF assms(2)] stopping_no_active [OF assms(2)] have "\<And>r f. f \<in># R \<Longrightarrow> \<not> ends_with a r f"
      by (auto simp: ends_with_iff)
    with load old show ?thesis by (auto simp: pumps_ok_def)
  next
    case (complete a st r)
    with old show ?thesis by (cases st) (auto simp: simps elim!: pumps_ok_mono split: if_splits)
  next
    case (pipe_next_stop a p as) with fr show ?thesis by (intro pumps_ok_stop [OF assms(2), of a]) (auto simp: simps)
  next
    case (stop_stop a) with fr show ?thesis by (intro pumps_ok_stop [OF assms(2), of a]) (auto simp: simps)
  next
    case (load_stop a) with fr show ?thesis by (intro pumps_ok_stop [OF assms(2), of a]) (auto simp: simps)
  next
    case (broke g n a c u v u' v') with fr show ?thesis by (intro pumps_ok_stop [OF assms(2), of a]) (auto simp: simps)
  qed (use old in \<open>auto simp: simps pumps_ok_def\<close>)
qed

lemma update_new: "map_of xs i = None \<Longrightarrow> AList.update i a xs = xs @ [(i, a)]"
  by (induction xs) auto

lemma pipe_ok_mono:
  assumes "pipe_ok s p" "p < length (rt_pipes s)" "grows s s'" "pr_closed (pipe s' p) = pr_closed (pipe s p)" "pr_registry (pipe s' p) = pr_registry (pipe s p)"
  shows "pipe_ok s' p"
  using assms(1,4,5) grows_session(1,3,4) [OF assms(3)] by (force simp: pipe_ok_def Let_def)

lemma pipe_ok_sessions:
  "pipe_ok s p \<longleftrightarrow>
     rg_closed (pr_registry (pipe s p)) = pr_closed (pipe s p) \<and> distinct (map fst (rg_sessions (pr_registry (pipe s p))))
     \<and> (\<forall>i a. (i, a) \<in> set (rg_sessions (pr_registry (pipe s p))) \<longrightarrow>
          a < length (rt_pumps s) \<and> sp_parent (pump s a) = p \<and> sp_SessionID (pump s a) = i)"
  by (auto simp: pipe_ok_def Let_def)

lemma remove_simps:
  "rg_closed (registry_remove i a r) = rg_closed r"
  "(j, b) \<in> set (rg_sessions (registry_remove i a r)) \<Longrightarrow> (j, b) \<in> set (rg_sessions r)"
  "distinct (map fst (rg_sessions r)) \<Longrightarrow> distinct (map fst (rg_sessions (registry_remove i a r)))"
  by (auto simp: registry_remove_def AList.delete_eq distinct_map_filter split: if_splits)

lemma pipe_ok_step:
  assumes "moves f s s' fs spawned" "ok s (add_mset f R)" "p < length (rt_pipes s')"
  shows "pipe_ok s' p"
proof -
  have fr: "frame_ok s f" and old: "p < length (rt_pipes s) \<Longrightarrow> pipe_ok s p" using assms(2) by (simp_all add: ok_def)
  note g = grows_step [OF assms(1) fr]
  note mono = pipe_ok_mono [OF old _ g]
  from assms(1) show ?thesis
  proof cases
    case (complete a st r)
    show ?thesis
    proof (cases "st = Unregister \<and> sp_parent (pump s a) = p")
      case True
      with complete have s': "s' = upd_pipe p (pr_registry_update (registry_remove (sp_SessionID (pump s a)) a)) s" by simp
      with old assms(3) show ?thesis by (auto simp: pipe_ok_sessions remove_simps dest: remove_simps(2))
    next
      case False
      have "pr_closed (pipe s' p) = pr_closed (pipe s p) \<and> pr_registry (pipe s' p) = pr_registry (pipe s p)"
        "length (rt_pipes s') = length (rt_pipes s)"
        using complete False by (cases st; auto split: option.splits if_splits)+
      with assms(3) show ?thesis by (intro mono) simp_all
    qed
  next
    case (session q cfg r h c)
    then have r: "r = (pr_registry (pipe s q))\<lparr>rg_sessions := rg_sessions (pr_registry (pipe s q)) @ [(sc_SessionID cfg, length (rt_pumps s))]\<rparr>"
      and new: "sc_SessionID cfg \<notin> fst ` set (rg_sessions (pr_registry (pipe s q)))"
      by (auto simp: registry_register_def update_new map_of_eq_None_iff split: if_splits)
    show ?thesis
    proof (cases "p = q")
      case True
      with session r new old fr show ?thesis by (auto simp: pipe_ok_sessions nth_append less_Suc_eq)
    next
      case False
      with session assms(3) show ?thesis by (intro mono) auto
    qed
  next
    case (pipe_begin q)
    with old fr assms(3) show ?thesis by (auto simp: pipe_ok_sessions nth_upd closing_def registry_close_def)
  qed (insert assms(3), (rule mono; simp add: nth_upd)+)
qed

lemma node_ok_step: "moves f s s' fs spawned \<Longrightarrow> node_ok s \<Longrightarrow> node_ok s'"
proof (induction rule: moves.induct)
  case (complete a st r s s' fs) then show ?case by (cases st) (auto simp: node_ok_def split: option.splits if_splits)
qed (auto simp: node_ok_def)

lemma not_panicked: "moves f s s' fs spawned \<Longrightarrow> ok s (add_mset f R) \<Longrightarrow> \<not> rt_panicked s'"
proof (induction rule: moves.induct)
  case (complete a st r s s' fs) then show ?case by (cases st) (auto simp: ok_def split: option.splits if_splits)
next
  case (panic s a) with no_panic [of s a R] show ?case by simp
qed (auto simp: ok_def)

lemma ok_step:
  assumes "run x f s = Some (s', fs, spawned)" "ok s (add_mset f R)"
  shows "ok s' (mset fs + R + frames (mset spawned))"
proof -
  note m = run_moves [OF assms(1)]
  have fr: "frame_ok s f" and all: "\<forall>g \<in># R. frame_ok s g" using assms(2) by (auto simp: ok_def)
  have "frame_ok s' g" if "g \<in># mset fs + R + frames (mset spawned)" for g
    using that all frame_ok_new [OF m assms(2), of g] frame_ok_mono [OF _ grows_step [OF m fr], of g] by auto
  moreover have "node_ok s'" using node_ok_step [OF m] assms(2) by (simp add: ok_def)
  moreover have "\<not> rt_panicked s'" using not_panicked [OF m assms(2)] .
  ultimately show ?thesis
    using session_ok_step [OF m assms(2)] pumps_ok_step [OF m assms(2)] pipe_ok_step [OF m assms(2)] by (simp add: ok_def)
qed

text \<open>Steps from outside, and the invariant of every process.\<close>

lemma ok_start: "ok NewNodeRuntime {#Watch#}"
  by (simp add: ok_def NewNodeRuntime_def pumps_ok_def node_ok_def)

lemma frames_start [simp]: "frames {#[Watch]#} = {#Watch#}"
  by simp

lemma ok_same:
  assumes "ok s F" "rt_pumps s' = rt_pumps s" "rt_pipes s' = rt_pipes s" "rt_actions s' = rt_actions s" "rt_streams s \<le> rt_streams s'"
    "nr_closed (rt_node s') = nr_closed (rt_node s)" "nr_pipes (rt_node s') = nr_pipes (rt_node s)"
    "rt_panicked s' = rt_panicked s" "\<And>a. count G (Finish a) = 0" "\<And>a. closers a G = 0"
    "\<And>f. f \<in># G \<Longrightarrow> frame_ok s' f" "\<And>f a c r. f \<in># G \<Longrightarrow> \<not> pumps_on a c f \<and> \<not> ends_with a r f"
  shows "ok s' (G + F)"
proof -
  have "grows s s'" using assms by (simp add: grows_def)
  then have "\<forall>f \<in># G + F. frame_ok s' f" using assms(1,11) frame_ok_mono [of s _ s'] by (auto simp: ok_def)
  moreover have "pumps_ok (G + F)" using assms(1,12) by (auto simp: ok_def elim!: pumps_ok_mono)
  ultimately show ?thesis using assms unfolding ok_def session_ok_def by (simp add: node_ok_def pipe_ok_def)
qed

lemma ok_new_pipe:
  assumes "NewPipeRuntime s = (Inr p, s')" "ok s F"
  shows "ok s' F"
proof -
  have s': "s' = s\<lparr>rt_pipes := rt_pipes s @ [\<lparr>pr_cancelled = False, pr_closed = False, pr_registry = newSessionRegistry, pr_done = False\<rparr>],
      rt_node := (rt_node s)\<lparr>nr_pipes := List.insert (length (rt_pipes s)) (nr_pipes (rt_node s))\<rparr>\<rparr>"
    using assms(1) by (auto simp: NewPipeRuntime_def Let_def split: if_splits)
  have "grows s s'" by (simp add: s' grows_def nth_append)
  with assms(2) frame_ok_mono [of s _ s'] show ?thesis unfolding ok_def session_ok_def
    by (auto simp: s' node_ok_def pipe_ok_def nth_append newSessionRegistry_def good_def less_Suc_eq)
qed

lemma ok_outside:
  assumes "outside P Q" "ok (fst P) (frames (snd P))"
  shows "ok (fst Q) (frames (snd Q))"
  using assms
proof cases
  case (cancelled s T) with assms(2) show ?thesis using ok_same [of s "frames T" "fst Q" "{#}"] by simp
next
  case (new_pipe s p s' T) with assms(2) show ?thesis by (simp add: ok_new_pipe)
next
  case (close_node s T) with assms(2) show ?thesis using ok_same [of s "frames T" s "{#CloseNode#}"] by simp
next
  case (close_pipe p s T) with assms(2) show ?thesis using ok_same [of s "frames T" s "{#ClosePipe p#}"] by simp
next
  case (expired a s T) with assms(2) show ?thesis using ok_same [of s "frames T" s "{#Stop a#}"] by simp
next
  case (stream p s cfg T h)
  with assms(2) show ?thesis using ok_same [of s "frames T" "fst Q" "{#Serve h p cfg (rt_streams s)#}"] by simp
next
  case (more_work a s f T) with assms(2) show ?thesis using ok_same [of s "frames T" s "{#f#}"] by auto
qed

lemma ok_reachable: "reachable P \<Longrightarrow> ok (fst P) (frames (snd P))"
proof (induction rule: reachable.induct)
  case start then show ?case by (simp add: start_def ok_start)
next
  case (outside P Q) then show ?case using ok_outside by blast
next
  case (inside P x Q)
  from inside.hyps(2) show ?case
  proof cases
    case (1 f s s' fs spawned k T)
    with inside.IH have "ok s (add_mset f (mset k + frames T))" by simp
    from ok_step [OF 1(3) this] 1 show ?thesis by (simp add: ac_simps)
  qed
qed

end
