(* ===== verification/Closing.thy ===== *)
theory Closing
  imports LifecycleInv
begin

text \<open>How a process comes to rest: what its goroutines wait for, and that they do not wait forever.\<close>

section \<open>Processes\<close>

lemma reachable_inv:
  assumes "reachable P" "I NewNodeRuntime {#[Watch]#}"
    "\<And>s T s' T'. reachable (s, T) \<Longrightarrow> I s T \<Longrightarrow> outside (s, T) (s', T') \<Longrightarrow> I s' T'"
    "\<And>f s s' fs spawned k T. ok s (add_mset f (mset k + frames T)) \<Longrightarrow> I s (add_mset (f # k) T) \<Longrightarrow>
       moves f s s' fs spawned \<Longrightarrow> I s' (add_mset (fs @ k) (mset spawned + T))"
  shows "I (fst P) (snd P)"
  using assms(1)
proof (induction rule: reachable.induct)
  case start then show ?case using assms(2) by (simp add: start_def)
next
  case (outside P Q) then show ?case using assms(3) [of "fst P" "snd P" "fst Q" "snd Q"] by simp
next
  case (inside P x Q)
  from inside.hyps(2) show ?case
  proof cases
    case (1 f s s' fs spawned k T)
    then show ?thesis using inside.IH ok_reachable [OF inside.hyps(1)] assms(4) run_moves by simp
  qed
qed

section \<open>Shapes of stacks\<close>

datatype level = Worker nat | SessionLevel | PipeLevel | OtherLevel

fun level_of :: "frame \<Rightarrow> level" where
  "level_of (PumpLoad a) = Worker a"
| "level_of (Pumping a c x y) = Worker a"
| "level_of (WaitStop a) = SessionLevel"
| "level_of (Complete a st r) = SessionLevel"
| "level_of (ClosePipe p) = PipeLevel"
| "level_of (WaitPipe p) = PipeLevel"
| "level_of (StopSessions p as) = PipeLevel"
| "level_of (Detach p) = PipeLevel"
| "level_of (PipeDone p) = PipeLevel"
| "level_of _ = OtherLevel"

text \<open>What may stand below a frame of a level: a goroutine that still has to finish work never waits, and only the
  shutdown of a session stands above the shutdown of its Pipe.\<close>

fun over :: "level \<Rightarrow> frame \<Rightarrow> bool" where
  "over l (Finish a) \<longleftrightarrow> l = Worker a"
| "over l (StopSessions p as) \<longleftrightarrow> l = SessionLevel"
| "over l (Detach p) \<longleftrightarrow> l = SessionLevel"
| "over l (PipeDone p) \<longleftrightarrow> l = SessionLevel"
| "over l (ClosePipes ps) \<longleftrightarrow> l = SessionLevel \<or> l = PipeLevel"
| "over l NodeDone \<longleftrightarrow> l = SessionLevel \<or> l = PipeLevel"
| "over l (PumpLoad a) \<longleftrightarrow> False"
| "over l (Pumping a c x y) \<longleftrightarrow> False"
| "over l (Complete a st r) \<longleftrightarrow> False"
| "over l (ClosePipe p) \<longleftrightarrow> False"
| "over l CloseNode \<longleftrightarrow> False"
| "over l Watch \<longleftrightarrow> False"
| "over l _ \<longleftrightarrow> True"

fun shape :: "frame list \<Rightarrow> bool" where
  "shape [] \<longleftrightarrow> True"
| "shape (f # k) \<longleftrightarrow>
     (\<forall>g \<in> set k. over (level_of f) g) \<and> (case level_of f of Worker a \<Rightarrow> Finish a \<in> set k | _ \<Rightarrow> True) \<and> shape k"

lemma over_lift: "over OtherLevel g \<Longrightarrow> over l g" "over PipeLevel g \<Longrightarrow> over SessionLevel g"
  by (cases g; auto)+

lemma handler_shape:
  "shape (no_session h c @ k) \<longleftrightarrow> (\<forall>g \<in> set k. over OtherLevel g) \<and> shape k"
  "shape (refused h c @ k) \<longleftrightarrow> (\<forall>g \<in> set k. over OtherLevel g) \<and> shape k"
  "(\<forall>g \<in> set k. over OtherLevel g) \<Longrightarrow> shape k \<Longrightarrow> shape (has_run h c @ k)"
  "g \<in> set (has_run h c) \<Longrightarrow> over l g"
  by (cases h; auto simp: no_session_def refused_def has_run_def)+

lemma shape_step:
  assumes "moves f s s' fs spawned" "shape (f # k)"
  shows "shape (fs @ k) \<and> (\<forall>j \<in> set spawned. shape j)"
  using assms
proof cases
  case (complete a st r) with assms(2) show ?thesis by (cases st) (auto split: if_splits)
next
  case (installed a h c) with assms(2) show ?thesis by (auto simp: handler_shape)
qed (use assms(2) in \<open>auto simp: handler_shape intro: over_lift\<close>)

lemma shape_reachable:
  assumes "reachable P"
  shows "\<forall>k \<in># snd P. shape k"
proof (rule reachable_inv [where I = "\<lambda>s T. \<forall>k \<in># T. shape k", OF assms])
  show "\<forall>k \<in># T'. shape k" if "\<forall>k \<in># T. shape k" "outside (s, T) (s', T')" for s T s' T'
    using that(2,1) by (cases rule: outside.cases) auto
  show "\<forall>j \<in># add_mset (fs @ k) (mset spawned + T). shape j"
    if "moves f s s' fs spawned" "\<forall>j \<in># add_mset (f # k) T. shape j" for f s s' fs spawned k T
    using shape_step [OF that(1), of k] that(2) by auto
qed simp

section \<open>Closing Pipes and the node\<close>

fun closes_pipe :: "nat \<Rightarrow> frame \<Rightarrow> bool" where
  "closes_pipe p (StopSessions q _) \<longleftrightarrow> p = q"
| "closes_pipe p (Detach q) \<longleftrightarrow> p = q"
| "closes_pipe p (PipeDone q) \<longleftrightarrow> p = q"
| "closes_pipe p _ \<longleftrightarrow> False"

fun closes_node :: "frame \<Rightarrow> bool" where
  "closes_node (ClosePipes _) \<longleftrightarrow> True"
| "closes_node NodeDone \<longleftrightarrow> True"
| "closes_node _ \<longleftrightarrow> False"

fun watches :: "frame \<Rightarrow> bool" where
  "watches Watch \<longleftrightarrow> True"
| "watches CloseNode \<longleftrightarrow> True"
| "watches _ \<longleftrightarrow> False"

fun will_close :: "nat \<Rightarrow> frame \<Rightarrow> bool" where
  "will_close p (ClosePipe q) \<longleftrightarrow> p = q"
| "will_close p (ClosePipes ps) \<longleftrightarrow> p \<in> set ps"
| "will_close p _ \<longleftrightarrow> False"

text \<open>A closed Pipe runtime or node that is not done is being closed; once the node is closed all its Pipe runtimes are
  or are about to be.\<close>

definition closers_ok :: "Runtime \<Rightarrow> frame multiset \<Rightarrow> bool" where
  "closers_ok s F \<longleftrightarrow>
     (\<forall>p < length (rt_pipes s). pr_closed (pipe s p) \<longrightarrow> pr_done (pipe s p) \<or> (\<exists>f \<in># F. closes_pipe p f))
     \<and> (\<forall>p < length (rt_pipes s). pr_done (pipe s p) \<longrightarrow> pr_closed (pipe s p))
     \<and> (nr_closed (rt_node s) \<longrightarrow> nr_done (rt_node s) \<or> (\<exists>f \<in># F. closes_node f))
     \<and> (\<forall>p < length (rt_pipes s). pr_closed (pipe s p) \<or> \<not> nr_closed (rt_node s) \<and> p \<in> set (nr_pipes (rt_node s))
          \<or> (\<exists>f \<in># F. will_close p f))
     \<and> (if nr_closed (rt_node s) then nr_cancelled (rt_node s) else \<exists>f \<in># F. watches f)"

lemma handler_closers [simp]:
  "\<not> (\<exists>f \<in> set (no_session h d). closes_pipe p f)" "\<not> (\<exists>f \<in> set (refused h d). closes_pipe p f)"
  "\<not> (\<exists>f \<in> set (has_run h d). closes_pipe p f)" "\<not> (\<exists>f \<in> set (no_session h d). closes_node f)"
  "\<not> (\<exists>f \<in> set (refused h d). closes_node f)" "\<not> (\<exists>f \<in> set (has_run h d). closes_node f)"
  "\<not> (\<exists>f \<in> set (no_session h d). will_close p f)" "\<not> (\<exists>f \<in> set (refused h d). will_close p f)"
  "\<not> (\<exists>f \<in> set (has_run h d). will_close p f)" "\<not> (\<exists>f \<in> set (no_session h d). watches f)"
  "\<not> (\<exists>f \<in> set (refused h d). watches f)" "\<not> (\<exists>f \<in> set (has_run h d). watches f)"
  by (cases h; simp add: no_session_def refused_def has_run_def)+

lemma closers_ok_step:
  assumes "moves f s s' fs spawned" "frame_ok s f" "closers_ok s (add_mset f R)"
  shows "closers_ok s' (mset fs + R + frames (mset spawned))"
  using assms
proof cases
  case (complete a st r) with assms(3) show ?thesis
    by (cases st) (auto simp: closers_ok_def nth_upd split: option.splits if_splits)
qed (use assms(2,3) in \<open>auto simp: closers_ok_def bex_Un nth_upd closing_def\<close>)

lemma closers_ok_add: "closers_ok s F \<Longrightarrow> closers_ok s (F + G)"
  by (auto simp: closers_ok_def)

lemma closers_ok_outside:
  assumes "outside (s, T) (s', T')" "closers_ok s (frames T)"
  shows "closers_ok s' (frames T')"
  using assms
proof cases
  case (new_pipe p) with assms(2) show ?thesis
    by (auto simp: closers_ok_def NewPipeRuntime_def Let_def nth_append less_Suc_eq split: if_splits)
qed (use assms(2) in \<open>auto simp: closers_ok_def\<close>)

lemma closers_reachable:
  assumes "reachable P"
  shows "closers_ok (fst P) (frames (snd P))"
proof (rule reachable_inv [where I = "\<lambda>s T. closers_ok s (frames T)", OF assms])
  show "closers_ok NewNodeRuntime (frames {#[Watch]#})" by (simp add: closers_ok_def NewNodeRuntime_def)
  show "closers_ok s' (frames (add_mset (fs @ k) (mset spawned + T)))"
    if "ok s (add_mset f (mset k + frames T))" "closers_ok s (frames (add_mset (f # k) T))" "moves f s s' fs spawned"
    for f s s' fs spawned k T
    using closers_ok_step [OF that(3), of "mset k + frames T"] that(1,2) by (simp add: ok_def ac_simps)
qed (rule closers_ok_outside)

section \<open>What the closing of a Pipe waits for\<close>

fun waits_on :: "nat \<Rightarrow> frame \<Rightarrow> bool" where
  "waits_on a (WaitStop b) \<longleftrightarrow> a = b"
| "waits_on a (Complete b _ _) \<longleftrightarrow> a = b"
| "waits_on a _ \<longleftrightarrow> False"

fun will_stop :: "nat \<Rightarrow> nat \<Rightarrow> frame \<Rightarrow> bool" where
  "will_stop p a (StopSessions q as) \<longleftrightarrow> p = q \<and> a \<in> set as"
| "will_stop p a _ \<longleftrightarrow> False"

fun stops_of :: "nat \<Rightarrow> frame \<Rightarrow> bool" where
  "stops_of p (StopSessions q as) \<longleftrightarrow> p = q"
| "stops_of p _ \<longleftrightarrow> False"

text \<open>The goroutine that closes Pipe \<open>p\<close> still waits for session \<open>a\<close>, now or when it comes to it.\<close>

fun awaits :: "nat \<Rightarrow> nat \<Rightarrow> frame list \<Rightarrow> bool" where
  "awaits p a [] \<longleftrightarrow> False"
| "awaits p a (f # k) \<longleftrightarrow> will_stop p a f \<or> waits_on a f \<and> (\<exists>g \<in> set k. stops_of p g) \<or> awaits p a k"

fun announces :: "nat \<Rightarrow> frame \<Rightarrow> bool" where
  "announces a (Complete b Announce _) \<longleftrightarrow> a = b"
| "announces a _ \<longleftrightarrow> False"

definition settled :: "Runtime \<Rightarrow> frame multiset \<Rightarrow> nat \<Rightarrow> bool" where
  "settled s F a \<longleftrightarrow> sp_stopDone (pump s a) \<or> (\<exists>f \<in># F. announces a f)"

definition session_known :: "Runtime \<Rightarrow> frame list multiset \<Rightarrow> nat \<Rightarrow> bool" where
  "session_known s T a \<longleftrightarrow>
     (let p = sp_parent (pump s a) in
      settled s (frames T) a
      \<or> (if pr_closed (pipe s p) then \<exists>k \<in># T. awaits p a k
         else (sp_SessionID (pump s a), a) \<in> set (rg_sessions (pr_registry (pipe s p)))))"

lemma awaits_append: "awaits p a k \<Longrightarrow> awaits p a (fs @ k)"
  by (induction fs) auto

lemma awaits_stops: "awaits p a k \<Longrightarrow> \<exists>g \<in> set k. stops_of p g"
  by (induction k) (auto elim: will_stop.elims)

lemma settled_step:
  assumes "moves f s s' fs spawned" "frame_ok s f" "a < length (rt_pumps s)" "settled s (add_mset f R) a"
  shows "settled s' (mset fs + R + frames (mset spawned)) a"
  using assms
proof cases
  case (complete b st r) with assms(2-4) show ?thesis
    by (cases st) (auto simp: settled_def nth_upd split: option.splits if_splits)
qed (use assms(2-4) in \<open>auto simp: settled_def nth_upd nth_append bex_Un\<close>)

lemma awaits_step:
  assumes "moves f s s' fs spawned" "frame_ok s f" "awaits p a (f # k)"
  shows "awaits p a (fs @ k) \<or> sp_stopDone (pump s' a)"
proof (cases "awaits p a k")
  case True then show ?thesis by (simp add: awaits_append)
next
  case False
  with assms(3) have top: "will_stop p a f \<or> waits_on a f \<and> (\<exists>g \<in> set k. stops_of p g)" by simp
  from assms(1) show ?thesis
  proof cases
    case (complete b st r) with top assms(2) show ?thesis by (cases st) (auto split: if_splits)
  qed (use top in auto)
qed

lemma parent_bound: "ok s F \<Longrightarrow> a < length (rt_pumps s) \<Longrightarrow> sp_parent (pump s a) < length (rt_pipes s)"
  by (auto simp: ok_def session_ok_def good_def)

text \<open>A session leaves the registry only settled, or into the list of the closing goroutine.\<close>

lemma registry_step:
  assumes "moves f s s' fs spawned" "ok s (add_mset f R)" "p < length (rt_pipes s)" "\<not> pr_closed (pipe s p)"
    "(i, a) \<in> set (rg_sessions (pr_registry (pipe s p)))"
  shows "\<not> pr_closed (pipe s' p) \<and> (i, a) \<in> set (rg_sessions (pr_registry (pipe s' p)))
    \<or> pr_closed (pipe s' p) \<and> (\<exists>g \<in> set fs. will_stop p a g) \<or> (\<exists>g \<in> set fs. announces a g)"
proof -
  have fr: "frame_ok s f" and pk: "pipe_ok s p" using assms(2,3) by (simp_all add: ok_def)
  then have dist: "distinct (map fst (rg_sessions (pr_registry (pipe s p))))"
    and opn: "\<not> rg_closed (pr_registry (pipe s p))" using assms(4) by (simp_all add: pipe_ok_sessions)
  have a: "a \<in> snd ` set (rg_sessions (pr_registry (pipe s p)))" using assms(5) by (auto intro: rev_image_eqI)
  from assms(1) show ?thesis
  proof cases
    case (complete b st r)
    show ?thesis
    proof (cases "st = Unregister \<and> sp_parent (pump s b) = p \<and> i = sp_SessionID (pump s b)
        \<and> map_of (rg_sessions (pr_registry (pipe s p))) i = Some b")
      case True
      with assms(5) dist have "a = b" by (simp add: map_of_eq_Some_iff) (metis map_of_is_SomeI option.inject)
      with True complete show ?thesis by auto
    next
      case False
      with complete assms(3-5) show ?thesis
        by (cases st) (auto simp: nth_upd registry_remove_def AList.delete_eq split: option.splits if_splits)
    qed
  next
    case (session q cfg r h c) with assms(3-5) fr show ?thesis
      by (auto simp: nth_upd registry_register_def update_new split: if_splits)
  next
    case (pipe_begin q)
    then show ?thesis using assms(3-5) opn a by (cases "q = p") (simp_all add: closing_def registry_close_def)
  qed (use assms(3-5) in \<open>auto simp: nth_upd\<close>)
qed

end
