(* ===== verification/Quiesce.thy ===== *)
theory Quiesce
  imports Closing
begin

text \<open>Properties of sessions and their owners: closing terminates and leaves nothing behind.\<close>

lemma known_step:
  assumes "moves f s s' fs spawned" "ok s (add_mset f (mset k + frames T))"
    "\<forall>a < length (rt_pumps s). session_known s (add_mset (f # k) T) a" "a < length (rt_pumps s')"
  shows "session_known s' (add_mset (fs @ k) (mset spawned + T)) a"
proof (cases "a < length (rt_pumps s)")
  case new: False
  have fr: "frame_ok s f" using assms(2) by (simp add: ok_def)
  from assms(1) show ?thesis
  proof cases
    case (session q cfg r h c)
    with new assms(4) have "a = length (rt_pumps s)" by simp
    with session fr show ?thesis
      by (auto simp: session_known_def Let_def registry_register_def update_new split: if_splits)
  next
    case (complete b st r) with new assms(4) show ?thesis by (cases st) (auto split: option.splits if_splits)
  qed (use new assms(4) in auto)
next
  case True
  let ?p = "sp_parent (pump s a)" and ?F = "frames (add_mset (fs @ k) (mset spawned + T))"
  have fr: "frame_ok s f" using assms(2) by (simp add: ok_def)
  note g = grows_step [OF assms(1) fr]
  have p: "?p < length (rt_pipes s)" using parent_bound [OF assms(2) True] .
  have same: "sp_parent (pump s' a) = ?p" "sp_SessionID (pump s' a) = sp_SessionID (pump s a)"
    using grows_session(3,4) [OF g True] by auto
  have F: "?F = mset fs + (mset k + frames T) + frames (mset spawned)" by (simp add: ac_simps)
  consider (settled) "settled s (add_mset f (mset k + frames T)) a"
    | (awaited) j where "pr_closed (pipe s ?p)" "j \<in># add_mset (f # k) T" "awaits ?p a j"
    | (registered) "\<not> pr_closed (pipe s ?p)" "(sp_SessionID (pump s a), a) \<in> set (rg_sessions (pr_registry (pipe s ?p)))"
    using assms(3) [rule_format, OF True] unfolding session_known_def Let_def
    by (auto simp del: awaits.simps split: if_splits)
  then show ?thesis
  proof cases
    case settled
    with settled_step [OF assms(1) fr True] show ?thesis unfolding session_known_def Let_def F by blast
  next
    case awaited
    have "pr_closed (pipe s' ?p)" using grows_rest(2) [OF g p awaited(1)] .
    moreover have "(\<exists>j \<in># add_mset (fs @ k) (mset spawned + T). awaits ?p a j) \<or> sp_stopDone (pump s' a)"
      using awaited(2,3) awaits_step [OF assms(1) fr, of ?p a k] by auto
    ultimately show ?thesis unfolding session_known_def settled_def same Let_def by auto
  next
    case registered
    note step = registry_step [OF assms(1,2) p registered]
    have "awaits ?p a (fs @ k)" if "\<exists>g \<in> set fs. will_stop ?p a g" using that by (induction fs) auto
    with step show ?thesis unfolding session_known_def settled_def same Let_def by auto
  qed
qed

lemma known_outside:
  assumes "outside (s, T) (s', T')" "ok s (frames T)" "\<forall>a < length (rt_pumps s). session_known s T a"
  shows "\<forall>a < length (rt_pumps s'). session_known s' T' a"
proof (intro allI impI)
  fix a assume "a < length (rt_pumps s')"
  from assms(1) have same: "rt_pumps s' = rt_pumps s" "set_mset T \<subseteq> set_mset T'" "set_mset (frames T) \<subseteq> set_mset (frames T')"
    by (auto simp: NewPipeRuntime_def Let_def elim!: outside.cases split: if_splits)
  with \<open>a < length (rt_pumps s')\<close> have a: "a < length (rt_pumps s)" by simp
  have "pipe s' p = pipe s p" if "p < length (rt_pipes s)" for p
    using assms(1) that by (auto simp: NewPipeRuntime_def Let_def nth_append elim!: outside.cases split: if_splits)
  note pipe = this [OF parent_bound [OF assms(2) a]]
  from assms(3) a have "session_known s T a" by simp
  with same pipe show "session_known s' T' a"
    unfolding session_known_def settled_def Let_def by (auto split: if_splits)
qed

lemma known_reachable:
  assumes "reachable P"
  shows "\<forall>a < length (rt_pumps (fst P)). session_known (fst P) (snd P) a"
proof (rule reachable_inv [where I = "\<lambda>s T. \<forall>a < length (rt_pumps s). session_known s T a", OF assms])
  show "\<forall>a < length (rt_pumps s'). session_known s' T' a"
    if "reachable (s, T)" "\<forall>a < length (rt_pumps s). session_known s T a" "outside (s, T) (s', T')" for s T s' T'
    using known_outside [OF that(3) _ that(2)] ok_reachable [OF that(1)] by simp
  show "\<forall>a < length (rt_pumps s'). session_known s' (add_mset (fs @ k) (mset spawned + T)) a"
    if "ok s (add_mset f (mset k + frames T))" "\<forall>a < length (rt_pumps s). session_known s (add_mset (f # k) T) a"
      "moves f s s' fs spawned" for f s s' fs spawned k T
    using known_step [OF that(3,1,2)] by blast
qed (simp add: NewNodeRuntime_def)

section \<open>Rest\<close>

text \<open>The steps a process takes without anything from outside: everything but waiting for bytes, where a loop on a stream
  or connection that was ended on this side gets an error.\<close>

inductive forced :: "process \<Rightarrow> process \<Rightarrow> bool" where
  go: "inside Go P Q \<Longrightarrow> forced P Q"
| read_stream: "run (CopyIn (Broke 0)) (Pumping a c u v) s = Some (s', fs, spawned) \<Longrightarrow> carrier_over s c \<Longrightarrow>
    forced (s, add_mset (Pumping a c u v # k) T) (s', add_mset (fs @ k) (mset spawned + T))"
| read_target: "run (CopyOut (Broke 0)) (Pumping a c u v) s = Some (s', fs, spawned) \<Longrightarrow> target_over s (Some c) \<Longrightarrow>
    forced (s, add_mset (Pumping a c u v # k) T) (s', add_mset (fs @ k) (mset spawned + T))"

definition at_rest :: "process \<Rightarrow> bool" where "at_rest P \<longleftrightarrow> (\<forall>Q. \<not> forced P Q)"

lemma at_rest_top: "at_rest (s, T) \<Longrightarrow> f # k \<in># T \<Longrightarrow> go f s = None"
proof (rule ccontr)
  assume r: "at_rest (s, T)" and "f # k \<in># T" "go f s \<noteq> None"
  then obtain s' fs spawned where g: "run Go f s = Some (s', fs, spawned)" by auto
  obtain R where "T = add_mset (f # k) R" using \<open>f # k \<in># T\<close> by (metis mset_add)
  with r forced.go [OF inside.intros [OF g]] show False by (auto simp: at_rest_def)
qed

lemma at_rest_pump:
  assumes "at_rest (s, T)" "Pumping a c u v # k \<in># T" "carrier_over s c" "target_over s (Some c)"
  shows False
proof -
  obtain R where T: "T = add_mset (Pumping a c u v # k) R" using assms(2) by (metis mset_add)
  consider "u = None" | "v = None" | x y where "u = Some x" "v = Some y" by (cases u; cases v) auto
  then show False
  proof cases
    case 1
    then obtain s' fs spawned where "run (CopyIn (Broke 0)) (Pumping a c u v) s = Some (s', fs, spawned)"
      by (cases "requestStop a (upd_pump a (count_in 0) s)") (auto simp: copy_turn_def)
    from read_stream [OF this assms(3)] assms(1) show False by (auto simp: at_rest_def T)
  next
    case 2
    then obtain s' fs spawned where "run (CopyOut (Broke 0)) (Pumping a c u v) s = Some (s', fs, spawned)"
      by (cases "requestStop a (upd_pump a (count_out 0) s)") (auto simp: copy_turn_def)
    from read_target [OF this assms(4)] assms(1) show False by (auto simp: at_rest_def T)
  next
    case 3
    with at_rest_top [OF assms(1,2)] show False by simp
  qed
qed

lemma top_in_frames: "g # k \<in># T \<Longrightarrow> g \<in># frames T"
  unfolding in_frames by (rule bexI [of _ "g # k"]) simp_all

lemma top_or_below:
  assumes "reachable (s, T)" "f \<in># frames T"
  obtains g k where "g # k \<in># T" "f = g \<or> f \<in> set k \<and> over (level_of g) f" "frame_ok s g"
proof -
  obtain j where j: "j \<in># T" "f \<in> set j" using assms(2) by (auto simp: in_frames)
  then obtain g k where gk: "j = g # k" by (cases j) auto
  have "shape (g # k)" using shape_reachable [OF assms(1)] j(1) unfolding gk snd_conv by (rule bspec)
  moreover have "frame_ok s g" using ok_reachable [OF assms(1)] top_in_frames [of g k T] j(1) gk by (simp add: ok_def)
  ultimately show thesis using that [of g k] j gk by auto
qed

lemma go_ready:
  "go (Finish a) s \<noteq> None" "go (PumpLoad a) s \<noteq> None" "closes_pipe p f \<Longrightarrow> go f s \<noteq> None" "closes_node f \<Longrightarrow> go f s \<noteq> None"
  "watches f \<Longrightarrow> nr_cancelled (rt_node s) \<Longrightarrow> go f s \<noteq> None" "go (ClosePipe p) s \<noteq> None"
proof -
  show "go (Finish a) s \<noteq> None" by (simp add: finishWork_eq)
  show "go (PumpLoad a) s \<noteq> None" by (cases "sp_activeCarrier (pump s a)") (simp_all add: requestStop_eq)
  show "go f s \<noteq> None" if "closes_pipe p f"
  proof (cases f)
    case (StopSessions q as) then show ?thesis by (cases as) (simp_all add: stop_frames_eq)
  qed (use that in simp_all)
  show "go f s \<noteq> None" if "closes_node f"
  proof (cases f)
    case (ClosePipes ps) then show ?thesis by (cases ps) simp_all
  qed (use that in simp_all)
  show "go f s \<noteq> None" if "watches f" "nr_cancelled (rt_node s)"
    using that by (cases f) (simp_all add: beginCloseNode_def Let_def)
  show "go (ClosePipe p) s \<noteq> None" by (simp add: begin_eqs)
qed

text \<open>At rest, a session that was told to stop has stopped: its closer is not waiting, since a goroutine with work of the
  session would be copying from a stream that has ended.\<close>

lemma rest_work:
  assumes "reachable (s, T)" "at_rest (s, T)" "Finish a \<in># frames T"
  obtains c u v k where "Pumping a c u v # k \<in># T" "sp_targetConn (pump s a) = Some c"
proof -
  obtain g k where g: "g # k \<in># T" "Finish a = g \<or> level_of g = Worker a" "frame_ok s g"
    by (rule top_or_below [OF assms(1,3)]) auto
  with at_rest_top [OF assms(2) g(1)] go_ready(1,2) obtain c u v where p: "g = Pumping a c u v"
    by (cases g) (auto simp del: go.simps)
  show thesis using that [of c u v k] g p by simp
qed

lemma rest_sessions:
  assumes "reachable (s, T)" "at_rest (s, T)" "a < length (rt_pumps s)" "sp_stopping (pump s a)"
  shows "sp_stopDone (pump s a)"
proof (rule ccontr)
  assume nd: "\<not> sp_stopDone (pump s a)"
  have ok: "ok s (frames T)" using ok_reachable [OF assms(1)] by simp
  have good: "good (pump s a) (count (frames T) (Finish a)) (closers a (frames T)) (length (rt_pipes s))"
    using ok assms(3) by (simp add: ok_def session_ok_def)
  then have "closers a (frames T) \<noteq> 0" using assms(4) nd by (simp add: good_def)
  then obtain f where f: "f \<in># frames T" "completes a f" using closers_zero [of "frames T" a] by metis
  then obtain st r where fe: "f = Complete a st r" by (cases f) auto
  obtain g k where g: "g # k \<in># T" "f = g \<or> f \<in> set k \<and> over (level_of g) f" "frame_ok s g"
    by (rule top_or_below [OF assms(1) f(1)])
  with fe have ge: "g = Complete a st r" by auto
  with at_rest_top [OF assms(2) g(1)] have "completeStop a st r s = None" by simp
  then have "st = AwaitWork \<and> \<not> sp_workClosed (pump s a)" by (cases st) (simp_all split: if_splits)
  then have st: "st = AwaitWork" and "\<not> sp_workClosed (pump s a)" by simp_all
  with good assms(4) have "Finish a \<in># frames T" by (auto simp: good_def simp flip: count_greater_zero_iff)
  then obtain c u v j where p: "Pumping a c u v # j \<in># T" "sp_targetConn (pump s a) = Some c"
    by (rule rest_work [OF assms(1,2)])
  have "pumps_ok (frames T)" using ok by (simp add: ok_def)
  moreover have "\<exists>f \<in># frames T. pumps_on a c f" using top_in_frames [OF p(1)] by (rule bexI [rotated]) simp
  moreover have "\<exists>f \<in># frames T. ends_with a r f" using f(1) by (rule bexI [rotated]) (simp add: fe)
  ultimately have "sr_active r = Some c" unfolding pumps_ok_def by blast
  moreover have "sr_target r = Some c" "\<forall>t. sr_target r = Some t \<longrightarrow> target_over s (Some t)"
    "\<forall>c. sr_active r = Some c \<longrightarrow> carrier_over s c"
    using g(3) p(2) by (simp_all add: ge st)
  ultimately have "carrier_over s c" "target_over s (Some c)" by blast+
  with at_rest_pump [OF assms(2) p(1)] show False by blast
qed

lemma rest_no_closer:
  assumes "reachable (s, T)" "at_rest (s, T)" "g # k \<in># T"
  shows "\<not> waits_on a g"
proof
  assume w: "waits_on a g"
  have ok: "ok s (frames T)" using ok_reachable [OF assms(1)] by simp
  then have fr: "frame_ok s g" using top_in_frames [OF assms(3)] by (simp add: ok_def)
  with w have a: "a < length (rt_pumps s)" "sp_stopping (pump s a)" by (cases g; simp)+
  then have d: "sp_stopDone (pump s a)" by (rule rest_sessions [OF assms(1,2)])
  show False
  proof (cases g)
    case (WaitStop b) with w d at_rest_top [OF assms(2,3)] show False by simp
  next
    case (Complete b st r)
    then have "completes a g" using w by simp
    moreover have "closers a (frames T) = 0" using ok a(1) d by (simp add: ok_def session_ok_def good_def)
    ultimately show False using top_in_frames [OF assms(3)] by (auto dest!: multi_member_split)
  qed (use w in auto)
qed

lemma rest_pipes:
  assumes "reachable (s, T)" "at_rest (s, T)" "f \<in># frames T"
  shows "\<not> closes_pipe p f"
proof
  assume c: "closes_pipe p f"
  obtain g k where g: "g # k \<in># T" "f = g \<or> f \<in> set k \<and> over (level_of g) f" "frame_ok s g"
    by (rule top_or_below [OF assms(1,3)])
  have "f \<noteq> g" using at_rest_top [OF assms(2) g(1)] go_ready(3) [OF c, of s] by auto
  with g(2) c have "level_of g = SessionLevel" by (cases f) auto
  then obtain a where "waits_on a g" by (cases g) auto
  with rest_no_closer [OF assms(1,2) g(1)] show False by blast
qed

lemma rest_node:
  assumes "reachable (s, T)" "at_rest (s, T)" "f \<in># frames T"
  shows "\<not> closes_node f"
proof
  assume c: "closes_node f"
  obtain g k where g: "g # k \<in># T" "f = g \<or> f \<in> set k \<and> over (level_of g) f" "frame_ok s g"
    by (rule top_or_below [OF assms(1,3)])
  have stuck: "go g s = None" using at_rest_top [OF assms(2) g(1)] .
  have "f \<noteq> g" using stuck go_ready(4) [OF c, of s] by auto
  with g(2) c have "level_of g = SessionLevel \<or> level_of g = PipeLevel" by (cases f) auto
  moreover have "level_of g \<noteq> SessionLevel"
  proof
    assume "level_of g = SessionLevel"
    then obtain a where "waits_on a g" by (cases g) auto
    with rest_no_closer [OF assms(1,2) g(1)] show False by blast
  qed
  moreover have "\<not> closes_pipe p g" for p using rest_pipes [OF assms(1,2) top_in_frames [OF g(1)]] .
  ultimately obtain p where w: "g = WaitPipe p" using stuck go_ready(6) by (cases g) (auto simp del: go.simps)
  with g(3) have "p < length (rt_pipes s)" "pr_closed (pipe s p)" by simp_all
  with closers_reachable [OF assms(1)] rest_pipes [OF assms(1,2)] have "pr_done (pipe s p)" by (auto simp: closers_ok_def)
  with stuck w show False by simp
qed

lemma rest_closed:
  assumes "reachable (s, T)" "at_rest (s, T)"
  shows "p < length (rt_pipes s) \<Longrightarrow> pr_closed (pipe s p) \<Longrightarrow> pr_done (pipe s p)"
    "a < length (rt_pumps s) \<Longrightarrow> pr_closed (pipe s (sp_parent (pump s a))) \<Longrightarrow> sp_stopDone (pump s a)"
proof -
  show "pr_done (pipe s p)" if "p < length (rt_pipes s)" "pr_closed (pipe s p)"
    using that closers_reachable [OF assms(1)] rest_pipes [OF assms] by (auto simp: closers_ok_def)
  assume a: "a < length (rt_pumps s)" and c: "pr_closed (pipe s (sp_parent (pump s a)))"
  show "sp_stopDone (pump s a)"
  proof (rule ccontr)
    assume nd: "\<not> sp_stopDone (pump s a)"
    have no: "\<not> announces a f" if fm: "f \<in># frames T" for f
    proof
      assume an: "announces a f"
      obtain g k where g: "g # k \<in># T" "f = g \<or> f \<in> set k \<and> over (level_of g) f" "frame_ok s g"
        by (rule top_or_below [OF assms(1) fm])
      with an have "waits_on a g" by (cases f) (auto elim: announces.elims)
      with rest_no_closer [OF assms g(1)] show False by blast
    qed
    have "session_known s T a" using known_reachable [OF assms(1)] a by simp
    with nd no c have "\<exists>j \<in># T. awaits (sp_parent (pump s a)) a j"
      unfolding session_known_def settled_def Let_def by auto
    then obtain j where j: "j \<in># T" "awaits (sp_parent (pump s a)) a j" by blast
    then obtain f where "f \<in> set j" "stops_of (sp_parent (pump s a)) f" using awaits_stops by blast
    then have "f \<in># frames T" "closes_pipe (sp_parent (pump s a)) f" using j(1)
      by (auto simp: in_frames elim!: stops_of.elims)
    with rest_pipes [OF assms] show False by blast
  qed
qed

text \<open>A process whose node was closed or cancelled has no goroutine left at rest.\<close>

lemma rest_quiet:
  assumes "reachable (s, T)" "at_rest (s, T)" "nr_closed (rt_node s) \<or> nr_cancelled (rt_node s)"
  shows "nr_done (rt_node s)" "\<forall>p < length (rt_pipes s). pr_closed (pipe s p)" "j \<in># T \<Longrightarrow> j = []"
proof -
  have cl: "closers_ok s (frames T)" using closers_reachable [OF assms(1)] by simp
  have closed: "nr_closed (rt_node s)"
  proof (rule ccontr)
    assume n: "\<not> nr_closed (rt_node s)"
    with cl obtain f where f: "f \<in># frames T" "watches f" by (auto simp: closers_ok_def)
    obtain g k where g: "g # k \<in># T" "f = g \<or> f \<in> set k \<and> over (level_of g) f"
      by (rule top_or_below [OF assms(1) f(1)])
    with f have "f = g" by (auto elim: watches.elims)
    with at_rest_top [OF assms(2) g(1)] go_ready(5) [OF f(2), of s] assms(3) n show False by simp
  qed
  with cl rest_node [OF assms(1,2)] show d: "nr_done (rt_node s)" by (auto simp: closers_ok_def)
  show pc: "\<forall>p < length (rt_pipes s). pr_closed (pipe s p)"
  proof (intro allI impI, rule ccontr)
    fix p assume p: "p < length (rt_pipes s)" "\<not> pr_closed (pipe s p)"
    with cl closed obtain f where f: "f \<in># frames T" "will_close p f" by (auto simp: closers_ok_def)
    with rest_node [OF assms(1,2) f(1)] have fe: "f = ClosePipe p" by (cases f) auto
    obtain g k where g: "g # k \<in># T" "f = g \<or> f \<in> set k \<and> over (level_of g) f"
      by (rule top_or_below [OF assms(1) f(1)])
    with fe have "g = ClosePipe p" by auto
    with at_rest_top [OF assms(2) g(1)] go_ready(6) [of p s] show False by simp
  qed
  assume j: "j \<in># T"
  show "j = []"
  proof (rule ccontr)
    assume "j \<noteq> []"
    then obtain f k where fk: "j = f # k" by (cases j) auto
    have stuck: "go f s = None" using at_rest_top [OF assms(2)] j fk by simp
    have fr: "f \<in># frames T" "frame_ok s f" using ok_reachable [OF assms(1)] top_in_frames [of f k T] j fk by (simp_all add: ok_def)
    have 1: "\<not> waits_on a f" for a using rest_no_closer [OF assms(1,2)] j fk by simp
    have 2: "level_of f \<noteq> Worker a" for a
    proof
      assume w: "level_of f = Worker a"
      then have "Finish a \<in> set k" using shape_reachable [OF assms(1)] j fk by fastforce
      then have fin: "Finish a \<in># frames T" using j fk unfolding in_frames by (intro bexI [of _ j]) simp_all
      have a: "a < length (rt_pumps s)" using w fr(2) by (cases f) auto
      have ok: "ok s (frames T)" using ok_reachable [OF assms(1)] by simp
      then have "sp_stopDone (pump s a)" using rest_closed(2) [OF assms(1,2) a] pc parent_bound [OF ok a] by simp
      moreover have "session_ok s (frames T) a" using ok a by (simp add: ok_def)
      ultimately have "count (frames T) (Finish a) = 0" by (auto simp: session_ok_def good_def)
      with fin show False by (metis count_eq_zero_iff)
    qed
    have 3: "\<not> closes_pipe p f" "\<not> closes_node f" for p using rest_pipes [OF assms(1,2) fr(1)] rest_node [OF assms(1,2) fr(1)] by auto
    have 4: "\<not> watches f" using go_ready(5) [of f s] stuck closed cl by (auto simp: closers_ok_def)
    have 5: "f \<noteq> WaitPipe p" for p using fr(2) stuck rest_closed(1) [OF assms(1,2), of p] by auto
    have 6: "f \<noteq> Finish a" "f \<noteq> ClosePipe p" for a p using stuck go_ready(1,6) by metis+
    show False
    proof (cases f)
      case (StopSessions p as) with 3(1) [of p] show False by simp
    next
      case (WaitStop a) with 1 [of a] show False by simp
    next
      case (Complete a st r) with 1 [of a] show False by simp
    next
      case (Serve h p cfg c) with stuck show False by (auto simp: NewSession_eq split: if_splits sum.splits)
    qed (use stuck d 2 3 4 5 6 in \<open>auto simp: stop_frames_eq begin_eqs split: if_splits\<close>)
  qed
qed

end
