(* ===== verification/Settling.thy ===== *)
theory Settling
  imports Quiesce
begin

text \<open>Properties of sessions and their owners: closing terminates, a stream is ended once, and where it is ended twice or never.\<close>

section \<open>Termination\<close>

text \<open>What the goroutines can still do by themselves: a weight per frame, and what an open session, Pipe runtime or node
  will cost when it is closed.\<close>

fun stage_weight :: "stage \<Rightarrow> nat" where
  "stage_weight Cancel = 7"
| "stage_weight CancelCarrier = 6"
| "stage_weight EndCarrier = 5"
| "stage_weight EndTarget = 4"
| "stage_weight AwaitWork = 3"
| "stage_weight Unregister = 2"
| "stage_weight Announce = 1"

fun weight :: "frame \<Rightarrow> nat" where
  "weight Watch = 3"
| "weight CloseNode = 2"
| "weight WaitNode = 1"
| "weight (ClosePipes ps) = 2 + 3 * length ps"
| "weight NodeDone = 1"
| "weight (ClosePipe p) = 2"
| "weight (WaitPipe p) = 1"
| "weight (StopSessions p as) = 3 + 2 * length as"
| "weight (Detach p) = 2"
| "weight (PipeDone p) = 1"
| "weight (Stop a) = 2"
| "weight (WaitStop a) = 1"
| "weight (Complete a st r) = stage_weight st"
| "weight (Serve h p cfg c) = 24"
| "weight (Install h a c) = 11"
| "weight (RunSession a) = 8"
| "weight (Act y) = 1"
| "weight (StartPump a) = 6"
| "weight (Outbound a) = 2"
| "weight (PumpLoad a) = 4"
| "weight (Pumping a c u v) = 1 + (if u = None then 1 else 0) + (if v = None then 1 else 0)"
| "weight (Finish a) = 1"

definition session_cost :: "sessionPump \<Rightarrow> nat" where
  "session_cost sp = (if sp_stopping sp then 0 else 10)"

definition pipe_cost :: "PipeRuntime \<Rightarrow> nat" where
  "pipe_cost q = (if pr_closed q then 0 else 5 + 2 * length (rg_sessions (pr_registry q)))"

definition node_cost :: "NodeRuntime \<Rightarrow> nat" where
  "node_cost n = (if nr_closed n then 0 else 4 + 3 * length (nr_pipes n))"

definition sessions_cost :: "Runtime \<Rightarrow> nat" where "sessions_cost s = sum_list (map session_cost (rt_pumps s))"

definition pipes_cost :: "Runtime \<Rightarrow> nat" where "pipes_cost s = sum_list (map pipe_cost (rt_pipes s))"

definition weights :: "frame multiset \<Rightarrow> nat" where "weights F = sum_mset (image_mset weight F)"

definition potential :: "Runtime \<Rightarrow> frame multiset \<Rightarrow> nat" where
  "potential s F = weights F + sessions_cost s + pipes_cost s + node_cost (rt_node s)"

lemma sum_list_upd:
  fixes c :: "'a \<Rightarrow> nat"
  assumes "a < length xs"
  shows "sum_list (map c (xs[a := y])) + c (xs ! a) = sum_list (map c xs) + c y"
proof -
  have "map c (xs[a := y]) = (map c xs)[a := c y]" by (simp add: map_update)
  with assms show ?thesis using sum_list_update [of a "map c xs" "c y"] member_le_sum_list [of "map c xs ! a" "map c xs"]
    by simp
qed

lemma session_cost_simps [simp]:
  "session_cost (sp\<lparr>sp_cancelled := b\<rparr>) = session_cost sp" "session_cost (sp\<lparr>sp_carrierCancelled := b\<rparr>) = session_cost sp"
  "session_cost (sp\<lparr>sp_completedCleanly := b\<rparr>) = session_cost sp" "session_cost (sp\<lparr>sp_stopDone := b\<rparr>) = session_cost sp"
  "session_cost (sp\<lparr>sp_activeCarrier := c\<rparr>) = session_cost sp" "session_cost (count_in n sp) = session_cost sp"
  "session_cost (count_out n sp) = session_cost sp" "session_cost (admitted sp) = session_cost sp"
  "session_cost (finished sp) = session_cost sp" "session_cost (fresh p cfg) = 10"
  by (simp_all add: session_cost_def)

lemma sessions_cost_simps [simp]:
  "session_cost (g (pump s a)) = session_cost (pump s a) \<Longrightarrow> sessions_cost (upd_pump a g s) = sessions_cost s"
  "sessions_cost (upd_pipe p h s) = sessions_cost s" "sessions_cost (act y s) = sessions_cost s"
  "sessions_cost (s\<lparr>rt_node := n\<rparr>) = sessions_cost s" "sessions_cost (s\<lparr>rt_panicked := b\<rparr>) = sessions_cost s"
  "sessions_cost (s\<lparr>rt_pumps := rt_pumps s @ [sp]\<rparr>) = sessions_cost s + session_cost sp"
proof -
  assume eq: "session_cost (g (pump s a)) = session_cost (pump s a)"
  show "sessions_cost (upd_pump a g s) = sessions_cost s"
  proof (cases "a < length (rt_pumps s)")
    case True then show ?thesis using sum_list_upd [of a "rt_pumps s" session_cost "g (pump s a)"] eq by (simp add: sessions_cost_def)
  qed (simp add: sessions_cost_def list_update_beyond)
qed (simp_all add: sessions_cost_def)

lemma sessions_cost_stop:
  assumes "a < length (rt_pumps s)" "\<not> sp_stopping (pump s a)"
  shows "sessions_cost s = sessions_cost (upd_pump a stopped s) + 10"
  using sum_list_upd [OF assms(1), of session_cost "stopped (pump s a)"] assms(2)
  by (simp add: sessions_cost_def session_cost_def)

lemma pipes_cost_simps [simp]:
  "pipes_cost (upd_pump a g s) = pipes_cost s" "pipes_cost (act y s) = pipes_cost s"
  "pipes_cost (s\<lparr>rt_node := n\<rparr>) = pipes_cost s" "pipes_cost (s\<lparr>rt_panicked := b\<rparr>) = pipes_cost s"
  "pipes_cost (s\<lparr>rt_pumps := ps\<rparr>) = pipes_cost s"
  by (simp_all add: pipes_cost_def)

lemma pipes_cost_upd:
  "p < length (rt_pipes s) \<Longrightarrow> pipes_cost (upd_pipe p g s) + pipe_cost (pipe s p) = pipes_cost s + pipe_cost (g (pipe s p))"
  using sum_list_upd [of p "rt_pipes s" pipe_cost "g (pipe s p)"] by (simp add: pipes_cost_def)

lemma weights_simps [simp]:
  "weights {#} = 0" "weights (add_mset f F) = weight f + weights F" "weights (F + G) = weights F + weights G"
  "weights (mset fs) = sum_list (map weight fs)"
  by (simp_all add: weights_def flip: sum_mset_sum_list)

lemma handler_weights:
  "sum_list (map weight (no_session h c)) \<le> 2" "sum_list (map weight (refused h c)) \<le> 2" "sum_list (map weight (has_run h c)) \<le> 2"
  by (cases h; simp add: no_session_def refused_def has_run_def)+

lemma remove_length: "length (rg_sessions (registry_remove i a r)) \<le> length (rg_sessions r)"
  by (simp add: registry_remove_def AList.delete_eq)

lemma potential_step:
  assumes "moves f s s' fs spawned" "frame_ok s f" "ok s (add_mset f R)" "fs \<noteq> [f]"
  shows "potential s' (mset fs + R + frames (mset spawned)) < potential s (add_mset f R)"
  using assms
proof cases
  case (complete a st r)
  show ?thesis
  proof (cases "st = Unregister")
    case True
    with complete assms(2) have "sp_parent (pump s a) < length (rt_pipes s)" using parent_bound [OF assms(3)] by simp
    note cost = pipes_cost_upd [OF this, of "pr_registry_update (registry_remove (sp_SessionID (pump s a)) a)"]
      remove_length [of "sp_SessionID (pump s a)" a "pr_registry (pipe s (sp_parent (pump s a)))"]
    have "s' = upd_pipe (sp_parent (pump s a)) (pr_registry_update (registry_remove (sp_SessionID (pump s a)) a)) s"
      "fs = [Complete a Announce r]" using complete True by simp_all
    then show ?thesis using cost complete(1,2) True by (simp add: potential_def pipe_cost_def split: if_splits)
  next
    case False
    with complete show ?thesis by (cases st) (auto simp: potential_def split: option.splits if_splits)
  qed
next
  case (pipe_begin p)
  with assms(2) pipes_cost_upd [of p s closing] show ?thesis
    by (simp add: potential_def pipe_cost_def closing_def registry_close_def split: if_splits)
next
  case (session q cfg r h c)
  then have "length (rg_sessions r) = Suc (length (rg_sessions (pr_registry (pipe s q))))"
    by (auto simp: registry_register_def update_new split: if_splits)
  with session assms(2) pipes_cost_upd [of q "s\<lparr>rt_pumps := rt_pumps s @ [fresh q cfg]\<rparr>" "\<lambda>q. q\<lparr>pr_registry := r\<rparr>"]
  show ?thesis by (simp add: potential_def pipe_cost_def)
next
  case (pipe_done p)
  with assms(2) pipes_cost_upd [of p s "pr_done_update (\<lambda>_. True)"] show ?thesis by (simp add: potential_def pipe_cost_def)
next
  case (detach p) then show ?thesis by (simp add: potential_def node_cost_def less_Suc_eq_le)
next
  case (pipe_next_stop a p as) with assms(2) show ?thesis by (simp add: potential_def sessions_cost_stop [of a])
next
  case (stop_stop a) with assms(2) show ?thesis by (simp add: potential_def sessions_cost_stop [of a])
next
  case (load_stop a) with assms(2) show ?thesis by (simp add: potential_def sessions_cost_stop [of a])
next
  case (broke g n a u v u' v' c)
  let ?s = "upd_pump a g s"
  have "sessions_cost ?s = sessions_cost s" "\<not> sp_stopping (pump ?s a)" "a < length (rt_pumps ?s)"
    using broke assms(2) by auto
  with sessions_cost_stop [of a ?s] broke show ?thesis by (auto simp: potential_def one_done_def)
next
  case (copied g n u' u v' v a c) with assms(2,4) show ?thesis by (auto simp: potential_def one_done_def)
next
  case (no_session h p cfg c) with handler_weights(1) [of h c] show ?thesis by (simp add: potential_def)
next
  case (refused h a c) with handler_weights(2) [of h c] show ?thesis by (simp add: potential_def)
next
  case (installed a h c) with handler_weights(3) [of h c] show ?thesis by (simp add: potential_def)
qed (auto simp: potential_def node_cost_def)

lemma run_Broke: "run x f s = Some (s', fs, spawned) \<Longrightarrow> x = Go \<or> x = CopyIn (Broke n) \<or> x = CopyOut (Broke n) \<Longrightarrow> fs \<noteq> [f]"
proof (cases x)
  case Go
  assume "run x f s = Some (s', fs, spawned)"
  with Go have "go f s = Some (s', fs, spawned)" by simp
  then show ?thesis
    by (cases "(f, s)" rule: go.cases) (auto simp: begin_eqs beginCloseNode_def Let_def stop_frames_eq requestStop_eq finishWork_eq
        NewSession_eq no_session_def refused_def split: if_splits option.splits sum.splits handler.splits elim: completeStop.elims)
qed (auto simp: copy_turn_def split: frame.splits option.splits prod.splits)

lemma forced_inside:
  assumes "forced P Q"
  obtains x f s s' fs spawned k T where "run x f s = Some (s', fs, spawned)" "fs \<noteq> [f]" "inside x P Q"
    "P = (s, add_mset (f # k) T)" "Q = (s', add_mset (fs @ k) (mset spawned + T))"
  using assms
proof cases
  case go
  then show thesis
  proof cases
    case (1 f s s' fs spawned k T) then show thesis using that go run_Broke [OF 1(3), of 0] by blast
  qed
next
  case (read_stream a c u v s s' fs spawned k T)
  then show thesis using that inside.intros run_Broke [OF read_stream(3), of 0] by blast
next
  case (read_target a c u v s s' fs spawned k T)
  then show thesis using that inside.intros run_Broke [OF read_target(3), of 0] by blast
qed

lemma forced_potential:
  assumes "forced P Q" "reachable P"
  shows "reachable Q" "potential (fst Q) (frames (snd Q)) < potential (fst P) (frames (snd P))"
proof -
  obtain x f s s' fs spawned k T where st: "run x f s = Some (s', fs, spawned)" "fs \<noteq> [f]" "inside x P Q"
    "P = (s, add_mset (f # k) T)" "Q = (s', add_mset (fs @ k) (mset spawned + T))"
    by (rule forced_inside [OF assms(1)])
  show "reachable Q" using assms(2) st(3) by (rule reachable.inside)
  have "ok s (add_mset f (mset k + frames T))" using ok_reachable [OF assms(2)] st(4) by simp
  from potential_step [OF run_moves [OF st(1)] _ this st(2)] this
  show "potential (fst Q) (frames (snd Q)) < potential (fst P) (frames (snd P))"
    by (simp add: st(4,5) ok_def ac_simps)
qed

section \<open>Streams\<close>

text \<open>Who can still end a stream as its session: the handler before the session has it, the session while it is active, its
  closer before it ended the stream; and how often a session ended it.\<close>

fun hands_over :: "nat \<Rightarrow> frame \<Rightarrow> nat" where
  "hands_over c (Serve h p cfg d) = of_bool (c = d)"
| "hands_over c (Install h a d) = of_bool (c = d)"
| "hands_over c _ = 0"

fun will_end :: "nat \<Rightarrow> frame \<Rightarrow> nat" where
  "will_end c (Complete a st r) = of_bool (st \<in> {Cancel, CancelCarrier, EndCarrier} \<and> sr_active r = Some c)"
| "will_end c _ = 0"

definition actives :: "nat \<Rightarrow> Runtime \<Rightarrow> nat" where
  "actives c s = sum_list (map (\<lambda>sp. of_bool (sp_activeCarrier sp = Some c)) (rt_pumps s))"

definition ended :: "nat \<Rightarrow> Runtime \<Rightarrow> nat" where
  "ended c s = sum_list (map (\<lambda>x. of_bool (x = SessionClosed c \<or> x = SessionReset c)) (rt_actions s))"

definition frame_sum :: "(frame \<Rightarrow> nat) \<Rightarrow> frame multiset \<Rightarrow> nat" where "frame_sum w F = sum_mset (image_mset w F)"

definition held :: "nat \<Rightarrow> Runtime \<Rightarrow> frame multiset \<Rightarrow> nat" where
  "held c s F = frame_sum (will_end c) F + actives c s + ended c s"

lemma frame_sum_simps [simp]:
  "frame_sum w {#} = 0" "frame_sum w (add_mset f F) = w f + frame_sum w F" "frame_sum w (F + G) = frame_sum w F + frame_sum w G"
  "frame_sum w (mset fs) = sum_list (map w fs)"
  by (simp_all add: frame_sum_def flip: sum_mset_sum_list)

lemma actives_simps [simp]:
  "sp_activeCarrier (g (pump s a)) = sp_activeCarrier (pump s a) \<Longrightarrow> actives c (upd_pump a g s) = actives c s"
  "actives c (upd_pipe p h s) = actives c s" "actives c (act y s) = actives c s" "actives c (s\<lparr>rt_node := n\<rparr>) = actives c s"
  "actives c (s\<lparr>rt_panicked := b\<rparr>) = actives c s" "actives c (s\<lparr>rt_streams := m\<rparr>) = actives c s"
  "actives c (s\<lparr>rt_pumps := rt_pumps s @ [sp]\<rparr>) = actives c s + of_bool (sp_activeCarrier sp = Some c)"
proof -
  assume eq: "sp_activeCarrier (g (pump s a)) = sp_activeCarrier (pump s a)"
  show "actives c (upd_pump a g s) = actives c s"
  proof (cases "a < length (rt_pumps s)")
    case True
    then show ?thesis using sum_list_upd [of a "rt_pumps s" "\<lambda>sp. of_bool (sp_activeCarrier sp = Some c)" "g (pump s a)"] eq
      by (simp add: actives_def)
  qed (simp add: actives_def list_update_beyond)
qed (simp_all add: actives_def)

lemma actives_upd:
  "a < length (rt_pumps s) \<Longrightarrow> actives c (upd_pump a g s) + of_bool (sp_activeCarrier (pump s a) = Some c) =
     actives c s + of_bool (sp_activeCarrier (g (pump s a)) = Some c)"
  using sum_list_upd [of a "rt_pumps s" "\<lambda>sp. of_bool (sp_activeCarrier sp = Some c)" "g (pump s a)"] by (simp add: actives_def)

lemma actives_pos:
  assumes "a < length (rt_pumps s)" "sp_activeCarrier (pump s a) = Some c"
  shows "1 \<le> actives c s"
proof -
  have "1 \<in> set (map (\<lambda>sp. of_bool (sp_activeCarrier sp = Some c) :: nat) (rt_pumps s))"
    using assms by (auto intro!: rev_image_eqI [of "pump s a"])
  from member_le_sum_list [OF this] show ?thesis by (simp add: actives_def)
qed

lemma ended_simps [simp]:
  "ended c (upd_pump a g s) = ended c s" "ended c (upd_pipe p h s) = ended c s" "ended c (s\<lparr>rt_node := n\<rparr>) = ended c s"
  "ended c (s\<lparr>rt_panicked := b\<rparr>) = ended c s" "ended c (s\<lparr>rt_streams := m\<rparr>) = ended c s" "ended c (s\<lparr>rt_pumps := ps\<rparr>) = ended c s"
  "ended c (act y s) = ended c s + of_bool (y = SessionClosed c \<or> y = SessionReset c)"
  by (simp_all add: ended_def)

lemma handler_streams [simp]:
  "sum_list (map (hands_over c) (no_session h d)) = 0" "sum_list (map (hands_over c) (refused h d)) = 0"
  "sum_list (map (hands_over c) (has_run h d)) = 0" "sum_list (map (will_end c) (no_session h d)) = 0"
  "sum_list (map (will_end c) (refused h d)) = 0" "sum_list (map (will_end c) (has_run h d)) = 0"
  by (cases h; simp add: no_session_def refused_def has_run_def)+

lemma held_stop:
  assumes "a < length (rt_pumps s)" "\<not> sp_stopping (pump s a)"
  shows "will_end c (Complete a Cancel (resources (pump s a))) + actives c (upd_pump a stopped s) = actives c s"
  using actives_upd [OF assms(1), of c stopped] assms(2) by simp

text \<open>The handler's own actions end no stream as a session.\<close>

fun plain_act :: "frame \<Rightarrow> bool" where
  "plain_act (Act (SessionClosed c)) \<longleftrightarrow> False"
| "plain_act (Act (SessionReset c)) \<longleftrightarrow> False"
| "plain_act _ \<longleftrightarrow> True"

lemma held_step:
  assumes "moves f s s' fs spawned" "ok s (add_mset f R)" "plain_act f"
    "frame_sum (hands_over c) (add_mset f R) + held c s (add_mset f R) \<le> 1"
  shows "held c s (add_mset f R) \<le> held c s' (mset fs + R + frames (mset spawned))
    \<and> frame_sum (hands_over c) (mset fs + R + frames (mset spawned)) + held c s' (mset fs + R + frames (mset spawned))
      \<le> frame_sum (hands_over c) (add_mset f R) + held c s (add_mset f R)"
proof -
  have fr: "frame_ok s f" using assms(2) by (simp add: ok_def)
  from assms(1) show ?thesis
  proof cases
    case (complete a st r)
    then show ?thesis by (cases st) (auto simp: held_def split: option.splits if_splits)
  next
    case (pipe_next_stop a p as) with fr held_stop [of a s c] show ?thesis by (simp add: held_def)
  next
    case (stop_stop a) with fr held_stop [of a s c] show ?thesis by (simp add: held_def)
  next
    case (load_stop a) with fr held_stop [of a s c] show ?thesis by (simp add: held_def)
  next
    case (broke g n a u v u' v' d)
    let ?s = "upd_pump a g s"
    have "actives c ?s = actives c s" "\<not> sp_stopping (pump ?s a)" "a < length (rt_pumps ?s)"
      "resources (pump ?s a) = resources (pump s a)" using broke fr by (auto simp: resources_def)
    with held_stop [of a ?s c] broke show ?thesis by (auto simp: held_def)
  next
    case (installed a h d)
    with fr assms(4) actives_upd [of a s c "\<lambda>sp. sp\<lparr>sp_activeCarrier := Some d\<rparr>"] active_target [OF assms(2), of a]
    show ?thesis by (auto simp: held_def of_bool_def split: if_splits)
  next
    case (action y) with assms(3) show ?thesis by (cases y) (auto simp: held_def)
  next
    case (copied g n u' u v' v a d) then show ?thesis by (auto simp: held_def)
  next
    case (not_admitted a) then show ?thesis by (auto simp: held_def)
  qed (auto simp: held_def)
qed

text \<open>Each stream has at most one session, and a stopped session has closed its local connection.\<close>

fun serves :: "nat \<Rightarrow> frame \<Rightarrow> nat" where
  "serves c (Serve h p cfg d) = of_bool (c = d)"
| "serves c _ = 0"

definition targets :: "nat \<Rightarrow> Runtime \<Rightarrow> nat" where
  "targets c s = sum_list (map (\<lambda>sp. of_bool (sp_targetConn sp = Some c)) (rt_pumps s))"

definition streams_ok :: "Runtime \<Rightarrow> frame multiset \<Rightarrow> bool" where
  "streams_ok s F \<longleftrightarrow>
     (\<forall>f \<in># F. plain_act f)
     \<and> (\<forall>c. frame_sum (hands_over c) F + held c s F \<le> of_bool (c < rt_streams s))
     \<and> (\<forall>c. frame_sum (serves c) F + targets c s \<le> of_bool (c < rt_streams s))
     \<and> (\<forall>a < length (rt_pumps s). sp_stopDone (pump s a) \<longrightarrow> (\<forall>t. sp_targetConn (pump s a) = Some t \<longrightarrow> target_over s (Some t)))"

lemma targets_simps [simp]:
  "sp_targetConn (g (pump s a)) = sp_targetConn (pump s a) \<Longrightarrow> targets c (upd_pump a g s) = targets c s"
  "targets c (upd_pipe p h s) = targets c s" "targets c (act y s) = targets c s" "targets c (s\<lparr>rt_node := n\<rparr>) = targets c s"
  "targets c (s\<lparr>rt_panicked := b\<rparr>) = targets c s" "targets c (s\<lparr>rt_streams := m\<rparr>) = targets c s"
  "targets c (s\<lparr>rt_pumps := rt_pumps s @ [sp]\<rparr>) = targets c s + of_bool (sp_targetConn sp = Some c)"
proof -
  assume eq: "sp_targetConn (g (pump s a)) = sp_targetConn (pump s a)"
  show "targets c (upd_pump a g s) = targets c s"
  proof (cases "a < length (rt_pumps s)")
    case True
    then show ?thesis using sum_list_upd [of a "rt_pumps s" "\<lambda>sp. of_bool (sp_targetConn sp = Some c)" "g (pump s a)"] eq
      by (simp add: targets_def)
  qed (simp add: targets_def list_update_beyond)
qed (simp_all add: targets_def)

lemma handler_plain [simp]:
  "f \<in> set (no_session h d) \<Longrightarrow> plain_act f" "f \<in> set (refused h d) \<Longrightarrow> plain_act f" "f \<in> set (has_run h d) \<Longrightarrow> plain_act f"
  "sum_list (map (serves c) (no_session h d)) = 0" "sum_list (map (serves c) (refused h d)) = 0"
  "sum_list (map (serves c) (has_run h d)) = 0"
  by (cases h; auto simp: no_session_def refused_def has_run_def)+

lemma plain_step:
  assumes "moves f s s' fs spawned" "plain_act f"
  shows "\<forall>g \<in># mset fs + frames (mset spawned). plain_act g"
  using assms
proof cases
  case (complete a st r) then show ?thesis by (cases st) (auto split: if_splits)
qed auto

lemma targets_step:
  assumes "moves f s s' fs spawned" "ok s (add_mset f R)"
  shows "frame_sum (serves c) (mset fs + R + frames (mset spawned)) + targets c s' \<le> frame_sum (serves c) (add_mset f R) + targets c s"
proof -
  have fr: "frame_ok s f" using assms(2) by (simp add: ok_def)
  from assms(1) show ?thesis
  proof cases
    case (complete a st r) then show ?thesis by (cases st) (auto split: option.splits if_splits)
  next
    case (session q cfg r h d) with fr show ?thesis by auto
  next
    case (broke g n a u v u' v' d)
    then have "upd_pump a stopped (upd_pump a g s) = upd_pump a (\<lambda>sp. stopped (g sp)) s" using fr by (simp add: upd_pump_def)
    with broke show ?thesis by auto
  next
    case (copied g n u' u v' v a d) then show ?thesis by auto
  next
    case (not_admitted a) then show ?thesis by auto
  qed auto
qed

lemma done_step:
  assumes "moves f s s' fs spawned" "frame_ok s f" "a < length (rt_pumps s)" "sp_stopDone (pump s' a)" "\<not> sp_stopDone (pump s a)"
  shows "\<exists>r. f = Complete a Announce r"
  using assms
proof cases
  case (complete b st r) with assms(3-5) show ?thesis by (cases st) (auto simp: nth_upd split: option.splits if_splits)
qed (use assms(2-5) in \<open>auto simp: nth_upd nth_append split: if_splits\<close>)

lemma streams_ok_step:
  assumes "moves f s s' fs spawned" "ok s (add_mset f R)" "streams_ok s (add_mset f R)"
  shows "streams_ok s' (mset fs + R + frames (mset spawned))"
proof -
  let ?F = "mset fs + R + frames (mset spawned)"
  have fr: "frame_ok s f" using assms(2) by (simp add: ok_def)
  note g = grows_step [OF assms(1) fr]
  have le: "of_bool (c < rt_streams s) \<le> (of_bool (c < rt_streams s') :: nat)" for c
    using grows_rest(4) [OF g] by (simp add: of_bool_def)
  have one: "of_bool b \<le> (1 :: nat)" for b by simp
  have plain: "\<forall>f \<in># ?F. plain_act f" using plain_step [OF assms(1)] assms(3) by (auto simp: streams_ok_def)
  have tok: "frame_sum (hands_over c) (add_mset f R) + held c s (add_mset f R) \<le> of_bool (c < rt_streams s)" for c
    using assms(3) by (simp add: streams_ok_def)
  have "frame_sum (hands_over c) ?F + held c s' ?F \<le> of_bool (c < rt_streams s')" for c
  proof -
    have "plain_act f" using assms(3) by (simp add: streams_ok_def)
    from held_step [OF assms(1,2) this order_trans [OF tok one], of c] tok [of c] le [of c] show ?thesis by linarith
  qed
  moreover have "frame_sum (serves c) ?F + targets c s' \<le> of_bool (c < rt_streams s')" for c
  proof -
    have "frame_sum (serves c) (add_mset f R) + targets c s \<le> of_bool (c < rt_streams s)" using assms(3) by (simp add: streams_ok_def)
    with targets_step [OF assms(1,2), of c] le [of c] show ?thesis by linarith
  qed
  moreover have "target_over s' (Some t)" if a: "a < length (rt_pumps s')" "sp_stopDone (pump s' a)" "sp_targetConn (pump s' a) = Some t" for a t
  proof (cases "a < length (rt_pumps s)")
    case True
    have t: "sp_targetConn (pump s a) = Some t" using grows_session(2) [OF g True] a(3) by simp
    have "target_over s (Some t)"
    proof (cases "sp_stopDone (pump s a)")
      case True with assms(3) t \<open>a < length (rt_pumps s)\<close> show ?thesis by (simp add: streams_ok_def)
    next
      case False
      then obtain r where "f = Complete a Announce r" using done_step [OF assms(1) fr True a(2)] by blast
      with fr t show ?thesis by simp
    qed
    then show ?thesis by (rule grows_rest(6) [OF g])
  next
    case False
    from assms(1) a False show ?thesis
    proof cases
      case (complete b st r) with a False show ?thesis by (cases st) (auto split: option.splits if_splits)
    next
      case (session q cfg r h c) with a False show ?thesis by (auto simp: nth_append less_Suc_eq)
    qed auto
  qed
  ultimately show ?thesis using plain unfolding streams_ok_def by blast
qed

lemma streams_ok_same:
  assumes "streams_ok s F" "rt_pumps s' = rt_pumps s" "rt_actions s' = rt_actions s" "rt_streams s \<le> rt_streams s'"
    "\<And>f. f \<in># G \<Longrightarrow> plain_act f" "\<And>c. frame_sum (will_end c) G = 0"
    "\<And>c. frame_sum (hands_over c) G \<le> of_bool (rt_streams s \<le> c \<and> c < rt_streams s')"
    "\<And>c. frame_sum (serves c) G \<le> of_bool (rt_streams s \<le> c \<and> c < rt_streams s')"
  shows "streams_ok s' (G + F)"
proof -
  have "frame_sum (hands_over c) (G + F) + held c s' (G + F) \<le> of_bool (c < rt_streams s')" for c
  proof -
    have "frame_sum (hands_over c) F + held c s F \<le> of_bool (c < rt_streams s)" using assms(1) by (simp add: streams_ok_def)
    moreover have "held c s' (G + F) = held c s F" using assms(2,3,6) by (simp add: held_def actives_def ended_def)
    ultimately show ?thesis using assms(4) assms(7) [of c] by (auto simp: of_bool_def split: if_splits)
  qed
  moreover have "frame_sum (serves c) (G + F) + targets c s' \<le> of_bool (c < rt_streams s')" for c
  proof -
    have "frame_sum (serves c) F + targets c s \<le> of_bool (c < rt_streams s)" using assms(1) by (simp add: streams_ok_def)
    moreover have "targets c s' = targets c s" using assms(2) by (simp add: targets_def)
    ultimately show ?thesis using assms(4) assms(8) [of c] by (auto simp: of_bool_def split: if_splits)
  qed
  ultimately show ?thesis using assms(1-3,5) by (auto simp: streams_ok_def target_over_def)
qed

lemma streams_outside:
  assumes "outside (s, T) (s', T')" "streams_ok s (frames T)"
  shows "streams_ok s' (frames T')"
  using assms
proof cases
  case cancelled with assms(2) streams_ok_same [of s "frames T" s' "{#}"] show ?thesis by simp
next
  case (new_pipe p) with assms(2) streams_ok_same [of s "frames T" s' "{#}"] show ?thesis
    by (auto simp: NewPipeRuntime_def Let_def split: if_splits)
next
  case close_node with assms(2) streams_ok_same [of s "frames T" s "{#CloseNode#}"] show ?thesis by simp
next
  case (close_pipe p) with assms(2) streams_ok_same [of s "frames T" s "{#ClosePipe p#}"] show ?thesis by simp
next
  case (expired a) with assms(2) streams_ok_same [of s "frames T" s "{#Stop a#}"] show ?thesis by simp
next
  case (stream p cfg h) with assms(2) streams_ok_same [of s "frames T" s' "{#Serve h p cfg (rt_streams s)#}"] show ?thesis by simp
next
  case (more_work a f) with assms(2) streams_ok_same [of s "frames T" s "{#f#}"] show ?thesis by auto
qed

lemma streams_reachable:
  assumes "reachable P"
  shows "streams_ok (fst P) (frames (snd P))"
proof (rule reachable_inv [where I = "\<lambda>s T. streams_ok s (frames T)", OF assms])
  show "streams_ok NewNodeRuntime (frames {#[Watch]#})"
    by (simp add: streams_ok_def NewNodeRuntime_def held_def actives_def ended_def targets_def)
  show "streams_ok s' (frames (add_mset (fs @ k) (mset spawned + T)))"
    if "ok s (add_mset f (mset k + frames T))" "streams_ok s (frames (add_mset (f # k) T))" "moves f s s' fs spawned"
    for f s s' fs spawned k T
    using streams_ok_step [OF that(3,1)] that(2) by (simp add: ac_simps)
qed (rule streams_outside)

text \<open>What the handler itself still does and has done to end a stream.\<close>

fun handler_ends :: "nat \<Rightarrow> frame \<Rightarrow> nat" where
  "handler_ends c (Act (HandlerClosed d)) = of_bool (c = d)"
| "handler_ends c (Act (HandlerReset d)) = of_bool (c = d)"
| "handler_ends c _ = 0"

definition handled :: "nat \<Rightarrow> Runtime \<Rightarrow> nat" where
  "handled c s = sum_list (map (\<lambda>x. of_bool (x = HandlerClosed c \<or> x = HandlerReset c)) (rt_actions s))"

definition handler_part :: "nat \<Rightarrow> Runtime \<Rightarrow> frame multiset \<Rightarrow> nat" where
  "handler_part c s F = frame_sum (handler_ends c) F + handled c s"

lemma handled_simps [simp]:
  "handled c (upd_pump a g s) = handled c s" "handled c (upd_pipe p h s) = handled c s" "handled c (s\<lparr>rt_node := n\<rparr>) = handled c s"
  "handled c (s\<lparr>rt_panicked := b\<rparr>) = handled c s" "handled c (s\<lparr>rt_streams := m\<rparr>) = handled c s" "handled c (s\<lparr>rt_pumps := ps\<rparr>) = handled c s"
  "handled c (act y s) = handled c s + of_bool (y = HandlerClosed c \<or> y = HandlerReset c)"
  by (simp_all add: handled_def)


lemma handler_end_counts [simp]:
  "sum_list (map (handler_ends c) (no_session h d)) = of_bool (c = d)"
  "sum_list (map (handler_ends c) (refused h d)) = of_bool (c = d \<and> h \<noteq> Tunnel)"
  "sum_list (map (handler_ends c) (has_run h d)) = of_bool (c = d \<and> h = ExactLocal)"
  by (cases h; simp add: no_session_def refused_def has_run_def)+

lemma handler_step:
  assumes "moves f s s' fs spawned"
  shows "frame_sum (hands_over c) (mset fs + R + frames (mset spawned)) + handler_part c s' (mset fs + R + frames (mset spawned))
      \<le> frame_sum (hands_over c) (add_mset f R) + handler_part c s (add_mset f R)"
    "hands_over c f = 0 \<Longrightarrow> handler_part c s' (mset fs + R + frames (mset spawned)) = handler_part c s (add_mset f R)"
proof -
  have "frame_sum (hands_over c) (mset fs + R + frames (mset spawned)) + handler_part c s' (mset fs + R + frames (mset spawned))
      \<le> frame_sum (hands_over c) (add_mset f R) + handler_part c s (add_mset f R)
    \<and> (hands_over c f = 0 \<longrightarrow> handler_part c s' (mset fs + R + frames (mset spawned)) = handler_part c s (add_mset f R))"
    using assms
  proof cases
    case (complete a st r) then show ?thesis by (cases st) (auto simp: handler_part_def split: option.splits if_splits)
  next
    case (action y) then show ?thesis by (cases y) (auto simp: handler_part_def)
  qed (auto simp: handler_part_def)
  then show "frame_sum (hands_over c) (mset fs + R + frames (mset spawned)) + handler_part c s' (mset fs + R + frames (mset spawned))
      \<le> frame_sum (hands_over c) (add_mset f R) + handler_part c s (add_mset f R)"
    "hands_over c f = 0 \<Longrightarrow> handler_part c s' (mset fs + R + frames (mset spawned)) = handler_part c s (add_mset f R)" by blast+
qed

lemma handler_outside:
  assumes "outside (s, T) (s', T')"
  shows "frame_sum (hands_over c) (frames T') \<le> frame_sum (hands_over c) (frames T) + of_bool (rt_streams s \<le> c \<and> c < rt_streams s')"
    "handler_part c s' (frames T') = handler_part c s (frames T)" "rt_streams s \<le> rt_streams s'"
proof -
  have "frame_sum (hands_over c) (frames T') \<le> frame_sum (hands_over c) (frames T) + of_bool (rt_streams s \<le> c \<and> c < rt_streams s')
    \<and> handler_part c s' (frames T') = handler_part c s (frames T) \<and> rt_streams s \<le> rt_streams s'"
    using assms
  proof cases
    case (new_pipe p) then show ?thesis by (auto simp: handler_part_def handled_def NewPipeRuntime_def Let_def split: if_splits)
  next
    case (more_work a f) then show ?thesis by (auto simp: handler_part_def)
  qed (simp_all add: handler_part_def)
  then show "frame_sum (hands_over c) (frames T') \<le> frame_sum (hands_over c) (frames T) + of_bool (rt_streams s \<le> c \<and> c < rt_streams s')"
    "handler_part c s' (frames T') = handler_part c s (frames T)" "rt_streams s \<le> rt_streams s'" by blast+
qed

lemma handler_reachable:
  assumes "reachable P"
  shows "frame_sum (hands_over c) (frames (snd P)) + handler_part c (fst P) (frames (snd P)) \<le> of_bool (c < rt_streams (fst P))"
proof (rule reachable_inv [where I = "\<lambda>s T. frame_sum (hands_over c) (frames T) + handler_part c s (frames T) \<le> of_bool (c < rt_streams s)",
    OF assms])
  show "frame_sum (hands_over c) (frames {#[Watch]#}) + handler_part c NewNodeRuntime (frames {#[Watch]#}) \<le> of_bool (c < rt_streams NewNodeRuntime)"
    by (simp add: handler_part_def handled_def NewNodeRuntime_def)
next
  fix s T s' T'
  assume a: "reachable (s, T)" "frame_sum (hands_over c) (frames T) + handler_part c s (frames T) \<le> of_bool (c < rt_streams s)"
    "outside (s, T) (s', T')"
  have "of_bool (c < rt_streams s) + of_bool (rt_streams s \<le> c \<and> c < rt_streams s') \<le> (of_bool (c < rt_streams s') :: nat)"
    using handler_outside(3) [OF a(3)] by (simp add: of_bool_def)
  with a(2) handler_outside(1,2) [OF a(3), of c]
  show "frame_sum (hands_over c) (frames T') + handler_part c s' (frames T') \<le> of_bool (c < rt_streams s')" by linarith
next
  fix f s s' fs spawned k T
  assume a: "ok s (add_mset f (mset k + frames T))"
    "frame_sum (hands_over c) (frames (add_mset (f # k) T)) + handler_part c s (frames (add_mset (f # k) T)) \<le> of_bool (c < rt_streams s)"
    "moves f s s' fs spawned"
  have "frame_ok s f" using a(1) by (simp add: ok_def)
  from grows_rest(4) [OF grows_step [OF a(3) this], of c]
  have "of_bool (c < rt_streams s) \<le> (of_bool (c < rt_streams s') :: nat)" by (simp add: of_bool_def)
  from order_trans [OF order_trans [OF handler_step(1) [OF a(3), of c "mset k + frames T"]] this] a(2)
  show "frame_sum (hands_over c) (frames (add_mset (fs @ k) (mset spawned + T)))
      + handler_part c s' (frames (add_mset (fs @ k) (mset spawned + T))) \<le> of_bool (c < rt_streams s')"
    by (simp add: ac_simps)
qed

section \<open>Runs\<close>

inductive step :: "process \<Rightarrow> process \<Rightarrow> bool" where
  step_outside: "outside P Q \<Longrightarrow> step P Q"
| step_inside: "inside x P Q \<Longrightarrow> step P Q"

lemma reachable_run: "step\<^sup>*\<^sup>* P Q \<Longrightarrow> reachable P \<Longrightarrow> reachable Q"
  by (induction rule: rtranclp_induct) (auto elim!: step.cases intro: reachable.outside reachable.inside)

lemma held_outside: "outside (s, T) (s', T') \<Longrightarrow> held c s (frames T) \<le> held c s' (frames T')"
  by (erule outside.cases)
    (auto simp: held_def NewPipeRuntime_def Let_def actives_def ended_def split: if_splits)

lemma held_run:
  assumes "step\<^sup>*\<^sup>* P Q" "reachable P" "a < length (rt_pumps (fst P))"
  shows "held c (fst P) (frames (snd P)) \<le> held c (fst Q) (frames (snd Q)) \<and> a < length (rt_pumps (fst Q))
    \<and> sp_targetConn (pump (fst Q) a) = sp_targetConn (pump (fst P) a)"
  using assms
proof (induction rule: rtranclp_induct)
  case (step Q R)
  have r: "reachable Q" using reachable_run step by blast
  from step.hyps(2) have "held c (fst Q) (frames (snd Q)) \<le> held c (fst R) (frames (snd R)) \<and> grows (fst Q) (fst R)"
  proof cases
    case step_outside
    then show ?thesis using held_outside [of "fst Q" "snd Q" "fst R" "snd R" c]
      by (auto simp: grows_def NewPipeRuntime_def Let_def nth_append elim!: outside.cases split: if_splits)
  next
    case (step_inside x)
    then show ?thesis
    proof cases
      case (1 f s s' fs spawned k T)
      note ok = ok_reachable [OF r] and st = streams_reachable [OF r]
      have "frame_sum (hands_over c) (add_mset f (mset k + frames T)) + held c s (add_mset f (mset k + frames T)) \<le> 1"
        using st 1 by (auto simp: streams_ok_def intro: order_trans)
      with held_step [OF run_moves [OF 1(3)], of "mset k + frames T" c] grows_step [OF run_moves [OF 1(3)]] ok st 1
      show ?thesis by (simp add: streams_ok_def ok_def ac_simps)
    qed
  qed
  with step grows_session(1,2) [of "fst Q" "fst R" a] show ?case by simp
qed simp

text \<open>From a state in which no handler holds the stream, the handlers' part of it does not change.\<close>

lemma step_cases:
  assumes "step P Q"
  obtains (out) "outside (fst P, snd P) (fst Q, snd Q)"
    | (ins) x f s s' fs spawned k T where "run x f s = Some (s', fs, spawned)" "P = (s, add_mset (f # k) T)"
        "Q = (s', add_mset (fs @ k) (mset spawned + T))"
  using assms
proof cases
  case step_outside then show thesis using out by simp
next
  case (step_inside x) then show thesis by cases (rule ins)
qed

lemma held_kept: "outside (s, T) (s', T') \<Longrightarrow> held c s' (frames T') = held c s (frames T)"
  by (erule outside.cases)
    (auto simp: held_def NewPipeRuntime_def Let_def actives_def ended_def split: if_splits)

lemma handler_run:
  assumes "step\<^sup>*\<^sup>* P Q" "c < rt_streams (fst P)" "frame_sum (hands_over c) (frames (snd P)) = 0" "reachable P"
  shows "handler_part c (fst Q) (frames (snd Q)) = handler_part c (fst P) (frames (snd P))
    \<and> frame_sum (hands_over c) (frames (snd Q)) = 0 \<and> c < rt_streams (fst Q)
    \<and> held c (fst Q) (frames (snd Q)) = held c (fst P) (frames (snd P))"
  using assms
proof (induction rule: rtranclp_induct)
  case (step Q R)
  have r: "reachable Q" using reachable_run [OF step.hyps(1) step.prems(3)] .
  have h: "frame_sum (hands_over c) (frames (snd Q)) = 0" "c < rt_streams (fst Q)" using step by auto
  from step.hyps(2)
  have "handler_part c (fst R) (frames (snd R)) = handler_part c (fst Q) (frames (snd Q))
    \<and> frame_sum (hands_over c) (frames (snd R)) = 0 \<and> c < rt_streams (fst R)
    \<and> held c (fst R) (frames (snd R)) = held c (fst Q) (frames (snd Q))"
  proof (cases rule: step_cases)
    case out
    from handler_outside(1,2) [OF out, of c] handler_outside(3) [OF out] held_kept [OF out] h show ?thesis by simp
  next
    case (ins x f s s' fs spawned k T)
    let ?R = "mset k + frames T"
    have o: "ok s (add_mset f ?R)" and st: "streams_ok s (add_mset f ?R)" using ok_reachable [OF r] streams_reachable [OF r] ins by simp_all
    note m = run_moves [OF ins(1)]
    have f0: "hands_over c f = 0" "frame_sum (hands_over c) ?R = 0" using h(1) ins by simp_all
    then have z: "frame_sum (hands_over c) (add_mset f ?R) = 0" by simp
    have t: "frame_sum (hands_over c) (add_mset f ?R) + held c s (add_mset f ?R) \<le> 1"
      using st by (auto simp: streams_ok_def intro: order_trans)
    have "plain_act f" using st by (simp add: streams_ok_def)
    note hs = held_step [OF m o this t]
    have "frame_ok s f" using o by (simp add: ok_def)
    with grows_rest(4) [OF grows_step [OF m]] h ins have "c < rt_streams s'" by simp
    moreover have "handler_part c s' (mset fs + ?R + frames (mset spawned)) = handler_part c s (add_mset f ?R)"
      by (rule handler_step(2) [OF m f0(1)])
    moreover have "frame_sum (hands_over c) (mset fs + ?R + frames (mset spawned)) = 0"
      "held c s' (mset fs + ?R + frames (mset spawned)) = held c s (add_mset f ?R)"
      using hs z by linarith+
    ultimately show ?thesis using ins by (simp add: ac_simps)
  qed
  with step show ?case by auto
qed simp


text \<open>When a handler is about to hand a stream over, nobody else has it and nobody has ended it.\<close>

lemma handed_over:
  assumes "reachable (s, add_mset (Install h a c # k) T)"
  shows "c < rt_streams s" "sum_list (map (hands_over c) k) = 0" "frame_sum (hands_over c) (frames T) = 0"
    "sum_list (map (handler_ends c) k) = 0" "frame_sum (handler_ends c) (frames T) = 0" "handled c s = 0"
    "sum_list (map (will_end c) k) = 0" "frame_sum (will_end c) (frames T) = 0" "actives c s = 0" "ended c s = 0"
proof -
  have hand: "frame_sum (hands_over c) (frames (add_mset (Install h a c # k) T)) + handler_part c s (frames (add_mset (Install h a c # k) T))
      \<le> of_bool (c < rt_streams s)" using handler_reachable [OF assms, of c] by simp
  then show c: "c < rt_streams s" by (simp add: of_bool_def split: if_splits)
  from hand show "sum_list (map (hands_over c) k) = 0" "frame_sum (hands_over c) (frames T) = 0"
    "sum_list (map (handler_ends c) k) = 0" "frame_sum (handler_ends c) (frames T) = 0" "handled c s = 0"
    by (simp_all add: handler_part_def c)
  have "frame_sum (hands_over c) (frames (add_mset (Install h a c # k) T)) + held c s (frames (add_mset (Install h a c # k) T))
      \<le> of_bool (c < rt_streams s)" using streams_reachable [OF assms] unfolding streams_ok_def fst_conv snd_conv by blast
  then show "sum_list (map (will_end c) k) = 0" "frame_sum (will_end c) (frames T) = 0" "actives c s = 0" "ended c s = 0"
    by (simp_all add: held_def c)
qed

lemma one_session:
  assumes "targets c s \<le> 1" "a < length (rt_pumps s)" "b < length (rt_pumps s)"
    "sp_targetConn (pump s a) = Some c" "sp_targetConn (pump s b) = Some c"
  shows "a = b"
proof (rule ccontr)
  let ?w = "\<lambda>i. of_bool (sp_targetConn (pump s i) = Some c) :: nat"
  assume "a \<noteq> b"
  then have "2 = (\<Sum>i \<in> {a, b}. ?w i)" using assms(4,5) by simp
  also have "\<dots> \<le> (\<Sum>i < length (rt_pumps s). ?w i)" using assms(2,3) by (intro sum_mono2) auto
  also have "\<dots> = targets c s" by (simp add: targets_def sum_list_sum_nth lessThan_atLeast0)
  finally show False using assms(1) by simp
qed

lemma frame_sum_zero: "(\<And>f. f \<in># F \<Longrightarrow> w f = 0) \<Longrightarrow> frame_sum w F = 0"
  by (induction F) auto

text \<open>Once its session has stopped, only the past actions of the session account for a stream.\<close>

lemma stopped_held:
  assumes "reachable (s, T)" "a < length (rt_pumps s)" "sp_targetConn (pump s a) = Some c" "sp_stopDone (pump s a)"
  shows "held c s (frames T) = ended c s"
proof -
  have ok: "ok s (frames T)" and st: "streams_ok s (frames T)"
    using ok_reachable [OF assms(1)] streams_reachable [OF assms(1)] by simp_all
  have "session_ok s (frames T) a" using ok assms(2) by (simp add: ok_def)
  then have stop: "sp_activeCarrier (pump s a) = None" "closers a (frames T) = 0" using assms(4) by (auto simp: session_ok_def good_def)
  have "frame_sum (serves c) (frames T) + targets c s \<le> of_bool (c < rt_streams s)" using st by (simp add: streams_ok_def)
  then have one: "targets c s \<le> 1" by (simp add: of_bool_def split: if_splits)
  have "sp_activeCarrier sp \<noteq> Some c" if sp: "sp \<in> set (rt_pumps s)" for sp
  proof
    assume e: "sp_activeCarrier sp = Some c"
    obtain b where b: "b < length (rt_pumps s)" "sp = pump s b" using sp by (auto simp: in_set_conv_nth)
    with e active_target [OF ok b(1)] have "sp_targetConn (pump s b) = Some c" by simp
    with one_session [OF one assms(2) b(1) assms(3)] stop b e show False by simp
  qed
  then have "actives c s = 0" by (simp add: actives_def)
  moreover have "will_end c f = 0" if f: "f \<in># frames T" for f
  proof (rule ccontr)
    assume "will_end c f \<noteq> 0"
    then obtain b st r where fe: "f = Complete b st r" "sr_active r = Some c" by (cases f) auto
    have "frame_ok s f" using ok f by (simp add: ok_def)
    with fe have "b < length (rt_pumps s)" "sp_targetConn (pump s b) = Some c" by auto
    with one_session [OF one assms(2) _ assms(3)] have "completes a f" by (simp add: fe)
    with f stop(2) show False by (auto dest!: multi_member_split)
  qed
  ultimately show ?thesis using frame_sum_zero [of "frames T" "will_end c"] by (simp add: held_def)
qed

lemma forced_run: "forced\<^sup>*\<^sup>* P Q \<Longrightarrow> reachable P \<Longrightarrow> reachable Q"
  by (induction rule: rtranclp_induct) (auto intro: forced_potential(1))

lemma forced_bounded:
  "(forced ^^ n) P Q \<Longrightarrow> reachable P \<Longrightarrow> n + potential (fst Q) (frames (snd Q)) \<le> potential (fst P) (frames (snd P)) \<and> reachable Q"
proof (induction n arbitrary: Q)
  case (Suc n)
  from Suc.prems(1) obtain R where R: "(forced ^^ n) P R" "forced R Q" by auto
  from Suc.IH [OF R(1) Suc.prems(2)] forced_potential [OF R(2)] show ?case by simp
qed simp

lemma comes_to_rest: "reachable P \<Longrightarrow> \<exists>Q. forced\<^sup>*\<^sup>* P Q \<and> at_rest Q"
proof (induction "potential (fst P) (frames (snd P))" arbitrary: P rule: less_induct)
  case less
  show ?case
  proof (cases "at_rest P")
    case False
    then obtain R where R: "forced P R" by (auto simp: at_rest_def)
    with less.hyps [OF forced_potential(2) [OF R less.prems] forced_potential(1) [OF R less.prems]] show ?thesis
      by (meson converse_rtranclp_into_rtranclp)
  qed blast
qed

section \<open>Properties\<close>

text \<open>C11. Sessions, Pipe runtimes and nodes always finish closing. Whatever happened before, the goroutines take only a
  bounded number of steps by themselves, and when they come to rest every session that was told to stop has stopped, every
  closed Pipe runtime is done and its sessions have stopped, and of a process whose node was closed or whose context was
  cancelled no goroutine is left.\<close>
theorem closing_terminates:
  assumes "reachable P"
  shows "(\<forall>n Q. (forced ^^ n) P Q \<longrightarrow> n \<le> potential (fst P) (frames (snd P)))
    \<and> (\<exists>Q. forced\<^sup>*\<^sup>* P Q \<and> at_rest Q)
    \<and> (\<forall>s T. forced\<^sup>*\<^sup>* P (s, T) \<and> at_rest (s, T) \<longrightarrow>
         (\<forall>a < length (rt_pumps s). sp_stopping (pump s a) \<or> pr_closed (pipe s (sp_parent (pump s a))) \<longrightarrow> sp_stopDone (pump s a))
         \<and> (\<forall>p < length (rt_pipes s). pr_closed (pipe s p) \<longrightarrow> pr_done (pipe s p))
         \<and> (nr_closed (rt_node s) \<or> nr_cancelled (rt_node s) \<longrightarrow>
              nr_done (rt_node s) \<and> (\<forall>p < length (rt_pipes s). pr_closed (pipe s p)) \<and> (\<forall>k \<in># T. k = [])))"
proof (intro conjI allI impI)
  show "n \<le> potential (fst P) (frames (snd P))" if "(forced ^^ n) P Q" for n Q
    using forced_bounded [OF that assms] by simp
  show "\<exists>Q. forced\<^sup>*\<^sup>* P Q \<and> at_rest Q" using comes_to_rest [OF assms] .
  fix s T assume "forced\<^sup>*\<^sup>* P (s, T) \<and> at_rest (s, T)"
  then have r: "reachable (s, T)" "at_rest (s, T)" using forced_run [OF _ assms] by simp_all
  show "sp_stopDone (pump s a)"
    if "a < length (rt_pumps s)" "sp_stopping (pump s a) \<or> pr_closed (pipe s (sp_parent (pump s a)))" for a
    using rest_sessions [OF r] rest_closed(2) [OF r] that by blast
  show "pr_done (pipe s p)" if "p < length (rt_pipes s)" "pr_closed (pipe s p)" for p
    using rest_closed(1) [OF r that] .
  assume c: "nr_closed (rt_node s) \<or> nr_cancelled (rt_node s)"
  show "nr_done (rt_node s)" using rest_quiet(1) [OF r c] .
  show "pr_closed (pipe s p)" if "p < length (rt_pipes s)" for p using rest_quiet(2) [OF r c] that by blast
  show "\<forall>k \<in># T. k = []" using rest_quiet(3) [OF r c] by blast
qed

text \<open>C12. A stream that a session took over is ended once. From the moment the session has the stream, however the
  goroutines interleave and whatever closes or expires, the session closes or resets the stream at most once, and when it
  has stopped it has done so exactly once and has closed its local connection; no admission count ever underflows. The
  handler that gave the stream away does not end it again, neither before nor after, when it is the one of
  \<^verbatim>\<open>tunnelServer\<close> or \<^verbatim>\<open>openLocalConnection\<close>; the handler of \<^verbatim>\<open>runLocalPipeExact\<close> keeps its
  deferred \<^verbatim>\<open>carrier.Close()\<close> and makes exactly one second terminal call.\<close>
theorem stream_ended_once:
  assumes "reachable (s, add_mset (Install h a c # k) T)" "SetActiveCarrier (ctxErr s a) c (pump s a) = (True, sp)"
    "step\<^sup>*\<^sup>* (upd_pump a (\<lambda>_. sp) s, add_mset (RunSession a # has_run h c @ k) T) (s', T')"
  shows "ended c s' \<le> 1 \<and> frame_sum (handler_ends c) (frames T') + handled c s' = of_bool (h = ExactLocal)
    \<and> \<not> rt_panicked s' \<and> (sp_stopDone (pump s' a) \<longrightarrow> ended c s' = 1 \<and> target_over s' (Some c))"
proof -
  let ?P = "(upd_pump a (\<lambda>_. sp) s, add_mset (RunSession a # has_run h c @ k) T)"
  have "run Go (Install h a c) s = Some (upd_pump a (\<lambda>_. sp) s, RunSession a # has_run h c, [])" using assms(2) by simp
  from inside.intros [OF this, of k T] have "inside Go (s, add_mset (Install h a c # k) T) ?P" by simp
  with assms(1) have r: "reachable ?P" by (rule reachable.inside)
  have "frame_ok s (Install h a c)" using ok_reachable [OF assms(1)] by (simp add: ok_def)
  then have a: "a < length (rt_pumps s)" "sp_targetConn (pump s a) = Some c" by simp_all
  have sp: "sp = (pump s a)\<lparr>sp_activeCarrier := Some c\<rparr>" using assms(2) by (simp add: SetActiveCarrier_def split: if_splits)
  have "1 \<le> actives c (fst ?P)" using actives_pos [of a "fst ?P" c] a(1) by (simp add: sp)
  then have h1: "1 \<le> held c (fst ?P) (frames (snd ?P))" by (simp add: held_def)
  have run: "held c (fst ?P) (frames (snd ?P)) \<le> held c s' (frames T')" "a < length (rt_pumps s')" "sp_targetConn (pump s' a) = Some c"
    using held_run [OF assms(3) r, of a c] a by (simp_all add: sp)
  have r': "reachable (s', T')" by (rule reachable_run [OF assms(3) r])
  have st: "streams_ok s' (frames T')" using streams_reachable [OF r'] by simp
  have "frame_sum (hands_over c) (frames T') + held c s' (frames T') \<le> of_bool (c < rt_streams s')"
    using st by (simp add: streams_ok_def)
  then have le: "held c s' (frames T') \<le> 1" by (simp add: of_bool_def split: if_splits)
  then have "ended c s' \<le> 1" by (simp add: held_def)
  moreover have "frame_sum (handler_ends c) (frames T') + handled c s' = of_bool (h = ExactLocal)"
    using handler_run [OF assms(3) _ _ r, of c] handed_over [OF assms(1)] by (simp add: handler_part_def)
  moreover have "\<not> rt_panicked s'" using ok_reachable [OF r'] by (simp add: ok_def)
  moreover have "ended c s' = 1 \<and> target_over s' (Some c)" if "sp_stopDone (pump s' a)"
    using stopped_held [OF r' run(2,3) that] le h1 run st that by (simp add: streams_ok_def)
  ultimately show ?thesis by blast
qed

section \<open>A run\<close>

text \<open>Stepping the goroutines of a list by a schedule: the index of a goroutine and its choice.\<close>

fun exec :: "(nat \<times> choice) list \<Rightarrow> Runtime \<times> frame list list \<Rightarrow> (Runtime \<times> frame list list) option" where
  "exec [] P = Some P"
| "exec ((i, x) # sched) (s, ks) =
     (if i < length ks then
        (case ks ! i of
           [] \<Rightarrow> None
         | f # k \<Rightarrow>
             (case run x f s of
                None \<Rightarrow> None
              | Some (s', fs, spawned) \<Rightarrow> exec sched (s', ks[i := fs @ k] @ spawned)))
      else None)"

lemma exec_run: "exec sched (s, ks) = Some (s', ks') \<Longrightarrow> step\<^sup>*\<^sup>* (s, mset ks) (s', mset ks')"
proof (induction sched arbitrary: s ks)
  case (Cons y sched)
  obtain i x where y: "y = (i, x)" by (cases y)
  with Cons.prems obtain f k s1 fs spawned where i: "i < length ks" "ks ! i = f # k" and r: "run x f s = Some (s1, fs, spawned)"
    and e: "exec sched (s1, ks[i := fs @ k] @ spawned) = Some (s', ks')"
    by (auto simp del: run.simps split: if_splits list.splits option.splits)
  have "mset ks = add_mset (f # k) (mset ks - {#f # k#})" using i by (metis insert_DiffM nth_mem_mset)
  moreover have "mset (ks[i := fs @ k] @ spawned) = add_mset (fs @ k) (mset spawned + (mset ks - {#f # k#}))"
    using i by (simp add: mset_update)
  ultimately have "step (s, mset ks) (s1, mset (ks[i := fs @ k] @ spawned))"
    using step_inside [OF inside.intros [OF r, of k "mset ks - {#f # k#}"]] by (simp add: ac_simps)
  then show ?case using Cons.IH [OF e] by (rule converse_rtranclp_into_rtranclp)
qed simp

lemma exec_to: "exec sched (s, ks) = Some R \<Longrightarrow> step\<^sup>*\<^sup>* (s, mset ks) (fst R, mset (snd R))"
  using exec_run by (cases R) simp

definition example_session :: sessionConfig where
  "example_session = \<lparr>sc_SessionID = ''ses_1'', sc_PipeID = ''pipe_1'', sc_Scope = '''', sc_TargetConn = Some 0, sc_InitialEpoch = 1,
     sc_IsClient = False\<rparr>"

definition example_serving :: Runtime where
  "example_serving = (snd (NewPipeRuntime NewNodeRuntime))\<lparr>rt_streams := 1\<rparr>"

lemma example_served: "reachable (example_serving, mset [[Watch], [Serve h 0 example_session 0]])"
proof -
  let ?s = "snd (NewPipeRuntime NewNodeRuntime)"
  have "outside start (?s, {#[Watch]#})" unfolding start_def
    by (rule outside.new_pipe [of _ 0]) (simp add: NewPipeRuntime_def NewNodeRuntime_def Let_def)
  then have r: "reachable (?s, {#[Watch]#})" by (rule reachable.outside [OF reachable.start])
  have "outside (?s, {#[Watch]#}) (?s\<lparr>rt_streams := Suc (rt_streams ?s)\<rparr>, add_mset [Serve h 0 example_session (rt_streams ?s)] {#[Watch]#})"
    by (rule outside.stream) (simp_all add: NewPipeRuntime_def NewNodeRuntime_def Let_def example_session_def)
  from reachable.outside [OF r this] show ?thesis
    by (simp add: example_serving_def NewPipeRuntime_def NewNodeRuntime_def Let_def add_mset_commute)
qed

text \<open>The goroutine of the node closes the Pipe runtime with its one session, after the context was cancelled.\<close>

definition shutdown :: "(nat \<times> choice) list" where "shutdown = replicate 17 (0, Go)"

definition example_installing :: "Runtime \<times> frame list list" where
  "example_installing = the (exec [(1, Go)] (example_serving, [[Watch], [Serve Tunnel 0 example_session 0]]))"

definition example_cancelled :: Runtime where
  "example_cancelled = (fst example_installing)\<lparr>rt_node := (rt_node (fst example_installing))\<lparr>nr_cancelled := True\<rparr>\<rparr>"

definition example_leaked :: "Runtime \<times> frame list list" where
  "example_leaked = the (exec ([(1, Go)] @ shutdown) (example_cancelled, [[Watch], refused Tunnel 0]))"

lemma example_runs:
  "exec [(1, Go)] (example_serving, [[Watch], [Serve h 0 example_session 0]]) = Some (fst example_installing, [[Watch], [Install h 0 0]])"
  "SetActiveCarrier (ctxErr (fst example_installing) 0) 0 (pump (fst example_installing) 0)
   = (True, (pump (fst example_installing) 0)\<lparr>sp_activeCarrier := Some 0\<rparr>)"
  "SetActiveCarrier (ctxErr example_cancelled 0) 0 (pump example_cancelled 0) = (False, pump example_cancelled 0)"
  "exec ([(1, Go)] @ shutdown) (example_cancelled, [[Watch], refused Tunnel 0]) = Some example_leaked"
  "snd example_leaked = [[], []]" "nr_done (rt_node (fst example_leaked))"
  by code_simp+

text \<open>A session that copies until both directions ended, and the handler that started it.\<close>

definition session_run :: "(nat \<times> choice) list" where
  "session_run = [(1, Go), (1, Go), (1, CopyIn (Moved 5)), (1, CopyOut (Ended 7)), (1, CopyIn (Ended 0))] @ replicate 10 (1, Go)"

definition example_running :: Runtime where
  "example_running = upd_pump 0 (\<lambda>_. (pump (fst example_installing) 0)\<lparr>sp_activeCarrier := Some 0\<rparr>) (fst example_installing)"

definition example_finished :: "Runtime \<times> frame list list" where
  "example_finished = the (exec session_run (example_running, [[Watch], RunSession 0 # has_run Tunnel 0]))"

definition example_twice :: "Runtime \<times> frame list list" where
  "example_twice = the (exec (session_run @ [(1, Go), (1, Go)]) (example_running, [[Watch], RunSession 0 # has_run ExactLocal 0]))"

lemma example_session_runs:
  "exec session_run (example_running, [[Watch], RunSession 0 # has_run Tunnel 0]) = Some example_finished"
  "sp_stopDone (pump (fst example_finished) 0)"
  "exec (session_run @ [(1, Go), (1, Go)]) (example_running, [[Watch], RunSession 0 # has_run ExactLocal 0]) = Some example_twice"
  "sp_stopDone (pump (fst example_twice) 0)" "snd example_finished = [[Watch], []]" "snd example_twice = [[Watch], []]"
  by code_simp+

lemma example_installed: "reachable (fst example_installing, mset [[Watch], [Install h 0 0]])"
  using reachable_run [OF exec_to [OF example_runs(1)] example_served] by simp

lemma example_interrupted: "reachable (example_cancelled, mset [[Watch], [Install Tunnel 0 0]])"
  using reachable.outside [OF example_installed outside.cancelled] by (simp add: example_cancelled_def)

theorem closing_terminates_witness:
  "reachable (example_cancelled, mset [[Watch], [Install Tunnel 0 0]])
   \<and> (\<exists>s T. forced\<^sup>*\<^sup>* (example_cancelled, mset [[Watch], [Install Tunnel 0 0]]) (s, T) \<and> at_rest (s, T))"
  using closing_terminates [OF example_interrupted] example_interrupted by auto

theorem stream_ended_once_witness:
  "ended 0 (fst example_finished) = 1 \<and> handled 0 (fst example_finished) = 0 \<and> target_over (fst example_finished) (Some 0)
   \<and> ended 0 (fst example_twice) = 1 \<and> handled 0 (fst example_twice) = 1"
proof -
  have r: "reachable (fst example_installing, add_mset (Install h 0 0 # []) {#[Watch]#})" for h
    using example_installed [of h] by (simp add: add_mset_commute)
  note once = stream_ended_once [OF r example_runs(2), folded example_running_def]
  have "step\<^sup>*\<^sup>* (example_running, add_mset (RunSession 0 # has_run Tunnel 0 @ []) {#[Watch]#})
      (fst example_finished, mset (snd example_finished))"
    using exec_to [OF example_session_runs(1)] by (simp add: add_mset_commute)
  from once [OF this] have "ended 0 (fst example_finished) = 1" "handled 0 (fst example_finished) = 0" "target_over (fst example_finished) (Some 0)"
    using example_session_runs(2) by simp_all
  moreover have "step\<^sup>*\<^sup>* (example_running, add_mset (RunSession 0 # has_run ExactLocal 0 @ []) {#[Watch]#})
      (fst example_twice, mset (snd example_twice))"
    using exec_to [OF example_session_runs(3)] by (simp add: add_mset_commute)
  from once [OF this] have "ended 0 (fst example_twice) = 1" "handled 0 (fst example_twice) = 1"
    using example_session_runs(4,6) by simp_all
  ultimately show ?thesis by blast
qed



end
