(* ===== verification/Copying.thy ===== *)
theory Copying
  imports Lifecycle "HOL-Library.Sublist"
begin

text \<open>
  The copy loops of a session (\<^verbatim>\<open>carrierToTarget\<close>, \<^verbatim>\<open>targetToCarrier\<close> and the writers they call, in
  src/internal/runtime/session.go). What the source delivers is a list of results of \<^verbatim>\<open>Read\<close>; an end of the list without an
  error is a read that blocks. The destination is a function for its \<^verbatim>\<open>Write\<close>: how many bytes it took, whether it
  returned an error, and its next state.
\<close>

datatype readErr = NoErr | EOF | ReadErr

type_synonym 'w writer = "'w \<Rightarrow> string \<Rightarrow> nat \<times> bool \<times> 'w"

text \<open>\<^verbatim>\<open>writeAllToTarget\<close> and \<^verbatim>\<open>writeAllToCarrier\<close>: whether they return an error. A writer that takes nothing and returns no error
  keeps the loop forever.\<close>

partial_function (option) writeAll :: "'w writer \<Rightarrow> 'w \<Rightarrow> string \<Rightarrow> nat \<Rightarrow> (bool \<times> 'w) option" where
  "writeAll wr w p written =
     (if written < length p
      then case wr w (drop written p) of
        (n, werr, w') \<Rightarrow>
          if werr then Some (written + n < length p, w') else writeAll wr w' p (written + n)
      else Some (False, w))"

definition writeAllToTarget :: "'w writer \<Rightarrow> 'w \<Rightarrow> string \<Rightarrow> (bool \<times> 'w) option" where
  "writeAllToTarget wr w p = writeAll wr w p 0"

definition writeAllToCarrier :: "'w writer \<Rightarrow> 'w \<Rightarrow> string \<Rightarrow> (bool \<times> 'w) option" where
  "writeAllToCarrier wr w p = writeAll wr w p 0"

text \<open>One turn of a loop, after a read of \<open>chunk\<close> with error \<open>e\<close>.\<close>

definition read_turn :: "('w \<Rightarrow> string \<Rightarrow> (bool \<times> 'w) option) \<Rightarrow> 'w \<Rightarrow> string \<Rightarrow> readErr \<Rightarrow> (turn \<times> 'w) option" where
  "read_turn write w chunk e =
     (let n = length chunk;
          after = (case e of NoErr \<Rightarrow> Moved n | EOF \<Rightarrow> Ended n | ReadErr \<Rightarrow> Broke n)
      in if n > 0
         then case write w chunk of
           None \<Rightarrow> None
         | Some (werr, w') \<Rightarrow> Some (if werr then Broke 0 else after, w')
         else Some (after, w))"

datatype outcome = Clean | Failed | Blocked

fun copy_loop ::
  "('w \<Rightarrow> string \<Rightarrow> (bool \<times> 'w) option) \<Rightarrow> ('w \<Rightarrow> 'w) \<Rightarrow> (nat \<Rightarrow> sessionPump \<Rightarrow> sessionPump) \<Rightarrow> (string \<times> readErr) list
   \<Rightarrow> 'w \<Rightarrow> sessionPump \<Rightarrow> (outcome \<times> 'w \<times> sessionPump) option" where
  "copy_loop write closeWrite tally [] w sp = Some (Blocked, w, sp)"
| "copy_loop write closeWrite tally ((chunk, e) # reads) w sp =
     (case read_turn write w chunk e of
        None \<Rightarrow> None
      | Some (Moved n, w') \<Rightarrow> copy_loop write closeWrite tally reads w' (tally n sp)
      | Some (Ended n, w') \<Rightarrow> Some (Clean, closeWrite w', tally n sp)
      | Some (Broke n, w') \<Rightarrow> Some (Failed, w', tally n sp))"

definition carrierToTarget ::
  "'w writer \<Rightarrow> ('w \<Rightarrow> 'w) \<Rightarrow> (string \<times> readErr) list \<Rightarrow> 'w \<Rightarrow> sessionPump \<Rightarrow> (outcome \<times> 'w \<times> sessionPump) option" where
  "carrierToTarget target closeWrite = copy_loop (writeAllToTarget target) closeWrite count_in"

definition targetToCarrier ::
  "'w writer \<Rightarrow> ('w \<Rightarrow> 'w) \<Rightarrow> (string \<times> readErr) list \<Rightarrow> 'w \<Rightarrow> sessionPump \<Rightarrow> (outcome \<times> 'w \<times> sessionPump) option" where
  "targetToCarrier carrier closeWrite = copy_loop (writeAllToCarrier carrier) closeWrite count_out"

text \<open>What the documentation of \<^verbatim>\<open>io.Writer\<close> promises, for the bytes \<open>log\<close> a destination has taken; half-closing it takes none.\<close>

definition io_writer :: "'w writer \<Rightarrow> ('w \<Rightarrow> string) \<Rightarrow> bool" where
  "io_writer wr log \<longleftrightarrow>
     (\<forall>w p. case wr w p of (n, werr, w') \<Rightarrow> n \<le> length p \<and> log w' = log w @ take n p \<and> (n < length p \<longrightarrow> werr))"

lemma io_writerD: "io_writer wr log \<Longrightarrow> wr w p = (n, werr, w') \<Longrightarrow> n \<le> length p \<and> log w' = log w @ take n p \<and> (n < length p \<longrightarrow> werr)"
  unfolding io_writer_def by (metis (mono_tags, lifting) case_prod_conv)

lemma writeAll_spec:
  assumes "io_writer wr log"
  obtains werr w' n where "writeAll wr w p 0 = Some (werr, w')" "log w' = log w @ take n p" "n \<le> length p"
    "\<not> werr \<Longrightarrow> n = length p"
proof -
  obtain n e w1 where w: "wr w p = (n, e, w1)" by (cases "wr w p")
  note c = io_writerD [OF assms w]
  show thesis
  proof (cases p)
    case Nil
    with that [of False w 0] show thesis by (simp add: writeAll.simps)
  next
    case (Cons x xs)
    show thesis
    proof (cases e)
      case True
      with w Cons have "writeAll wr w p 0 = Some (n < length p, w1)" by (simp add: writeAll.simps)
      with that [of "n < length p" w1 n] c show thesis by simp
    next
      case False
      with c have "n = length p" by simp
      with w Cons False have "writeAll wr w p 0 = writeAll wr w1 p (length p)" by (subst writeAll.simps) simp
      with \<open>n = length p\<close> c that [of False w1 n] show thesis by (simp add: writeAll.simps [of wr w1])
    qed
  qed
qed

text \<open>What a copy has done to the destination, with the number of bytes it counted.\<close>

definition delivered :: "(string \<times> readErr) list \<Rightarrow> outcome \<Rightarrow> string \<Rightarrow> nat \<Rightarrow> bool" where
  "delivered reads o' bs n \<longleftrightarrow>
     prefix bs (concat (map fst reads)) \<and> n \<le> length bs
     \<and> (o' = Clean \<longrightarrow> n = length bs \<and> (\<exists>before chunk after. reads = before @ (chunk, EOF) # after
           \<and> (\<forall>r \<in> set before. snd r = NoErr) \<and> bs = concat (map fst before) @ chunk))
     \<and> (o' = Blocked \<longrightarrow> n = length bs \<and> (\<forall>r \<in> set reads. snd r = NoErr) \<and> bs = concat (map fst reads))"

lemma delivered_more:
  assumes "delivered reads o' bs n"
  shows "delivered ((chunk, NoErr) # reads) o' (chunk @ bs) (length chunk + n)"
proof -
  have "\<exists>before c after. (chunk, NoErr) # reads = before @ (c, EOF) # after \<and> (\<forall>r \<in> set before. snd r = NoErr)
      \<and> chunk @ bs = concat (map fst before) @ c" if "o' = Clean"
  proof -
    from assms that obtain before c after where "reads = before @ (c, EOF) # after" "\<forall>r \<in> set before. snd r = NoErr"
      "bs = concat (map fst before) @ c" by (auto simp: delivered_def)
    then show ?thesis by (intro exI [of _ "(chunk, NoErr) # before"] exI [of _ c] exI [of _ after]) simp
  qed
  with assms show ?thesis by (auto simp: delivered_def)
qed

lemma read_turn_spec:
  assumes "io_writer wr log"
  obtains t w' n where "read_turn (\<lambda>w p. writeAll wr w p 0) w chunk e = Some (t, w')" "log w' = log w @ take n chunk" "n \<le> length chunk"
    "t = Broke 0 \<or> n = length chunk \<and> t = (case e of NoErr \<Rightarrow> Moved n | EOF \<Rightarrow> Ended n | ReadErr \<Rightarrow> Broke n)"
proof -
  obtain werr w1 n where wa: "writeAll wr w chunk 0 = Some (werr, w1)" "log w1 = log w @ take n chunk" "n \<le> length chunk"
    "\<not> werr \<Longrightarrow> n = length chunk" by (rule writeAll_spec [OF assms, of w chunk]) blast
  show thesis
  proof (cases chunk)
    case Nil
    show thesis by (rule that [of _ w 0]) (auto simp: Nil read_turn_def)
  next
    case (Cons x xs)
    show thesis
    proof (cases werr)
      case True
      show thesis by (rule that [of "Broke 0" w1 n]) (use wa True in \<open>auto simp: read_turn_def Let_def Cons\<close>)
    next
      case False
      with wa have "n = length chunk" by simp
      show thesis by (rule that [of _ w1 n]) (use wa False \<open>n = length chunk\<close> in \<open>auto simp: read_turn_def Let_def Cons\<close>)
    qed
  qed
qed

lemma copy_loop_spec:
  assumes "io_writer wr log" "\<And>w. log (cw w) = log w" "\<And>m n sp. tally m (tally n sp) = tally (n + m) sp" "\<And>sp. tally 0 sp = sp"
  shows "\<exists>o' w' bs n. copy_loop (\<lambda>w p. writeAll wr w p 0) cw tally reads w sp = Some (o', w', tally n sp)
    \<and> log w' = log w @ bs \<and> delivered reads o' bs n"
proof (induction reads arbitrary: w sp)
  case Nil show ?case using assms(4) by (auto simp: delivered_def intro!: exI [of _ 0])
next
  case (Cons r reads)
  obtain chunk e where r: "r = (chunk, e)" by (cases r)
  obtain t w1 n where t: "read_turn (\<lambda>w p. writeAll wr w p 0) w chunk e = Some (t, w1)" "log w1 = log w @ take n chunk" "n \<le> length chunk"
    "t = Broke 0 \<or> n = length chunk \<and> t = (case e of NoErr \<Rightarrow> Moved n | EOF \<Rightarrow> Ended n | ReadErr \<Rightarrow> Broke n)"
    by (rule read_turn_spec [OF assms(1), of w chunk e]) blast
  from t(4) consider "t = Broke 0" | "n = length chunk" "e = EOF" "t = Ended n" | "n = length chunk" "e = ReadErr" "t = Broke n"
    | "n = length chunk" "e = NoErr" "t = Moved n" by (cases e) auto
  then show ?case
  proof cases
    case 1
    with t r have "copy_loop (\<lambda>w p. writeAll wr w p 0) cw tally (r # reads) w sp = Some (Failed, w1, tally 0 sp)" by simp
    moreover have "prefix (take n chunk) (chunk @ concat (map fst reads))" by (metis prefix_append take_is_prefix prefix_order.trans prefix_def)
    then have "delivered (r # reads) Failed (take n chunk) 0" by (simp add: delivered_def r)
    ultimately show ?thesis using t(2) by blast
  next
    case 2
    with t r have "copy_loop (\<lambda>w p. writeAll wr w p 0) cw tally (r # reads) w sp = Some (Clean, cw w1, tally n sp)" by simp
    moreover have "delivered (r # reads) Clean chunk n" using 2 unfolding delivered_def r by (fastforce intro: exI [of _ "[]"])
    ultimately show ?thesis using t(2) 2 assms(2) by auto
  next
    case 3
    with t r have "copy_loop (\<lambda>w p. writeAll wr w p 0) cw tally (r # reads) w sp = Some (Failed, w1, tally n sp)" by simp
    moreover have "delivered (r # reads) Failed chunk n" using 3 by (simp add: delivered_def r)
    ultimately show ?thesis using t(2) 3 by auto
  next
    case 4
    from Cons.IH [of w1 "tally n sp"] obtain o' w' bs k
      where k: "copy_loop (\<lambda>w p. writeAll wr w p 0) cw tally reads w1 (tally n sp) = Some (o', w', tally k (tally n sp))"
        "log w' = log w1 @ bs" "delivered reads o' bs k" by blast
    with t r 4 have "copy_loop (\<lambda>w p. writeAll wr w p 0) cw tally (r # reads) w sp = Some (o', w', tally (n + k) sp)"
      by (simp add: assms(3))
    moreover have "delivered (r # reads) o' (chunk @ bs) (n + k)" using delivered_more [OF k(3)] 4 r by simp
    ultimately show ?thesis using t(2) k(2) 4 by auto
  qed
qed

lemma tally_count [simp]:
  "count_in m (count_in n sp) = count_in (n + m) sp" "count_in 0 sp = sp"
  "count_out m (count_out n sp) = count_out (n + m) sp" "count_out 0 sp = sp"
  by (simp_all add: count_in_def count_out_def)

text \<open>C18. A copy direction always comes to an answer for what its source has delivered, over every destination that keeps the
  contract of \<^verbatim>\<open>io.Writer\<close>, including those that take a chunk in part. The destination has then received a
  prefix of what was read, in order and without gaps, and no byte is counted that it did not receive. A clean end means that it received
  everything up to the end of the source, and that exactly these bytes were counted; so does a loop that waits for more.\<close>

theorem copy_faithful:
  assumes "io_writer wr log" "\<And>w. log (cw w) = log w"
  shows "(\<exists>o' w' bs n. carrierToTarget wr cw reads w sp = Some (o', w', count_in n sp)
        \<and> log w' = log w @ bs \<and> delivered reads o' bs n)
    \<and> (\<exists>o' w' bs n. targetToCarrier wr cw reads w sp = Some (o', w', count_out n sp)
        \<and> log w' = log w @ bs \<and> delivered reads o' bs n)"
  unfolding carrierToTarget_def targetToCarrier_def writeAllToTarget_def writeAllToCarrier_def
  using copy_loop_spec [OF assms, of count_in] copy_loop_spec [OF assms, of count_out] by auto

text \<open>A destination that takes at most two bytes of a chunk and remembers what it took and whether it was half-closed.\<close>

definition small_write :: "(string \<times> bool) writer" where
  "small_write w p = (min 2 (length p), 2 < length p, fst w @ take 2 p, snd w)"

lemma small_writer: "io_writer small_write fst"
  by (auto simp: io_writer_def small_write_def min_def)

text \<open>Two small chunks reach it whole; of a third that is too long it takes a part, which is not counted.\<close>

definition small_reads :: "(string \<times> readErr) list" where
  "small_reads = [(''ab'', NoErr), (''c'', NoErr), (''defg'', EOF)]"

lemma small_run:
  "carrierToTarget small_write (\<lambda>w. (fst w, True)) small_reads ([], False) sp = Some (Failed, (''abcde'', False), count_in 3 sp)"
  by (simp add: carrierToTarget_def small_reads_def read_turn_def writeAllToTarget_def writeAll.simps small_write_def numeral_3_eq_3)

theorem copy_faithful_witness:
  "\<forall>sp. carrierToTarget small_write (\<lambda>w. (fst w, True)) small_reads ([], False) sp = Some (Failed, (''abcde'', False), count_in 3 sp)
     \<and> (\<exists>o' w' bs n. targetToCarrier small_write (\<lambda>w. (fst w, True)) small_reads ([], False) sp = Some (o', w', count_out n sp)
         \<and> fst w' = bs \<and> delivered small_reads o' bs n)"
  using small_run copy_faithful [OF small_writer, of "\<lambda>w. (fst w, True)" small_reads "([], False)"] by auto

end
