(* ===== verification/LocalState.thy ===== *)
theory LocalState
  imports StorePipes StoreExact
begin

text \<open>
  The rest of the local state (src/internal/store/store.go): Scopes and memberships, the static configuration file, the
  registry of running processes with its telemetry, and supervisors. It extends the tables of the store, which it holds in
  \<open>ls_db\<close> and whose database it shares. The configuration file is the value that decoding it gives, or
  the error of reading it; instants of a row are kept as values.
\<close>

section \<open>Rows\<close>

record ScopeState =
  scp_Name :: string
  scp_AuthorityPublic :: string
  scp_AuthorityKeyFile :: string
  scp_NamespaceKeyFile :: string

record Membership =
  mem_Scope :: string
  mem_Role :: string
  mem_Token :: string
  mem_AuthorityPublic :: string
  mem_AuthorityAddress :: string
  mem_ClientKeyFile :: string

record Run =
  run_PrimaryRef :: string
  run_Kind :: string
  run_PID :: int
  run_ProcessIdentity :: string
  run_Source :: string
  run_Status :: string
  run_PeerID :: string
  run_Address :: string
  run_StartedAt :: gotime
  run_UpdatedAt :: gotime

record Supervisor =
  sv_PrimaryRef :: string
  sv_Manager :: string
  sv_Label :: string
  sv_UnitPath :: string
  sv_InstalledAt :: gotime
  sv_UpdatedAt :: gotime

text \<open>The two rates of \<^verbatim>\<open>RuntimeStats\<close>, which nothing computes with, are kept as the bits of the number.\<close>

record RuntimeStats =
  rs_RunRef :: string
  rs_BytesIn :: int
  rs_BytesOut :: int
  rs_RateIn :: nat
  rs_RateOut :: nat
  rs_ConnectedPeers :: int
  rs_OpenConnections :: int
  rs_UpdatedAt :: gotime

record RuntimePeer =
  rp_RunRef :: string
  rp_PeerID :: string
  rp_Addresses :: "string list"
  rp_LastSeen :: gotime

record staticOverlay =
  so_Relays :: "string list"
  so_SwarmKeyFile :: string
  so_ForceReachability :: string

record staticConfig =
  cf_Version :: int
  cf_CurrentContext :: string
  cf_CurrentScope :: string
  cf_Contexts :: "(string, staticOverlay) tab"

record ConfigView =
  cv_Version :: int
  cv_CurrentContext :: string
  cv_CurrentScope :: string
  cv_Relays :: "string list"
  cv_SwarmKeyFile :: string
  cv_ForceReachability :: string

record LocalState =
  ls_db :: Store
  ls_scopes :: "(string, ScopeState) tab"
  ls_memberships :: "(string, Membership) tab"
  ls_runs :: "(string, Run) tab"
  ls_supervisors :: "(string, Supervisor) tab"
  ls_runtime_stats :: "(string, RuntimeStats) tab"
  ls_runtime_peers :: "(string \<times> string, RuntimePeer) tab"
  ls_config :: "staticConfig result"
  ls_config_fault :: "goerror option"

abbreviation ask_local :: "LocalState \<Rightarrow> 'a result \<Rightarrow> 'a result" where
  "ask_local s r \<equiv> query (ls_db s) r"

text \<open>A statement outside a transaction: it changes the tables unless it fails.\<close>

definition exec_local :: "LocalState \<Rightarrow> LocalState result \<Rightarrow> unit result \<times> LocalState" where
  "exec_local s r = (case ask_local s r of Inl e \<Rightarrow> (Inl e, s) | Inr s' \<Rightarrow> (Inr (), s'))"

section \<open>Scopes and memberships\<close>

definition PutScope :: "ScopeState \<Rightarrow> LocalState \<Rightarrow> unit result \<times> LocalState" where
  "PutScope v s =
     exec_local s (if get (ls_scopes s) (scp_Name v) \<noteq> None then Inl (unique_violation ''scopes.name'')
       else Inr (s\<lparr>ls_scopes := put (scp_Name v) v (ls_scopes s)\<rparr>))"

definition Scope_get :: "LocalState \<Rightarrow> string \<Rightarrow> ScopeState result" where
  "Scope_get s name =
     ask_local s (case get (ls_scopes s) name of
        None \<Rightarrow> Inl (Wrap ''%w: scope %s'' [name] ErrNotFound) | Some v \<Rightarrow> Inr v)"

definition Scopes :: "LocalState \<Rightarrow> ScopeState list result" where
  "Scopes s = ask_local s (Inr (map snd (sort_key fst (ls_scopes s))))"

definition ErrNoRows :: goerror where "ErrNoRows = Error ''sql: no rows in result set'' []"

definition FirstScope :: "LocalState \<Rightarrow> ScopeState result" where
  "FirstScope s =
     res_bind (ask_local s (case sort_key fst (ls_scopes s) of [] \<Rightarrow> Inl ErrNoRows | (name, _) # _ \<Rightarrow> Inr name)) (Scope_get s)"

definition PutMembership :: "Membership \<Rightarrow> LocalState \<Rightarrow> unit result \<times> LocalState" where
  "PutMembership v s = exec_local s (Inr (s\<lparr>ls_memberships := put (mem_Scope v) v (ls_memberships s)\<rparr>))"

definition Membership_get :: "LocalState \<Rightarrow> string \<Rightarrow> Membership result" where
  "Membership_get s scope =
     ask_local s (case get (ls_memberships s) scope of
        None \<Rightarrow> Inl (Wrap ''%w: membership %s'' [scope] ErrNotFound) | Some v \<Rightarrow> Inr v)"

definition Memberships :: "LocalState \<Rightarrow> Membership list result" where
  "Memberships s = ask_local s (Inr (map snd (sort_key fst (ls_memberships s))))"

section \<open>The static configuration\<close>

definition os_ErrNotExist :: goerror where "os_ErrNotExist = Error ''file does not exist'' []"

definition readConfig :: "LocalState \<Rightarrow> staticConfig result" where
  "readConfig s =
     res_bind (ls_config s) (\<lambda>config.
       if cf_Version config \<noteq> 1 \<or> cf_CurrentContext config = [] then Inl (Error ''invalid static config'' []) else Inr config)"

definition writeConfig :: "staticConfig \<Rightarrow> LocalState \<Rightarrow> unit result \<times> LocalState" where
  "writeConfig config s =
     (case ls_config_fault s of Some e \<Rightarrow> (Inl e, s) | None \<Rightarrow> (Inr (), s\<lparr>ls_config := Inr config\<rparr>))"

definition PutOverlay :: "string \<Rightarrow> string \<Rightarrow> string \<Rightarrow> LocalState \<Rightarrow> unit result \<times> LocalState" where
  "PutOverlay relay key reachability s =
     (let fresh = \<lparr>cf_Version = 1, cf_CurrentContext = ''default'', cf_CurrentScope = [], cf_Contexts = []\<rparr> in
      case (case readConfig s of
              Inr existing \<Rightarrow> Inr existing
            | Inl e \<Rightarrow> if errors_is e os_ErrNotExist then Inr fresh else Inl e) of
        Inl e \<Rightarrow> (Inl e, s)
      | Inr config \<Rightarrow>
          writeConfig (config\<lparr>cf_Contexts := put (cf_CurrentContext config)
            \<lparr>so_Relays = [relay], so_SwarmKeyFile = key, so_ForceReachability = reachability\<rparr> (cf_Contexts config)\<rparr>) s)"

text \<open>The cause is only printed into the message (\<^verbatim>\<open>%v\<close>), not wrapped.\<close>

definition Overlay :: "(goerror \<Rightarrow> string) \<Rightarrow> LocalState \<Rightarrow> (string \<times> string \<times> string) result" where
  "Overlay render s =
     (case readConfig s of
        Inl e \<Rightarrow> Inl (Wrap ''%w: overlay config: %v'' [render e] ErrNotFound)
      | Inr config \<Rightarrow>
          (case get (cf_Contexts config) (cf_CurrentContext config) of
             None \<Rightarrow> Inl (Wrap ''%w: overlay'' [] ErrNotFound)
           | Some v \<Rightarrow>
               if so_Relays v = [] \<or> hd (so_Relays v) = [] \<or> so_SwarmKeyFile v = []
               then Inl (Wrap ''%w: overlay'' [] ErrNotFound)
               else Inr (hd (so_Relays v), so_SwarmKeyFile v, so_ForceReachability v)))"

definition Config :: "LocalState \<Rightarrow> ConfigView result" where
  "Config s =
     res_bind (readConfig s) (\<lambda>config.
       case get (cf_Contexts config) (cf_CurrentContext config) of
         None \<Rightarrow> Inl (Error ''invalid static config: current context missing'' [])
       | Some v \<Rightarrow> Inr \<lparr>cv_Version = cf_Version config, cv_CurrentContext = cf_CurrentContext config,
           cv_CurrentScope = cf_CurrentScope config, cv_Relays = so_Relays v, cv_SwarmKeyFile = so_SwarmKeyFile v,
           cv_ForceReachability = so_ForceReachability v\<rparr>)"

text \<open>\<^verbatim>\<open>stat\<close> gives the permission bits of a file.\<close>

definition ValidateConfig :: "(string \<Rightarrow> nat result) \<Rightarrow> LocalState \<Rightarrow> ConfigView result" where
  "ValidateConfig stat s =
     res_bind (Config s) (\<lambda>v.
       if cv_Relays v = [] \<or> TrimSpace (hd (cv_Relays v)) = [] then Inl (Error ''config relay is required'' [])
       else if cv_ForceReachability v \<noteq> ''private'' \<and> cv_ForceReachability v \<noteq> ''public''
       then Inl (Error ''config force_reachability must be private or public'' [])
       else res_bind (map_err (Wrap ''swarm key: %w'' []) (stat (cv_SwarmKeyFile v))) (\<lambda>mode.
         if mode mod 64 \<noteq> 0 then Inl (Error ''swarm key permissions must not allow group or other access'' []) else Inr v))"

definition UseScope :: "string \<Rightarrow> LocalState \<Rightarrow> unit result \<times> LocalState" where
  "UseScope scope s =
     (if \<not> is_ok (Scope_get s scope) \<and> \<not> is_ok (Membership_get s scope)
      then (Inl (Wrap ''%w: scope %s'' [scope] ErrNotFound), s)
      else case readConfig s of
        Inl e \<Rightarrow> (Inl e, s)
      | Inr config \<Rightarrow> writeConfig (config\<lparr>cf_CurrentScope := scope\<rparr>) s)"

definition CurrentScope :: "LocalState \<Rightarrow> string result" where
  "CurrentScope s =
     res_bind (readConfig s) (\<lambda>config.
       let current = cf_CurrentScope config in
       if current \<noteq> [] then
         (if is_ok (Scope_get s current) \<or> is_ok (Membership_get s current) then Inr current
          else Inl (Wrap ''%w: current scope %s'' [current] ErrNotFound))
       else case FirstScope s of
         Inr v \<Rightarrow> Inr (scp_Name v)
       | Inl _ \<Rightarrow>
           (case Memberships s of
              Inr (m # _) \<Rightarrow> Inr (mem_Scope m)
            | _ \<Rightarrow> Inl (Wrap ''%w: no scope'' [] ErrNotFound)))"

section \<open>Runs\<close>

text \<open>\<open>ps\<close> is the listing of one process that \<^verbatim>\<open>ps -o lstart= -o command=\<close> prints; \<open>show\<close> writes a number in decimal.\<close>

definition ProcessIdentity :: "(int \<Rightarrow> string result) \<Rightarrow> (int \<Rightarrow> string) \<Rightarrow> int \<Rightarrow> string result" where
  "ProcessIdentity ps show pid =
     (if pid \<le> 0 then Inl (Error ''invalid pid'' [])
      else res_bind (ps pid) (\<lambda>output.
        let identity = TrimSpace output in
        if identity = [] then Inl (Error ''process not found'' []) else Inr (show pid @ '':'' @ identity)))"

definition reserved_run :: "string \<Rightarrow> string \<Rightarrow> gotime \<Rightarrow> Run" where
  "reserved_run ref kind now =
     \<lparr>run_PrimaryRef = ref, run_Kind = kind, run_PID = 0, run_ProcessIdentity = [], run_Source = ''foreground'', run_Status = ''starting'',
      run_PeerID = [], run_Address = [], run_StartedAt = now, run_UpdatedAt = now\<rparr>"

definition ReserveRun :: "gotime \<Rightarrow> string \<Rightarrow> string \<Rightarrow> LocalState \<Rightarrow> unit result \<times> LocalState" where
  "ReserveRun now ref kind s =
     (case exec_local s (if get (ls_runs s) ref \<noteq> None then Inl (unique_violation ''runs.primary_ref'')
                         else Inr (s\<lparr>ls_runs := put ref (reserved_run ref kind now) (ls_runs s)\<rparr>)) of
        (Inl e, s') \<Rightarrow> (Inl (Wrap ''conflict: run already exists for %s: %w'' [ref] e), s')
      | ok \<Rightarrow> ok)"

definition PutRun :: "(int \<Rightarrow> string result) \<Rightarrow> gotime \<Rightarrow> Run \<Rightarrow> LocalState \<Rightarrow> unit result \<times> LocalState" where
  "PutRun identity now v s =
     (let source = (if run_Source v = [] then ''foreground'' else run_Source v) in
      if source \<notin> set [''foreground'', ''detached'', ''launchd'', ''systemd'']
      then (Inl (Error ''invalid run source %q'' [source]), s)
      else case (if run_PID v > 0 \<and> run_ProcessIdentity v = []
                 then map_err (Wrap ''capture process identity: %w'' []) (identity (run_PID v))
                 else Inr (run_ProcessIdentity v)) of
        Inl e \<Rightarrow> (Inl e, s)
      | Inr ident \<Rightarrow>
          let v' = v\<lparr>run_Source := source, run_ProcessIdentity := ident,
                     run_StartedAt := (if IsZero (run_StartedAt v) then now else run_StartedAt v), run_UpdatedAt := now\<rparr>
          in exec_local s (Inr (s\<lparr>ls_runs := put (run_PrimaryRef v) v' (ls_runs s)\<rparr>)))"

definition Run_get :: "LocalState \<Rightarrow> string \<Rightarrow> Run result" where
  "Run_get s ref =
     ask_local s (case get (ls_runs s) ref of None \<Rightarrow> Inl (Wrap ''%w: %s'' [ref] ErrNotFound) | Some v \<Rightarrow> Inr v)"

definition Runs :: "LocalState \<Rightarrow> Run list result" where
  "Runs s = ask_local s (Inr (map snd (sort_key fst (ls_runs s))))"

text \<open>The telemetry of a run goes with it (\<^verbatim>\<open>ON DELETE CASCADE\<close>).\<close>

definition DeleteRun :: "string \<Rightarrow> LocalState \<Rightarrow> unit result \<times> LocalState" where
  "DeleteRun ref s =
     exec_local s (Inr (s\<lparr>ls_runs := del_where (\<lambda>k _. k = ref) (ls_runs s),
       ls_runtime_stats := del_where (\<lambda>k _. k = ref \<and> get (ls_runs s) ref \<noteq> None) (ls_runtime_stats s),
       ls_runtime_peers := del_where (\<lambda>k _. fst k = ref \<and> get (ls_runs s) ref \<noteq> None) (ls_runtime_peers s)\<rparr>))"

section \<open>Supervisors\<close>

definition PutSupervisor :: "gotime \<Rightarrow> Supervisor \<Rightarrow> LocalState \<Rightarrow> unit result \<times> LocalState" where
  "PutSupervisor now v s =
     (if sv_PrimaryRef v = [] \<or> sv_Manager v = [] \<or> sv_Label v = [] \<or> sv_UnitPath v = []
      then (Inl (Error ''supervisor fields are required'' []), s)
      else if sv_Manager v \<noteq> ''launchd'' \<and> sv_Manager v \<noteq> ''systemd''
      then (Inl (Error ''unsupported supervisor manager %q'' [sv_Manager v]), s)
      else
        let installed = (case get (ls_supervisors s) (sv_PrimaryRef v) of
                           Some old \<Rightarrow> sv_InstalledAt old
                         | None \<Rightarrow> if IsZero (sv_InstalledAt v) then now else sv_InstalledAt v);
            taken = list_ex (\<lambda>(k, w). k \<noteq> sv_PrimaryRef v \<and> sv_Label w = sv_Label v) (ls_supervisors s)
        in exec_local s (if taken then Inl (unique_violation ''supervisors.label'')
             else Inr (s\<lparr>ls_supervisors := put (sv_PrimaryRef v) (v\<lparr>sv_InstalledAt := installed, sv_UpdatedAt := now\<rparr>) (ls_supervisors s)\<rparr>)))"

definition Supervisor_get :: "LocalState \<Rightarrow> string \<Rightarrow> Supervisor result" where
  "Supervisor_get s ref =
     ask_local s (case get (ls_supervisors s) ref of
        None \<Rightarrow> Inl (Wrap ''%w: supervisor for %s'' [ref] ErrNotFound) | Some v \<Rightarrow> Inr v)"

definition DeleteSupervisor :: "string \<Rightarrow> LocalState \<Rightarrow> unit result \<times> LocalState" where
  "DeleteSupervisor ref s = exec_local s (Inr (s\<lparr>ls_supervisors := del_where (\<lambda>k _. k = ref) (ls_supervisors s)\<rparr>))"

section \<open>Telemetry\<close>

definition foreign_key :: goerror where "foreign_key = Error ''constraint failed: FOREIGN KEY constraint failed'' []"

text \<open>The insertions of the peers, which stop at the first one that is there twice.\<close>

fun insert_peers ::
  "string \<Rightarrow> gotime \<Rightarrow> RuntimePeer list \<Rightarrow> (string \<times> string, RuntimePeer) tab \<Rightarrow> (string \<times> string, RuntimePeer) tab result" where
  "insert_peers ref now [] t = Inr t"
| "insert_peers ref now (p # ps) t =
     (if get t (ref, rp_PeerID p) \<noteq> None then Inl (unique_violation ''runtime_peers.run_ref, runtime_peers.peer_id'')
      else insert_peers ref now ps (put (ref, rp_PeerID p) (p\<lparr>rp_RunRef := ref, rp_LastSeen := now\<rparr>) t))"

definition PutRuntimeTelemetry :: "gotime \<Rightarrow> RuntimeStats \<Rightarrow> RuntimePeer list \<Rightarrow> LocalState \<Rightarrow> unit result \<times> LocalState" where
  "PutRuntimeTelemetry now stats peers s =
     (let ref = rs_RunRef stats in
      exec_local s
        (if get (ls_runs s) ref = None then Inl foreign_key
         else res_bind (insert_peers ref now peers (del_where (\<lambda>k _. fst k = ref) (ls_runtime_peers s))) (\<lambda>t.
           Inr (s\<lparr>ls_runtime_stats := put ref (stats\<lparr>rs_UpdatedAt := now\<rparr>) (ls_runtime_stats s), ls_runtime_peers := t\<rparr>))))"

definition RuntimeStats_get :: "LocalState \<Rightarrow> string \<Rightarrow> RuntimeStats result" where
  "RuntimeStats_get s ref =
     ask_local s (case get (ls_runtime_stats s) ref of
        None \<Rightarrow> Inl (Wrap ''%w: runtime stats %s'' [ref] ErrNotFound) | Some v \<Rightarrow> Inr v)"

definition RuntimePeers :: "LocalState \<Rightarrow> RuntimePeer list result" where
  "RuntimePeers s = ask_local s (Inr (map snd (sort_key (snd \<circ> fst) (sort_key (fst \<circ> fst) (ls_runtime_peers s)))))"

definition ClearRuntimePeers :: "string \<Rightarrow> LocalState \<Rightarrow> unit result \<times> LocalState" where
  "ClearRuntimePeers ref s = exec_local s (Inr (s\<lparr>ls_runtime_peers := del_where (\<lambda>k _. fst k = ref) (ls_runtime_peers s)\<rparr>))"

end
