(* ===== verification/CommandTree.thy ===== *)
theory CommandTree
  imports Prelude
begin

text \<open>
  The declarative command tree of the command line (src/internal/cli/spec.go): the types of command and flag
  declarations, and how the tree of commands is linked, validated and walked. The tree is a list in which
  a command is named by its position, as the program names it by a pointer.
\<close>

section \<open>Declarations\<close>

record flagSpec =
  fl_name :: string
  fl_short :: string
  fl_value :: bool
  fl_required :: bool
  fl_obsolete :: string
  fl_help :: string

record commandSpec =
  cs_path :: "string list"
  cs_summary :: string
  cs_usage :: string
  cs_detail :: string
  cs_args :: "string list"
  cs_minArgs :: int
  cs_maxArgs :: int
  cs_flags :: "flagSpec list"
  cs_children :: "nat list"
  cs_hidden :: bool

definition longFlag :: "commandSpec \<Rightarrow> string \<Rightarrow> flagSpec option" where
  "longFlag s name = find (\<lambda>fl. fl_name fl = name) (cs_flags s)"

definition shortFlag :: "commandSpec \<Rightarrow> string \<Rightarrow> flagSpec option" where
  "shortFlag s ch = find (\<lambda>fl. fl_short fl \<noteq> [] \<and> fl_short fl = ch) (cs_flags s)"

definition isGroup :: "commandSpec \<Rightarrow> bool" where
  "isGroup s \<longleftrightarrow> length (cs_children s) > 0"

definition joinPath :: "string list \<Rightarrow> string" where
  "joinPath path = Join path '' ''"

definition cs_id :: "commandSpec \<Rightarrow> string" where
  "cs_id s = joinPath (cs_path s)"

section \<open>The linked tree\<close>

text \<open>\<^verbatim>\<open>buildGroups\<close>: the map \<^verbatim>\<open>byID\<close> keeps the last command of an id.\<close>

fun last_such :: "('a \<Rightarrow> bool) \<Rightarrow> 'a list \<Rightarrow> nat option" where
  "last_such P [] = None"
| "last_such P (x # xs) =
     (case last_such P xs of Some i \<Rightarrow> Some (Suc i) | None \<Rightarrow> if P x then Some 0 else None)"

definition link :: "nat \<Rightarrow> commandSpec list \<Rightarrow> commandSpec list" where
  "link j tree =
     (let path = cs_path (tree ! j);
          parentID = (if length path > 1 then joinPath (take (length path - 1) path) else [])
      in case last_such (\<lambda>s. cs_id s = parentID) tree of
           Some i \<Rightarrow> tree[i := (tree ! i)\<lparr>cs_children := cs_children (tree ! i) @ [j]\<rparr>]
         | None \<Rightarrow> tree)"

definition buildGroups :: "commandSpec list \<Rightarrow> commandSpec list" where
  "buildGroups tree = fold link [0 ..< length tree] tree"

definition specFor :: "commandSpec list \<Rightarrow> string \<Rightarrow> commandSpec option" where
  "specFor tree path = find (\<lambda>s. cs_id s = path) tree"

text \<open>\<^verbatim>\<open>validateSpecTree\<close> of help.go, with the messages of its errors; the last loop of the program runs over a map in no fixed
  order, here over the declared leaves.\<close>

definition leaves :: "commandSpec list \<Rightarrow> string list" where
  "leaves tree = map cs_id (filter (\<lambda>s. \<not> isGroup s) tree)"

fun first_duplicate :: "string list \<Rightarrow> string list \<Rightarrow> string option" where
  "first_duplicate seen [] = None"
| "first_duplicate seen (x # xs) = (if x \<in> set seen then Some x else first_duplicate (x # seen) xs)"

definition validateSpecTree :: "commandSpec list \<Rightarrow> string list \<Rightarrow> goerror option" where
  "validateSpecTree tree want =
     (case first_duplicate [] (map cs_id tree) of
        Some x \<Rightarrow> Some (Error ''duplicate command spec %q'' [x])
      | None \<Rightarrow>
          (case find (\<lambda>path. path \<notin> set want) (leaves tree) of
             Some path \<Rightarrow> Some (Error ''spec leaf %q missing from leafPaths'' [path])
           | None \<Rightarrow>
               (case find (\<lambda>path. path \<notin> set (leaves tree)) want of
                  Some path \<Rightarrow> Some (Error ''leafPaths entry %q has no command spec'' [path])
                | None \<Rightarrow> None)))"

section \<open>Resolution\<close>

text \<open>The loops of \<^verbatim>\<open>resolveCommand\<close> over the tree keep the first command with the longest path.\<close>

definition keep_longest :: "(commandSpec \<Rightarrow> bool) \<Rightarrow> commandSpec \<Rightarrow> commandSpec option \<Rightarrow> commandSpec option" where
  "keep_longest P s best =
     (if P s \<and> (case best of None \<Rightarrow> True | Some t \<Rightarrow> length (cs_path t) < length (cs_path s)) then Some s else best)"

definition longest :: "(commandSpec \<Rightarrow> bool) \<Rightarrow> commandSpec list \<Rightarrow> commandSpec option" where
  "longest P tree = fold (keep_longest P) tree None"

text \<open>The end of most messages of the command line, \<^verbatim>\<open>; see '%s --help'\<close>.\<close>

definition see_help :: string where
  "see_help = ''; see '' @ [CHR 0x27] @ ''%s --help'' @ [CHR 0x27]"

definition misplaced_flag :: "commandSpec \<Rightarrow> string \<Rightarrow> goerror" where
  "misplaced_flag s arg = Error (''invalid_input: %s: flag %s before subcommand'' @ see_help) [cs_id s, arg, cs_id s]"

definition is_help :: "string \<Rightarrow> bool" where
  "is_help arg \<longleftrightarrow> arg = ''-h'' \<or> arg = ''--help''"

fun walk :: "commandSpec list \<Rightarrow> string \<Rightarrow> commandSpec \<Rightarrow> string list \<Rightarrow> (commandSpec \<times> string list) result" where
  "walk tree base matched [] = Inr (matched, [])"
| "walk tree base matched (arg # args) =
     (if HasPrefix arg ''-''
      then if is_help arg then Inr (matched, arg # args)
           else if isGroup matched then Inl (misplaced_flag matched arg)
           else Inr (matched, arg # args)
      else case longest (\<lambda>s. cs_path s ! 0 = base \<and> length (cs_path s) > length (cs_path matched)
                               \<and> cs_path s ! length (cs_path matched) = arg) tree of
             None \<Rightarrow> Inr (matched, arg # args)
           | Some s \<Rightarrow> walk tree base s args)"

definition unknown_command :: "string \<Rightarrow> goerror" where
  "unknown_command base = Error ''invalid_input: unknown command %q; run `tubo help`'' [base]"

fun resolveCommand :: "commandSpec list \<Rightarrow> string list \<Rightarrow> (commandSpec \<times> string list) result" where
  "resolveCommand tree [] = Inl (Error ''missing command; run `tubo help`'' [])"
| "resolveCommand tree (base # args) =
     (if HasPrefix base ''-'' then Inl (unknown_command base)
      else case (case specFor tree base of
                   Some s \<Rightarrow> Some s
                 | None \<Rightarrow> longest (\<lambda>s. cs_path s ! 0 = base) tree) of
             None \<Rightarrow> Inl (unknown_command base)
           | Some s \<Rightarrow> walk tree base s args)"

definition hasHelpFlag :: "string list \<Rightarrow> bool" where
  "hasHelpFlag args = list_ex is_help args"

section \<open>Facts on the linked tree\<close>

definition parent :: "string list list \<Rightarrow> nat \<Rightarrow> nat option" where
  "parent ps j = last_such (\<lambda>p. joinPath p = (if length (ps ! j) > 1 then joinPath (take (length (ps ! j) - 1) (ps ! j)) else [])) ps"

lemma last_such_map: "last_such P (map f xs) = last_such (P \<circ> f) xs"
  by (induction xs) (auto split: option.splits)

lemma last_such_lt: "last_such P xs = Some i \<Longrightarrow> i < length xs \<and> P (xs ! i)"
  by (induction xs arbitrary: i) (auto split: option.splits if_splits)

lemma last_such_None: "last_such P xs = None \<longleftrightarrow> (\<forall>x \<in> set xs. \<not> P x)"
  by (induction xs) (auto split: option.splits)

lemma link_parent:
  assumes "j < length tree"
  shows "link j tree = (case parent (map cs_path tree) j of
           Some i \<Rightarrow> tree[i := (tree ! i)\<lparr>cs_children := cs_children (tree ! i) @ [j]\<rparr>] | None \<Rightarrow> tree)"
  using assms by (simp add: link_def parent_def last_such_map comp_def cs_id_def Let_def)

lemma parent_lt: "parent ps j = Some i \<Longrightarrow> i < length ps"
  by (simp add: parent_def last_such_lt)

lemma link_paths [simp]: "j < length tree \<Longrightarrow> map cs_path (link j tree) = map cs_path tree"
  by (auto simp: link_parent map_update list_update_same_conv split: option.splits dest!: parent_lt)

lemma link_length [simp]: "length (link j tree) = length tree"
  by (simp add: link_def Let_def split: option.splits)

lemma link_nth:
  "j < length tree \<Longrightarrow> i < length tree \<Longrightarrow> link j tree ! i =
     (tree ! i)\<lparr>cs_children := cs_children (tree ! i) @ filter (\<lambda>j. parent (map cs_path tree) j = Some i) [j]\<rparr>"
  by (auto simp: link_parent nth_list_update split: option.splits)

lemma fold_link:
  assumes "\<forall>j \<in> set js. j < length tree" "i < length tree"
  shows "fold link js tree ! i =
      (tree ! i)\<lparr>cs_children := cs_children (tree ! i) @ filter (\<lambda>j. parent (map cs_path tree) j = Some i) js\<rparr>
    \<and> length (fold link js tree) = length tree"
  using assms
proof (induction js arbitrary: tree)
  case (Cons j js)
  then show ?case using Cons.IH [of "link j tree"] by (simp add: link_nth)
qed simp

lemma buildGroups_nth:
  assumes "i < length tree"
  shows "buildGroups tree ! i = (tree ! i)\<lparr>cs_children := cs_children (tree ! i)
      @ filter (\<lambda>j. parent (map cs_path tree) j = Some i) [0 ..< length tree]\<rparr>"
  unfolding buildGroups_def using fold_link [of "[0 ..< length tree]" tree i] assms by simp

lemma buildGroups_length: "length (buildGroups tree) = length tree"
proof -
  have "length (fold link js tree) = length tree" for js by (induction js arbitrary: tree) simp_all
  then show ?thesis by (simp add: buildGroups_def)
qed

section \<open>Trees of commands\<close>

text \<open>What resolution relies on: paths of one or two plain words, one command per path, a group for the first word of every path
  of two, and commands with subcommands being exactly the groups.\<close>

definition plain_word :: "string \<Rightarrow> bool" where
  "plain_word w \<longleftrightarrow> w \<noteq> [] \<and> hd w \<noteq> CHR ''-'' \<and> CHR '' '' \<notin> set w"

locale command_tree =
  fixes tree :: "commandSpec list"
  assumes shaped: "s \<in> set tree \<Longrightarrow> (\<exists>a. cs_path s = [a] \<and> plain_word a) \<or> (\<exists>a b. cs_path s = [a, b] \<and> plain_word a \<and> plain_word b)"
    and unique: "s \<in> set tree \<Longrightarrow> t \<in> set tree \<Longrightarrow> cs_path s = cs_path t \<Longrightarrow> s = t"
    and parents: "s \<in> set tree \<Longrightarrow> cs_path s = [a, b] \<Longrightarrow> \<exists>g \<in> set tree. cs_path g = [a]"
    and groups: "s \<in> set tree \<Longrightarrow> isGroup s \<longleftrightarrow> (\<exists>a b. cs_path s = [a] \<and> [a, b] \<in> cs_path ` set tree)"
begin

lemma find_only:
  assumes "\<And>t. t \<in> set xs \<Longrightarrow> P t \<Longrightarrow> t = s" "s \<in> set xs" "P s"
  shows "find P xs = Some s"
proof (cases "find P xs")
  case None with assms(2,3) show ?thesis by (simp add: find_None_iff)
next
  case (Some t)
  then have "t \<in> set xs" "P t" by (auto simp: find_Some_iff)
  with assms(1) Some show ?thesis by blast
qed

lemma longest_unique:
  assumes "\<And>t. t \<in> set tree \<Longrightarrow> P t \<Longrightarrow> t = s" "s \<in> set tree" "P s"
  shows "longest P tree = Some s"
proof -
  have "fold (keep_longest P) xs best = (if best = Some s \<or> s \<in> set xs then Some s else None)"
    if "set xs \<subseteq> set tree" "best = Some s \<or> best = None" for xs best
    using that
  proof (induction xs arbitrary: best)
    case Nil then show ?case by auto
  next
    case (Cons x xs)
    have "keep_longest P x best = (if best = Some s \<or> x = s then Some s else None)"
      using Cons.prems assms(1) [of x] assms(3) by (cases "P x") (auto simp: keep_longest_def)
    with Cons show ?case by simp
  qed
  from this [of tree None] show ?thesis using assms(2) by (simp add: longest_def)
qed

lemma longest_none:
  assumes "\<And>t. t \<in> set tree \<Longrightarrow> \<not> P t"
  shows "longest P tree = None"
proof -
  have "fold (keep_longest P) xs None = None" if "set xs \<subseteq> set tree" for xs
    using that by (induction xs) (simp_all add: keep_longest_def assms)
  then show ?thesis by (simp add: longest_def)
qed

lemma specFor_word:
  assumes "s \<in> set tree" "cs_path s = [a]"
  shows "specFor tree a = Some s"
proof -
  have "find (\<lambda>s. cs_id s = a) tree = Some s"
  proof (rule find_only)
    fix t assume t: "t \<in> set tree" "cs_id t = a"
    have sp: "CHR '' '' \<notin> set a" using shaped [OF assms(1)] assms(2) by (auto simp: plain_word_def)
    from shaped [OF t(1)] consider b where "cs_path t = [b]" | b c where "cs_path t = [b, c]" by blast
    then have "cs_path t = [a]" using t(2) sp by cases (auto simp: cs_id_def joinPath_def)
    with unique [OF t(1) assms(1)] assms(2) show "t = s" by simp
  qed (simp_all add: assms cs_id_def joinPath_def)
  then show ?thesis by (simp add: specFor_def)
qed

lemma walk_leaf:
  assumes "s \<in> set tree" "\<not> isGroup s" "cs_path s = base # p"
  shows "walk tree base s args = Inr (s, args)"
proof (cases args)
  case (Cons arg args')
  have "longest (\<lambda>t. cs_path t ! 0 = base \<and> length (cs_path t) > length (cs_path s) \<and> cs_path t ! length (cs_path s) = arg) tree = None"
  proof (intro longest_none notI)
    fix t assume t: "t \<in> set tree" "cs_path t ! 0 = base \<and> length (cs_path t) > length (cs_path s) \<and> cs_path t ! length (cs_path s) = arg"
    with shaped [OF t(1)] assms(3) obtain b where "cs_path s = [base]" "cs_path t = [base, b]" by auto
    with groups [OF assms(1)] assms(2) t(1) show False by (metis image_eqI)
  qed
  with Cons assms(2) show ?thesis by simp
qed simp

lemma resolve_leaf:
  assumes s: "s \<in> set tree" "\<not> isGroup s"
  shows "resolveCommand tree (cs_path s @ args) = Inr (s, args)"
proof -
  consider a where "cs_path s = [a]" "plain_word a" | a b where "cs_path s = [a, b]" "plain_word a" "plain_word b"
    using shaped [OF s(1)] by blast
  then show ?thesis
  proof cases
    case 1
    with specFor_word [OF s(1) 1(1)] walk_leaf [OF s, of a "[]"] show ?thesis
      by (cases a) (simp_all add: plain_word_def HasPrefix_def)
  next
    case 2
    from parents [OF s(1) 2(1)] obtain g where g: "g \<in> set tree" "cs_path g = [a]" by blast
    have "longest (\<lambda>t. cs_path t ! 0 = a \<and> length (cs_path t) > length (cs_path g) \<and> cs_path t ! length (cs_path g) = b) tree = Some s"
    proof (rule longest_unique)
      fix t assume t: "t \<in> set tree" "cs_path t ! 0 = a \<and> length (cs_path t) > length (cs_path g) \<and> cs_path t ! length (cs_path g) = b"
      from shaped [OF t(1)] consider c where "cs_path t = [c]" | c d where "cs_path t = [c, d]" by blast
      then have "cs_path t = [a, b]" using t(2) g(2) by cases auto
      with unique [OF t(1) s(1)] 2(1) show "t = s" by simp
    qed (use s g 2 in auto)
    with specFor_word [OF g] walk_leaf [OF s, of a "[b]"] 2 show ?thesis
      by (cases a; cases b) (simp_all add: plain_word_def HasPrefix_def)
  qed
qed

end

definition paths_ok :: "string list list \<Rightarrow> bool" where
  "paths_ok ps \<longleftrightarrow>
     list_all (\<lambda>p. case p of [a] \<Rightarrow> plain_word a | [a, b] \<Rightarrow> plain_word a \<and> plain_word b \<and> [a] \<in> set ps | _ \<Rightarrow> False) ps \<and> distinct ps"

lemma paths_okD:
  assumes "paths_ok ps" "p \<in> set ps"
  shows "(\<exists>a. p = [a] \<and> plain_word a) \<or> (\<exists>a b. p = [a, b] \<and> plain_word a \<and> plain_word b \<and> [a] \<in> set ps)"
proof -
  have "case p of [a] \<Rightarrow> plain_word a | [a, b] \<Rightarrow> plain_word a \<and> plain_word b \<and> [a] \<in> set ps | _ \<Rightarrow> False"
    using assms unfolding paths_ok_def list_all_iff by blast
  then show ?thesis by (auto split: list.splits)
qed

lemma parent_iff:
  assumes "paths_ok ps" "i < length ps" "j < length ps"
  shows "parent ps j = Some i \<longleftrightarrow> (\<exists>a b. ps ! j = [a, b] \<and> ps ! i = [a])"
proof -
  have word: "p = [a]" if "joinPath p = a" "p \<in> set ps" "plain_word a" for p a
    using paths_okD [OF assms(1) that(2)] that(1,3) by (auto simp: joinPath_def plain_word_def)
  have one: "joinPath p \<noteq> []" if "p \<in> set ps" for p
    using paths_okD [OF assms(1) that] by (auto simp: joinPath_def plain_word_def)
  consider a where "ps ! j = [a]" | a b where "ps ! j = [a, b]" "plain_word a" "[a] \<in> set ps"
    using paths_okD [OF assms(1) nth_mem [OF assms(3)]] by blast
  then show ?thesis
  proof cases
    case 1
    then have "parent ps j = last_such (\<lambda>p. joinPath p = []) ps" by (simp add: parent_def)
    moreover have "\<dots> = None" using one by (simp add: last_such_None)
    ultimately show ?thesis using 1 by simp
  next
    case 2
    then have "parent ps j = last_such (\<lambda>p. joinPath p = a) ps" by (simp add: parent_def joinPath_def)
    moreover have "last_such (\<lambda>p. joinPath p = a) ps \<noteq> None" using 2(3) by (auto simp: last_such_None joinPath_def intro!: bexI [of _ "[a]"])
    ultimately obtain k where k: "parent ps j = Some k" "last_such (\<lambda>p. joinPath p = a) ps = Some k" by auto
    from last_such_lt [OF k(2)] have lt: "k < length ps" "joinPath (ps ! k) = a" by simp_all
    then have "ps ! k = [a]" using word 2(2) nth_mem by blast
    moreover have "distinct ps" using assms(1) by (simp add: paths_ok_def)
    ultimately have "ps ! i = [a] \<longleftrightarrow> i = k" using lt(1) assms(2) nth_eq_iff_index_eq by metis
    then show ?thesis using k(1) 2(1) by auto
  qed
qed

lemma buildGroups_tree:
  assumes ok: "paths_ok (map cs_path t)" and "\<forall>s \<in> set t. cs_children s = []"
  shows "command_tree (buildGroups t)"
proof -
  let ?u = "buildGroups t" and ?ps = "map cs_path t"
  have len: "length ?u = length t" by (rule buildGroups_length)
  have nth: "?u ! i = (t ! i)\<lparr>cs_children := filter (\<lambda>j. parent ?ps j = Some i) [0 ..< length t]\<rparr>" if "i < length t" for i
    using buildGroups_nth [OF that] assms(2) that by simp
  have paths: "map cs_path ?u = ?ps" by (rule nth_equalityI) (simp_all add: len nth)
  then have img: "cs_path ` set ?u = set ?ps" by (metis set_map)
  have grp: "isGroup (?u ! i) \<longleftrightarrow> (\<exists>a b. cs_path (?u ! i) = [a] \<and> [a, b] \<in> set ?ps)" if "i < length t" for i
  proof -
    have "isGroup (?u ! i) \<longleftrightarrow> (\<exists>j < length t. parent ?ps j = Some i)" using that by (auto simp: isGroup_def nth filter_empty_conv)
    also have "\<dots> \<longleftrightarrow> (\<exists>j < length t. \<exists>a b. ?ps ! j = [a, b] \<and> ?ps ! i = [a])" using parent_iff [OF ok] that by auto
    also have "\<dots> \<longleftrightarrow> (\<exists>a b. ?ps ! i = [a] \<and> [a, b] \<in> set ?ps)" unfolding in_set_conv_nth length_map by blast
    also have "?ps ! i = cs_path (?u ! i)" using that by (simp add: nth)
    finally show ?thesis .
  qed
  show ?thesis
  proof
    fix s assume s: "s \<in> set ?u"
    with img paths_okD [OF ok, of "cs_path s"]
    show "(\<exists>a. cs_path s = [a] \<and> plain_word a) \<or> (\<exists>a b. cs_path s = [a, b] \<and> plain_word a \<and> plain_word b)" by blast
    show "\<exists>g \<in> set ?u. cs_path g = [a]" if "cs_path s = [a, b]" for a b
    proof -
      from s img have "cs_path s \<in> set ?ps" by blast
      with paths_okD [OF ok this] that have "[a] \<in> cs_path ` set ?u" unfolding img by auto
      then show ?thesis by auto
    qed
    show "isGroup s \<longleftrightarrow> (\<exists>a b. cs_path s = [a] \<and> [a, b] \<in> cs_path ` set ?u)"
    proof -
      from s len obtain i where "i < length t" "s = ?u ! i" by (metis in_set_conv_nth)
      with grp show ?thesis unfolding img by blast
    qed
    show "s = t'" if "t' \<in> set ?u" "cs_path s = cs_path t'" for t'
    proof -
      have "distinct (map cs_path ?u)" unfolding paths using ok by (simp add: paths_ok_def)
      then show ?thesis using s that by (auto simp: distinct_map dest: inj_onD)
    qed
  qed
qed

end
