(* ===== verification/Parsing.thy ===== *)
theory Parsing
  imports CommandTree
begin

text \<open>
  The strict parser of the command line (src/internal/cli/parse.go), the global flags (operations.go) and the part of
  \<^verbatim>\<open>App.Run\<close> (app.go) that decides what a command line means before anything is opened or sent.
\<close>

section \<open>Parsing one command\<close>

record flags =
  f_values :: "string \<rightharpoonup> string"
  f_bools :: "string \<rightharpoonup> bool"
  f_args :: "string list"

definition no_flags :: flags where
  "no_flags = \<lparr>f_values = Map.empty, f_bools = Map.empty, f_args = []\<rparr>"

definition flags_required :: "flags \<Rightarrow> string \<Rightarrow> string result" where
  "flags_required f name =
     (case f_values f name of
        Some v \<Rightarrow> if v = [] then Inl (Error ''--%s is required'' [name]) else Inr v
      | None \<Rightarrow> Inl (Error ''--%s is required'' [name]))"

definition flags_bool :: "flags \<Rightarrow> string \<Rightarrow> bool" where
  "flags_bool f name \<longleftrightarrow> f_bools f name = Some True"

definition unknownFlagError :: "commandSpec \<Rightarrow> string \<Rightarrow> goerror" where
  "unknownFlagError s flagToken = Error (''invalid_input: %s: unknown flag %s'' @ see_help) [cs_id s, flagToken, cs_id s]"

definition obsoleteFlagError :: "string \<Rightarrow> string \<Rightarrow> goerror" where
  "obsoleteFlagError flagToken hint = Error ''invalid_input: %s is obsolete; %s'' [flagToken, hint]"

definition duplicateFlagError :: "commandSpec \<Rightarrow> string \<Rightarrow> goerror" where
  "duplicateFlagError s flagToken = Error ''invalid_input: %s: duplicate flag %s'' [cs_id s, flagToken]"

definition missing_value :: "commandSpec \<Rightarrow> string \<Rightarrow> goerror" where
  "missing_value s name = Error (''invalid_input: %s: --%s requires a value'' @ see_help) [cs_id s, name, cs_id s]"

text \<open>\<^verbatim>\<open>positionalError\<close>; the slice of a name list that is shorter than what was given would panic, and is empty here.\<close>

definition positionalError :: "commandSpec \<Rightarrow> string list \<Rightarrow> goerror" where
  "positionalError s got =
     (if int (length got) < cs_minArgs s
      then let missing = (if cs_maxArgs s \<noteq> 0 \<and> length (cs_args s) > 0
                          then Join (drop (length got) (cs_args s)) '' '' else ''argument'')
           in Error (''invalid_input: %s: missing %s'' @ see_help) [cs_id s, missing, cs_id s]
      else Error (''invalid_input: %s: unexpected argument %q'' @ see_help) [cs_id s, got ! nat (cs_maxArgs s), cs_id s])"

fun parseCommandGroup :: "commandSpec \<Rightarrow> string list \<Rightarrow> flags result" where
  "parseCommandGroup s (arg # args) =
     (if HasPrefix arg ''-'' then Inl (misplaced_flag s arg)
      else Inl (Error (''invalid_input: %s: unknown subcommand %q'' @ see_help) [cs_id s, arg, cs_id s]))"
| "parseCommandGroup s [] = Inl (Error (''invalid_input: %s requires a subcommand'' @ see_help) [cs_id s, cs_id s])"

definition enforceRequired :: "commandSpec \<Rightarrow> flags \<Rightarrow> goerror option" where
  "enforceRequired s f =
     (case find (\<lambda>fl. fl_required fl \<and> (case f_values f (fl_name fl) of None \<Rightarrow> True | Some v \<Rightarrow> v = [])) (cs_flags s) of
        Some fl \<Rightarrow> Some (Error (''invalid_input: %s: --%s is required'' @ see_help) [cs_id s, fl_name fl, cs_id s])
      | None \<Rightarrow> None)"

text \<open>The loop of \<^verbatim>\<open>parseCommand\<close>: its state is what was parsed so far and the Boolean flags that were seen.\<close>

type_synonym parsing = "flags \<times> string set"

definition set_value :: "commandSpec \<Rightarrow> string \<Rightarrow> flagSpec \<Rightarrow> string \<Rightarrow> parsing \<Rightarrow> parsing result" where
  "set_value s token fl v st =
     (case st of (f, seen) \<Rightarrow>
        if f_values f (fl_name fl) \<noteq> None then Inl (duplicateFlagError s token)
        else Inr (f\<lparr>f_values := (f_values f)(fl_name fl \<mapsto> v)\<rparr>, seen))"

definition set_bool :: "commandSpec \<Rightarrow> string \<Rightarrow> flagSpec \<Rightarrow> bool \<Rightarrow> parsing \<Rightarrow> parsing result" where
  "set_bool s token fl b st =
     (case st of (f, seen) \<Rightarrow>
        if fl_name fl \<in> seen then Inl (duplicateFlagError s token)
        else Inr (f\<lparr>f_bools := (f_bools f)(fl_name fl \<mapsto> b)\<rparr>, insert (fl_name fl) seen))"

definition bool_of :: "commandSpec \<Rightarrow> flagSpec \<Rightarrow> string \<Rightarrow> bool \<Rightarrow> bool result" where
  "bool_of s fl inline hasInline =
     (if \<not> hasInline then Inr True
      else if inline = ''true'' then Inr True
      else if inline = ''false'' then Inr False
      else Inl (Error (''invalid_input: %s: --%s expects true or false'' @ see_help) [cs_id s, fl_name fl, cs_id s]))"

text \<open>A token starting with two dashes, with the tokens after it: the next state and what is left.\<close>

definition parse_long :: "commandSpec \<Rightarrow> string \<Rightarrow> string list \<Rightarrow> parsing \<Rightarrow> (parsing \<times> string list) result" where
  "parse_long s arg rest st =
     (let body = drop 2 arg in
      if body = [] then Inl (unknownFlagError s arg)
      else case Cut body (CHR ''='') of (name, inline, hasInline) \<Rightarrow>
        if name = [] then Inl (unknownFlagError s arg)
        else case longFlag s name of
          None \<Rightarrow> Inl (unknownFlagError s (''--'' @ name))
        | Some fl \<Rightarrow>
            if fl_obsolete fl \<noteq> [] then Inl (obsoleteFlagError (''--'' @ name) (fl_obsolete fl))
            else if fl_value fl then
              if hasInline then res_bind (set_value s (''--'' @ name) fl inline st) (\<lambda>st'. Inr (st', rest))
              else (case rest of
                      [] \<Rightarrow> Inl (missing_value s (fl_name fl))
                    | v # rest' \<Rightarrow>
                        if HasPrefix v ''-'' then Inl (missing_value s (fl_name fl))
                        else res_bind (set_value s (''--'' @ name) fl v st) (\<lambda>st'. Inr (st', rest')))
            else res_bind (bool_of s fl inline hasInline)
                   (\<lambda>b. res_bind (set_bool s (''--'' @ name) fl b st) (\<lambda>st'. Inr (st', rest))))"

definition parse_short :: "commandSpec \<Rightarrow> string \<Rightarrow> string list \<Rightarrow> parsing \<Rightarrow> (parsing \<times> string list) result" where
  "parse_short s arg rest st =
     (let body = drop 1 arg in
      if length body \<noteq> 1 then Inl (unknownFlagError s arg)
      else case shortFlag s body of
        None \<Rightarrow> Inl (unknownFlagError s arg)
      | Some fl \<Rightarrow>
          if fl_obsolete fl \<noteq> [] then Inl (obsoleteFlagError (''-'' @ body) (fl_obsolete fl))
          else if fl_value fl
          then Inl (Error (''invalid_input: %s: short flag -%s does not take a value; use --%s'' @ see_help)
                     [cs_id s, body, fl_name fl, cs_id s])
          else res_bind (set_bool s (''-'' @ body) fl True st) (\<lambda>st'. Inr (st', rest)))"

definition positional :: "string \<Rightarrow> bool" where
  "positional arg \<longleftrightarrow> \<not> HasPrefix arg ''-'' \<or> arg = ''-''"

definition parse_arg :: "commandSpec \<Rightarrow> string \<Rightarrow> string list \<Rightarrow> parsing \<Rightarrow> (parsing \<times> string list) result" where
  "parse_arg s arg rest st =
     (if positional arg then (case st of (f, seen) \<Rightarrow> Inr ((f\<lparr>f_args := f_args f @ [arg]\<rparr>, seen), rest))
      else if HasPrefix arg ''--'' then parse_long s arg rest st
      else parse_short s arg rest st)"

lemma parse_arg_shorter: "parse_arg s arg rest st = Inr (st', rest') \<Longrightarrow> length rest' \<le> length rest"
  by (auto simp: parse_arg_def parse_long_def parse_short_def Let_def result_simps
      split: if_splits option.splits prod.splits list.splits)

function parse_args :: "commandSpec \<Rightarrow> string list \<Rightarrow> parsing \<Rightarrow> flags result" where
  "parse_args s [] st = Inr (fst st)"
| "parse_args s (arg # rest) st =
     (case parse_arg s arg rest st of Inl e \<Rightarrow> Inl e | Inr (st', rest') \<Rightarrow> parse_args s rest' st')"
  by pat_completeness auto
termination
  by (relation "measure (\<lambda>(s, args, st). length args)") (auto dest: parse_arg_shorter)

definition parseCommand :: "commandSpec \<Rightarrow> string list \<Rightarrow> flags result" where
  "parseCommand s args =
     (if isGroup s then parseCommandGroup s args
      else res_bind (parse_args s args (no_flags, {}))
        (\<lambda>f. check (enforceRequired s f)
          (if int (length (f_args f)) < cs_minArgs s \<or> cs_maxArgs s \<ge> 0 \<and> int (length (f_args f)) > cs_maxArgs s
           then Inl (positionalError s (f_args f)) else Inr f)))"

section \<open>Global flags\<close>

record globals =
  gl_quiet :: bool
  gl_verbosity :: nat
  gl_level :: string

fun global_args :: "string list \<Rightarrow> globals \<Rightarrow> (string list \<times> globals) result" where
  "global_args [] g = Inr ([], g)"
| "global_args (arg # args) g =
     (if arg = ''--quiet'' \<or> arg = ''-q'' then global_args args (g\<lparr>gl_quiet := True\<rparr>)
      else if length arg \<ge> 2 \<and> hd arg = CHR ''-'' \<and> list_all (\<lambda>c. c = CHR ''v'') (tl arg)
      then global_args args (g\<lparr>gl_verbosity := gl_verbosity g + (length arg - 1)\<rparr>)
      else if HasPrefix arg ''--log-level='' then global_args args (g\<lparr>gl_level := drop 12 arg\<rparr>)
      else if arg = ''--log-level''
      then (case args of
              [] \<Rightarrow> Inl (Error ''invalid_input: --log-level requires value'' [])
            | level # args' \<Rightarrow> global_args args' (g\<lparr>gl_level := level\<rparr>))
      else res_bind (global_args args g) (\<lambda>(clean, g'). Inr (arg # clean, g')))"

definition extractGlobalFlags :: "string list \<Rightarrow> (string list \<times> globals) result" where
  "extractGlobalFlags args =
     res_bind (global_args args \<lparr>gl_quiet = False, gl_verbosity = 0, gl_level = []\<rparr>) (\<lambda>(clean, g).
       if gl_level g \<noteq> [] \<and> gl_level g \<notin> set [''error'', ''warn'', ''info'', ''debug'', ''trace'']
       then Inl (Error ''invalid_input: --log-level must be error, warn, info, debug, or trace'' [])
       else Inr (clean, g))"

section \<open>What a command line means\<close>

datatype plan = HelpTop | PrintHelp commandSpec | Execute commandSpec flags

definition run_plan :: "commandSpec list \<Rightarrow> string list \<Rightarrow> plan result" where
  "run_plan tree args =
     (case args of
        [] \<Rightarrow> Inr HelpTop
      | arg # args' \<Rightarrow>
          if arg = ''help'' then
            (if args' = [] then Inr HelpTop
             else res_bind (resolveCommand tree args') (\<lambda>(s, rest).
               if rest \<noteq> [] \<and> \<not> hasHelpFlag rest
               then Inl (Error (''invalid_input: help: unexpected argument %q; see '' @ [CHR 0x27] @ ''tubo %s --help'' @ [CHR 0x27]) [hd rest, cs_id s])
               else Inr (PrintHelp s)))
          else if arg = ''--help'' \<or> arg = ''-h'' then Inr HelpTop
          else res_bind (resolveCommand tree args) (\<lambda>(s, rest).
            if hasHelpFlag rest then Inr (PrintHelp s)
            else res_bind (parseCommand s rest) (\<lambda>f. Inr (Execute s f))))"

definition app_Run :: "commandSpec list \<Rightarrow> string list \<Rightarrow> (globals \<times> plan) result" where
  "app_Run tree args =
     res_bind (extractGlobalFlags args) (\<lambda>(clean, g). res_bind (run_plan tree clean) (\<lambda>p. Inr (g, p)))"

section \<open>Well-typed flags\<close>

definition declares :: "commandSpec \<Rightarrow> bool \<Rightarrow> string \<Rightarrow> bool" where
  "declares s v n \<longleftrightarrow> list_ex (\<lambda>fl. fl_name fl = n \<and> fl_value fl = v \<and> fl_obsolete fl = []) (cs_flags s)"

definition well_typed :: "commandSpec \<Rightarrow> flags \<Rightarrow> bool" where
  "well_typed s f \<longleftrightarrow>
     (\<forall>n \<in> dom (f_values f). declares s True n) \<and> (\<forall>n \<in> dom (f_bools f). declares s False n)
     \<and> (\<forall>fl \<in> set (cs_flags s). fl_required fl \<longrightarrow> (\<exists>v. f_values f (fl_name fl) = Some v \<and> v \<noteq> []))
     \<and> list_all positional (f_args f)
     \<and> cs_minArgs s \<le> int (length (f_args f)) \<and> (cs_maxArgs s \<ge> 0 \<longrightarrow> int (length (f_args f)) \<le> cs_maxArgs s)"

definition typed_so_far :: "commandSpec \<Rightarrow> flags \<Rightarrow> bool" where
  "typed_so_far s f \<longleftrightarrow>
     (\<forall>n \<in> dom (f_values f). declares s True n) \<and> (\<forall>n \<in> dom (f_bools f). declares s False n) \<and> list_all positional (f_args f)"

lemma longFlag_declares: "longFlag s n = Some fl \<Longrightarrow> fl_obsolete fl = [] \<Longrightarrow> declares s (fl_value fl) (fl_name fl)"
  by (auto simp: longFlag_def declares_def list_ex_iff find_Some_iff)

lemma shortFlag_declares: "shortFlag s n = Some fl \<Longrightarrow> fl_obsolete fl = [] \<Longrightarrow> declares s (fl_value fl) (fl_name fl)"
  by (auto simp: shortFlag_def declares_def list_ex_iff find_Some_iff)

lemma set_value_typed:
  "set_value s token fl v st = Inr st' \<Longrightarrow> typed_so_far s (fst st) \<Longrightarrow> declares s True (fl_name fl) \<Longrightarrow> typed_so_far s (fst st')"
  by (auto simp: set_value_def typed_so_far_def split: prod.splits if_splits)

lemma set_bool_typed:
  "set_bool s token fl b st = Inr st' \<Longrightarrow> typed_so_far s (fst st) \<Longrightarrow> declares s False (fl_name fl) \<Longrightarrow> typed_so_far s (fst st')"
  by (auto simp: set_bool_def typed_so_far_def split: prod.splits if_splits)

lemma parse_long_typed:
  assumes "parse_long s arg rest st = Inr (st', rest')" "typed_so_far s (fst st)"
  shows "typed_so_far s (fst st')"
proof -
  obtain name inline hasInline where c: "Cut (drop 2 arg) (CHR ''='') = (name, inline, hasInline)" by (metis prod_cases3)
  from assms(1) c obtain fl where fl: "longFlag s name = Some fl" "fl_obsolete fl = []"
    by (auto simp: parse_long_def Let_def split: if_splits option.splits)
  note d = longFlag_declares [OF fl]
  show ?thesis
  proof (cases "fl_value fl")
    case True
    then obtain v where "set_value s (''--'' @ name) fl v st = Inr st'"
      using assms(1) c fl by (auto simp: parse_long_def Let_def result_simps split: if_splits list.splits)
    from set_value_typed [OF this assms(2)] d True show ?thesis by simp
  next
    case False
    then obtain b where "set_bool s (''--'' @ name) fl b st = Inr st'"
      using assms(1) c fl by (auto simp: parse_long_def Let_def result_simps split: if_splits)
    from set_bool_typed [OF this assms(2)] d False show ?thesis by simp
  qed
qed

lemma parse_short_typed:
  assumes "parse_short s arg rest st = Inr (st', rest')" "typed_so_far s (fst st)"
  shows "typed_so_far s (fst st')"
proof -
  from assms(1) obtain fl where fl: "shortFlag s (drop 1 arg) = Some fl" "fl_obsolete fl = []" "\<not> fl_value fl"
    "set_bool s (''-'' @ drop 1 arg) fl True st = Inr st'"
    by (auto simp: parse_short_def Let_def result_simps split: if_splits option.splits)
  with shortFlag_declares [OF fl(1,2)] set_bool_typed [OF fl(4) assms(2)] show ?thesis by simp
qed

lemma parse_arg_typed:
  assumes "parse_arg s arg rest st = Inr (st', rest')" "typed_so_far s (fst st)"
  shows "typed_so_far s (fst st')"
proof (cases "positional arg")
  case True
  with assms show ?thesis by (auto simp: parse_arg_def typed_so_far_def split: prod.splits)
next
  case False
  with assms parse_long_typed parse_short_typed show ?thesis by (simp add: parse_arg_def split: if_splits)
qed

lemma parse_args_typed: "parse_args s args st = Inr f \<Longrightarrow> typed_so_far s (fst st) \<Longrightarrow> typed_so_far s f"
  by (induction s args st rule: parse_args.induct) (auto dest: parse_arg_typed split: sum.splits prod.splits)

lemma parseCommand_typed:
  assumes "parseCommand s args = Inr f"
  shows "\<not> isGroup s \<and> well_typed s f"
proof -
  have "\<not> isGroup s" using assms by (cases args) (auto simp: parseCommand_def split: if_splits)
  with assms have f: "parse_args s args (no_flags, {}) = Inr f" "enforceRequired s f = None"
    "cs_minArgs s \<le> int (length (f_args f))" "cs_maxArgs s \<ge> 0 \<longrightarrow> int (length (f_args f)) \<le> cs_maxArgs s"
    by (auto simp: parseCommand_def result_simps)
  have "typed_so_far s f" using parse_args_typed [OF f(1)] by (simp add: typed_so_far_def no_flags_def)
  moreover have "\<exists>v. f_values f (fl_name fl) = Some v \<and> v \<noteq> []" if "fl \<in> set (cs_flags s)" "fl_required fl" for fl
    using f(2) that by (auto simp: enforceRequired_def find_None_iff split: option.splits)
  ultimately show ?thesis using f(3,4) \<open>\<not> isGroup s\<close> by (simp add: well_typed_def typed_so_far_def)
qed

section \<open>Writing well-typed flags\<close>

text \<open>A command line for parsed flags: every flag with its value after an equals sign, then the arguments.\<close>

definition flag_words :: "flags \<Rightarrow> flagSpec \<Rightarrow> string list" where
  "flag_words f fl =
     (case if fl_value fl then f_values f (fl_name fl)
           else map_option (\<lambda>b. if b then ''true'' else ''false'') (f_bools f (fl_name fl)) of
        None \<Rightarrow> []
      | Some v \<Rightarrow> [''--'' @ fl_name fl @ ''='' @ v])"

definition command_words :: "commandSpec \<Rightarrow> flags \<Rightarrow> string list" where
  "command_words s f = concat (map (flag_words f) (filter (\<lambda>fl. fl_obsolete fl = []) (cs_flags s))) @ f_args f"

definition flag_name_ok :: "string \<Rightarrow> bool" where
  "flag_name_ok n \<longleftrightarrow> n \<noteq> [] \<and> CHR ''='' \<notin> set n \<and> n \<noteq> ''log-level''"

definition flags_ok :: "commandSpec \<Rightarrow> bool" where
  "flags_ok s \<longleftrightarrow> distinct (map fl_name (cs_flags s)) \<and> list_all (\<lambda>fl. flag_name_ok (fl_name fl)) (cs_flags s)"

lemma Cut_inline: "CHR ''='' \<notin> set n \<Longrightarrow> Cut (n @ CHR ''='' # v) (CHR ''='') = (n, v, True)"
  by (induction n) auto

lemma longFlag_of:
  assumes "flags_ok s" "fl \<in> set (cs_flags s)"
  shows "longFlag s (fl_name fl) = Some fl"
proof -
  have "find (\<lambda>g. fl_name g = n) fls = Some fl" if "distinct (map fl_name fls)" "fl \<in> set fls" "fl_name fl = n" for fls n
    using that by (induction fls) auto
  with assms show ?thesis by (simp add: longFlag_def flags_ok_def)
qed

lemma declares_of:
  assumes "flags_ok s" "fl \<in> set (cs_flags s)" "declares s v (fl_name fl)"
  shows "fl_value fl = v" "fl_obsolete fl = []"
proof -
  from assms(3) obtain g where g: "g \<in> set (cs_flags s)" "fl_name g = fl_name fl" "fl_value g = v" "fl_obsolete g = []"
    by (auto simp: declares_def list_ex_iff)
  from longFlag_of [OF assms(1) g(1)] have "longFlag s (fl_name fl) = Some g" unfolding g(2) .
  with longFlag_of [OF assms(1,2)] have "g = fl" by simp
  with g show "fl_value fl = v" "fl_obsolete fl = []" by simp_all
qed

text \<open>The state of the parser when it has read the flags named in \<open>N\<close>.\<close>

definition read_of :: "flags \<Rightarrow> string set \<Rightarrow> parsing" where
  "read_of f N =
     (\<lparr>f_values = (\<lambda>n. if n \<in> N then f_values f n else None), f_bools = (\<lambda>n. if n \<in> N then f_bools f n else None), f_args = []\<rparr>,
      {n \<in> N. f_bools f n \<noteq> None})"

lemma parse_inline:
  assumes ok: "flags_ok s" and fl: "fl \<in> set (cs_flags s)" "fl_obsolete fl = []"
  shows "parse_arg s (''--'' @ fl_name fl @ ''='' @ v) rest st =
    (if fl_value fl then res_bind (set_value s (''--'' @ fl_name fl) fl v st) (\<lambda>st'. Inr (st', rest))
     else res_bind (bool_of s fl v True) (\<lambda>b. res_bind (set_bool s (''--'' @ fl_name fl) fl b st) (\<lambda>st'. Inr (st', rest))))"
proof -
  have n: "fl_name fl \<noteq> []" "CHR ''='' \<notin> set (fl_name fl)"
    using ok fl(1) by (auto simp: flags_ok_def flag_name_ok_def list_all_iff)
  show ?thesis
    using n fl(2) longFlag_of [OF ok fl(1)] Cut_inline [OF n(2), of v]
    by (simp add: parse_arg_def positional_def HasPrefix_def parse_long_def Let_def)
qed

lemma parse_flag:
  assumes ok: "flags_ok s" and t: "typed_so_far s f" and fl: "fl \<in> set (cs_flags s)" "fl_obsolete fl = []" "fl_name fl \<notin> N"
  shows "parse_args s (flag_words f fl @ rest) (read_of f N) = parse_args s rest (read_of f (insert (fl_name fl) N))"
proof (cases "fl_value fl")
  case True
  have b: "f_bools f (fl_name fl) = None" using t declares_of(1) [OF ok fl(1)] True by (force simp: typed_so_far_def)
  show ?thesis
  proof (cases "f_values f (fl_name fl)")
    case None
    then have "read_of f (insert (fl_name fl) N) = read_of f N" using b by (auto simp: read_of_def fun_eq_iff)
    then show ?thesis using None True by (simp add: flag_words_def)
  next
    case (Some v)
    have "set_value s (''--'' @ fl_name fl) fl v (read_of f N) = Inr (read_of f (insert (fl_name fl) N))"
      using fl(3) Some b by (auto simp: set_value_def read_of_def fun_eq_iff)
    then show ?thesis using True Some parse_inline [OF ok fl(1,2), of v rest "read_of f N"] by (simp add: flag_words_def)
  qed
next
  case False
  have b: "f_values f (fl_name fl) = None" using t declares_of(1) [OF ok fl(1)] False by (force simp: typed_so_far_def)
  show ?thesis
  proof (cases "f_bools f (fl_name fl)")
    case None
    then have "read_of f (insert (fl_name fl) N) = read_of f N" using b by (auto simp: read_of_def fun_eq_iff)
    then show ?thesis using None False by (simp add: flag_words_def)
  next
    case (Some v)
    have "set_bool s (''--'' @ fl_name fl) fl v (read_of f N) = Inr (read_of f (insert (fl_name fl) N))"
      using fl(3) Some b by (auto simp: set_bool_def read_of_def fun_eq_iff)
    moreover have "bool_of s fl (if v then ''true'' else ''false'') True = Inr v" by (simp add: bool_of_def)
    ultimately show ?thesis
      using False Some parse_inline [OF ok fl(1,2), of "if v then ''true'' else ''false''" rest "read_of f N"] by (simp add: flag_words_def)
  qed
qed

lemma parse_flags:
  assumes "flags_ok s" "typed_so_far s f" "set fls \<subseteq> {fl \<in> set (cs_flags s). fl_obsolete fl = []}"
    "distinct (map fl_name fls)" "N \<inter> fl_name ` set fls = {}"
  shows "parse_args s (concat (map (flag_words f) fls) @ rest) (read_of f N) = parse_args s rest (read_of f (N \<union> fl_name ` set fls))"
  using assms(3-5)
proof (induction fls arbitrary: N)
  case (Cons fl fls)
  then have "parse_args s (concat (map (flag_words f) fls) @ rest) (read_of f (insert (fl_name fl) N))
      = parse_args s rest (read_of f (insert (fl_name fl) N \<union> fl_name ` set fls))"
    by (intro Cons.IH) auto
  moreover have "parse_args s (flag_words f fl @ concat (map (flag_words f) fls) @ rest) (read_of f N)
      = parse_args s (concat (map (flag_words f) fls) @ rest) (read_of f (insert (fl_name fl) N))"
    using Cons.prems by (intro parse_flag [OF assms(1,2)]) auto
  ultimately show ?case by simp
qed simp

lemma parse_positional:
  "list_all positional args \<Longrightarrow> parse_args s args (f, seen) = Inr (f\<lparr>f_args := f_args f @ args\<rparr>)"
  by (induction args arbitrary: f) (simp_all add: parse_arg_def)

lemma parse_command_words:
  assumes ok: "flags_ok s" and "well_typed s f" "\<not> isGroup s"
  shows "parseCommand s (command_words s f) = Inr f"
proof -
  let ?fls = "filter (\<lambda>fl. fl_obsolete fl = []) (cs_flags s)" and ?N = "fl_name ` {fl \<in> set (cs_flags s). fl_obsolete fl = []}"
  have t: "typed_so_far s f" and pos: "list_all positional (f_args f)" using assms(2) by (simp_all add: well_typed_def typed_so_far_def)
  have "distinct (map fl_name ?fls)" using ok by (simp add: flags_ok_def distinct_map_filter)
  then have "parse_args s (command_words s f) (read_of f {}) = parse_args s (f_args f) (read_of f ?N)"
    unfolding command_words_def by (subst parse_flags [OF ok t]) auto
  moreover have "f_values f n = None \<and> f_bools f n = None" if "n \<notin> ?N" for n
    using t that by (auto simp: typed_so_far_def declares_def list_ex_iff dom_def image_iff)
  then have "read_of f ?N = (f\<lparr>f_args := []\<rparr>, {n \<in> ?N. f_bools f n \<noteq> None})" by (auto simp: read_of_def fun_eq_iff)
  moreover have "read_of f {} = (no_flags, {})" by (simp add: read_of_def no_flags_def)
  ultimately have "parse_args s (command_words s f) (no_flags, {}) = Inr f" using parse_positional [OF pos] by simp
  moreover have "enforceRequired s f = None"
    using assms(2) by (auto simp: enforceRequired_def well_typed_def find_None_iff split: option.splits)
  ultimately show ?thesis using assms(2,3) by (auto simp: parseCommand_def well_typed_def)
qed

end
