(* ===== verification/Runs.thy ===== *)
theory Runs
  imports LocalState Parsing GoPath
begin

text \<open>
  The commands that start, stop and remove what runs (src/internal/cli/app.go, operations.go, supervisor.go), over the registry
  of runs. The operating system is a parameter: \<open>os_identity\<close> is what \<^verbatim>\<open>store.ProcessIdentity\<close> says when a command first
  looks, \<open>os_again\<close> what it says when \<^verbatim>\<open>stopRunAndWait\<close> looks again; the signals sent, the children started and killed and
  the files removed are recorded in the machine. A signal is sent at the moment of the look before it: that the process
  could end in between is not modelled. What a command prints, and the hint some errors carry for the terminal, are left out.
\<close>

record Machine =
  mc_local :: LocalState
  mc_signals :: "int list"
  mc_removed :: "string list"
  mc_started :: "int list"
  mc_killed :: "int list"

record Os =
  os_identity :: "int \<Rightarrow> string result"
  os_again :: "int \<Rightarrow> string result"
  os_signal :: "int \<Rightarrow> goerror option"
  os_remove :: "string \<Rightarrow> goerror option"
  os_source :: string
  os_now :: gotime
  os_polls :: "((int \<Rightarrow> string result) \<times> goerror option) list"
  os_home :: string
  os_Executable :: "string result"
  os_OpenFile :: "string \<Rightarrow> goerror option"
  os_Start :: "string list \<Rightarrow> int result"
  os_rounds :: "(LocalState \<Rightarrow> LocalState) list"

text \<open>\<open>os_polls\<close> are the rounds of the loop of 15 seconds that waits for a process to end: what the process listing says, and
  the error of the context. \<open>os_rounds\<close> are those of the loop that waits for a child to be ready: what the child and other
  processes did to the registry before the round.\<close>

definition see_tubo :: "string \<Rightarrow> string" where
  "see_tubo command = ''; see '' @ [CHR 0x27] @ ''tubo '' @ command @ '' --help'' @ [CHR 0x27]"

definition on_local :: "(LocalState \<Rightarrow> 'a result \<times> LocalState) \<Rightarrow> Machine \<Rightarrow> 'a result \<times> Machine" where
  "on_local f m = (case f (mc_local m) of (r, s) \<Rightarrow> (r, m\<lparr>mc_local := s\<rparr>))"

definition matches :: "(int \<Rightarrow> string result) \<Rightarrow> Run \<Rightarrow> bool" where
  "matches identity run \<longleftrightarrow> identity (run_PID run) = Inr (run_ProcessIdentity run)"

definition runProcessLive :: "(int \<Rightarrow> string result) \<Rightarrow> Run \<Rightarrow> bool" where
  "runProcessLive identity run \<longleftrightarrow> run_ProcessIdentity run \<noteq> [] \<and> matches identity run"

definition supervisorRunHealthy :: "(int \<Rightarrow> string result) \<Rightarrow> Run \<Rightarrow> string \<Rightarrow> bool" where
  "supervisorRunHealthy identity run source \<longleftrightarrow>
     runProcessLive identity run \<and> run_Source run = source \<and> (run_Status run = ''ready'' \<or> run_Status run = ''degraded'')"

definition supervisorAllowsCurrentSource :: "Os \<Rightarrow> LocalState \<Rightarrow> string \<Rightarrow> goerror option" where
  "supervisorAllowsCurrentSource os s ref =
     (case Supervisor_get s ref of
        Inl e \<Rightarrow> if errors_is e ErrNotFound then None else Some e
      | Inr sv \<Rightarrow>
          if os_source os = sv_Manager sv then None
          else Some (Error ''conflict: %s is %s-supervised; use tubo supervise uninstall %s'' [ref, sv_Manager sv, ref]))"

section \<open>Reserving\<close>

definition already_running :: "string \<Rightarrow> goerror" where
  "already_running ref = Error ''conflict: %s is already running'' [ref]"

definition already_starting :: "string \<Rightarrow> goerror" where
  "already_starting ref = Error ''conflict: %s is already starting'' [ref]"

definition reserveForeground :: "Os \<Rightarrow> string \<Rightarrow> string \<Rightarrow> LocalState \<Rightarrow> unit result \<times> LocalState" where
  "reserveForeground os ref kind s =
     (case supervisorAllowsCurrentSource os s ref of
        Some e \<Rightarrow> (Inl e, s)
      | None \<Rightarrow>
          (case Run_get s ref of
             Inl _ \<Rightarrow> ReserveRun (os_now os) ref kind s
           | Inr existing \<Rightarrow>
               if run_Status existing = ''ready'' \<and> matches (os_identity os) existing then (Inl (already_running ref), s)
               else if run_Status existing = ''starting'' then (Inl (already_starting ref), s)
               else case DeleteRun ref s of
                 (Inl e, s') \<Rightarrow> (Inl e, s')
               | (Inr _, s') \<Rightarrow> ReserveRun (os_now os) ref kind s'))"

definition cleanupStarting :: "string \<Rightarrow> LocalState \<Rightarrow> LocalState" where
  "cleanupStarting ref s =
     (case Run_get s ref of Inr run \<Rightarrow> if run_Status run = ''starting'' then snd (DeleteRun ref s) else s | Inl _ \<Rightarrow> s)"

section \<open>Stopping\<close>

fun wait_gone :: "((int \<Rightarrow> string result) \<times> goerror option) list \<Rightarrow> Run \<Rightarrow> string \<Rightarrow> Machine \<Rightarrow> unit result \<times> Machine" where
  "wait_gone [] run ref m = (Inl (Error ''readiness_failed: process did not stop'' []), m)"
| "wait_gone ((view, ctx) # polls) run ref m =
     (if \<not> matches view run then on_local (DeleteRun ref) m
      else case ctx of Some e \<Rightarrow> (Inl e, m) | None \<Rightarrow> wait_gone polls run ref m)"

text \<open>The checks before a signal, which \<^verbatim>\<open>stop\<close> and \<^verbatim>\<open>stopRunAndWait\<close> share.\<close>

definition signal_run :: "Os \<Rightarrow> (int \<Rightarrow> string result) \<Rightarrow> string \<Rightarrow> Run \<Rightarrow> Machine \<Rightarrow> unit result \<times> Machine" where
  "signal_run os identity ref run m =
     (case identity (run_PID run) of
        Inl _ \<Rightarrow> (Inl (Error ''not_found: process for %s is not running'' [ref]), m)
      | Inr ident \<Rightarrow>
          if run_ProcessIdentity run = [] \<or> ident \<noteq> run_ProcessIdentity run
          then (Inl (Error ''conflict: stale process identity; refusing to signal PID'' []), m)
          else case os_signal os (run_PID run) of
            Some e \<Rightarrow> (Inl e, m)
          | None \<Rightarrow> (Inr (), m\<lparr>mc_signals := mc_signals m @ [run_PID run]\<rparr>))"

definition stopRunAndWait :: "Os \<Rightarrow> string \<Rightarrow> Machine \<Rightarrow> unit result \<times> Machine" where
  "stopRunAndWait os ref m =
     (case Run_get (mc_local m) ref of
        Inl e \<Rightarrow> (Inl e, m)
      | Inr run \<Rightarrow>
          (case signal_run os (os_again os) ref run m of
             (Inl e, m') \<Rightarrow> (Inl e, m')
           | (Inr _, m') \<Rightarrow> wait_gone (os_polls os) run ref m'))"

definition stop :: "Os \<Rightarrow> flags \<Rightarrow> Machine \<Rightarrow> unit result \<times> Machine" where
  "stop os f m =
     (let ref = hd (f_args f) in
      case supervisorAllowsCurrentSource os (mc_local m) ref of
        Some e \<Rightarrow> (Inl e, m)
      | None \<Rightarrow>
          (case Run_get (mc_local m) ref of
             Inl _ \<Rightarrow> (Inl (Error ''not_found: %s is not running'' [ref]), m)
           | Inr run \<Rightarrow> signal_run os (os_identity os) ref run m))"

section \<open>Starting\<close>

text \<open>The loop that waits for the child. Its second exit, by \<^verbatim>\<open>command.ProcessState\<close>, is never taken: that field is set by
  \<^verbatim>\<open>Wait\<close>, which is called after the loop only.\<close>

fun await_ready :: "(LocalState \<Rightarrow> LocalState) list \<Rightarrow> string \<Rightarrow> int \<Rightarrow> Machine \<Rightarrow> Run option \<times> Machine" where
  "await_ready [] ref pid m = (None, m)"
| "await_ready (others # rounds) ref pid m =
     (let m' = m\<lparr>mc_local := others (mc_local m)\<rparr> in
      case Run_get (mc_local m') ref of
        Inr run \<Rightarrow> if run_Status run = ''ready'' \<and> run_PID run = pid then (Some run, m') else await_ready rounds ref pid m'
      | Inl _ \<Rightarrow> await_ready rounds ref pid m')"

definition log_path :: "string \<Rightarrow> string \<Rightarrow> string" where
  "log_path home ref = Join_path [home, ''logs'', map (\<lambda>c. if c = CHR ''/'' then CHR ''-'' else c) ref @ ''.log'']"

text \<open>What \<^verbatim>\<open>startDetached\<close> does once the reference is reserved, without the deferred removal of the reservation.\<close>

definition start_child :: "Os \<Rightarrow> string \<Rightarrow> Machine \<Rightarrow> Run result \<times> Machine" where
  "start_child os ref m =
     (case os_Executable os of
        Inl e \<Rightarrow> (Inl e, m)
      | Inr executable \<Rightarrow>
          (case os_OpenFile os (log_path (os_home os) ref) of
             Some e \<Rightarrow> (Inl e, m)
           | None \<Rightarrow>
               (case os_Start os [executable, ''_run-pipe'', ref] of
                  Inl e \<Rightarrow> (Inl e, m)
                | Inr pid \<Rightarrow>
                    (case await_ready (os_rounds os) ref pid (m\<lparr>mc_started := mc_started m @ [pid]\<rparr>) of
                       (Some run, m') \<Rightarrow> (Inr run, m')
                     | (None, m') \<Rightarrow>
                         (Inl (Error ''readiness_failed: child did not become ready'' []), m'\<lparr>mc_killed := mc_killed m' @ [pid]\<rparr>)))))"

definition start_reserved :: "Os \<Rightarrow> string \<Rightarrow> Machine \<Rightarrow> Run result \<times> Machine" where
  "start_reserved os ref m =
     (case on_local (ReserveRun (os_now os) ref ''pipe'') m of
        (Inl e, m') \<Rightarrow> (Inl e, m')
      | (Inr _, m') \<Rightarrow>
          (case start_child os ref m' of
             (Inl e, m'') \<Rightarrow> (Inl e, snd (on_local (DeleteRun ref) m''))
           | (Inr run, m'') \<Rightarrow> (Inr run, m'')))"

definition startDetached :: "Os \<Rightarrow> string \<Rightarrow> Machine \<Rightarrow> Run result \<times> Machine" where
  "startDetached os ref m =
     (case supervisorAllowsCurrentSource os (mc_local m) ref of
        Some e \<Rightarrow> (Inl e, m)
      | None \<Rightarrow>
          (case Run_get (mc_local m) ref of
             Inl _ \<Rightarrow> start_reserved os ref m
           | Inr existing \<Rightarrow>
               if run_Status existing = ''ready'' \<and> matches (os_identity os) existing then (Inr existing, m)
               else if run_Status existing = ''starting'' then (Inl (already_starting ref), m)
               else case on_local (DeleteRun ref) m of
                 (Inl e, m') \<Rightarrow> (Inl e, m')
               | (Inr _, m') \<Rightarrow> start_reserved os ref m'))"

text \<open>\<^verbatim>\<open>restart\<close>: first what it does to the process that runs, then the whole command; the result is the run it reports.\<close>

definition restart_stop :: "Os \<Rightarrow> flags \<Rightarrow> Machine \<Rightarrow> unit result \<times> Machine" where
  "restart_stop os f m =
     (let ref = hd (f_args f) in
      case ParseRef ref of
        Inl _ \<Rightarrow> (Inl (Error (''invalid_input: restart requires a pipe ref like pipe/<name>'' @ see_tubo ''restart'') []), m)
      | Inr parsed \<Rightarrow>
          if Kind parsed \<noteq> KindPipe then (Inl (Error (''invalid_input: restart requires a pipe ref like pipe/<name>'' @ see_tubo ''restart'') []), m)
          else case Pipe_get (ls_db (mc_local m)) ref of
            Inl e \<Rightarrow> (Inl e, m)
          | Inr _ \<Rightarrow>
              (case supervisorAllowsCurrentSource os (mc_local m) ref of
                 Some e \<Rightarrow> (Inl e, m)
               | None \<Rightarrow>
                   (case Run_get (mc_local m) ref of
                      Inl _ \<Rightarrow> (Inr (), m)
                    | Inr run \<Rightarrow>
                        if matches (os_identity os) run then stopRunAndWait os ref m else on_local (DeleteRun ref) m)))"

definition restart :: "Os \<Rightarrow> flags \<Rightarrow> Machine \<Rightarrow> Run result \<times> Machine" where
  "restart os f m =
     (case restart_stop os f m of
        (Inl e, m') \<Rightarrow> (Inl e, m')
      | (Inr _, m') \<Rightarrow> startDetached os (hd (f_args f)) m')"

section \<open>Removing\<close>

definition is_stale :: "Os \<Rightarrow> Run \<Rightarrow> bool" where
  "is_stale os run \<longleftrightarrow>
     (if run_PID run \<le> 0 then run_Status run = ''stopped'' \<or> os_now os - run_UpdatedAt run > 30 * second
      else \<not> matches (os_identity os) run)"

fun stale_loop :: "Os \<Rightarrow> Run list \<Rightarrow> LocalState \<Rightarrow> string list result \<times> LocalState" where
  "stale_loop os [] s = (Inr [], s)"
| "stale_loop os (run # runs) s =
     (case Supervisor_get s (run_PrimaryRef run) of
        Inr _ \<Rightarrow> stale_loop os runs s
      | Inl e \<Rightarrow>
          if \<not> errors_is e ErrNotFound then (Inl e, s)
          else if is_stale os run then
            (case DeleteRun (run_PrimaryRef run) s of
               (Inl e', s') \<Rightarrow> (Inl e', s')
             | (Inr _, s') \<Rightarrow>
                 (case stale_loop os runs s' of (Inl e', s'') \<Rightarrow> (Inl e', s'') | (Inr refs, s'') \<Rightarrow> (Inr (run_PrimaryRef run # refs), s'')))
          else stale_loop os runs s)"

definition staleRuns :: "Os \<Rightarrow> LocalState \<Rightarrow> string list result \<times> LocalState" where
  "staleRuns os s = (case Runs s of Inl e \<Rightarrow> (Inl e, s) | Inr runs \<Rightarrow> stale_loop os runs s)"

definition on_store :: "(Store \<Rightarrow> 'a result \<times> Store) \<Rightarrow> LocalState \<Rightarrow> 'a result \<times> LocalState" where
  "on_store f s = (case f (ls_db s) of (r, db) \<Rightarrow> (r, s\<lparr>ls_db := db\<rparr>))"

text \<open>The part of \<^verbatim>\<open>remove\<close> that settles what runs for a Pipe, then the removal of the secret of a removed Pipe, and \<^verbatim>\<open>remove\<close>.\<close>

definition clear_run :: "Os \<Rightarrow> bool \<Rightarrow> string \<Rightarrow> Machine \<Rightarrow> unit result \<times> Machine" where
  "clear_run os force ref m =
     (case supervisorAllowsCurrentSource os (mc_local m) ref of
        Some e \<Rightarrow> (Inl e, m)
      | None \<Rightarrow>
          (case Run_get (mc_local m) ref of
             Inl _ \<Rightarrow> (Inr (), m)
           | Inr run \<Rightarrow>
               if matches (os_identity os) run
               then if force then stopRunAndWait os ref m else (Inl (Error ''conflict: %s is running'' [ref]), m)
               else on_local (DeleteRun ref) m))"

definition rm_key :: "Os \<Rightarrow> string \<Rightarrow> Machine \<Rightarrow> unit result \<times> Machine" where
  "rm_key os key m =
     (if key = [] then (Inr (), m)
      else case os_remove os key of
        None \<Rightarrow> (Inr (), m\<lparr>mc_removed := mc_removed m @ [key]\<rparr>)
      | Some e \<Rightarrow>
          if errors_is e os_ErrNotExist then (Inr (), m)
          else (Inl (Wrap ''persistence_failed: pipe removed but secret cleanup failed: %w'' [] e), m))"

definition remove :: "Os \<Rightarrow> flags \<Rightarrow> Machine \<Rightarrow> unit result \<times> Machine" where
  "remove os f m =
     (if f_args f = [] then (Inl (Error (''invalid_input: rm requires a resource ref or --stale'' @ see_tubo ''rm'') []), m)
      else if flags_bool f ''stale'' then
        (case on_local (staleRuns os) m of (Inl e, m') \<Rightarrow> (Inl e, m') | (Inr _, m') \<Rightarrow> (Inr (), m'))
      else case ParseRef (hd (f_args f)) of
        Inl e \<Rightarrow> (Inl e, m)
      | Inr ref \<Rightarrow>
          if Kind ref = KindPipe then
            (case clear_run os (flags_bool f ''force'') (Ref_String ref) m of
               (Inl e, m') \<Rightarrow> (Inl e, m')
             | (Inr _, m') \<Rightarrow>
                 (case on_local (on_store (DeletePipe (Ref_String ref))) m' of
                    (Inl e, m'') \<Rightarrow> (Inl e, m'')
                  | (Inr key, m'') \<Rightarrow> rm_key os key m''))
          else if Kind ref = KindService then on_local (on_store (DeleteService (Ref_String ref))) m
          else (Inl (Error (''invalid_input: rm supports service/<name> or pipe/<name>'' @ see_tubo ''rm'') []), m))"

end
