(* ===== verification/Commands.thy ===== *)
theory Commands
  imports CommandTree
begin

text \<open>
  The commands that src/internal/cli/spec.go declares, one constant for each, and the tree that \<^verbatim>\<open>init\<close> links from them.
\<close>

section \<open>The declared commands\<close>

text \<open>The UTF-8 encoding of the ellipsis, and a text of several lines.\<close>

definition ellipsis :: string where
  "ellipsis = bytes_of [0xE2, 0x80, 0xA6]"

definition lines_of :: "string list \<Rightarrow> string" where
  "lines_of ls = Join ls [CHR 0x0A]"

definition cmd_get :: commandSpec where
  "cmd_get =
     \<lparr>cs_path = [''get''],
      cs_summary = ''list resources'',
      cs_usage = [],
      cs_detail = [],
      cs_args = [], cs_minArgs = 0, cs_maxArgs = 0,
      cs_flags = [],
      cs_children = [], cs_hidden = False\<rparr>"

definition cmd_watch :: commandSpec where
  "cmd_watch =
     \<lparr>cs_path = [''watch''],
      cs_summary = ''watch resource events'',
      cs_usage = [],
      cs_detail = [],
      cs_args = [], cs_minArgs = 0, cs_maxArgs = 0,
      cs_flags = [],
      cs_children = [], cs_hidden = False\<rparr>"

definition cmd_peers :: commandSpec where
  "cmd_peers =
     \<lparr>cs_path = [''peers''],
      cs_summary = ''manage peer aliases'',
      cs_usage = [],
      cs_detail = [],
      cs_args = [], cs_minArgs = 0, cs_maxArgs = 0,
      cs_flags = [],
      cs_children = [], cs_hidden = False\<rparr>"

definition cmd_config :: commandSpec where
  "cmd_config =
     \<lparr>cs_path = [''config''],
      cs_summary = ''validate or print configuration'',
      cs_usage = [],
      cs_detail = [],
      cs_args = [], cs_minArgs = 0, cs_maxArgs = 0,
      cs_flags = [],
      cs_children = [], cs_hidden = False\<rparr>"

definition cmd_supervise :: commandSpec where
  "cmd_supervise =
     \<lparr>cs_path = [''supervise''],
      cs_summary = ''install, inspect, or remove launchd supervision'',
      cs_usage = [],
      cs_detail = [],
      cs_args = [], cs_minArgs = 0, cs_maxArgs = 0,
      cs_flags = [],
      cs_children = [], cs_hidden = False\<rparr>"

definition cmd_scope :: commandSpec where
  "cmd_scope =
     \<lparr>cs_path = [''scope''],
      cs_summary = ''create, invite, join, or use Scopes'',
      cs_usage = [],
      cs_detail = [],
      cs_args = [], cs_minArgs = 0, cs_maxArgs = 0,
      cs_flags = [],
      cs_children = [], cs_hidden = False\<rparr>"

definition cmd_authority :: commandSpec where
  "cmd_authority =
     \<lparr>cs_path = [''authority''],
      cs_summary = ''scope authority administration'',
      cs_usage = [],
      cs_detail = [],
      cs_args = [], cs_minArgs = 0, cs_maxArgs = 0,
      cs_flags = [],
      cs_children = [], cs_hidden = False\<rparr>"

definition cmd_service :: commandSpec where
  "cmd_service =
     \<lparr>cs_path = [''service''],
      cs_summary = ''define local Services'',
      cs_usage = [],
      cs_detail = [],
      cs_args = [], cs_minArgs = 0, cs_maxArgs = 0,
      cs_flags = [],
      cs_children = [], cs_hidden = False\<rparr>"

definition cmd_pipe :: commandSpec where
  "cmd_pipe =
     \<lparr>cs_path = [''pipe''],
      cs_summary = ''define Pipes'',
      cs_usage = [],
      cs_detail = [],
      cs_args = [], cs_minArgs = 0, cs_maxArgs = 0,
      cs_flags = [],
      cs_children = [], cs_hidden = False\<rparr>"

definition cmd_join :: commandSpec where
  "cmd_join =
     \<lparr>cs_path = [''join''],
      cs_summary = ''configure overlay reachability'',
      cs_usage = [],
      cs_detail = [],
      cs_args = [], cs_minArgs = 0, cs_maxArgs = 0,
      cs_flags = [],
      cs_children = [], cs_hidden = False\<rparr>"

definition cmd_keygen :: commandSpec where
  "cmd_keygen =
     \<lparr>cs_path = [''keygen''],
      cs_summary = ''generate keys'',
      cs_usage = [],
      cs_detail = [],
      cs_args = [], cs_minArgs = 0, cs_maxArgs = 0,
      cs_flags = [],
      cs_children = [], cs_hidden = False\<rparr>"

definition cmd_attach :: commandSpec where
  "cmd_attach =
     \<lparr>cs_path = [''attach''],
      cs_summary = ''create or reuse a Service and its Pipe, then run it'',
      cs_usage = ''tubo attach <target> --name <name> [-d] [--json]'',
      cs_detail = lines_of
      [(''attach defines a local Service for <target> (http://'' @ ellipsis @ '', tcp://host:port,''),
       ''or a unix path) and defines a Pipe targeting it. With -d the Pipe is started'',
       ''detached and the command returns once it is ready; without -d the Pipe runs in'',
       ''the foreground until Ctrl-C. Re-attaching the same name reuses existing'',
       ''definitions. Share a ready Pipe with: tubo share pipe/<name>.''],
      cs_args = [''<target>''], cs_minArgs = 1, cs_maxArgs = 1,
      cs_flags = [\<lparr>fl_name = ''name'', fl_short = [], fl_value = True, fl_required = True, fl_obsolete = [],
          fl_help = ''friendly name for the Service and Pipe''\<rparr>,
        \<lparr>fl_name = ''detach'', fl_short = ''d'', fl_value = False, fl_required = False, fl_obsolete = [],
          fl_help = ''run the Pipe detached; print readiness''\<rparr>,
        \<lparr>fl_name = ''json'', fl_short = [], fl_value = False, fl_required = False, fl_obsolete = [],
          fl_help = ''emit one JSON object on stdout''\<rparr>],
      cs_children = [], cs_hidden = False\<rparr>"

definition cmd_accept :: commandSpec where
  "cmd_accept =
     \<lparr>cs_path = [''accept''],
      cs_summary = ''accept an exact invite and persist the durable access relationship'',
      cs_usage = ''tubo accept --token <invite> [--json]'',
      cs_detail = lines_of
      [''accept redeems a one-time exact invite and persists a durable remote-Pipe'',
       ''binding: the invite is consumed exactly once and is never needed again. It'',
       ''creates no local Pipe, no ingress, and starts no runtime. Connect an ingress'',
       ''later with: tubo connect --remote <pipe-id> --local 127.0.0.1:PORT.''],
      cs_args = [], cs_minArgs = 0, cs_maxArgs = 0,
      cs_flags = [\<lparr>fl_name = ''token'', fl_short = [], fl_value = True, fl_required = True, fl_obsolete = [],
          fl_help = ''exact invite produced by tubo share''\<rparr>,
        \<lparr>fl_name = ''json'', fl_short = [], fl_value = False, fl_required = False, fl_obsolete = [],
          fl_help = ''emit one JSON object on stdout''\<rparr>],
      cs_children = [], cs_hidden = False\<rparr>"

definition cmd_connect :: commandSpec where
  "cmd_connect =
     \<lparr>cs_path = [''connect''],
      cs_summary = ''redeem an exact invite (or reuse an accepted binding) and run a local Pipe'',
      cs_usage = ''tubo connect (--token <invite>|--remote <pipe-id>) --local <host:port> [--name <name>] [-d] [--json]'',
      cs_detail = lines_of
      [''connect redeems a one-time exact invite (--token), or reuses an already'',
       ''accepted durable binding (--remote <pipe-id>; no invite needed and no'',
       ''re-redemption), verifies the resulting short-lived Access Lease, defines a'',
       ''local ingress Pipe, and runs it. With -d the Pipe is started detached and the'',
       ''command returns once ready; without -d it runs in the foreground until Ctrl-C.'',
       ''Stop the local Pipe with: tubo stop pipe/<name>.''],
      cs_args = [], cs_minArgs = 0, cs_maxArgs = 0,
      cs_flags = [\<lparr>fl_name = ''token'', fl_short = [], fl_value = True, fl_required = False, fl_obsolete = [],
          fl_help = ''exact invite produced by tubo share (one-time bootstrap)''\<rparr>,
        \<lparr>fl_name = ''remote'', fl_short = [], fl_value = True, fl_required = False, fl_obsolete = [],
          fl_help = ''already-accepted remote Pipe ID; renews through the durable binding, no invite needed''\<rparr>,
        \<lparr>fl_name = ''local'', fl_short = [], fl_value = True, fl_required = True, fl_obsolete = [],
          fl_help = ''local listen address (host:port)''\<rparr>,
        \<lparr>fl_name = ''name'', fl_short = [], fl_value = True, fl_required = False, fl_obsolete = [],
          fl_help = ''friendly name for the local Pipe (default: deterministic name from the remote Pipe ID)''\<rparr>,
        \<lparr>fl_name = ''detach'', fl_short = ''d'', fl_value = False, fl_required = False, fl_obsolete = [],
          fl_help = ''run the Pipe detached; print readiness''\<rparr>,
        \<lparr>fl_name = ''json'', fl_short = [], fl_value = False, fl_required = False, fl_obsolete = [],
          fl_help = ''emit one JSON object on stdout''\<rparr>],
      cs_children = [], cs_hidden = False\<rparr>"

definition cmd_share :: commandSpec where
  "cmd_share =
     \<lparr>cs_path = [''share''],
      cs_summary = ''mint a one-time invite for an owned Pipe'',
      cs_usage = ''tubo share <pipe-ref> [--json]'',
      cs_detail = lines_of
      [''share prints the raw invite on stdout so it can be captured directly:'',
       [],
       (''  INVITE='' @ [CHR 0x22] @ ''$(tubo share pipe/origin)'' @ [CHR 0x22]),
       [],
       ''The invite is one-time, short-lived, and grants the holder a short-lived'',
       ''Access Lease for exactly that Pipe; the target Pipe must be a running,'',
       ''owned local Pipe. Behavioral notes and next steps go to stderr.''],
      cs_args = [''<pipe-ref>''], cs_minArgs = 1, cs_maxArgs = 1,
      cs_flags = [\<lparr>fl_name = ''json'', fl_short = [], fl_value = False, fl_required = False, fl_obsolete = [],
          fl_help = ''emit one JSON object on stdout''\<rparr>],
      cs_children = [], cs_hidden = False\<rparr>"

definition cmd_service_create :: commandSpec where
  "cmd_service_create =
     \<lparr>cs_path = [''service'', ''create''],
      cs_summary = ''define a local Service'',
      cs_usage = ''tubo service create <name> --target <url> [--json]'',
      cs_detail = [],
      cs_args = [''<name>''], cs_minArgs = 1, cs_maxArgs = 1,
      cs_flags = [\<lparr>fl_name = ''target'', fl_short = [], fl_value = True, fl_required = True, fl_obsolete = [],
          fl_help = (''http://'' @ ellipsis @ '', tcp://host:port, or unix path'')\<rparr>,
        \<lparr>fl_name = ''json'', fl_short = [], fl_value = False, fl_required = False, fl_obsolete = [],
          fl_help = ''emit one JSON object on stdout''\<rparr>],
      cs_children = [], cs_hidden = False\<rparr>"

definition cmd_pipe_create :: commandSpec where
  "cmd_pipe_create =
     \<lparr>cs_path = [''pipe'', ''create''],
      cs_summary = ''define a Pipe'',
      cs_usage = ''tubo pipe create <name> --ingress <tubo|local://host:port> --target <ref> [--scope cluster/namespace] [--visibility <policy>] [--access <policy>] [--json]'',
      cs_detail = [],
      cs_args = [''<name>''], cs_minArgs = 1, cs_maxArgs = 1,
      cs_flags = [\<lparr>fl_name = ''ingress'', fl_short = [], fl_value = True, fl_required = True, fl_obsolete = [],
          fl_help = ''tubo (network ingress) or local://host:port''\<rparr>,
        \<lparr>fl_name = ''target'', fl_short = [], fl_value = True, fl_required = True, fl_obsolete = [],
          fl_help = ''service/<name> or pipe/<ref>''\<rparr>,
        \<lparr>fl_name = ''scope'', fl_short = [], fl_value = True, fl_required = False, fl_obsolete = [],
          fl_help = ''scope for a tubo ingress (required for tubo)''\<rparr>,
        \<lparr>fl_name = ''visibility'', fl_short = [], fl_value = True, fl_required = False, fl_obsolete = [],
          fl_help = ''visibility policy for a tubo ingress''\<rparr>,
        \<lparr>fl_name = ''access'', fl_short = [], fl_value = True, fl_required = False, fl_obsolete = [],
          fl_help = ''access policy for a tubo ingress''\<rparr>,
        \<lparr>fl_name = ''json'', fl_short = [], fl_value = False, fl_required = False, fl_obsolete = [],
          fl_help = ''emit one JSON object on stdout''\<rparr>],
      cs_children = [], cs_hidden = False\<rparr>"

definition cmd_start :: commandSpec where
  "cmd_start =
     \<lparr>cs_path = [''start''],
      cs_summary = ''start a Pipe runtime'',
      cs_usage = ''tubo start <pipe-ref> [-d] [--json]'',
      cs_detail = [],
      cs_args = [''<pipe-ref>''], cs_minArgs = 1, cs_maxArgs = 1,
      cs_flags = [\<lparr>fl_name = ''detach'', fl_short = ''d'', fl_value = False, fl_required = False, fl_obsolete = [],
          fl_help = ''run detached; print readiness''\<rparr>,
        \<lparr>fl_name = ''json'', fl_short = [], fl_value = False, fl_required = False, fl_obsolete = [],
          fl_help = ''emit one JSON object on stdout''\<rparr>],
      cs_children = [], cs_hidden = False\<rparr>"

definition cmd_stop :: commandSpec where
  "cmd_stop =
     \<lparr>cs_path = [''stop''],
      cs_summary = ''stop a running Pipe or infrastructure runtime'',
      cs_usage = ''tubo stop <ref> [--json]'',
      cs_detail = [],
      cs_args = [''<ref>''], cs_minArgs = 1, cs_maxArgs = 1,
      cs_flags = [\<lparr>fl_name = ''json'', fl_short = [], fl_value = False, fl_required = False, fl_obsolete = [],
          fl_help = ''emit one JSON object on stdout''\<rparr>],
      cs_children = [], cs_hidden = False\<rparr>"

definition cmd_restart :: commandSpec where
  "cmd_restart =
     \<lparr>cs_path = [''restart''],
      cs_summary = ''restart a Pipe runtime'',
      cs_usage = ''tubo restart <pipe-ref> [--json]'',
      cs_detail = [],
      cs_args = [''<pipe-ref>''], cs_minArgs = 1, cs_maxArgs = 1,
      cs_flags = [\<lparr>fl_name = ''json'', fl_short = [], fl_value = False, fl_required = False, fl_obsolete = [],
          fl_help = ''emit one JSON object on stdout''\<rparr>],
      cs_children = [], cs_hidden = False\<rparr>"

definition cmd_rm :: commandSpec where
  "cmd_rm =
     \<lparr>cs_path = [''rm''],
      cs_summary = ''remove a resource or stale runs'',
      cs_usage = ''tubo rm <ref> [--force] [--json] | tubo rm --stale [--json]'',
      cs_detail = [],
      cs_args = [''<service/name|pipe/name>''], cs_minArgs = 0, cs_maxArgs = 1,
      cs_flags = [\<lparr>fl_name = ''force'', fl_short = [], fl_value = False, fl_required = False, fl_obsolete = [],
          fl_help = ''stop and remove a running Pipe''\<rparr>,
        \<lparr>fl_name = ''stale'', fl_short = [], fl_value = False, fl_required = False, fl_obsolete = [],
          fl_help = ''remove stale runtime records instead of a resource''\<rparr>,
        \<lparr>fl_name = ''json'', fl_short = [], fl_value = False, fl_required = False, fl_obsolete = [],
          fl_help = ''emit one JSON object on stdout''\<rparr>],
      cs_children = [], cs_hidden = False\<rparr>"

definition cmd_logs :: commandSpec where
  "cmd_logs =
     \<lparr>cs_path = [''logs''],
      cs_summary = ''show runtime logs'',
      cs_usage = ''tubo logs <ref> [--tail N] [-f] [--json]'',
      cs_detail = [],
      cs_args = [''<ref>''], cs_minArgs = 1, cs_maxArgs = 1,
      cs_flags = [\<lparr>fl_name = ''tail'', fl_short = [], fl_value = True, fl_required = False, fl_obsolete = [],
          fl_help = ''number of trailing lines (default 200)''\<rparr>,
        \<lparr>fl_name = ''follow'', fl_short = ''f'', fl_value = False, fl_required = False, fl_obsolete = [],
          fl_help = ''follow the log''\<rparr>,
        \<lparr>fl_name = ''json'', fl_short = [], fl_value = False, fl_required = False, fl_obsolete = [],
          fl_help = ''emit one JSON object on stdout''\<rparr>],
      cs_children = [], cs_hidden = False\<rparr>"

definition cmd_inspect :: commandSpec where
  "cmd_inspect =
     \<lparr>cs_path = [''inspect''],
      cs_summary = ''inspect one resource in detail'',
      cs_usage = ''tubo inspect <resource> [--json]'',
      cs_detail = lines_of
      [''inspect is the detailed human view of one resource: pipe/<name>,'',
       ''service/<name>, scope/<scope>, overlay/<name>, session/<id>, peer/<id>,'',
       ''relay/default, or authority/<cluster>. The default form is labeled plain'',
       ''text; --json emits the full structured view.''],
      cs_args = [''<resource>''], cs_minArgs = 1, cs_maxArgs = 1,
      cs_flags = [\<lparr>fl_name = ''json'', fl_short = [], fl_value = False, fl_required = False, fl_obsolete = [],
          fl_help = ''emit full structured JSON on stdout''\<rparr>],
      cs_children = [], cs_hidden = False\<rparr>"

definition cmd_get_pipes :: commandSpec where
  "cmd_get_pipes =
     \<lparr>cs_path = [''get'', ''pipes''],
      cs_summary = ''list Pipes (local definitions and verified network records)'',
      cs_usage = ''tubo get pipes [--scope cluster/namespace] [--refresh|--cached-only] [--wide] [--json]'',
      cs_detail = lines_of
      [''get pipes is cache-first and shows verified network records plus local'',
       (''Pipe definitions. Status is the local runtime lifecycle or '' @ [CHR 0x22] @ ''available'' @ [CHR 0x22] @ '' for''),
       ''remote records. Use --wide for the full table; use inspect pipe/<name> for a'',
       ''single Pipe in detail.''],
      cs_args = [], cs_minArgs = 0, cs_maxArgs = 0,
      cs_flags = [\<lparr>fl_name = ''scope'', fl_short = [], fl_value = True, fl_required = False, fl_obsolete = [],
          fl_help = ''filter to one scope''\<rparr>,
        \<lparr>fl_name = ''refresh'', fl_short = [], fl_value = False, fl_required = False, fl_obsolete = [],
          fl_help = ''force refreshing discovery caches''\<rparr>,
        \<lparr>fl_name = ''cached-only'', fl_short = [], fl_value = False, fl_required = False, fl_obsolete = [],
          fl_help = ''never refresh or open discovery sockets''\<rparr>,
        \<lparr>fl_name = ''wide'', fl_short = [], fl_value = False, fl_required = False, fl_obsolete = [],
          fl_help = ''show the full-width table''\<rparr>,
        \<lparr>fl_name = ''json'', fl_short = [], fl_value = False, fl_required = False, fl_obsolete = [],
          fl_help = ''emit one JSON object on stdout''\<rparr>,
        \<lparr>fl_name = ''live'', fl_short = [], fl_value = False, fl_required = False, fl_obsolete = ''use --refresh'',
          fl_help = []\<rparr>],
      cs_children = [], cs_hidden = False\<rparr>"

definition cmd_get_services :: commandSpec where
  "cmd_get_services =
     \<lparr>cs_path = [''get'', ''services''],
      cs_summary = ''list local Services'',
      cs_usage = ''tubo get services [--json]'',
      cs_detail = [],
      cs_args = [], cs_minArgs = 0, cs_maxArgs = 0,
      cs_flags = [\<lparr>fl_name = ''json'', fl_short = [], fl_value = False, fl_required = False, fl_obsolete = [],
          fl_help = ''emit one JSON object on stdout''\<rparr>],
      cs_children = [], cs_hidden = False\<rparr>"

definition cmd_get_scopes :: commandSpec where
  "cmd_get_scopes =
     \<lparr>cs_path = [''get'', ''scopes''],
      cs_summary = ''list Scopes and memberships'',
      cs_usage = ''tubo get scopes [--json]'',
      cs_detail = [],
      cs_args = [], cs_minArgs = 0, cs_maxArgs = 0,
      cs_flags = [\<lparr>fl_name = ''json'', fl_short = [], fl_value = False, fl_required = False, fl_obsolete = [],
          fl_help = ''emit one JSON object on stdout''\<rparr>],
      cs_children = [], cs_hidden = False\<rparr>"

definition cmd_get_peers :: commandSpec where
  "cmd_get_peers =
     \<lparr>cs_path = [''get'', ''peers''],
      cs_summary = ''list peers (observed and aliased)'',
      cs_usage = ''tubo get peers [--json]'',
      cs_detail = [],
      cs_args = [], cs_minArgs = 0, cs_maxArgs = 0,
      cs_flags = [\<lparr>fl_name = ''json'', fl_short = [], fl_value = False, fl_required = False, fl_obsolete = [],
          fl_help = ''emit one JSON object on stdout''\<rparr>],
      cs_children = [], cs_hidden = False\<rparr>"

definition cmd_get_overlays :: commandSpec where
  "cmd_get_overlays =
     \<lparr>cs_path = [''get'', ''overlays''],
      cs_summary = ''show overlay configuration'',
      cs_usage = ''tubo get overlays [--json]'',
      cs_detail = [],
      cs_args = [], cs_minArgs = 0, cs_maxArgs = 0,
      cs_flags = [\<lparr>fl_name = ''json'', fl_short = [], fl_value = False, fl_required = False, fl_obsolete = [],
          fl_help = ''emit one JSON object on stdout''\<rparr>],
      cs_children = [], cs_hidden = False\<rparr>"

definition cmd_watch_pipes :: commandSpec where
  "cmd_watch_pipes =
     \<lparr>cs_path = [''watch'', ''pipes''],
      cs_summary = ''watch verified Pipe projection events'',
      cs_usage = ''tubo watch pipes [--scope cluster/namespace] [--interval 2s] [--json]'',
      cs_detail = [],
      cs_args = [], cs_minArgs = 0, cs_maxArgs = 0,
      cs_flags = [\<lparr>fl_name = ''scope'', fl_short = [], fl_value = True, fl_required = False, fl_obsolete = [],
          fl_help = ''watch one scope only''\<rparr>,
        \<lparr>fl_name = ''interval'', fl_short = [], fl_value = True, fl_required = False, fl_obsolete = [],
          fl_help = ''poll interval (at least 500ms)''\<rparr>,
        \<lparr>fl_name = ''json'', fl_short = [], fl_value = False, fl_required = False, fl_obsolete = [],
          fl_help = ''emit NDJSON events''\<rparr>],
      cs_children = [], cs_hidden = False\<rparr>"

definition cmd_ps :: commandSpec where
  "cmd_ps =
     \<lparr>cs_path = [''ps''],
      cs_summary = ''show a compact runtime overview'',
      cs_usage = ''tubo ps [--json]'',
      cs_detail = lines_of
      [''ps is the compact lifecycle view: what is running, its primary resource,'',
       ''lifecycle status, PID, session count and basic path/address. Live network and'',
       ''byte metrics belong to top.''],
      cs_args = [], cs_minArgs = 0, cs_maxArgs = 0,
      cs_flags = [\<lparr>fl_name = ''json'', fl_short = [], fl_value = False, fl_required = False, fl_obsolete = [],
          fl_help = ''emit one JSON object on stdout''\<rparr>],
      cs_children = [], cs_hidden = False\<rparr>"

definition cmd_top :: commandSpec where
  "cmd_top =
     \<lparr>cs_path = [''top''],
      cs_summary = ''show live runtime and network metrics'',
      cs_usage = ''tubo top [--interval 1s] [--once] [--json]'',
      cs_detail = [],
      cs_args = [], cs_minArgs = 0, cs_maxArgs = 0,
      cs_flags = [\<lparr>fl_name = ''interval'', fl_short = [], fl_value = True, fl_required = False, fl_obsolete = [],
          fl_help = ''refresh interval (at least 100ms)''\<rparr>,
        \<lparr>fl_name = ''once'', fl_short = [], fl_value = False, fl_required = False, fl_obsolete = [],
          fl_help = ''refresh once and exit''\<rparr>,
        \<lparr>fl_name = ''json'', fl_short = [], fl_value = False, fl_required = False, fl_obsolete = [],
          fl_help = ''emit one JSON object on stdout''\<rparr>],
      cs_children = [], cs_hidden = False\<rparr>"

definition cmd_peers_alias :: commandSpec where
  "cmd_peers_alias =
     \<lparr>cs_path = [''peers'', ''alias''],
      cs_summary = ''label a peer with a friendly name'',
      cs_usage = ''tubo peers alias <peer-id> --name <label> [--note <text>] [--json]'',
      cs_detail = [],
      cs_args = [''<peer-id>''], cs_minArgs = 1, cs_maxArgs = 1,
      cs_flags = [\<lparr>fl_name = ''name'', fl_short = [], fl_value = True, fl_required = True, fl_obsolete = [],
          fl_help = ''label''\<rparr>,
        \<lparr>fl_name = ''note'', fl_short = [], fl_value = True, fl_required = False, fl_obsolete = [],
          fl_help = ''optional note''\<rparr>,
        \<lparr>fl_name = ''json'', fl_short = [], fl_value = False, fl_required = False, fl_obsolete = [],
          fl_help = ''emit one JSON object on stdout''\<rparr>],
      cs_children = [], cs_hidden = False\<rparr>"

definition cmd_config_validate :: commandSpec where
  "cmd_config_validate =
     \<lparr>cs_path = [''config'', ''validate''],
      cs_summary = ''validate overlay configuration'',
      cs_usage = ''tubo config validate [--json]'',
      cs_detail = [],
      cs_args = [], cs_minArgs = 0, cs_maxArgs = 0,
      cs_flags = [\<lparr>fl_name = ''json'', fl_short = [], fl_value = False, fl_required = False, fl_obsolete = [],
          fl_help = ''emit one JSON object on stdout''\<rparr>],
      cs_children = [], cs_hidden = False\<rparr>"

definition cmd_config_print :: commandSpec where
  "cmd_config_print =
     \<lparr>cs_path = [''config'', ''print''],
      cs_summary = ''print masked overlay configuration'',
      cs_usage = ''tubo config print [--json]'',
      cs_detail = [],
      cs_args = [], cs_minArgs = 0, cs_maxArgs = 0,
      cs_flags = [\<lparr>fl_name = ''json'', fl_short = [], fl_value = False, fl_required = False, fl_obsolete = [],
          fl_help = ''emit one JSON object on stdout''\<rparr>],
      cs_children = [], cs_hidden = False\<rparr>"

definition cmd_doctor :: commandSpec where
  "cmd_doctor =
     \<lparr>cs_path = [''doctor''],
      cs_summary = ''run local health checks'',
      cs_usage = ''tubo doctor [--json]'',
      cs_detail = [],
      cs_args = [], cs_minArgs = 0, cs_maxArgs = 0,
      cs_flags = [\<lparr>fl_name = ''json'', fl_short = [], fl_value = False, fl_required = False, fl_obsolete = [],
          fl_help = ''emit one JSON object on stdout''\<rparr>],
      cs_children = [], cs_hidden = False\<rparr>"

definition cmd_supervise_install :: commandSpec where
  "cmd_supervise_install =
     \<lparr>cs_path = [''supervise'', ''install''],
      cs_summary = ''install launchd supervision for a resource'',
      cs_usage = ''tubo supervise install <pipe/name|authority/cluster> [--scope cluster/namespace] [--json]'',
      cs_detail = [],
      cs_args = [''<pipe/name|authority/cluster>''], cs_minArgs = 1, cs_maxArgs = 1,
      cs_flags = [\<lparr>fl_name = ''scope'', fl_short = [], fl_value = True, fl_required = False, fl_obsolete = [],
          fl_help = ''scope for authority supervision''\<rparr>,
        \<lparr>fl_name = ''json'', fl_short = [], fl_value = False, fl_required = False, fl_obsolete = [],
          fl_help = ''emit one JSON object on stdout''\<rparr>],
      cs_children = [], cs_hidden = False\<rparr>"

definition cmd_supervise_status :: commandSpec where
  "cmd_supervise_status =
     \<lparr>cs_path = [''supervise'', ''status''],
      cs_summary = ''show supervision status'',
      cs_usage = ''tubo supervise status <ref> [--json]'',
      cs_detail = [],
      cs_args = [''<ref>''], cs_minArgs = 1, cs_maxArgs = 1,
      cs_flags = [\<lparr>fl_name = ''json'', fl_short = [], fl_value = False, fl_required = False, fl_obsolete = [],
          fl_help = ''emit one JSON object on stdout''\<rparr>],
      cs_children = [], cs_hidden = False\<rparr>"

definition cmd_supervise_uninstall :: commandSpec where
  "cmd_supervise_uninstall =
     \<lparr>cs_path = [''supervise'', ''uninstall''],
      cs_summary = ''remove launchd supervision'',
      cs_usage = ''tubo supervise uninstall <ref> [--json]'',
      cs_detail = [],
      cs_args = [''<ref>''], cs_minArgs = 1, cs_maxArgs = 1,
      cs_flags = [\<lparr>fl_name = ''json'', fl_short = [], fl_value = False, fl_required = False, fl_obsolete = [],
          fl_help = ''emit one JSON object on stdout''\<rparr>],
      cs_children = [], cs_hidden = False\<rparr>"

definition cmd_scope_create :: commandSpec where
  "cmd_scope_create =
     \<lparr>cs_path = [''scope'', ''create''],
      cs_summary = ''create a Scope'',
      cs_usage = ''tubo scope create <cluster/namespace> [--json]'',
      cs_detail = [],
      cs_args = [''<cluster/namespace>''], cs_minArgs = 1, cs_maxArgs = 1,
      cs_flags = [\<lparr>fl_name = ''json'', fl_short = [], fl_value = False, fl_required = False, fl_obsolete = [],
          fl_help = ''emit one JSON object on stdout''\<rparr>],
      cs_children = [], cs_hidden = False\<rparr>"

definition cmd_scope_invite :: commandSpec where
  "cmd_scope_invite =
     \<lparr>cs_path = [''scope'', ''invite''],
      cs_summary = ''mint a membership invite'',
      cs_usage = ''tubo scope invite <cluster/namespace> --role <member|viewer|publisher|forwarder> [--expires <duration>] [--json]'',
      cs_detail = [],
      cs_args = [''<cluster/namespace>''], cs_minArgs = 1, cs_maxArgs = 1,
      cs_flags = [\<lparr>fl_name = ''role'', fl_short = [], fl_value = True, fl_required = True, fl_obsolete = [],
          fl_help = ''member, viewer, publisher, or forwarder''\<rparr>,
        \<lparr>fl_name = ''expires'', fl_short = [], fl_value = True, fl_required = False, fl_obsolete = [],
          fl_help = ''invite lifetime (default 24h)''\<rparr>,
        \<lparr>fl_name = ''json'', fl_short = [], fl_value = False, fl_required = False, fl_obsolete = [],
          fl_help = ''emit one JSON object on stdout''\<rparr>],
      cs_children = [], cs_hidden = False\<rparr>"

definition cmd_scope_join :: commandSpec where
  "cmd_scope_join =
     \<lparr>cs_path = [''scope'', ''join''],
      cs_summary = ''redeem a membership invite'',
      cs_usage = ''tubo scope join --token <invite> [--json]'',
      cs_detail = [],
      cs_args = [], cs_minArgs = 0, cs_maxArgs = 0,
      cs_flags = [\<lparr>fl_name = ''token'', fl_short = [], fl_value = True, fl_required = True, fl_obsolete = [],
          fl_help = ''membership invite''\<rparr>,
        \<lparr>fl_name = ''json'', fl_short = [], fl_value = False, fl_required = False, fl_obsolete = [],
          fl_help = ''emit one JSON object on stdout''\<rparr>],
      cs_children = [], cs_hidden = False\<rparr>"

definition cmd_scope_use :: commandSpec where
  "cmd_scope_use =
     \<lparr>cs_path = [''scope'', ''use''],
      cs_summary = ''set the current Scope'',
      cs_usage = ''tubo scope use <cluster/namespace> [--json]'',
      cs_detail = [],
      cs_args = [''<cluster/namespace>''], cs_minArgs = 1, cs_maxArgs = 1,
      cs_flags = [\<lparr>fl_name = ''json'', fl_short = [], fl_value = False, fl_required = False, fl_obsolete = [],
          fl_help = ''emit one JSON object on stdout''\<rparr>],
      cs_children = [], cs_hidden = False\<rparr>"

definition cmd_authority_start :: commandSpec where
  "cmd_authority_start =
     \<lparr>cs_path = [''authority'', ''start''],
      cs_summary = ''start a Scope authority'',
      cs_usage = ''tubo authority start <cluster> --scope <cluster/namespace> [--json]'',
      cs_detail = lines_of
      [''authority start runs a scope authority in the foreground. Detached'',
       ''authority launch and recovery are provided by supervision:'',
       ''  tubo supervise install authority/<cluster> --scope <cluster/namespace>''],
      cs_args = [''<cluster>''], cs_minArgs = 1, cs_maxArgs = 1,
      cs_flags = [\<lparr>fl_name = ''scope'', fl_short = [], fl_value = True, fl_required = True, fl_obsolete = [],
          fl_help = ''authority scope''\<rparr>,
        \<lparr>fl_name = ''detach'', fl_short = ''d'', fl_value = False, fl_required = False, fl_obsolete = [],
          fl_help = ''unused; use tubo supervise install authority/<cluster>''\<rparr>,
        \<lparr>fl_name = ''json'', fl_short = [], fl_value = False, fl_required = False, fl_obsolete = [],
          fl_help = ''emit one JSON object on stdout''\<rparr>],
      cs_children = [], cs_hidden = False\<rparr>"

definition cmd_relay :: commandSpec where
  "cmd_relay =
     \<lparr>cs_path = [''relay''],
      cs_summary = ''run a relay in the foreground'',
      cs_usage = ''tubo relay --listen <multiaddr> --public-addr <addr> [--swarm-key <file>] [--json]'',
      cs_detail = [],
      cs_args = [], cs_minArgs = 0, cs_maxArgs = 0,
      cs_flags = [\<lparr>fl_name = ''listen'', fl_short = [], fl_value = True, fl_required = True, fl_obsolete = [],
          fl_help = ''listen multiaddr''\<rparr>,
        \<lparr>fl_name = ''public-addr'', fl_short = [], fl_value = True, fl_required = True, fl_obsolete = [],
          fl_help = ''publicly reachable address''\<rparr>,
        \<lparr>fl_name = ''swarm-key'', fl_short = [], fl_value = True, fl_required = False, fl_obsolete = [],
          fl_help = ''optional swarm key file''\<rparr>,
        \<lparr>fl_name = ''json'', fl_short = [], fl_value = False, fl_required = False, fl_obsolete = [],
          fl_help = ''emit one JSON object on stdout''\<rparr>],
      cs_children = [], cs_hidden = False\<rparr>"

definition cmd_join_overlay :: commandSpec where
  "cmd_join_overlay =
     \<lparr>cs_path = [''join'', ''overlay''],
      cs_summary = ''configure overlay reachability'',
      cs_usage = ''tubo join overlay --relay <multiaddr> --swarm-key <file> [--force-reachability private|public] [--json]'',
      cs_detail = [],
      cs_args = [], cs_minArgs = 0, cs_maxArgs = 0,
      cs_flags = [\<lparr>fl_name = ''relay'', fl_short = [], fl_value = True, fl_required = True, fl_obsolete = [],
          fl_help = ''relay multiaddr''\<rparr>,
        \<lparr>fl_name = ''swarm-key'', fl_short = [], fl_value = True, fl_required = True, fl_obsolete = [],
          fl_help = ''swarm key file''\<rparr>,
        \<lparr>fl_name = ''force-reachability'', fl_short = [], fl_value = True, fl_required = False, fl_obsolete = [],
          fl_help = ''private or public (default private)''\<rparr>,
        \<lparr>fl_name = ''json'', fl_short = [], fl_value = False, fl_required = False, fl_obsolete = [],
          fl_help = ''emit one JSON object on stdout''\<rparr>],
      cs_children = [], cs_hidden = False\<rparr>"

definition cmd_revoke :: commandSpec where
  "cmd_revoke =
     \<lparr>cs_path = [''revoke''],
      cs_summary = ''revoke an invite, session, access, or publish grant'',
      cs_usage = ''tubo revoke <invite|session|pipe-access|pipe-publish> <id> [--json]'',
      cs_detail = [],
      cs_args = [''<type>'', ''<id>''], cs_minArgs = 2, cs_maxArgs = 2,
      cs_flags = [\<lparr>fl_name = ''json'', fl_short = [], fl_value = False, fl_required = False, fl_obsolete = [],
          fl_help = ''emit one JSON object on stdout''\<rparr>],
      cs_children = [], cs_hidden = False\<rparr>"

definition cmd_keygen_swarm :: commandSpec where
  "cmd_keygen_swarm =
     \<lparr>cs_path = [''keygen'', ''swarm''],
      cs_summary = ''generate a swarm key file'',
      cs_usage = ''tubo keygen swarm --out <file> [--json]'',
      cs_detail = [],
      cs_args = [], cs_minArgs = 0, cs_maxArgs = 0,
      cs_flags = [\<lparr>fl_name = ''out'', fl_short = [], fl_value = True, fl_required = True, fl_obsolete = [],
          fl_help = ''output file path''\<rparr>,
        \<lparr>fl_name = ''json'', fl_short = [], fl_value = False, fl_required = False, fl_obsolete = [],
          fl_help = ''emit one JSON object on stdout''\<rparr>],
      cs_children = [], cs_hidden = False\<rparr>"

definition cmd_version :: commandSpec where
  "cmd_version =
     \<lparr>cs_path = [''version''],
      cs_summary = ''print version information'',
      cs_usage = ''tubo version [--json]'',
      cs_detail = [],
      cs_args = [], cs_minArgs = 0, cs_maxArgs = 0,
      cs_flags = [\<lparr>fl_name = ''json'', fl_short = [], fl_value = False, fl_required = False, fl_obsolete = [],
          fl_help = ''emit one JSON object on stdout''\<rparr>],
      cs_children = [], cs_hidden = False\<rparr>"

definition cmd__run_pipe :: commandSpec where
  "cmd__run_pipe =
     \<lparr>cs_path = [''_run-pipe''],
      cs_summary = ''internal Pipe runner (do not call directly)'',
      cs_usage = ''tubo _run-pipe <pipe-ref>'',
      cs_detail = [],
      cs_args = [''<pipe-ref>''], cs_minArgs = 1, cs_maxArgs = 1,
      cs_flags = [],
      cs_children = [], cs_hidden = True\<rparr>"

definition command_table :: "commandSpec list" where
  "command_table =
     [cmd_get, cmd_watch, cmd_peers, cmd_config, cmd_supervise, cmd_scope,
      cmd_authority, cmd_service, cmd_pipe, cmd_join, cmd_keygen, cmd_attach,
      cmd_accept, cmd_connect, cmd_share, cmd_service_create, cmd_pipe_create, cmd_start,
      cmd_stop, cmd_restart, cmd_rm, cmd_logs, cmd_inspect, cmd_get_pipes,
      cmd_get_services, cmd_get_scopes, cmd_get_peers, cmd_get_overlays, cmd_watch_pipes, cmd_ps,
      cmd_top, cmd_peers_alias, cmd_config_validate, cmd_config_print, cmd_doctor, cmd_supervise_install,
      cmd_supervise_status, cmd_supervise_uninstall, cmd_scope_create, cmd_scope_invite, cmd_scope_join, cmd_scope_use,
      cmd_authority_start, cmd_relay, cmd_join_overlay, cmd_revoke, cmd_keygen_swarm, cmd_version,
      cmd__run_pipe]"

definition leafPaths :: "string list" where
  "leafPaths =
     [''attach'', ''accept'', ''connect'', ''share'', ''service create'', ''pipe create'',
      ''start'', ''stop'', ''restart'', ''rm'', ''logs'', ''inspect'',
      ''get pipes'', ''get services'', ''get scopes'', ''get peers'', ''get overlays'', ''watch pipes'',
      ''ps'', ''top'', ''peers alias'', ''config validate'', ''config print'', ''doctor'',
      ''supervise install'', ''supervise status'', ''supervise uninstall'', ''scope create'', ''scope invite'', ''scope join'',
      ''scope use'', ''authority start'', ''relay'', ''join overlay'', ''revoke'', ''keygen swarm'',
      ''version'', ''_run-pipe'']"

definition commands :: "commandSpec list" where
  "commands = buildGroups command_table"

section \<open>Facts on the declared tree\<close>

lemmas cmd_defs = cmd_get_def cmd_watch_def cmd_peers_def cmd_config_def cmd_supervise_def cmd_scope_def cmd_authority_def cmd_service_def cmd_pipe_def cmd_join_def cmd_keygen_def cmd_attach_def cmd_accept_def cmd_connect_def cmd_share_def cmd_service_create_def cmd_pipe_create_def cmd_start_def cmd_stop_def cmd_restart_def cmd_rm_def cmd_logs_def cmd_inspect_def cmd_get_pipes_def cmd_get_services_def cmd_get_scopes_def cmd_get_peers_def cmd_get_overlays_def cmd_watch_pipes_def cmd_ps_def cmd_top_def cmd_peers_alias_def cmd_config_validate_def cmd_config_print_def cmd_doctor_def cmd_supervise_install_def cmd_supervise_status_def cmd_supervise_uninstall_def cmd_scope_create_def cmd_scope_invite_def cmd_scope_join_def cmd_scope_use_def cmd_authority_start_def cmd_relay_def cmd_join_overlay_def cmd_revoke_def cmd_keygen_swarm_def cmd_version_def cmd__run_pipe_def

definition command_paths :: "string list list" where
  "command_paths =
     [[''get''], [''watch''], [''peers''], [''config''], [''supervise''], [''scope''], [''authority''],
      [''service''], [''pipe''], [''join''], [''keygen''], [''attach''], [''accept''], [''connect''],
      [''share''], [''service'', ''create''], [''pipe'', ''create''], [''start''], [''stop''], [''restart''], [''rm''],
      [''logs''], [''inspect''], [''get'', ''pipes''], [''get'', ''services''], [''get'', ''scopes''], [''get'', ''peers''], [''get'', ''overlays''],
      [''watch'', ''pipes''], [''ps''], [''top''], [''peers'', ''alias''], [''config'', ''validate''], [''config'', ''print''], [''doctor''],
      [''supervise'', ''install''], [''supervise'', ''status''], [''supervise'', ''uninstall''], [''scope'', ''create''], [''scope'', ''invite''], [''scope'', ''join''], [''scope'', ''use''],
      [''authority'', ''start''], [''relay''], [''join'', ''overlay''], [''revoke''], [''keygen'', ''swarm''], [''version''], [''_run-pipe'']]"

lemma command_table_paths: "map cs_path command_table = command_paths"
  by (simp add: command_table_def command_paths_def cmd_defs)

lemma command_table_unlinked: "\<forall>s \<in> set command_table. cs_children s = []"
proof -
  have "list_all (\<lambda>s. cs_children s = []) command_table" by (simp add: command_table_def cmd_defs)
  then show ?thesis by (simp only: list_all_iff)
qed

text \<open>The paths differ already in a number computed from their letters.\<close>

definition fingerprint :: "string list \<Rightarrow> nat" where
  "fingerprint p = foldl (\<lambda>h c. 2 * h + of_char c) 0 (joinPath p)"

lemma command_paths_ok: "paths_ok command_paths"
proof -
  have "distinct (map fingerprint command_paths)"
    by (simp add: command_paths_def fingerprint_def joinPath_def)
  then have "distinct command_paths" by (simp add: distinct_map)
  moreover have "list_all (\<lambda>p. case p of [a] \<Rightarrow> plain_word a | [a, b] \<Rightarrow> plain_word a \<and> plain_word b \<and> [a] \<in> set command_paths | _ \<Rightarrow> False)
      command_paths"
    by (simp add: command_paths_def plain_word_def)
  ultimately show ?thesis by (simp add: paths_ok_def)
qed

lemma commands_tree: "command_tree commands"
  unfolding commands_def by (rule buildGroups_tree) (unfold command_table_paths, rule command_paths_ok, rule command_table_unlinked)

interpretation declared: command_tree commands
  by (rule commands_tree)

lemma commands_paths: "map cs_path commands = command_paths"
  by (rule nth_equalityI)
    (simp_all add: commands_def buildGroups_length buildGroups_nth flip: command_table_paths)

lemma commands_from_table: "s \<in> set commands \<Longrightarrow> \<exists>t \<in> set command_table. \<exists>c. s = t\<lparr>cs_children := c\<rparr>"
  by (auto simp: in_set_conv_nth commands_def buildGroups_length buildGroups_nth) (metis nth_mem)

text \<open>The leaves of the linked tree are the declared leaf paths, in order; so the check that the program runs as a test passes.\<close>

definition leaf_path :: "string list \<Rightarrow> bool" where
  "leaf_path p = (case p of [a] \<Rightarrow> list_all (\<lambda>q. \<not> (length q = 2 \<and> hd q = a)) command_paths | _ \<Rightarrow> True)"

lemma leaf_iff:
  assumes "s \<in> set commands"
  shows "\<not> isGroup s \<longleftrightarrow> leaf_path (cs_path s)"
proof -
  have "(\<exists>a b. cs_path s = [a] \<and> [a, b] \<in> set command_paths) \<longleftrightarrow> \<not> leaf_path (cs_path s)"
    by (force simp: leaf_path_def list_all_iff length_Suc_conv eval_nat_numeral split: list.splits)
  moreover have "cs_path ` set commands = set command_paths" by (metis commands_paths set_map)
  ultimately show ?thesis using declared.groups [OF assms] by simp
qed

lemma leaves_commands: "leaves commands = leafPaths"
proof -
  have "leaves commands = map cs_id (filter (\<lambda>s. leaf_path (cs_path s)) commands)"
    unfolding leaves_def using leaf_iff by (metis (mono_tags, lifting) filter_cong)
  also have "\<dots> = map joinPath (filter leaf_path (map cs_path commands))"
    by (simp add: filter_map comp_def cs_id_def [abs_def])
  also have "\<dots> = leafPaths"
    unfolding commands_paths by (simp add: leaf_path_def command_paths_def leafPaths_def joinPath_def)
  finally show ?thesis .
qed

lemma first_duplicate_None: "first_duplicate seen xs = None \<longleftrightarrow> distinct xs \<and> set seen \<inter> set xs = {}"
  by (induction seen xs rule: first_duplicate.induct) auto

lemma ids_distinct: "distinct (map cs_id commands)"
proof -
  have "distinct (map (\<lambda>i. foldl (\<lambda>h c. 2 * h + of_char c) (0 :: nat) i) (map joinPath command_paths))"
    by (simp add: command_paths_def joinPath_def)
  then have "distinct (map joinPath command_paths)" by (rule distinct_map [THEN iffD1, THEN conjunct1])
  then show ?thesis by (simp add: cs_id_def [abs_def] comp_def flip: commands_paths)
qed

lemma spec_tree_valid: "validateSpecTree commands leafPaths = None"
  using ids_distinct
  by (simp add: validateSpecTree_def first_duplicate_None leaves_commands find_None_iff split: option.split)

lemma table_leaf:
  assumes "t \<in> set command_table" "leaf_path (cs_path t)"
  shows "t \<in> set commands"
proof -
  from assms(1) obtain i where i: "i < length command_table" "t = command_table ! i" by (metis in_set_conv_nth)
  then obtain c where c: "commands ! i = t\<lparr>cs_children := c\<rparr>" by (auto simp: commands_def buildGroups_nth)
  have mem: "commands ! i \<in> set commands" using i(1) by (simp add: commands_def buildGroups_length)
  with leaf_iff [OF mem] assms(2) c have "c = []" by (simp add: isGroup_def)
  moreover have "cs_children t = []" using command_table_unlinked assms(1) by blast
  ultimately have "commands ! i = t" using c by simp
  with mem show ?thesis by simp
qed

end
