(* ===== verification/CommandLine.thy ===== *)
theory CommandLine
  imports Commands Parsing
begin

text \<open>
  What the command line guarantees to the handlers of src/internal/cli/app.go: a command is run only with flags and arguments of
  its declared types, and every well-typed call of every command can be written down and is understood as it was meant.
\<close>

section \<open>From words to a command\<close>

lemma longest_in: "longest P tree = Some s \<Longrightarrow> s \<in> set tree"
proof -
  have "fold (keep_longest P) xs best = Some s \<Longrightarrow> s \<in> set xs \<or> best = Some s" for xs best
    by (induction xs arbitrary: best) (auto simp: keep_longest_def split: if_splits)
  from this [of tree None] show "longest P tree = Some s \<Longrightarrow> s \<in> set tree" by (simp add: longest_def)
qed

lemma walk_in: "walk tree base m args = Inr (s, rest) \<Longrightarrow> m \<in> set tree \<Longrightarrow> s \<in> set tree"
  by (induction tree base m args rule: walk.induct) (auto split: if_splits option.splits dest: longest_in)

lemma resolve_in: "resolveCommand tree args = Inr (s, rest) \<Longrightarrow> s \<in> set tree"
  by (cases args) (auto split: if_splits option.splits dest!: walk_in longest_in simp: specFor_def find_Some_iff)

lemma Execute_parsed:
  assumes "app_Run tree args = Inr (g, Execute s f)"
  shows "s \<in> set tree \<and> (\<exists>rest. parseCommand s rest = Inr f)"
proof -
  from assms obtain clean where "run_plan tree clean = Inr (Execute s f)" by (auto simp: app_Run_def result_simps)
  then obtain rest where "resolveCommand tree clean = Inr (s, rest)" "parseCommand s rest = Inr f"
    by (auto simp: run_plan_def result_simps split: list.splits if_splits prod.splits)
  with resolve_in show ?thesis by blast
qed

section \<open>From a command to words\<close>

lemma prefix_name:
  "CHR ''='' \<notin> set n \<Longrightarrow> CHR ''='' \<notin> set p \<Longrightarrow> HasPrefix (n @ CHR ''='' # v) (p @ [CHR ''='']) \<Longrightarrow> n = p"
proof (induction n arbitrary: p)
  case Nil then show ?case by (cases p) (auto simp: HasPrefix_def)
next
  case (Cons c n) then show ?case by (cases p) (auto simp: HasPrefix_def)
qed

lemma flag_word_plain:
  assumes "flag_name_ok n"
  shows "\<not> HasPrefix (''--'' @ n @ ''='' @ v) ''--log-level=''" "CHR ''='' \<in> set (''--'' @ n @ ''='' @ v)"
proof -
  show "\<not> HasPrefix (''--'' @ n @ ''='' @ v) ''--log-level=''"
    using assms prefix_name [of n "''log-level''" v] by (auto simp: flag_name_ok_def HasPrefix_def)
qed simp

lemma global_args_clean:
  assumes "list_all (\<lambda>arg. positional arg \<or> (\<exists>n v. flag_name_ok n \<and> arg = ''--'' @ n @ ''='' @ v)) args"
  shows "global_args args g = Inr (args, g)"
  using assms
proof (induction args)
  case (Cons arg args)
  then consider "positional arg" | n v where "flag_name_ok n" "arg = ''--'' @ n @ ''='' @ v" by auto
  then show ?case
  proof cases
    case 1
    then have "arg = [] \<or> hd arg \<noteq> CHR ''-'' \<or> arg = ''-''" by (cases arg) (auto simp: positional_def HasPrefix_def)
    with Cons show ?thesis by (cases arg) (auto simp: HasPrefix_def)
  next
    case 2
    then have "\<not> HasPrefix arg ''--log-level=''" using flag_word_plain [OF 2(1), of v] by simp
    moreover have "CHR ''='' \<in> set arg" using 2(2) by simp
    then have "arg \<notin> {''--quiet'', ''-q'', ''--log-level''}" by auto
    moreover have "hd arg = CHR ''-''" "\<not> list_all (\<lambda>c. c = CHR ''v'') (tl arg)" using 2(2) by simp_all
    ultimately show ?thesis using Cons by simp
  qed
qed simp

lemma words_no_help:
  assumes "list_all (\<lambda>arg. positional arg \<or> (\<exists>n v. flag_name_ok n \<and> arg = ''--'' @ n @ ''='' @ v)) args"
  shows "\<not> hasHelpFlag args"
proof -
  have "\<not> is_help arg" if "positional arg \<or> (\<exists>n v. flag_name_ok n \<and> arg = ''--'' @ n @ ''='' @ v)" for arg
    using that
  proof (elim disjE exE conjE)
    fix n v assume "flag_name_ok n" "arg = ''--'' @ n @ ''='' @ v"
    then have "CHR ''='' \<in> set arg" by simp
    then show ?thesis by (auto simp: is_help_def)
  qed (auto simp: is_help_def positional_def HasPrefix_def)
  with assms show ?thesis by (auto simp: hasHelpFlag_def list_all_iff list_ex_iff)
qed

lemma command_words_shape:
  assumes "flags_ok s" "well_typed s f"
  shows "list_all (\<lambda>arg. positional arg \<or> (\<exists>n v. flag_name_ok n \<and> arg = ''--'' @ n @ ''='' @ v)) (command_words s f)"
  using assms by (auto simp: command_words_def well_typed_def flags_ok_def list_all_iff flag_words_def split: if_splits option.splits)

lemma declared_flags_ok: "list_all flags_ok command_table"
  by (simp add: command_table_def cmd_defs flags_ok_def flag_name_ok_def)

lemma declared_not_help: "list_all (\<lambda>p. hd p \<noteq> ''help'') command_paths"
  by (simp add: command_paths_def)

lemma flags_ok_children [simp]: "flags_ok (s\<lparr>cs_children := c\<rparr>) = flags_ok s"
  by (simp add: flags_ok_def)

lemma run_words:
  assumes s: "s \<in> set commands" "\<not> isGroup s" and f: "well_typed s f"
  shows "app_Run commands (cs_path s @ command_words s f) = Inr (\<lparr>gl_quiet = False, gl_verbosity = 0, gl_level = []\<rparr>, Execute s f)"
proof -
  let ?words = "cs_path s @ command_words s f"
  have ok: "flags_ok s" using commands_from_table [OF s(1)] declared_flags_ok by (auto simp: list_all_iff)
  note shape = command_words_shape [OF ok f]
  have plain: "list_all positional (cs_path s)"
    using declared.shaped [OF s(1)] by (auto simp: plain_word_def positional_def HasPrefix_def neq_Nil_conv)
  with shape have "global_args ?words g = Inr (?words, g)" for g by (intro global_args_clean) (auto simp: list_all_iff)
  then have clean: "extractGlobalFlags ?words = Inr (?words, \<lparr>gl_quiet = False, gl_verbosity = 0, gl_level = []\<rparr>)"
    by (simp add: extractGlobalFlags_def)
  obtain a p where a: "cs_path s = a # p" "positional a" using declared.shaped [OF s(1)] plain by auto
  have "a \<noteq> ''help''"
    using declared_not_help a(1) s(1) by (auto simp: list_all_iff simp flip: commands_paths dest!: bspec [of _ _ "cs_path s"])
  moreover have "a \<noteq> ''--help''" "a \<noteq> ''-h''" using a(2) by (auto simp: positional_def HasPrefix_def)
  ultimately have "run_plan commands ?words = Inr (Execute s f)"
    using declared.resolve_leaf [OF s, of "command_words s f"] words_no_help [OF shape] parse_command_words [OF ok f s(2)] a(1)
    by (simp add: run_plan_def del: resolveCommand.simps)
  with clean show ?thesis by (simp add: app_Run_def)
qed

section \<open>Properties\<close>

text \<open>C21. Nothing ill-typed reaches a handler. Whatever the arguments of the program are, a command is only executed when it is one of the
  declared executable commands and its flags are of the declared types: value flags have values, switches have truth values, none of
  them is unknown or obsolete, every required flag has a non-empty value, and the number of arguments is within the declared bounds.\<close>

theorem executed_well_typed:
  assumes "app_Run commands args = Inr (g, Execute s f)"
  shows "s \<in> set commands \<and> cs_id s \<in> set leafPaths \<and> well_typed s f"
proof -
  from Execute_parsed [OF assms] obtain rest where s: "s \<in> set commands" "parseCommand s rest = Inr f" by blast
  with parseCommand_typed have "\<not> isGroup s" "well_typed s f" by blast+
  moreover from this s(1) have "cs_id s \<in> set (leaves commands)" by (auto simp: leaves_def)
  ultimately show ?thesis using s(1) leaves_commands by simp
qed

text \<open>C22. Every well-typed call of every declared command can be written, and is understood as meant: the words of the command's path
  followed by its flags and arguments are taken for exactly this command with exactly these flags, with no global flag extracted,
  no help shown instead, and no argument taken for a subcommand.\<close>

theorem command_line_round_trip:
  assumes "s \<in> set commands" "cs_id s \<in> set leafPaths" "well_typed s f"
  shows "app_Run commands (cs_path s @ command_words s f) = Inr (\<lparr>gl_quiet = False, gl_verbosity = 0, gl_level = []\<rparr>, Execute s f)"
proof -
  from assms(2) obtain t where t: "t \<in> set commands" "\<not> isGroup t" "cs_id t = cs_id s"
    by (auto simp: leaves_def simp flip: leaves_commands)
  with ids_distinct assms(1) have "t = s" by (auto simp: distinct_map dest: inj_onD)
  with t run_words assms show ?thesis by simp
qed

text \<open>A call of \<^verbatim>\<open>tubo attach\<close>.\<close>

definition example_flags :: flags where
  "example_flags = \<lparr>f_values = [''name'' \<mapsto> ''--help''], f_bools = [''json'' \<mapsto> False], f_args = [''tcp://127.0.0.1:80'']\<rparr>"

lemma example_typed: "well_typed cmd_attach example_flags"
  by (simp add: well_typed_def example_flags_def cmd_attach_def declares_def positional_def HasPrefix_def)

lemma attach_leaf: "cmd_attach \<in> set commands" "cs_id cmd_attach \<in> set leafPaths"
proof -
  have "cmd_attach \<in> set command_table" by (simp add: command_table_def)
  moreover have l: "leaf_path (cs_path cmd_attach)" by (simp add: leaf_path_def cmd_attach_def command_paths_def)
  ultimately show "cmd_attach \<in> set commands" by (rule table_leaf)
  then show "cs_id cmd_attach \<in> set leafPaths" using l leaf_iff by (auto simp: leaves_def simp flip: leaves_commands)
qed

lemma example_words: "cs_path cmd_attach @ command_words cmd_attach example_flags
    = [''attach'', ''--name=--help'', ''--json=false'', ''tcp://127.0.0.1:80'']"
  by (simp add: cmd_attach_def command_words_def flag_words_def example_flags_def)

theorem command_line_round_trip_witness:
  "app_Run commands [''attach'', ''--name=--help'', ''--json=false'', ''tcp://127.0.0.1:80'']
   = Inr (\<lparr>gl_quiet = False, gl_verbosity = 0, gl_level = []\<rparr>, Execute cmd_attach example_flags)"
  using command_line_round_trip [OF attach_leaf example_typed] example_words by simp

theorem executed_well_typed_witness: "cs_id cmd_attach \<in> set leafPaths \<and> well_typed cmd_attach example_flags"
proof -
  have "\<not> isGroup cmd_attach" by (simp add: isGroup_def cmd_attach_def)
  from executed_well_typed [OF run_words [OF attach_leaf(1) this example_typed]] show ?thesis by blast
qed

end
