(* ===== verification/RunSafety.thy ===== *)
theory RunSafety
  imports Runs CommandLine
begin

text \<open>
  What the commands on running processes guarantee: whom they signal, start and kill, what \<^verbatim>\<open>rm --stale\<close> spares, and when reservations of
  a reference exclude each other, also while several commands run at the same time.
\<close>

section \<open>Signals\<close>






lemma on_local_undisturbed [simp]:
  "mc_signals (snd (on_local f m)) = mc_signals m" "mc_started (snd (on_local f m)) = mc_started m"
  "mc_killed (snd (on_local f m)) = mc_killed m"
  by (simp_all add: on_local_def split: prod.splits)

lemma wait_gone_undisturbed [simp]:
  "mc_signals (snd (wait_gone polls run ref m)) = mc_signals m" "mc_started (snd (wait_gone polls run ref m)) = mc_started m"
  "mc_killed (snd (wait_gone polls run ref m)) = mc_killed m"
  by (induction polls run ref m rule: wait_gone.induct) (auto split: option.splits)


lemma rm_key_undisturbed [simp]:
  "mc_signals (snd (rm_key os key m)) = mc_signals m" "mc_started (snd (rm_key os key m)) = mc_started m"
  "mc_killed (snd (rm_key os key m)) = mc_killed m"
  by (simp_all add: rm_key_def split: option.splits)

lemma Run_getD: "Run_get s ref = Inr run \<Longrightarrow> get (ls_runs s) ref = Some run"
  by (auto simp: Run_get_def query_def split: option.splits)












section \<open>Children\<close>








section \<open>Stale runs\<close>

lemma DeleteRun_other: "get (ls_runs (snd (DeleteRun ref s))) k = (if k = ref \<and> db_fault (ls_db s) = None then None else get (ls_runs s) k)"
proof -
  have "map_of (filter (\<lambda>(k, v). k \<noteq> ref) t) k = (if k = ref then None else map_of t k)" for t :: "(string, Run) tab"
    by (induction t) auto
  then show ?thesis by (auto simp: DeleteRun_def exec_local_def query_def del_where_def split: option.splits)
qed

text \<open>No run of a live process and no supervised run is removed as stale.\<close>

lemma stale_loop_spares:
  assumes "get (ls_runs s) ref = Some run" "\<forall>r \<in> set runs. run_PrimaryRef r = ref \<longrightarrow> r = run" "\<not> is_stale os run"
  shows "get (ls_runs (snd (stale_loop os runs s))) ref = Some run"
  using assms
proof (induction os runs s rule: stale_loop.induct)
  case (2 os r runs s)
  obtain d s1 where d: "DeleteRun (run_PrimaryRef r) s = (d, s1)" by (cases "DeleteRun (run_PrimaryRef r) s")
  show ?case
  proof (cases "is_stale os r")
    case True
    with 2 have "run_PrimaryRef r \<noteq> ref" by auto
    with d 2 have "get (ls_runs s1) ref = Some run" using DeleteRun_other [of "run_PrimaryRef r" s ref] by simp
    with 2 True d show ?thesis by (auto split: sum.splits prod.splits)
  next
    case False
    with 2 show ?thesis by (auto split: sum.splits)
  qed
qed simp

section \<open>Reservations at the same time\<close>

text \<open>\<^verbatim>\<open>reserveForeground\<close> as its accesses to the database, between which other processes make theirs.\<close>

datatype reserving = AskSupervisor | ReadRun | DropRun | Insert | Reserved "unit result"

fun reserve_step :: "Os \<Rightarrow> string \<Rightarrow> string \<Rightarrow> reserving \<Rightarrow> LocalState \<Rightarrow> reserving \<times> LocalState" where
  "reserve_step os ref kind AskSupervisor s =
     (case supervisorAllowsCurrentSource os s ref of Some e \<Rightarrow> Reserved (Inl e) | None \<Rightarrow> ReadRun, s)"
| "reserve_step os ref kind ReadRun s =
     (case Run_get s ref of
        Inl _ \<Rightarrow> Insert
      | Inr existing \<Rightarrow>
          if run_Status existing = ''ready'' \<and> matches (os_identity os) existing then Reserved (Inl (already_running ref))
          else if run_Status existing = ''starting'' then Reserved (Inl (already_starting ref))
          else DropRun, s)"
| "reserve_step os ref kind DropRun s =
     (case DeleteRun ref s of (Inl e, s') \<Rightarrow> (Reserved (Inl e), s') | (Inr _, s') \<Rightarrow> (Insert, s'))"
| "reserve_step os ref kind Insert s = (case ReserveRun (os_now os) ref kind s of (r, s') \<Rightarrow> (Reserved r, s'))"
| "reserve_step os ref kind (Reserved r) s = (Reserved r, s)"

lemma reserve_steps:
  "((\<lambda>(pc, s). reserve_step os ref kind pc s) ^^ 4) (AskSupervisor, s)
   = (Reserved (fst (reserveForeground os ref kind s)), snd (reserveForeground os ref kind s))"
proof -
  have four: "(f ^^ 4) x = f (f (f (f x)))" for f :: "reserving \<times> LocalState \<Rightarrow> _" and x by (simp add: eval_nat_numeral)
  show ?thesis unfolding four
    by (auto simp: reserveForeground_def split: option.splits sum.splits prod.splits)
qed

inductive contend :: "(nat \<Rightarrow> Os) \<Rightarrow> string \<Rightarrow> string \<Rightarrow> reserving list \<times> LocalState \<Rightarrow> reserving list \<times> LocalState \<Rightarrow> bool"
  for os ref kind where
  "i < length pcs \<Longrightarrow> reserve_step (os i) ref kind (pcs ! i) s = (pc, s') \<Longrightarrow> contend os ref kind (pcs, s) (pcs[i := pc], s')"

definition winners :: "reserving list \<Rightarrow> nat" where
  "winners pcs = length (filter (\<lambda>pc. pc = Reserved (Inr ())) pcs)"

definition exclusive :: "string \<Rightarrow> reserving list \<times> LocalState \<Rightarrow> bool" where
  "exclusive ref P \<longleftrightarrow> (case P of (pcs, s) \<Rightarrow>
     DropRun \<notin> set pcs
     \<and> (case get (ls_runs s) ref of None \<Rightarrow> winners pcs = 0 | Some run \<Rightarrow> run_Status run = ''starting'' \<and> winners pcs = 1))"

lemma winners_update:
  "i < length pcs \<Longrightarrow> winners (pcs[i := pc]) + (if pcs ! i = Reserved (Inr ()) then 1 else 0)
     = winners pcs + (if pc = Reserved (Inr ()) then 1 else 0)"
proof (induction pcs arbitrary: i)
  case (Cons x pcs)
  show ?case
  proof (cases i)
    case (Suc j)
    with Cons.prems have "j < length pcs" by simp
    from Cons.IH [OF this] Suc show ?thesis by (auto simp: winners_def split: if_splits)
  qed (simp add: winners_def)
qed (simp add: winners_def)

lemma ReserveRun_cases:
  obtains (refused) e where "ReserveRun now ref kind s = (Inl e, s)"
  | (reserved) "get (ls_runs s) ref = None"
      "ReserveRun now ref kind s = (Inr (), s\<lparr>ls_runs := put ref (reserved_run ref kind now) (ls_runs s)\<rparr>)"
  by (cases "db_fault (ls_db s)"; cases "get (ls_runs s) ref") (auto simp: ReserveRun_def exec_local_def query_def)

lemma contend_exclusive:
  assumes "contend os ref kind P Q" "exclusive ref P"
  shows "exclusive ref Q"
proof -
  from assms(1) obtain i pcs s pc s' where P: "P = (pcs, s)" "Q = (pcs[i := pc], s')" "i < length pcs"
    and st: "reserve_step (os i) ref kind (pcs ! i) s = (pc, s')" by (auto elim: contend.cases)
  note w = winners_update [OF P(3), of pc]
  have kept: "exclusive ref Q" if "s' = s" "pc \<noteq> DropRun" "pc = Reserved (Inr ()) \<longleftrightarrow> pcs ! i = Reserved (Inr ())"
    using assms(2) w that P set_update_subset_insert [of pcs i pc] by (auto simp: exclusive_def split: option.splits)
  show ?thesis
  proof (cases "pcs ! i")
    case AskSupervisor
    with st kept show ?thesis by (auto split: option.splits)
  next
    case ReadRun
    moreover have "run_Status run = ''starting''" if "Run_get s ref = Inr run" for run
      using Run_getD [OF that] assms(2) P by (simp add: exclusive_def)
    ultimately show ?thesis using st kept by (auto split: sum.splits if_splits)
  next
    case DropRun
    with assms(2) P nth_mem show ?thesis by (fastforce simp: exclusive_def)
  next
    case Insert
    show ?thesis
    proof (cases rule: ReserveRun_cases [of "os_now (os i)" ref kind s])
      case (refused e)
      with Insert st have "pc = Reserved (Inl e)" "s' = s" by auto
      with Insert kept show ?thesis by simp
    next
      case reserved
      with Insert st have "pc = Reserved (Inr ())" "get (ls_runs s') ref = Some (reserved_run ref kind (os_now (os i)))"
        by (auto simp: update_conv)
      with w assms(2) P reserved(1) Insert set_update_subset_insert [of pcs i pc] show ?thesis
        by (auto simp: exclusive_def reserved_run_def)
    qed
  next
    case (Reserved r)
    with st have "pc = Reserved r" "s' = s" by auto
    with Reserved kept show ?thesis by simp
  qed
qed

lemma contend_length: "contend os ref kind P Q \<Longrightarrow> length (fst Q) = length (fst P)"
  by (auto elim: contend.cases)

text \<open>A schedule: whose step is next.\<close>

fun play :: "(nat \<Rightarrow> Os) \<Rightarrow> string \<Rightarrow> string \<Rightarrow> nat list \<Rightarrow> reserving list \<times> LocalState \<Rightarrow> reserving list \<times> LocalState" where
  "play os ref kind [] P = P"
| "play os ref kind (i # is) (pcs, s) =
     (case reserve_step (os i) ref kind (pcs ! i) s of (pc, s') \<Rightarrow> play os ref kind is (pcs[i := pc], s'))"

lemma play_contend:
  "\<forall>i \<in> set is. i < length (fst P) \<Longrightarrow> (contend os ref kind)\<^sup>*\<^sup>* P (play os ref kind is P)"
proof (induction os ref kind "is" P rule: play.induct)
  case (2 os ref kind i "is" pcs s)
  obtain pc s' where st: "reserve_step (os i) ref kind (pcs ! i) s = (pc, s')" by (cases "reserve_step (os i) ref kind (pcs ! i) s")
  with 2 have "contend os ref kind (pcs, s) (pcs[i := pc], s')" by (intro contend.intros) auto
  with 2 st show ?case by (auto intro: converse_rtranclp_into_rtranclp)
qed simp

section \<open>Properties\<close>


text \<open>C19. While nothing is registered for a reference, reservations of it exclude each other: however the database accesses of any
  number of starting processes interleave, at most one of them succeeds, and once one has succeeded its reservation stands.\<close>

theorem reservation_exclusive:
  assumes "get (ls_runs s) ref = None" "(contend os ref kind)\<^sup>*\<^sup>* (replicate n AskSupervisor, s) (pcs, s')"
  shows "winners pcs \<le> 1 \<and> (winners pcs = 1 \<longrightarrow> (\<exists>run. get (ls_runs s') ref = Some run \<and> run_Status run = ''starting''))"
proof -
  have "exclusive ref (replicate n AskSupervisor, s)" using assms(1) by (simp add: exclusive_def winners_def)
  with assms(2) have "exclusive ref (pcs, s')" by (induction rule: rtranclp_induct) (auto intro: contend_exclusive)
  then show ?thesis by (auto simp: exclusive_def split: option.splits)
qed

text \<open>A process table without processes, and a registry with a run that has stopped.\<close>

definition example_os :: Os where
  "example_os = \<lparr>os_identity = \<lambda>_. Inl (Error ''exit status 1'' []), os_again = \<lambda>_. Inl (Error ''exit status 1'' []),
     os_signal = \<lambda>_. None, os_remove = \<lambda>_. None, os_source = [], os_now = 0, os_polls = [], os_home = ''h'',
     os_Executable = Inr ''tubo'', os_OpenFile = \<lambda>_. None, os_Start = \<lambda>_. Inr 8, os_rounds = []\<rparr>"

definition example_idle :: LocalState where
  "example_idle = \<lparr>ls_db = empty_store, ls_scopes = [], ls_memberships = [], ls_runs = [], ls_supervisors = [], ls_runtime_stats = [],
     ls_runtime_peers = [], ls_config = Inl os_ErrNotExist, ls_config_fault = None\<rparr>"

definition example_stopped :: LocalState where
  "example_stopped = example_idle\<lparr>ls_runs := [(''pipe/db'', (reserved_run ''pipe/db'' ''pipe'' 0)
     \<lparr>run_PID := 7, run_ProcessIdentity := ''7:tubo'', run_Status := ''stopped''\<rparr>)]\<rparr>"

lemma example_contention:
  "fst (play (\<lambda>_. example_os) ''pipe/db'' ''pipe'' [0, 1, 0, 1, 0, 1] ([AskSupervisor, AskSupervisor], example_idle))
   = [Reserved (Inr ()), Reserved (Inl (Wrap ''conflict: run already exists for %s: %w'' [''pipe/db''] (unique_violation ''runs.primary_ref'')))]"
  by code_simp

theorem reservation_exclusive_witness:
  "winners (fst (play (\<lambda>_. example_os) ''pipe/db'' ''pipe'' [0, 1, 0, 1, 0, 1] ([AskSupervisor, AskSupervisor], example_idle))) = 1
   \<and> (\<exists>run. get (ls_runs (snd (play (\<lambda>_. example_os) ''pipe/db'' ''pipe'' [0, 1, 0, 1, 0, 1] ([AskSupervisor, AskSupervisor], example_idle))))
        ''pipe/db'' = Some run \<and> run_Status run = ''starting'')"
proof -
  let ?P = "([AskSupervisor, AskSupervisor], example_idle)" and ?Q = "play (\<lambda>_. example_os) ''pipe/db'' ''pipe'' [0, 1, 0, 1, 0, 1]
    ([AskSupervisor, AskSupervisor], example_idle)"
  have r: "(contend (\<lambda>_. example_os) ''pipe/db'' ''pipe'')\<^sup>*\<^sup>* (replicate 2 AskSupervisor, example_idle) (fst ?Q, snd ?Q)"
    using play_contend [of "[0, 1, 0, 1, 0, 1]" ?P "\<lambda>_. example_os" "''pipe/db''" "''pipe''"] by (simp add: numeral_2_eq_2)
  have "get (ls_runs example_idle) ''pipe/db'' = None" by (simp add: example_idle_def)
  from reservation_exclusive [OF this r] show ?thesis using example_contention by (simp add: winners_def)
qed

text \<open>C39. Over a run that has stopped, reservations do not exclude each other. Two processes can both read the old run, the first then
  deletes it and reserves, and the second deletes the reservation of the first and reserves too: both go on to serve the same reference.\<close>

theorem reservation_race:
  "\<exists>s'. (contend (\<lambda>_. example_os) ''pipe/db'' ''pipe'')\<^sup>*\<^sup>* ([AskSupervisor, AskSupervisor], example_stopped)
          ([Reserved (Inr ()), Reserved (Inr ())], s')"
proof -
  let ?Q = "play (\<lambda>_. example_os) ''pipe/db'' ''pipe'' [0, 1, 0, 1, 0, 0, 1, 1] ([AskSupervisor, AskSupervisor], example_stopped)"
  have "fst ?Q = [Reserved (Inr ()), Reserved (Inr ())]" by code_simp
  moreover have "(contend (\<lambda>_. example_os) ''pipe/db'' ''pipe'')\<^sup>*\<^sup>* ([AskSupervisor, AskSupervisor], example_stopped) (fst ?Q, snd ?Q)"
    using play_contend [of "[0, 1, 0, 1, 0, 0, 1, 1]" "([AskSupervisor, AskSupervisor], example_stopped)"] by simp
  ultimately show ?thesis by metis
qed

text \<open>C40. The documented form \<^verbatim>\<open>tubo rm --stale\<close> never removes anything: it is parsed as the command with its switch set and no argument,
  and the handler refuses the missing argument before it looks at the switch, in every state of the machine.\<close>

theorem rm_stale_refused:
  "\<exists>g f. app_Run commands [''rm'', ''--stale''] = Inr (g, Execute cmd_rm f) \<and> flags_bool f ''stale''
     \<and> (\<forall>os m. remove os f m = (Inl (Error (''invalid_input: rm requires a resource ref or --stale'' @ see_tubo ''rm'') []), m))"
proof -
  have leaf: "leaf_path (cs_path cmd_rm)" by (simp add: leaf_path_def cmd_rm_def command_paths_def)
  have "cmd_rm \<in> set commands" by (rule table_leaf) (simp add: command_table_def, rule leaf)
  from declared.resolve_leaf [OF this, of "[''--stale'']"] have res: "resolveCommand commands [''rm'', ''--stale''] = Inr (cmd_rm, [''--stale''])"
    by (simp add: cmd_rm_def isGroup_def del: resolveCommand.simps)
  let ?f = "no_flags\<lparr>f_bools := [''stale'' \<mapsto> True]\<rparr>"
  have "parseCommand cmd_rm [''--stale''] = Inr ?f"
    by (simp add: parseCommand_def parse_arg_def parse_long_def positional_def HasPrefix_def cmd_rm_def isGroup_def longFlag_def bool_of_def
        set_bool_def enforceRequired_def no_flags_def Let_def)
  then have "app_Run commands [''rm'', ''--stale''] = Inr (\<lparr>gl_quiet = False, gl_verbosity = 0, gl_level = []\<rparr>, Execute cmd_rm ?f)"
    using res by (simp add: app_Run_def extractGlobalFlags_def run_plan_def hasHelpFlag_def is_help_def HasPrefix_def del: resolveCommand.simps)
  moreover have "flags_bool ?f ''stale''" by (simp add: flags_bool_def)
  moreover have "remove os ?f m = (Inl (Error (''invalid_input: rm requires a resource ref or --stale'' @ see_tubo ''rm'') []), m)" for os m
    by (simp add: remove_def no_flags_def)
  ultimately show ?thesis by blast
qed

end
