(* ===== verification/Migration.thy ===== *)
theory Migration
  imports StoreExact
begin

text \<open>
  The life of a database file (\<^verbatim>\<open>migrate\<close> of src/internal/store/store.go): a new file or one of an older schema is brought to the
  current schema when it is opened, and then lives through the operations on the exact tables. Of the schema the model keeps
  the versions and which of the later columns are there; a column that is not there has an arbitrary value in the row. The
  columns of tables outside the model (\<^verbatim>\<open>sessions\<close>, \<^verbatim>\<open>runs\<close>), the index and the dropped table \<^verbatim>\<open>exact_connections\<close> are left out.
\<close>

section \<open>Opening a file\<close>

definition SchemaVersion :: nat where "SchemaVersion = 14"

record Database =
  df_versions :: "nat list"
  df_hasDigest :: bool
  df_hasKind :: bool
  df_db :: Store

definition currentSchema :: "Database \<Rightarrow> nat" where "currentSchema d = fold max (df_versions d) 0"

text \<open>Schema 6: the column, and the reset of what schema 5 had derived locally.\<close>

definition add_digest :: "bool \<Rightarrow> Store \<Rightarrow> Store" where
  "add_digest hasDigest db =
     (if hasDigest then db
      else db\<lparr>scope_freshness := map (\<lambda>(k, row). (k, row\<lparr>fr_snapshot_digest := []\<rparr>)) (scope_freshness db)\<rparr>)"

definition reset_freshness :: "nat \<Rightarrow> Store \<Rightarrow> Store" where
  "reset_freshness schema db =
     (if schema = 5 then
        db\<lparr>scope_freshness := map (\<lambda>(k, row). (k, row\<lparr>fr_source := [], fr_complete := False, fr_snapshot_generation := 0,
          fr_snapshot_high_water := 0, fr_snapshot_digest := []\<rparr>)) (scope_freshness db)\<rparr>
      else db)"

text \<open>Schema 13: one relationship for each Pipe and client that redeemed an invite, from the latest redemption; of those at
  the same instant the one of the largest row number, which is the last in the table.\<close>

fun latest :: "string \<Rightarrow> string \<Rightarrow> (string \<times> string, RedemptionRow) tab \<Rightarrow> (string \<times> RedemptionRow) option" where
  "latest p c [] = None"
| "latest p c (((jti, pipe_id), row) # t) =
     (case latest p c t of
        None \<Rightarrow> if pipe_id = p \<and> rd_client_public row = c then Some (jti, row) else None
      | Some (jti', row') \<Rightarrow>
          if pipe_id = p \<and> rd_client_public row = c \<and> rd_redeemed_at row > rd_redeemed_at row' then Some (jti, row)
          else Some (jti', row'))"

definition legacy_relationship :: "string \<Rightarrow> RedemptionRow \<Rightarrow> RelationshipRow" where
  "legacy_relationship jti row =
     \<lparr>rel_invite_jti = jti, rel_access_epoch = 0, rel_accepted_at = rd_redeemed_at row, rel_updated_at = rd_redeemed_at row\<rparr>"

definition backfill_row ::
  "(string \<times> string, RedemptionRow) tab \<Rightarrow> (string \<times> string) \<times> RedemptionRow
   \<Rightarrow> (string \<times> string, RelationshipRow) tab \<Rightarrow> (string \<times> string, RelationshipRow) tab" where
  "backfill_row t r rels =
     (case r of ((jti, pipe_id), row) \<Rightarrow>
        let key = (pipe_id, rd_client_public row)
        in if map_option fst (latest pipe_id (rd_client_public row) t) = Some jti \<and> get rels key = None
           then rels @ [(key, legacy_relationship jti row)] else rels)"

definition backfill :: "nat \<Rightarrow> Store \<Rightarrow> Store" where
  "backfill schema db =
     (if schema > 0 \<and> schema < 13 then
        db\<lparr>accepted_exact_relationships := fold (backfill_row (invite_redemptions db)) (invite_redemptions db) (accepted_exact_relationships db)\<rparr>
      else db)"

text \<open>Schema 14: the column, whose default is \<^verbatim>\<open>'scoped'\<close>.\<close>

definition add_kind :: "bool \<Rightarrow> Store \<Rightarrow> Store" where
  "add_kind hasKind db =
     (if hasKind then db
      else db\<lparr>invite_redemptions := map (\<lambda>(k, row). (k, row\<lparr>rd_kind := ''scoped''\<rparr>)) (invite_redemptions db)\<rparr>)"

definition migrate :: "Database \<Rightarrow> unit result \<times> Database" where
  "migrate d =
     (case db_fault (df_db d) of
        Some e \<Rightarrow> (Inl e, d)
      | None \<Rightarrow>
          if currentSchema d > SchemaVersion
          then (Inl (Error ''state schema %d is newer than supported schema %d'' [decimal (currentSchema d), decimal SchemaVersion]), d)
          else (Inr (),
            \<lparr>df_versions = (if SchemaVersion \<in> set (df_versions d) then df_versions d else df_versions d @ [SchemaVersion]),
             df_hasDigest = True, df_hasKind = True,
             df_db = add_kind (df_hasKind d) (backfill (currentSchema d) (reset_freshness (currentSchema d)
               (add_digest (df_hasDigest d) (df_db d))))\<rparr>))"

section \<open>The life of a file\<close>

text \<open>It may be opened any number of times, its file system may fail and come back, and once it is at the current schema
  every operation on the exact tables may run on it.\<close>

definition current :: "Database \<Rightarrow> bool" where
  "current d \<longleftrightarrow> currentSchema d = SchemaVersion \<and> SchemaVersion \<in> set (df_versions d) \<and> df_hasKind d \<and> df_hasDigest d"

inductive lives :: "Database \<Rightarrow> Database \<Rightarrow> bool" where
  opened: "migrate d = (r, d') \<Longrightarrow> lives d d'"
| used: "current d \<Longrightarrow> exact_step (df_db d) db' \<Longrightarrow> lives d (d\<lparr>df_db := db'\<rparr>)"
| fault: "lives d (d\<lparr>df_db := (df_db d)\<lparr>db_fault := f\<rparr>\<rparr>)"

text \<open>The files that exist: keys are unique; before schema 13 there are no accepted relationships, from then on each has its
  redemption; the current schema has the column of schema 14.\<close>

definition linked :: "Store \<Rightarrow> bool" where
  "linked db \<longleftrightarrow> (\<forall>p c rel. get (accepted_exact_relationships db) (p, c) = Some rel \<longrightarrow> redeemed_by db (rel_invite_jti rel) p = Some c)"

definition known_file :: "Database \<Rightarrow> bool" where
  "known_file d \<longleftrightarrow> keyed (invite_redemptions (df_db d))
     \<and> (if currentSchema d < 13 then accepted_exact_relationships (df_db d) = [] else linked (df_db d))
     \<and> (SchemaVersion \<le> currentSchema d \<longrightarrow> df_hasKind d \<and> df_hasDigest d)"

text \<open>A relationship is backed by a redemption of its invite, for its Pipe, by its recipient: by one that is marked exact, or
  by one that the file \<open>d\<close> already had; and if that file was of a schema without relationships, it is one of epoch 0.\<close>

definition backed_since :: "Database \<Rightarrow> Store \<Rightarrow> bool" where
  "backed_since d db \<longleftrightarrow>
     (\<forall>p c rel. get (accepted_exact_relationships db) (p, c) = Some rel \<longrightarrow>
        (\<exists>row. get (invite_redemptions db) (rel_invite_jti rel, p) = Some row \<and> rd_client_public row = c
           \<and> (rd_kind row = ''exact''
              \<or> get (invite_redemptions (df_db d)) (rel_invite_jti rel, p) \<noteq> None \<and> (currentSchema d < 13 \<longrightarrow> rel_access_epoch rel = 0))))"

lemma backed_sinceD:
  assumes "backed_since d db" "get (accepted_exact_relationships db) (p, c) = Some rel"
  obtains row where "get (invite_redemptions db) (rel_invite_jti rel, p) = Some row" "rd_client_public row = c"
    "rd_kind row = ''exact'' \<or> get (invite_redemptions (df_db d)) (rel_invite_jti rel, p) \<noteq> None \<and> (currentSchema d < 13 \<longrightarrow> rel_access_epoch rel = 0)"
  using assms(1) [unfolded backed_since_def, rule_format, OF assms(2)] by blast

lemma backed_cong:
  assumes "invite_redemptions db' = invite_redemptions db" "accepted_exact_relationships db' = accepted_exact_relationships db"
  shows "backed_since d db' \<longleftrightarrow> backed_since d db"
  unfolding backed_since_def assms ..

text \<open>Old relationships keep their redemption; only accepting makes new ones, with theirs.\<close>

lemma backed_step:
  assumes "exact_step db db'" "backed_since d db"
  shows "backed_since d db'"
  unfolding backed_since_def
proof (intro allI impI)
  fix p c rel assume rel: "get (accepted_exact_relationships db') (p, c) = Some rel"
  show "\<exists>row. get (invite_redemptions db') (rel_invite_jti rel, p) = Some row \<and> rd_client_public row = c
      \<and> (rd_kind row = ''exact''
         \<or> get (invite_redemptions (df_db d)) (rel_invite_jti rel, p) \<noteq> None \<and> (currentSchema d < 13 \<longrightarrow> rel_access_epoch rel = 0))"
  proof (cases "get (accepted_exact_relationships db) (p, c) = Some rel")
    case True
    from backed_sinceD [OF assms(2) True] step_redemption [OF assms(1)] show ?thesis by metis
  next
    case False
    from assms(1) show ?thesis
    proof (cases rule: exact_step_cases)
      case (accepted jti p' c' row rel')
      with rel False have "p' = p" "c' = c" "rel' = rel" by (auto simp: exact_tables_eq split: if_splits)
      with accepted show ?thesis by (auto simp: exact_tables_eq)
    qed (use rel False in \<open>auto simp: exact_tables_def\<close>)
  qed
qed

section \<open>The migration\<close>

lemma latest_row: "latest p c t = Some (jti, row) \<Longrightarrow> ((jti, p), row) \<in> set t \<and> rd_client_public row = c"
  by (induction p c t arbitrary: jti row rule: latest.induct) (auto split: option.splits if_splits)

lemma backfill_row_get:
  assumes "get (backfill_row t ((jti, q), row) rels) (p, c) = Some rel"
  shows "get rels (p, c) = Some rel \<or> q = p \<and> rd_client_public row = c \<and> rel = legacy_relationship jti row"
  using assms by (auto simp: backfill_row_def Let_def map_add_def split: if_splits option.splits)

lemma backfill_rows:
  assumes "keyed t" "get (fold (backfill_row t) rs rels) (p, c) = Some rel" "set rs \<subseteq> set t"
  shows "get rels (p, c) = Some rel
    \<or> (\<exists>row. get t (rel_invite_jti rel, p) = Some row \<and> rd_client_public row = c \<and> rel_access_epoch rel = 0)"
  using assms(2,3)
proof (induction rs arbitrary: rels)
  case (Cons r rs)
  obtain jti q row where r: "r = ((jti, q), row)" by (metis prod.collapse)
  have "get t (jti, q) = Some row" using Cons.prems(2) assms(1) r by (auto simp: keyed_def)
  moreover have "get (backfill_row t r rels) (p, c) = Some rel
    \<or> (\<exists>row. get t (rel_invite_jti rel, p) = Some row \<and> rd_client_public row = c \<and> rel_access_epoch rel = 0)"
    using Cons.IH [of "backfill_row t r rels"] Cons.prems by simp
  ultimately show ?case using backfill_row_get [of t jti q row rels p c rel] r by (auto simp: legacy_relationship_def)
qed simp

lemma migrate_frame:
  "accepted_exact_relationships (add_kind k db) = accepted_exact_relationships db"
  "accepted_exact_relationships (reset_freshness n db) = accepted_exact_relationships db"
  "accepted_exact_relationships (add_digest b db) = accepted_exact_relationships db"
  "invite_redemptions (backfill n db) = invite_redemptions db"
  "invite_redemptions (reset_freshness n db) = invite_redemptions db" "invite_redemptions (add_digest b db) = invite_redemptions db"
  by (simp_all add: add_kind_def reset_freshness_def add_digest_def backfill_def)

lemma add_kind_get:
  "get (invite_redemptions db) k = Some row \<Longrightarrow>
     \<exists>row'. get (invite_redemptions (add_kind h db)) k = Some row' \<and> rd_client_public row' = rd_client_public row"
proof -
  have "map_of (map (\<lambda>(k, row). (k, row\<lparr>rd_kind := x\<rparr>)) t) k = map_option (\<lambda>row. row\<lparr>rd_kind := x\<rparr>) (map_of t k)"
    for t :: "(string \<times> string, RedemptionRow) tab" and x by (induction t) auto
  then show "get (invite_redemptions db) k = Some row \<Longrightarrow>
     \<exists>row'. get (invite_redemptions (add_kind h db)) k = Some row' \<and> rd_client_public row' = rd_client_public row"
    by (auto simp: add_kind_def)
qed

lemma migrate_backed:
  assumes "migrate d = (Inr u, d')" "known_file d"
  shows "backed_since d (df_db d')"
  unfolding backed_since_def
proof (intro allI impI)
  let ?t = "invite_redemptions (df_db d)"
  fix p c rel assume rel: "get (accepted_exact_relationships (df_db d')) (p, c) = Some rel"
  have d': "df_db d' = add_kind (df_hasKind d) (backfill (currentSchema d) (reset_freshness (currentSchema d) (add_digest (df_hasDigest d) (df_db d))))"
    using assms(1) by (auto simp: migrate_def split: option.splits if_splits)
  have "(\<exists>row. get ?t (rel_invite_jti rel, p) = Some row \<and> rd_client_public row = c) \<and> (currentSchema d < 13 \<longrightarrow> rel_access_epoch rel = 0)"
  proof (cases "currentSchema d < 13")
    case True
    with assms(2) have k: "keyed ?t" "accepted_exact_relationships (df_db d) = []" by (simp_all add: known_file_def)
    with rel d' True have "get (fold (backfill_row ?t) ?t []) (p, c) = Some rel"
      by (simp add: migrate_frame backfill_def split: if_splits)
    from backfill_rows [OF k(1) this] show ?thesis by auto
  next
    case False
    with assms(2) have "linked (df_db d)" by (simp add: known_file_def)
    with rel d' False show ?thesis by (auto simp: migrate_frame backfill_def linked_def redeemed_by_def)
  qed
  then obtain row where row: "get ?t (rel_invite_jti rel, p) = Some row" "rd_client_public row = c" "currentSchema d < 13 \<longrightarrow> rel_access_epoch rel = 0" by blast
  from add_kind_get [of "backfill (currentSchema d) (reset_freshness (currentSchema d) (add_digest (df_hasDigest d) (df_db d)))" _ row] row
  show "\<exists>row. get (invite_redemptions (df_db d')) (rel_invite_jti rel, p) = Some row \<and> rd_client_public row = c
      \<and> (rd_kind row = ''exact'' \<or> get ?t (rel_invite_jti rel, p) \<noteq> None \<and> (currentSchema d < 13 \<longrightarrow> rel_access_epoch rel = 0))"
    by (force simp: d' migrate_frame)
qed

text \<open>Opening a file of the current schema changes nothing: the upgrade happens once.\<close>

lemma fold_max_ge: "(m :: nat) \<le> fold max xs m \<and> (x \<in> set xs \<longrightarrow> x \<le> fold max xs m)"
proof (induction xs arbitrary: m)
  case (Cons y xs)
  from Cons.IH [of "max y m"] show ?case by auto
qed simp

lemma migrate_again: "current d \<Longrightarrow> snd (migrate d) = d"
  by (simp add: migrate_def current_def add_kind_def add_digest_def reset_freshness_def backfill_def SchemaVersion_def split: option.splits)

lemma migrate_current: "migrate d = (Inr u, d') \<Longrightarrow> current d'"
  using fold_max_ge [of 0 "df_versions d" SchemaVersion]
  by (auto simp: migrate_def current_def currentSchema_def split: option.splits if_splits)

lemma migrate_Inl: "migrate d = (Inl e, d') \<Longrightarrow> d' = d"
  by (auto simp: migrate_def split: option.splits if_splits)

lemma known_backed: "known_file d \<Longrightarrow> backed_since d (df_db d)"
proof (cases "currentSchema d < 13")
  case False
  assume "known_file d"
  with False have "linked (df_db d)" by (simp add: known_file_def)
  with False show ?thesis by (fastforce simp: backed_since_def linked_def redeemed_by_def)
qed (simp add: known_file_def backed_since_def)

lemma known_fault: "known_file (d\<lparr>df_db := (df_db d)\<lparr>db_fault := f\<rparr>\<rparr>) \<longleftrightarrow> known_file d"
  by (simp add: known_file_def currentSchema_def linked_def redeemed_by_def)

lemma life_backed:
  assumes "lives\<^sup>*\<^sup>* d d'" "known_file d"
  shows "(\<exists>f. d' = d\<lparr>df_db := (df_db d)\<lparr>db_fault := f\<rparr>\<rparr>) \<or> current d' \<and> backed_since d (df_db d')"
  using assms(1)
proof (induction rule: rtranclp_induct)
  case base
  have "d = d\<lparr>df_db := (df_db d)\<lparr>db_fault := db_fault (df_db d)\<rparr>\<rparr>" by simp
  then show ?case by blast
next
  case (step d1 d2)
  have b: "backed_since d (df_db d1)"
    using step.IH known_backed [OF assms(2)] backed_cong [of "df_db d1" "df_db d" d] by auto
  from step.hyps(2) show ?case
  proof cases
    case (opened r)
    show ?thesis
    proof (cases r)
      case (Inl e) then show ?thesis using opened migrate_Inl step.IH by blast
    next
      case (Inr u)
      note m = opened [unfolded Inr]
      from step.IH show ?thesis
      proof (elim disjE exE conjE)
        fix f assume d1: "d1 = d\<lparr>df_db := (df_db d)\<lparr>db_fault := f\<rparr>\<rparr>"
        then have "known_file d1" using assms(2) by (simp only: known_fault)
        from migrate_backed [OF m this] have "backed_since d (df_db d2)" by (simp add: d1 backed_since_def currentSchema_def)
        then show ?thesis using migrate_current [OF m] by blast
      next
        assume "current d1"
        with migrate_again [of d1] m have "d2 = d1" by simp
        then show ?thesis using step.IH by blast
      qed
    qed
  next
    case (used db')
    then show ?thesis using backed_step [OF _ b] by (simp add: current_def currentSchema_def)
  next
    case (fault f)
    with step.IH backed_cong [of "(df_db d1)\<lparr>db_fault := f\<rparr>" "df_db d1" d] show ?thesis by (auto simp: current_def currentSchema_def)
  qed
qed

section \<open>Properties\<close>

text \<open>C30. The authority tables are consistent in every state of every database file, new or upgraded. Each accepted
  relationship is backed by a redemption of its invite, for its Pipe, by its recipient. That redemption is marked exact unless
  the file had it before it was opened here; and in a file from before schema 13 such an inherited relationship, which the
  upgrade makes from a redemption whose family is unknown, is one of epoch 0, so that any revocation of the Pipe ends it.
  In particular in a new file every relationship rests on an exact redemption.\<close>

theorem relationships_always_backed:
  assumes "known_file d" "lives\<^sup>*\<^sup>* d d'"
  shows "backed_since d (df_db d')"
  using life_backed [OF assms(2,1)] known_backed [OF assms(1)] backed_cong [of "df_db d'" "df_db d" d] by auto

text \<open>A file of schema 12 with two redemptions of one client, and a new file in which an invite is accepted.\<close>

definition example_legacy :: Database where
  "example_legacy = \<lparr>df_versions = [8, 12], df_hasDigest = True, df_hasKind = False,
     df_db = empty_store\<lparr>invite_redemptions :=
       [((''jti_1'', ''pip_x''), \<lparr>rd_redeemed_at = ''2026-01-02'', rd_session_id = ''s'', rd_client_public = ''alice'', rd_kind = []\<rparr>),
        ((''jti_2'', ''pip_x''), \<lparr>rd_redeemed_at = ''2026-01-01'', rd_session_id = ''s'', rd_client_public = ''alice'', rd_kind = []\<rparr>)]\<rparr>\<rparr>"

definition example_new :: Database where
  "example_new = \<lparr>df_versions = [], df_hasDigest = True, df_hasKind = True, df_db = empty_store\<rparr>"

lemma example_upgraded:
  "relationship (df_db (snd (migrate example_legacy))) ''pip_x'' ''alice'' = Some (''jti_1'', 0)"
  by code_simp

theorem relationships_always_backed_witness:
  "backed_since example_legacy (df_db (snd (migrate example_legacy)))
   \<and> relationship (df_db (snd (migrate example_legacy))) ''pip_x'' ''alice'' = Some (''jti_1'', 0)
   \<and> backed_since example_new example_accepted \<and> redeemed_by example_accepted ''jti_1'' ''pip_x'' = Some ''alice''"
proof -
  have "known_file example_legacy" "known_file example_new"
    by (simp_all add: known_file_def example_legacy_def example_new_def currentSchema_def keyed_def SchemaVersion_def empty_store_def)
  note k = this
  have "lives example_legacy (snd (migrate example_legacy))" by (rule opened [OF prod.collapse [symmetric]])
  then have l: "backed_since example_legacy (df_db (snd (migrate example_legacy)))" using relationships_always_backed [OF k(1)] by blast
  let ?d = "snd (migrate example_new)"
  have o: "lives example_new ?d" by (rule opened [OF prod.collapse [symmetric]])
  have d: "df_db ?d = empty_store" "current ?d"
    by (simp_all add: migrate_def example_new_def currentSchema_def current_def SchemaVersion_def empty_store_def
        add_kind_def backfill_def reset_freshness_def add_digest_def)
  have "exact_step (df_db ?d) example_accepted"
    unfolding example_accepted_def d(1) by (rule step_accept) (rule prod.collapse [symmetric])
  with d(2) have "lives ?d (?d\<lparr>df_db := example_accepted\<rparr>)" by (rule used)
  with o have "lives\<^sup>*\<^sup>* example_new (?d\<lparr>df_db := example_accepted\<rparr>)" by (meson converse_rtranclp_into_rtranclp r_into_rtranclp)
  from relationships_always_backed [OF k(2) this] have "backed_since example_new example_accepted" by simp
  with l example_upgraded example_accepted_by show ?thesis by blast
qed

end
