(* ===== verification/Spec2Isabelle.thy ===== *)
theory Spec2Isabelle
  imports Engine Fencing Journey StoreRecords Settling Copying RunSafety Migration
begin

text \<open>
  A verification development for tubo, a peer-to-peer connectivity tool written in Go (src/internal). A
  \<^emph>\<open>Service\<close> is a local endpoint, a \<^emph>\<open>Pipe\<close> exposes a Service or another Pipe, and a process
  that serves a Pipe lets a client in only with a credential the owner of the Pipe issued.

  \<^bold>\<open>Parts and how they interact.\<close> The owner attaches a Service as a Pipe (package usecase), which stores
  the definitions (package store), provisions the Pipe's key (package localkey) and derives the Pipe's identity from it.
  To share the Pipe it provisions an authority key (package exactauthority) and prints an \<^emph>\<open>exact invite\<close>: the
  authority's signature over the invite, with the owner's signature over the binding of the authority key to the Pipe
  (package accesslease). A recipient accepts the invite: it proves possession of its own key to the owner's handler
  (package runtime), the owner consumes the invite and mints an \<^emph>\<open>access lease\<close>, the recipient verifies the
  lease and stores binding and lease. To open the Pipe it presents the lease with another proof, and the owner's
  authorizer (package openauth, runtime/exact_authorizer.go) decides. Leases are renewed over a second handler. The
  owner revokes by single credential or by raising the Pipe's access epoch. Within a scope, processes learn records of
  Pipes from the authority's snapshots, which the store reconciles under a lease among processes.

  \<^bold>\<open>Theories\<close>, in the order of their imports:
  \<^item> \<open>Prelude\<close> (Go errors and results, tables, text functions), \<open>GoNet\<close> (package net and url),
    \<open>Base64\<close>, \<open>GoTime\<close> (instants, calendar, RFC 3339 texts), \<open>Json\<close> (the writer and reader
    of encoding/json), \<open>GoPath\<close>: the part of the language's library the sources use.
  \<^item> \<open>Strict\<close>, \<open>Keys\<close>, \<open>AccessLease\<close>, \<open>Owner\<close>, \<open>Invite\<close>,
    \<open>Credentials\<close>: accesslease/{strict,sign,accesslease,owner,invite}.go. Every credential is a record with its
    canonical bytes, its signing, its strict decoding and its verification. The properties are in \<open>Credentials\<close>:
    a verified invite carries the whole chain of trust, the signing domains of leases, bindings, invites and proofs are
    separate, a signature covers every field, minted credentials are accepted, the wire forms round trip.
  \<^item> \<open>Domain\<close>, \<open>Engine\<close>: domain/{ref,model,graph}.go and engine/engine.go. References,
    specifications, path resolution and traversals; resolution succeeds exactly on the chains that end in a Service, and
    a traversal makes a bounded number of hops.
  \<^item> \<open>LocalKey\<close>: localkey/key.go over a file system whose every operation can fail. A returned key is on
    disk for good, nothing is ever overwritten.
  \<^item> \<open>Store\<close>, \<open>StoreExact\<close>, \<open>StorePipes\<close>, \<open>StoreSync\<close>,
    \<open>StoreRecords\<close>, \<open>Migration\<close>: store/store.go and store/exact_connection.go, a record of association lists
    per SQL table, and what opening a file of an older schema does to the modelled tables.
    Each group of operations has a step relation (any sequence of calls, with faults) and its invariants: one-time
    redemption, monotone revocation, relationships that rest on redemptions also after an upgrade, well-formed definitions, the fencing of sync leases, records and generations that
    never roll back, and the refinement of the reconciliation by a function on the view of the cache.
  \<^item> \<open>ExactAuthority\<close>, \<open>Adapter\<close>, \<open>OpenAuth\<close>, \<open>ExactHandlers\<close>,
    \<open>Minting\<close>, \<open>ExactFlow\<close>, \<open>Fencing\<close>: exactauthority/*.go, store/exactauthority_adapter.go,
    openauth/openauth.go, runtime/{exact_authorizer,redemption_handler,renewal_handler,exact_renewal,
    exact_redemption_client}.go. The ports of the authority are records of functions, their contracts locales that
    \<open>Adapter\<close> interprets on the store. \<open>ExactFlow\<close> shows what a granted redemption, renewal and open
    imply and that an honest exchange succeeds, \<open>Fencing\<close> that revocation closes every way in.
  \<^item> \<open>UseCases\<close>, \<open>Accepting\<close>, \<open>ShareAccept\<close>, \<open>Journey\<close>: usecase/*.go and
    store/usecaseports.go. Capabilities are records of functions over a world (store, file system, network); the remote
    side of an exchange is a parameter which \<open>ShareAccept\<close> wires to the owner's handlers. \<open>Journey\<close>
    proves that a shared Pipe is accepted and opened end to end, that an accept is all or nothing whatever its lease cache
    does, and that a connect passes its local checks before it spends an invite.
  \<^item> \<open>Session\<close>, \<open>Lifecycle\<close>, \<open>LifecycleInv\<close>, \<open>Closing\<close>, \<open>Quiesce\<close>,
    \<open>Settling\<close>, \<open>Copying\<close>: runtime/{session,ownership}.go and the ends of runtime/{serve,pipe}.go.
    \<open>Session\<close> has the methods that run under a mutex as functions on the state, with list positions for
    pointers and flags for contexts and closed channels. In \<open>Lifecycle\<close> a goroutine is a stack of what it
    still has to do, and a process steps one of its goroutines at a time. The next theories hold the invariants of
    reachable processes, and \<open>Settling\<close> the properties: closing terminates in every interleaving, and a stream
    is ended once by its session; one handler ends it a second time, and a tunnel stream that is refused is never ended. \<open>Copying\<close> has the copy loops on bytes: what arrives is what was read.
  \<^item> \<open>CommandTree\<close>, \<open>Commands\<close>, \<open>Parsing\<close>, \<open>CommandLine\<close>: cli/{spec,parse}.go
    and the beginning of \<^verbatim>\<open>App.Run\<close>. The declared commands are constants of \<open>Commands\<close>; resolution is
    proved once for every tree of the shape stated in a locale, which the declared tree interprets. \<open>CommandLine\<close>
    proves that nothing ill-typed reaches a handler and that every well-typed call is understood.
  \<^item> \<open>LocalState\<close>, \<open>Runs\<close>, \<open>RunSafety\<close>: the tables of Scopes, memberships, runs, supervisors and
    telemetry and the configuration file of store/store.go, and the commands on running processes of
    cli/{app,operations,supervisor}.go over a machine whose process table is a parameter. \<open>RunSafety\<close> shows whom the
    commands signal, start and kill, when reservations of a reference exclude each other under interleaving and when they do not,
    and that one documented form of \<^verbatim>\<open>rm\<close> is always refused.

  \<^bold>\<open>Parameters and hypotheses.\<close> Ed25519 and SHA-256 (the record \<open>crypto\<close>), random bytes, clocks,
    the network between two processes and the faults of disk and database are arguments. Hypotheses on cryptography are
    the correctness of signing (\<open>ed_verify\<close> accepts what \<open>ed_sign\<close> produced) and, where stated, the lengths
    of keys and signatures; unforgeability is never assumed, so conclusions speak of what a signature verified over.
    Witnesses run the theorems at concrete keys, stores and times.

  \<^bold>\<open>Bounds and recursion.\<close> All definitions are total functions, except the write loop of
    \<open>Copying\<close>, which a writer that takes nothing can keep forever and which is proved to return over every writer that
    keeps its contract. Path resolution recurses over the
    remaining hops of the code's own bound (eight), parsers over their input, traversals over the code's own counter: no
    fuel was added to the source. Epochs and generations are natural numbers, with the driver's refusal of values of
    \<open>2 ^ 63\<close> and more written out (\<open>uint64_arg\<close>); times are integers of nanoseconds and the texts
    of times are modelled for the years the format can write.

  \<^bold>\<open>Not modelled.\<close> Hosts, relays and reservations (packages node and reachability, most of
    runtime/pipe.go) are calls into libp2p, timers and listeners around the modelled decisions. The prototype Scope authority
    (authority/token.go, discovery/record.go, runtime/{authority,client,sync}.go) is modelled only where the store
    reconciles its snapshots. The framing of messages on a stream, the columns that migrations add to tables outside the model, what a
    launched process does, that a process can end between the look at its identity and the signal, and
    what the command line prints are left out, as is the tool that checks the import graph of the sources.
\<close>

end
